(* ===== verification/Prelude.thy ===== *)
theory Prelude
  imports Main "HOL-Library.Char_ord" "HOL-Library.List_Lexorder" "HOL-Library.Multiset"
    "HOL-Library.AList"
begin

text \<open>
  Shared material of the development: the functions of Go's standard library that the
  program calls on strings, slices and paths (packages \<open>strings\<close>, \<open>strconv\<close>, \<open>path\<close>,
  \<open>sort\<close>), the generic lemmas about them, and the collections the component theories add
  their facts to.

  A Go string is a sequence of bytes: it is modelled as \<^typ>\<open>string\<close>, whose characters are
  bytes. \<open>len\<close> is \<^const>\<open>length\<close>, comparison with \<open><\<close> is the lexicographic order of the
  library on lists, and a slice expression \<open>s[a:b]\<close> is \<open>slice a b s\<close>. The functions that
  fold letter case (\<open>strings.ToUpper\<close>, \<open>strings.ToLower\<close>) are modelled on ASCII letters, and
  \<open>strings.TrimSpace\<close> on the six ASCII white-space bytes: bytes above 127 are left alone.
  Natural names are ASCII.
\<close>

named_theorems go_simps \<open>defining equations of the Go library functions\<close>

section \<open>Bytes\<close>

abbreviation LF :: char where "LF \<equiv> CHR 0x0A"
abbreviation CR :: char where "CR \<equiv> CHR 0x0D"
abbreviation TAB :: char where "TAB \<equiv> CHR 0x09"
abbreviation SPACE :: char where "SPACE \<equiv> CHR 0x20"
abbreviation QUOTE :: char where "QUOTE \<equiv> CHR 0x27"
abbreviation BACKSLASH :: char where "BACKSLASH \<equiv> CHR 0x5C"

definition isUpperByte :: "char \<Rightarrow> bool" where
  "isUpperByte c \<longleftrightarrow> CHR ''A'' \<le> c \<and> c \<le> CHR ''Z''"

definition isLowerByte :: "char \<Rightarrow> bool" where
  "isLowerByte c \<longleftrightarrow> CHR ''a'' \<le> c \<and> c \<le> CHR ''z''"

definition isDigitByte :: "char \<Rightarrow> bool" where
  "isDigitByte c \<longleftrightarrow> CHR ''0'' \<le> c \<and> c \<le> CHR ''9''"

definition byteToUpper :: "char \<Rightarrow> char" where
  "byteToUpper c = (if isLowerByte c then char_of ((of_char c :: nat) - 32) else c)"

definition byteToLower :: "char \<Rightarrow> char" where
  "byteToLower c = (if isUpperByte c then char_of ((of_char c :: nat) + 32) else c)"

lemmas byte_defs = isUpperByte_def isLowerByte_def isDigitByte_def byteToUpper_def byteToLower_def

lemma byteToUpper_idem [simp]: "byteToUpper (byteToUpper c) = byteToUpper c"
proof -
  have "\<not> isLowerByte (byteToUpper c)"
    by (auto simp: byte_defs less_eq_char_def)
  then show ?thesis by (simp add: byteToUpper_def)
qed

lemma byteToLower_idem [simp]: "byteToLower (byteToLower c) = byteToLower c"
proof -
  have "\<not> isUpperByte (byteToLower c)"
    by (auto simp: byte_defs less_eq_char_def)
  then show ?thesis by (simp add: byteToLower_def)
qed

section \<open>Package strings\<close>

definition toUpper :: "string \<Rightarrow> string" where
  "toUpper s = map byteToUpper s"

definition toLower :: "string \<Rightarrow> string" where
  "toLower s = map byteToLower s"

lemma toUpper_idem [simp]: "toUpper (toUpper s) = toUpper s"
  by (simp add: toUpper_def)

lemma toLower_idem [simp]: "toLower (toLower s) = toLower s"
  by (simp add: toLower_def)

lemma length_toUpper [simp]: "length (toUpper s) = length s"
  by (simp add: toUpper_def)

lemma toUpper_Nil_iff [simp]: "toUpper s = [] \<longleftrightarrow> s = []"
  by (simp add: toUpper_def)

lemma toUpper_append [simp]: "toUpper (s @ t) = toUpper s @ toUpper t"
  by (simp add: toUpper_def)

definition slice :: "nat \<Rightarrow> nat \<Rightarrow> 'a list \<Rightarrow> 'a list" where
  "slice a b s = take (b - a) (drop a s)"

lemma length_slice [simp]: "b \<le> length s \<Longrightarrow> length (slice a b s) = b - a"
  by (simp add: slice_def)

lemma slice_self [simp]: "slice a a s = []"
  by (simp add: slice_def)

lemma take_slice: "a \<le> b \<Longrightarrow> take a s @ slice a b s = take b s"
  by (metis slice_def le_add_diff_inverse take_add)

definition hasPrefix :: "'a list \<Rightarrow> 'a list \<Rightarrow> bool" where
  "hasPrefix s p \<longleftrightarrow> take (length p) s = p"

definition hasSuffix :: "'a list \<Rightarrow> 'a list \<Rightarrow> bool" where
  "hasSuffix s p \<longleftrightarrow> length p \<le> length s \<and> drop (length s - length p) s = p"

definition trimSuffix :: "'a list \<Rightarrow> 'a list \<Rightarrow> 'a list" where
  "trimSuffix s p = (if hasSuffix s p then take (length s - length p) s else s)"

lemma hasPrefix_append [simp]: "hasPrefix (p @ s) p"
  by (simp add: hasPrefix_def)

lemma hasPrefix_Nil [simp]: "hasPrefix s []"
  by (simp add: hasPrefix_def)

lemma hasPrefix_iff: "hasPrefix s p \<longleftrightarrow> (\<exists>r. s = p @ r)"
  by (metis append_eq_conv_conj append_take_drop_id hasPrefix_def)

lemma hasPrefix_length: "hasPrefix s p \<Longrightarrow> length p \<le> length s"
  by (auto simp: hasPrefix_iff)

lemma hasPrefix_same_length:
  "hasPrefix s p \<Longrightarrow> hasPrefix s q \<Longrightarrow> length p = length q \<Longrightarrow> p = q"
  by (simp add: hasPrefix_def)

fun contains :: "'a list \<Rightarrow> 'a list \<Rightarrow> bool" where
  "contains [] p \<longleftrightarrow> p = []"
| "contains (c # s) p \<longleftrightarrow> hasPrefix (c # s) p \<or> contains s p"

lemma contains_singleton [simp]: "contains s [c] \<longleftrightarrow> c \<in> set s"
  by (induction s) (auto simp: hasPrefix_def)

text \<open>\<open>strings.Index\<close> and \<open>strings.LastIndex\<close> of a single byte.\<close>

fun indexByte :: "'a list \<Rightarrow> 'a \<Rightarrow> nat option" where
  "indexByte [] c = None"
| "indexByte (x # xs) c = (if x = c then Some 0 else map_option Suc (indexByte xs c))"

definition lastIndexByte :: "'a list \<Rightarrow> 'a \<Rightarrow> nat option" where
  "lastIndexByte s c = map_option (\<lambda>i. length s - 1 - i) (indexByte (rev s) c)"

lemma indexByte_None_iff: "indexByte s c = None \<longleftrightarrow> c \<notin> set s"
  by (induction s) auto

lemma indexByte_SomeD:
  "indexByte s c = Some i \<Longrightarrow> i < length s \<and> s ! i = c \<and> c \<notin> set (take i s)"
  by (induction s arbitrary: i) (auto split: if_splits)

lemma lastIndexByte_less: "lastIndexByte s c = Some i \<Longrightarrow> i < length s"
  by (auto simp: lastIndexByte_def dest!: indexByte_SomeD)

definition isSpaceByte :: "char \<Rightarrow> bool" where
  "isSpaceByte c \<longleftrightarrow> c = SPACE \<or> c = TAB \<or> c = LF \<or> c = CR \<or> c = CHR 0x0B \<or> c = CHR 0x0C"

definition trimSpace :: "string \<Rightarrow> string" where
  "trimSpace s = rev (dropWhile isSpaceByte (rev (dropWhile isSpaceByte s)))"

text \<open>\<open>strings.Split\<close> on a one-byte separator, \<open>strings.Join\<close>, and \<open>strings.FieldsFunc\<close>.\<close>

fun splitByte :: "char \<Rightarrow> string \<Rightarrow> string list" where
  "splitByte c [] = [[]]"
| "splitByte c (x # xs) =
     (if x = c then [] # splitByte c xs
      else case splitByte c xs of [] \<Rightarrow> [[x]] | f # fs \<Rightarrow> (x # f) # fs)"

fun joinStrings :: "string list \<Rightarrow> string \<Rightarrow> string" where
  "joinStrings [] sep = []"
| "joinStrings [s] sep = s"
| "joinStrings (s # t # ss) sep = s @ sep @ joinStrings (t # ss) sep"

function fieldsFunc :: "(char \<Rightarrow> bool) \<Rightarrow> string \<Rightarrow> string list" where
  "fieldsFunc P s =
     (let t = dropWhile P s
      in if t = [] then []
         else takeWhile (\<lambda>c. \<not> P c) t # fieldsFunc P (dropWhile (\<lambda>c. \<not> P c) t))"
  by pat_completeness auto
termination
proof (relation "measure (\<lambda>(P, s). length s)", goal_cases)
  case (2 P s t)
  then have "t = dropWhile P s" and "t \<noteq> []" by simp_all
  then have "\<not> P (hd t)" using hd_dropWhile[of P s] by simp
  then have "length (dropWhile (\<lambda>c. \<not> P c) t) \<le> length (tl t)"
    using \<open>t \<noteq> []\<close> by (cases t) (simp_all add: length_dropWhile_le)
  also have "\<dots> < length t" using \<open>t \<noteq> []\<close> by simp
  also have "length t \<le> length s" using \<open>t = dropWhile P s\<close> by (simp add: length_dropWhile_le)
  finally show ?case by simp
qed simp

declare fieldsFunc.simps [simp del]

section \<open>Package strconv\<close>

definition digitValue :: "char \<Rightarrow> int" where
  "digitValue c = int ((of_char c :: nat) - 48)"

definition digitsValue :: "string \<Rightarrow> int" where
  "digitsValue s = foldl (\<lambda>n c. 10 * n + digitValue c) 0 s"

definition maxInt :: int where "maxInt = 9223372036854775807"
definition minInt :: int where "minInt = - 9223372036854775808"

text \<open>
  \<open>strconv.Atoi\<close>: an optional sign and at least one decimal digit. The result is the value and
  whether the error is nil; a syntax error gives 0, a value out of the range of a 64-bit
  \<open>int\<close> gives the nearest bound.
\<close>

definition atoi :: "string \<Rightarrow> int \<times> bool" where
  "atoi s =
     (let neg = (s \<noteq> [] \<and> hd s = CHR ''-'');
          ds = (if s \<noteq> [] \<and> (hd s = CHR ''-'' \<or> hd s = CHR ''+'') then tl s else s)
      in if ds = [] \<or> \<not> list_all isDigitByte ds then (0, False)
         else let n = (if neg then - digitsValue ds else digitsValue ds)
              in if n < minInt then (minInt, False)
                 else if n > maxInt then (maxInt, False)
                 else (n, True))"

lemma atoi_bounds: "minInt \<le> fst (atoi s) \<and> fst (atoi s) \<le> maxInt"
  by (auto simp: atoi_def Let_def minInt_def maxInt_def)

section \<open>Package path\<close>

definition pathBase :: "string \<Rightarrow> string" where
  "pathBase p =
     (if p = [] then ''.''
      else let q = rev (dropWhile (\<lambda>c. c = CHR ''/'') (rev p));
               b = rev (takeWhile (\<lambda>c. c \<noteq> CHR ''/'') (rev q))
           in if b = [] then ''/'' else b)"

text \<open>The suffix that starts at the last dot of the last slash-separated element.\<close>

definition pathExt :: "string \<Rightarrow> string" where
  "pathExt p =
     (let b = rev (takeWhile (\<lambda>c. c \<noteq> CHR ''/'') (rev p))
      in case lastIndexByte b (CHR ''.'') of None \<Rightarrow> [] | Some i \<Rightarrow> drop i b)"

section \<open>Package sort\<close>

text \<open>
  \<open>sort.SliceStable\<close> and \<open>sort.Strings\<close> are \<^const>\<open>sort_key\<close> and \<^const>\<open>sort\<close>. \<open>sort.Slice\<close>
  promises no order among equal keys: where the program uses it the keys are distinct, and
  \<open>sort_key_unique\<close> says the result is then the same for every order of the input and every
  sorting algorithm.
\<close>

lemma sort_key_unique:
  assumes "mset xs = mset ys" and "inj_on f (set xs)"
  shows "sort_key f xs = sort_key f ys"
proof (rule properties_for_sort_key)
  show "mset (sort_key f ys) = mset xs" using assms(1) by simp
next
  fix k assume k: "k \<in> set (sort_key f ys)"
  have *: "filter (\<lambda>x. f k = f x) zs = replicate (count (mset zs) k) k"
    if "set zs = set xs" for zs
  proof -
    have "k \<in> set xs" using k assms(1) mset_eq_setD by fastforce
    with assms(2) that have "\<forall>x\<in>set zs. f k = f x \<longleftrightarrow> x = k"
      by (metis inj_onD)
    then have "filter (\<lambda>x. f k = f x) zs = filter (\<lambda>x. k = x) zs"
      by (intro filter_cong) auto
    then show ?thesis by (simp add: filter_eq_replicate_mset count_mset replicate_length_filter
        flip: replicate_count_mset_eq_filter_eq)
  qed
  show "filter (\<lambda>x. f k = f x) (sort_key f ys) = filter (\<lambda>x. f k = f x) xs"
    using * [of "sort_key f ys"] * [of xs] assms(1) by (metis mset_eq_setD mset_sort set_sort)
next
  show "sorted (map f (sort_key f ys))" by simp
qed

section \<open>First occurrences\<close>

text \<open>The first occurrence of each element: what a loop with a set of the elements seen keeps.\<close>

definition firsts :: "'a list \<Rightarrow> 'a list" where
  "firsts xs = rev (remdups (rev xs))"

lemma firsts_Nil [simp]: "firsts [] = []"
  by (simp add: firsts_def)

lemma firsts_snoc: "firsts (xs @ [x]) = (if x \<in> set xs then firsts xs else firsts xs @ [x])"
  by (simp add: firsts_def)

lemma set_firsts [simp]: "set (firsts xs) = set xs"
  by (simp add: firsts_def)

lemma distinct_firsts [simp]: "distinct (firsts xs)"
  by (simp add: firsts_def)

lemma firsts_Nil_iff [simp]: "firsts xs = [] \<longleftrightarrow> xs = []"
  by (simp add: firsts_def)

lemma firsts_filter: "filter P (firsts xs) = firsts (filter P xs)"
  by (induction xs rule: rev_induct) (auto simp: firsts_snoc)

lemma sorted_firsts: "sorted (map f xs) \<Longrightarrow> sorted (map f (firsts xs))"
  by (induction xs rule: rev_induct) (auto simp: firsts_snoc sorted_append)

lemma firsts_sorted:
  fixes xs :: "'a :: linorder list"
  assumes "sorted xs"
  shows "firsts xs = sorted_list_of_set (set xs)"
proof -
  have "sorted (firsts xs)" using sorted_firsts [of "\<lambda>x. x" xs] assms by simp
  then show ?thesis by (metis distinct_firsts set_firsts sorted_list_of_set.idem_if_sorted_distinct)
qed

end
