(* ===== verification/Model.thy ===== *)
theory Model
  imports Prelude
begin

text \<open>
  The analyzer's output types, \<open>internal/model/model.go\<close>. String-valued enumerations are
  datatypes; the zero value of \<open>ObjectType\<close>, the empty string, is the constructor
  \<open>ObjectNone\<close>. Positions and ranges are datatypes with selectors, because positions are
  ordered (source order, an instance of \<open>linorder\<close>) and ranges are map keys; the other
  structs are records, but for the two recursive ones, \<open>Symbol\<close> and \<open>DataDefinition\<close>. Line and
  column numbers are Go \<open>int\<close>s bounded by the length of the file, modelled as \<^typ>\<open>int\<close>.
\<close>

section \<open>Positions and ranges\<close>

datatype Position = Position (Line: int) (Column: int)

datatype Range = Range (Start: Position) (End: Position)

abbreviation zeroPosition :: Position where "zeroPosition \<equiv> Position 0 0"
abbreviation zeroRange :: Range where "zeroRange \<equiv> Range zeroPosition zeroPosition"

text \<open>Source order: line first, then column (\<open>sourceStartLess\<close> in \<open>calls.go\<close>).\<close>

definition sourceStartLess :: "int \<Rightarrow> int \<Rightarrow> int \<Rightarrow> int \<Rightarrow> bool" where
  "sourceStartLess iLine iCol jLine jCol =
     (if iLine \<noteq> jLine then iLine < jLine else iCol < jCol)"

instantiation Position :: linorder
begin

definition less_Position :: "Position \<Rightarrow> Position \<Rightarrow> bool" where
  "less_Position p q = sourceStartLess (Line p) (Column p) (Line q) (Column q)"

definition less_eq_Position :: "Position \<Rightarrow> Position \<Rightarrow> bool" where
  "less_eq_Position p q = (\<not> sourceStartLess (Line q) (Column q) (Line p) (Column p))"

instance
proof
  fix x y z :: Position
  show "(x < y) = (x \<le> y \<and> \<not> y \<le> x)"
    by (auto simp: less_Position_def less_eq_Position_def sourceStartLess_def split: if_splits)
  show "x \<le> x"
    by (simp add: less_eq_Position_def sourceStartLess_def)
  show "x \<le> y \<Longrightarrow> y \<le> z \<Longrightarrow> x \<le> z"
    by (auto simp: less_eq_Position_def sourceStartLess_def split: if_splits)
  show "x \<le> y \<Longrightarrow> y \<le> x \<Longrightarrow> x = y"
    by (cases x; cases y) (auto simp: less_eq_Position_def sourceStartLess_def split: if_splits)
  show "x \<le> y \<or> y \<le> x"
    by (auto simp: less_eq_Position_def sourceStartLess_def)
qed

end

lemmas position_order = less_Position_def less_eq_Position_def sourceStartLess_def

lemma sourceStartLess_iff [simp]:
  "sourceStartLess (Line p) (Column p) (Line q) (Column q) \<longleftrightarrow> p < q"
  by (simp add: less_Position_def)

text \<open>
  The extractors all sort with \<open>sort.SliceStable\<close> and \<open>sourceStartLess\<close> on the start of a
  range: \<open>sortBySource\<close> with the function that reads that range.
\<close>

definition sortBySource :: "('a \<Rightarrow> Range) \<Rightarrow> 'a list \<Rightarrow> 'a list" where
  "sortBySource rng xs = sort_key (\<lambda>x. Start (rng x)) xs"

lemma mset_sortBySource [simp]: "mset (sortBySource rng xs) = mset xs"
  by (simp add: sortBySource_def)

lemma set_sortBySource [simp]: "set (sortBySource rng xs) = set xs"
  by (simp add: sortBySource_def)

lemma sorted_sortBySource [simp]: "sorted (map (\<lambda>x. Start (rng x)) (sortBySource rng xs))"
  by (simp add: sortBySource_def)

lemma sortBySource_stable:
  "filter (\<lambda>x. Start (rng x) = p) (sortBySource rng xs) = filter (\<lambda>x. Start (rng x) = p) xs"
  by (simp add: sortBySource_def sort_key_stable)

section \<open>Classifications\<close>

datatype EdgeKind =
    EdgeCalls | EdgeCallsDynamic | EdgeNavigatesTo | EdgeNavigatesToDynamic
  | EdgePerforms | EdgeIncludes | EdgeReads | EdgeWrites | EdgeUsesDataArea

datatype ObjectType =
    ObjectProgram | ObjectSubprogram | ObjectExternalSubroutine | ObjectCopycode | ObjectMap
  | ObjectLocalDataArea | ObjectGlobalDataArea | ObjectParameterDataArea | ObjectHelproutine
  | ObjectDDM | ObjectClass | ObjectFunction | ObjectDialog | ObjectAdapter | ObjectText
  | ObjectUnknown | ObjectNone

datatype SymbolKind =
    SymbolProgram | SymbolObject | SymbolSubroutine | SymbolDataSection | SymbolDataField
  | SymbolMap | SymbolDDMReference

datatype DiagnosticSeverity = DiagnosticInfo | DiagnosticWarning | DiagnosticError

datatype DiagnosticCode = DiagnosticCodeNone | DiagnosticCodeSyntax | DiagnosticCodeAmbiguity

section \<open>Structs\<close>

record ArrayDimension =
  Lower :: int
  Upper :: int
  UpperUnbounded :: bool

datatype Symbol =
  Symbol (symKind: SymbolKind) (symName: string) (symRange: Range) (symSelectionRange: Range)
    (symChildren: "Symbol list") (symType: string) (symLevel: int)
    (symDimensions: "ArrayDimension list") (symRedefines: string) (symViewOfDDM: string)

record SymbolEntry =
  seName :: string
  seKind :: SymbolKind
  seRange :: Range

record EdgeEntry =
  eeSource :: Range
  eeTarget :: Range
  eeKind :: EdgeKind
  eeTargetName :: string
  eeLibrary :: string

record DataAccessEntry =
  daName :: string
  daKind :: EdgeKind
  daSource :: Range
  daNameRange :: Range

datatype DataDefinition =
  DataDefinition (ddName: string) (ddLevel: int) (ddType: string)
    (ddDimensions: "ArrayDimension list") (ddSectionKind: string) (ddRange: Range)
    (ddNameRange: Range) (ddChildren: "DataDefinition list") (ddRedefines: string)
    (ddViewOfDDM: string)

text \<open>The measures of the recursions over these trees.\<close>

lemma size_symChild: "c \<in> set (symChildren s) \<Longrightarrow> size c < size s"
  by (cases s) (auto dest: size_list_estimation' [OF _ order_refl, where f = size])

lemma size_ddChildren_less: "size_list size (ddChildren d) < Suc (size d + n)"
  by (cases d) simp

record Diagnostic =
  dgMessage :: string
  dgSeverity :: DiagnosticSeverity
  dgCode :: DiagnosticCode
  dgRange :: Range

record WorkFile =
  wfNumber :: int
  wfName :: string
  wfRange :: Range

record HostVarRef =
  hvName :: string
  hvRange :: Range

record VariableRef =
  vrName :: string
  vrRange :: Range

record DataAreaRef =
  darName :: string
  darSectionKind :: string
  darRange :: Range

text \<open>
  \<open>FileAnalysis\<close>, without the field \<open>AST\<close>: it is an untyped handle for the parser's tree that
  no code outside the parser's package reads.
\<close>

record FileAnalysis =
  faObjectType :: ObjectType
  faDiagnostics :: "Diagnostic list"
  faSymbols :: "SymbolEntry list"
  faEdges :: "EdgeEntry list"
  faDataAccess :: "DataAccessEntry list"
  faDefinitions :: "DataDefinition list"
  faWorkFiles :: "WorkFile list"
  faHostVarRefs :: "HostVarRef list"
  faStructure :: "Symbol option"
  faDataAreaRefs :: "DataAreaRef list"

definition zeroFileAnalysis :: FileAnalysis where
  "zeroFileAnalysis =
     \<lparr>faObjectType = ObjectNone, faDiagnostics = [], faSymbols = [], faEdges = [],
      faDataAccess = [], faDefinitions = [], faWorkFiles = [], faHostVarRefs = [],
      faStructure = None, faDataAreaRefs = []\<rparr>"

end
