(* ===== verification/Lexer.thy ===== *)
theory Lexer
  imports Model
begin

text \<open>
  The lexer, \<open>internal/analysis/natural/lexer.go\<close>: its state, the scan of one token, and the
  scan of an opaque SQL span. The state is the record \<open>Lexer\<close>; every method of the code that
  moves the cursor is a function that returns the moved state. Source positions are counted
  the way the code counts them, and \<open>Lexer_Position\<close> relates them to the source text.
\<close>

section \<open>Tokens and lexer state\<close>

datatype TokenType =
    TokenKeyword | TokenIdentifier | TokenLiteralString | TokenLiteralNumeric | TokenOperator
  | TokenPunctuation | TokenComment | TokenSQLOpaque | TokenEOF | TokenError

record Token =
  tkType :: TokenType
  tkLiteral :: string
  tkColumn :: int
  tkLine :: int

record Lexer =
  lxInput :: string
  lxPos :: nat
  lxLine :: int
  lxCol :: int
  lxLineHasNonWhitespace :: bool

definition NewLexer :: "string \<Rightarrow> Lexer" where
  "NewLexer inp = \<lparr>lxInput = inp, lxPos = 0, lxLine = 1, lxCol = 1, lxLineHasNonWhitespace = False\<rparr>"

text \<open>\<open>l.pos < len(l.input)\<close>, the byte under the cursor, and the test on the byte after it.\<close>

definition hasMore :: "Lexer \<Rightarrow> bool" where
  "hasMore l \<longleftrightarrow> lxPos l < length (lxInput l)"

definition cur :: "Lexer \<Rightarrow> char" where
  "cur l = lxInput l ! lxPos l"

definition nextIs :: "Lexer \<Rightarrow> (char \<Rightarrow> bool) \<Rightarrow> bool" where
  "nextIs l P \<longleftrightarrow> lxPos l + 1 < length (lxInput l) \<and> P (lxInput l ! (lxPos l + 1))"

text \<open>The cursor's three moves: over a byte of the line, over LF, over CR or CR LF.\<close>

definition advanceByte :: "Lexer \<Rightarrow> Lexer" where
  "advanceByte l = l\<lparr>lxPos := lxPos l + 1, lxCol := lxCol l + 1\<rparr>"

definition consumeLF :: "Lexer \<Rightarrow> Lexer" where
  "consumeLF l =
     l\<lparr>lxLine := lxLine l + 1, lxCol := 1, lxLineHasNonWhitespace := False, lxPos := lxPos l + 1\<rparr>"

definition consumeCR :: "Lexer \<Rightarrow> Lexer" where
  "consumeCR l =
     (let l1 = l\<lparr>lxLine := lxLine l + 1, lxCol := 1, lxLineHasNonWhitespace := False,
                 lxPos := lxPos l + 1\<rparr>
      in if hasMore l1 \<and> cur l1 = LF then l1\<lparr>lxPos := lxPos l1 + 1\<rparr> else l1)"

definition remaining :: "Lexer \<Rightarrow> nat" where
  "remaining l = length (lxInput l) - lxPos l"

lemma remaining_moves:
  assumes "hasMore l"
  shows "remaining (advanceByte l) < remaining l"
    and "remaining (consumeLF l) < remaining l"
    and "remaining (consumeCR l) < remaining l"
  using assms
  by (auto simp: hasMore_def remaining_def advanceByte_def consumeLF_def consumeCR_def Let_def)

function skipWhitespace :: "Lexer \<Rightarrow> Lexer" where
  "skipWhitespace l =
     (if hasMore l then
        let ch = cur l in
        if ch = CR then skipWhitespace (consumeCR l)
        else if ch = LF then skipWhitespace (consumeLF l)
        else if ch = SPACE \<or> ch = TAB then skipWhitespace (advanceByte l)
        else l
      else l)"
  by pat_completeness auto
termination by (relation "measure remaining") (auto intro: remaining_moves)

text \<open>A scan loop of the shape \<open>for l.pos < len(l.input) && P(l.input[l.pos]) {l.pos++; l.col++}\<close>.\<close>

function advanceWhile :: "(char \<Rightarrow> bool) \<Rightarrow> Lexer \<Rightarrow> Lexer" where
  "advanceWhile P l = (if hasMore l \<and> P (cur l) then advanceWhile P (advanceByte l) else l)"
  by pat_completeness auto
termination by (relation "measure (\<lambda>(P, l). remaining l)") (auto intro: remaining_moves)

declare skipWhitespace.simps [simp del] advanceWhile.simps [simp del]

definition consumeToEOL :: "Lexer \<Rightarrow> Lexer" where
  "consumeToEOL l = advanceWhile (\<lambda>c. \<not> (c = LF \<or> c = CR)) l"

definition returnToken :: "Token \<Rightarrow> Lexer \<Rightarrow> Token \<times> Lexer" where
  "returnToken t l = (t, l\<lparr>lxLineHasNonWhitespace := True\<rparr>)"

section \<open>Identifiers and keywords\<close>

definition isIdentStart :: "char \<Rightarrow> bool" where
  "isIdentStart c \<longleftrightarrow>
     isUpperByte c \<or> isLowerByte c \<or> c = CHR ''#'' \<or> c = CHR ''&'' \<or> c = CHR ''@''"

definition isIdentBody :: "char \<Rightarrow> bool" where
  "isIdentBody c \<longleftrightarrow>
     isUpperByte c \<or> isLowerByte c \<or> isDigitByte c \<or> c = CHR ''_'' \<or> c = CHR ''#''
     \<or> c = CHR ''&'' \<or> c = CHR ''@''"

definition uppercase :: "string \<Rightarrow> string" where
  "uppercase s = map byteToUpper s"

definition keywordList :: "string list" where
  "keywordList =
    [''CALLNAT'', ''PERFORM'', ''INCLUDE'', ''FETCH'', ''RUN'', ''DEFINE'', ''END'',
     ''IF'', ''THEN'', ''ELSE'', ''ENDIF'', ''MOVE'', ''COMPUTE'', ''TO'', ''WRITE'', ''READ'', ''STORE'',
     ''DELETE'', ''UPDATE'', ''INSERT'', ''SELECT'', ''FROM'', ''WHERE'', ''SET'',
     ''GET'', ''PUT'', ''EXIT'', ''RETURN'', ''WHILE'', ''WEND'', ''FOR'', ''NEXT'',
     ''DO'', ''LOOP'', ''UNTIL'', ''BREAK'', ''CONTINUE'', ''GOTO'', ''CALL'',
     ''EXITNAT'', ''PERFORMNAT'', ''DISPLAY'', ''PROMPT'', ''ACCEPT'', ''INPUT'',
     ''OUTPUT'', ''PRINT'', ''OPEN'', ''CLOSE'', ''LOCK'', ''UNLOCK'', ''LOCKNAT'',
     ''UNLOCKNAT'', ''SEARCH'', ''SEARCHNAT'', ''FIND'', ''FINDNAT'', ''REPLACE'',
     ''REPLACENAT'', ''SUBSTITUTE'', ''SUBST'', ''CONCAT'', ''CONCATENATE'',
     ''LENGTH'', ''LEN'', ''TRIM'', ''LTRIM'', ''RTRIM'', ''UPPER'', ''LOWER'',
     ''SUBSTR'', ''SUBSTRING'', ''INDEX'', ''POSITION'', ''ASSERT'', ''ASSERTNAT'',
     ''ERROR'', ''RAISE'', ''CATCH'', ''TRY'', ''ABORT'', ''TERMINATE'', ''STOP'',
     ''HALT'', ''RESUME'', ''RETRY'', ''RESTART'', ''REINIT'', ''RESET'', ''CLEAR'',
     ''FLUSH'', ''SYNC'', ''SYNCNAT'', ''FLUSHNAT'', ''ID'', ''IDNAT'', ''VERSION'',
     ''VERSIONNAT'', ''DATE'', ''DATENAT'', ''TIME'', ''TIMENAT'', ''DATETIME'',
     ''DATETIMENAT'', ''DATA'', ''LOCAL'', ''PARAMETER'', ''REDEFINE'',
     ''SINGLE'', ''INTO'', ''VALUES'', ''MERGE'', ''COMMIT'', ''ROLLBACK'', ''CALLDBPROC'',
     ''PROCESS'', ''RESULT'', ''END-SELECT'', ''END-RESULT'']"

definition isKeyword :: "string \<Rightarrow> bool" where
  "isKeyword s \<longleftrightarrow> s \<in> set keywordList"

function identLoop :: "Lexer \<Rightarrow> Lexer" where
  "identLoop l =
     (if hasMore l then
        (if isIdentBody (cur l) then identLoop (advanceByte l)
         else if cur l = CHR ''-'' \<and> nextIs l isIdentBody then identLoop (advanceByte l)
         else l)
      else l)"
  by pat_completeness auto
termination by (relation "measure remaining") (auto intro: remaining_moves)

declare identLoop.simps [simp del]

definition scanIdentifier :: "Lexer \<Rightarrow> Token \<times> Lexer" where
  "scanIdentifier l =
     (let startCol = lxCol l; start = lxPos l;
          l1 = identLoop l;
          normalized = uppercase (slice start (lxPos l1) (lxInput l1))
      in if isKeyword normalized
         then returnToken \<lparr>tkType = TokenKeyword, tkLiteral = normalized,
                           tkColumn = startCol, tkLine = lxLine l1\<rparr> l1
         else returnToken \<lparr>tkType = TokenIdentifier, tkLiteral = normalized,
                           tkColumn = startCol, tkLine = lxLine l1\<rparr> l1)"

section \<open>Literals and comments\<close>

text \<open>
  A string runs to the next quote. The loop does not look at line terminators, so neither
  does the model: a string that spans lines advances the column only.
\<close>

definition scanString :: "Lexer \<Rightarrow> Token \<times> Lexer" where
  "scanString l =
     (let startCol = lxCol l; start = lxPos l;
          l1 = advanceWhile (\<lambda>c. c \<noteq> QUOTE) (advanceByte l)
      in if hasMore l1
         then let l2 = advanceByte l1;
                  content = slice (start + 1) (lxPos l2 - 1) (lxInput l2)
              in returnToken \<lparr>tkType = TokenLiteralString, tkLiteral = [QUOTE] @ content @ [QUOTE],
                              tkColumn = startCol, tkLine = lxLine l2\<rparr> l2
         else returnToken \<lparr>tkType = TokenLiteralString, tkLiteral = drop (start + 1) (lxInput l1),
                           tkColumn = startCol, tkLine = lxLine l1\<rparr> l1)"

definition scanFraction :: "Lexer \<Rightarrow> Lexer" where
  "scanFraction l =
     (if hasMore l \<and> cur l = CHR ''.'' then advanceWhile isDigitByte (advanceByte l) else l)"

definition scanExponent :: "Lexer \<Rightarrow> Lexer" where
  "scanExponent l =
     (if hasMore l \<and> (cur l = CHR ''E'' \<or> cur l = CHR ''e'')
      then let l1 = advanceByte l;
               l2 = (if hasMore l1 \<and> (cur l1 = CHR ''+'' \<or> cur l1 = CHR ''-'') then advanceByte l1 else l1)
           in advanceWhile isDigitByte l2
      else l)"

definition scanNumber :: "Lexer \<Rightarrow> Token \<times> Lexer" where
  "scanNumber l =
     (let startCol = lxCol l; start = lxPos l;
          l1 = scanExponent (scanFraction (advanceWhile isDigitByte l))
      in returnToken \<lparr>tkType = TokenLiteralNumeric, tkLiteral = slice start (lxPos l1) (lxInput l1),
                      tkColumn = startCol, tkLine = lxLine l1\<rparr> l1)"

definition scanComment :: "Lexer \<Rightarrow> Token \<times> Lexer" where
  "scanComment l =
     (let startCol = lxCol l; start = lxPos l; l1 = consumeToEOL l
      in returnToken \<lparr>tkType = TokenComment, tkLiteral = slice start (lxPos l1) (lxInput l1),
                      tkColumn = startCol, tkLine = lxLine l1\<rparr> l1)"

text \<open>Operators and punctuation of one or two bytes.\<close>

definition scanFixed :: "TokenType \<Rightarrow> string \<Rightarrow> Lexer \<Rightarrow> Token \<times> Lexer" where
  "scanFixed ty lit l =
     returnToken \<lparr>tkType = ty, tkLiteral = lit, tkColumn = lxCol l, tkLine = lxLine l\<rparr>
       (l\<lparr>lxPos := lxPos l + length lit, lxCol := lxCol l + int (length lit)\<rparr>)"

definition twoByteOperator :: "Lexer \<Rightarrow> string option" where
  "twoByteOperator l =
     (if cur l = CHR ''<'' \<and> nextIs l (\<lambda>c. c = CHR ''>'') then Some ''<>''
      else if cur l = CHR ''<'' \<and> nextIs l (\<lambda>c. c = CHR ''='') then Some ''<=''
      else if cur l = CHR ''>'' \<and> nextIs l (\<lambda>c. c = CHR ''='') then Some ''>=''
      else if cur l = CHR '':'' \<and> nextIs l (\<lambda>c. c = CHR ''='') then Some '':=''
      else None)"

definition isOperatorByte :: "char \<Rightarrow> bool" where
  "isOperatorByte c \<longleftrightarrow> c \<in> set ''=+-*/|!^<>''"

definition isPunctuationByte :: "char \<Rightarrow> bool" where
  "isPunctuationByte c \<longleftrightarrow> c \<in> set '',;:()[]{}.''"

section \<open>NextToken\<close>

text \<open>
  The body of \<open>NextToken\<close> after the white space, with at least one byte left. \<open>None\<close> is its
  last branch, an unknown byte, after which the method calls itself.
\<close>

definition scanToken :: "Lexer \<Rightarrow> (Token \<times> Lexer) option" where
  "scanToken l =
     (let ch = cur l; isAtLineStart = (\<not> lxLineHasNonWhitespace l) in
      if ch = CHR ''*'' \<and> isAtLineStart then Some (scanComment l)
      else if isIdentStart ch then Some (scanIdentifier l)
      else if ch = QUOTE then Some (scanString l)
      else if isDigitByte ch then Some (scanNumber l)
      else if ch = CHR ''/'' \<and> nextIs l (\<lambda>c. c = CHR ''*'') then Some (scanComment l)
      else (case twoByteOperator l of
              Some lit \<Rightarrow> Some (scanFixed TokenOperator lit l)
            | None \<Rightarrow>
                if isOperatorByte ch then Some (scanFixed TokenOperator [ch] l)
                else if isPunctuationByte ch then Some (scanFixed TokenPunctuation [ch] l)
                else None))"

definition eofToken :: "Lexer \<Rightarrow> Token" where
  "eofToken l = \<lparr>tkType = TokenEOF, tkLiteral = [], tkColumn = lxCol l, tkLine = lxLine l\<rparr>"

lemma remaining_skipWhitespace: "remaining (skipWhitespace l) \<le> remaining l"
proof (induction l rule: skipWhitespace.induct)
  case (1 l)
  show ?case
    using 1 remaining_moves [of l] by (subst skipWhitespace.simps) (auto simp: Let_def)
qed

function NextToken :: "Lexer \<Rightarrow> Token \<times> Lexer" where
  "NextToken l0 =
     (let l = skipWhitespace l0 in
      if \<not> hasMore l then (eofToken l, l)
      else (case scanToken l of
              Some r \<Rightarrow> r
            | None \<Rightarrow> NextToken (advanceByte l)))"
  by pat_completeness auto
termination
proof (relation "measure remaining", goal_cases)
  case (2 l0 l)
  then show ?case
    using remaining_moves(1) [of "skipWhitespace l0"] remaining_skipWhitespace [of l0] by simp
qed simp

declare NextToken.simps [simp del]

section \<open>Opaque SQL spans\<close>

function opaqueLoop :: "nat \<Rightarrow> Lexer \<Rightarrow> (string \<times> bool) \<times> Lexer" where
  "opaqueLoop interiorStart l =
     (if hasMore l then
        let ch = cur l in
        if ch = CR then opaqueLoop interiorStart (consumeCR l)
        else if ch = LF then opaqueLoop interiorStart (consumeLF l)
        else if ch = CHR ''>'' \<and> nextIs l (\<lambda>c. c = CHR ''>'')
        then ((slice interiorStart (lxPos l) (lxInput l), False),
              l\<lparr>lxPos := lxPos l + 2, lxCol := lxCol l + 2, lxLineHasNonWhitespace := True\<rparr>)
        else opaqueLoop interiorStart (advanceByte l)
      else ((drop interiorStart (lxInput l), True), l))"
  by pat_completeness auto
termination by (relation "measure (\<lambda>(s, l). remaining l)") (auto intro: remaining_moves)

declare opaqueLoop.simps [simp del]

definition ScanOpaqueSpan :: "Lexer \<Rightarrow> (Token \<times> bool) \<times> Lexer" where
  "ScanOpaqueSpan l0 =
     (let l = skipWhitespace l0; startLine = lxLine l; startCol = lxCol l in
      if lxPos l + 1 \<ge> length (lxInput l) \<or> lxInput l ! lxPos l \<noteq> CHR ''<''
         \<or> lxInput l ! (lxPos l + 1) \<noteq> CHR ''<''
      then ((\<lparr>tkType = TokenSQLOpaque, tkLiteral = [], tkColumn = startCol, tkLine = startLine\<rparr>,
             False), l)
      else let l1 = l\<lparr>lxPos := lxPos l + 2, lxCol := lxCol l + 2, lxLineHasNonWhitespace := True\<rparr>;
               ((interior, unterminated), l2) = opaqueLoop (lxPos l1) l1
           in ((\<lparr>tkType = TokenSQLOpaque, tkLiteral = interior, tkColumn = startCol,
                 tkLine = startLine\<rparr>, unterminated), l2))"

record OpaqueSpan =
  osToken :: Token
  osEndLine :: int
  osEndCol :: int
  osUnterminated :: bool

definition ScanOpaqueSpanFrom :: "Token \<Rightarrow> Lexer \<Rightarrow> OpaqueSpan \<times> Lexer" where
  "ScanOpaqueSpanFrom opener l =
     (let n = length (tkLiteral opener);
          l1 = (if n > 0
                then l\<lparr>lxPos := (if lxPos l \<ge> n then lxPos l - n else 0),
                       lxCol := (if lxCol l > int n then lxCol l - int n else 1)\<rparr>
                else l);
          ((tok, unterminated), l2) = ScanOpaqueSpan l1
      in (\<lparr>osToken = tok, osEndLine = lxLine l2, osEndCol = lxCol l2,
           osUnterminated = unterminated\<rparr>, l2))"

end
