(* ===== verification/Lexer_Facts.thy ===== *)
theory Lexer_Facts
  imports Lexer
begin

text \<open>
  What one call of the lexer does: it moves the cursor right on one line, past the token it
  returns, and the token's line, column and literal are those of the bytes it moved over.
  \<open>locate\<close> is the reference: the line and column of an offset, read off the source text alone.
\<close>

section \<open>Scans stay on their line\<close>

definition shift :: "nat \<Rightarrow> Lexer \<Rightarrow> Lexer" where
  "shift k l = l\<lparr>lxPos := lxPos l + k, lxCol := lxCol l + int k\<rparr>"

lemma shift_sel [simp]:
  "lxInput (shift k l) = lxInput l" "lxPos (shift k l) = lxPos l + k"
  "lxLine (shift k l) = lxLine l" "lxCol (shift k l) = lxCol l + int k"
  by (simp_all add: shift_def)

lemma shift_0 [simp]: "shift 0 l = l"
  by (simp add: shift_def)

lemma shift_advanceByte: "shift k (advanceByte l) = shift (Suc k) l"
  by (simp add: shift_def advanceByte_def)

lemma advanceByte_shift: "advanceByte (shift k l) = shift (Suc k) l"
  by (simp add: shift_def advanceByte_def)

lemma shift_shift [simp]: "shift j (shift k l) = shift (k + j) l"
  by (simp add: shift_def)

definition spans :: "nat \<Rightarrow> (char \<Rightarrow> bool) \<Rightarrow> Lexer \<Rightarrow> bool" where
  "spans k P l \<longleftrightarrow>
     lxPos l + k \<le> length (lxInput l) \<and> (\<forall>i<k. P (lxInput l ! (lxPos l + i)))"

lemma spans_Suc: "hasMore l \<Longrightarrow> P (cur l) \<Longrightarrow> spans k P (advanceByte l) \<Longrightarrow> spans (Suc k) P l"
  by (auto simp: spans_def hasMore_def cur_def advanceByte_def less_Suc_eq_0_disj)

lemma spans_add: "spans j P l \<Longrightarrow> spans k P (shift j l) \<Longrightarrow> spans (j + k) P l"
  unfolding spans_def
proof (intro conjI allI impI, goal_cases)
  case (2 i)
  then show ?case
    by (cases "i < j") (auto dest!: spec [of _ "i - j"])
qed auto

lemma spans_mono: "spans k P l \<Longrightarrow> (\<And>c. P c \<Longrightarrow> Q c) \<Longrightarrow> spans k Q l"
  by (auto simp: spans_def)

lemma spans_0 [simp]: "spans 0 P l \<longleftrightarrow> lxPos l \<le> length (lxInput l)"
  by (simp add: spans_def)

lemma spans_1: "spans (Suc 0) P l \<longleftrightarrow> hasMore l \<and> P (cur l)"
  by (auto simp: spans_def hasMore_def cur_def)

lemma advanceWhile_shift:
  "lxPos l \<le> length (lxInput l) \<Longrightarrow>
   \<exists>k. advanceWhile P l = shift k l \<and> spans k P l \<and>
       (hasMore (shift k l) \<longrightarrow> \<not> P (cur (shift k l)))"
proof (induction P l rule: advanceWhile.induct)
  case (1 P l)
  show ?case
  proof (cases "hasMore l \<and> P (cur l)")
    case True
    then have "lxPos (advanceByte l) \<le> length (lxInput (advanceByte l))"
      by (simp add: advanceByte_def hasMore_def)
    with 1 True obtain k where "advanceWhile P (advanceByte l) = shift k (advanceByte l)"
      "spans k P (advanceByte l)"
      "hasMore (shift k (advanceByte l)) \<longrightarrow> \<not> P (cur (shift k (advanceByte l)))" by blast
    with True show ?thesis
      by (intro exI [of _ "Suc k"])
         (simp add: advanceWhile.simps [of P l] shift_advanceByte spans_Suc)
  next
    case False
    with 1(2) show ?thesis
      by (intro exI [of _ 0]) (auto simp: advanceWhile.simps [of P l])
  qed
qed

lemma identLoop_shift:
  "lxPos l \<le> length (lxInput l) \<Longrightarrow>
   \<exists>k. identLoop l = shift k l \<and> spans k (\<lambda>c. isIdentBody c \<or> c = CHR ''-'') l"
proof (induction l rule: identLoop.induct)
  case (1 l)
  show ?case
  proof (cases "hasMore l \<and> (isIdentBody (cur l) \<or> cur l = CHR ''-'' \<and> nextIs l isIdentBody)")
    case True
    then have "lxPos (advanceByte l) \<le> length (lxInput (advanceByte l))"
      by (simp add: advanceByte_def hasMore_def)
    with 1 True obtain k where "identLoop (advanceByte l) = shift k (advanceByte l)"
      "spans k (\<lambda>c. isIdentBody c \<or> c = CHR ''-'') (advanceByte l)" by blast
    with True show ?thesis
      by (intro exI [of _ "Suc k"])
         (auto simp: identLoop.simps [of l] shift_advanceByte intro!: spans_Suc)
  next
    case False
    with 1(3) show ?thesis
      by (intro exI [of _ 0]) (auto simp: identLoop.simps [of l])
  qed
qed

lemma identLoop_pos:
  assumes "hasMore l" and "isIdentStart (cur l)"
  shows "lxPos l < lxPos (identLoop l)"
proof -
  have b: "isIdentBody (cur l)"
    using assms(2) by (auto simp: isIdentStart_def isIdentBody_def)
  have "lxPos (advanceByte l) \<le> length (lxInput (advanceByte l))"
    using assms(1) by (simp add: advanceByte_def hasMore_def)
  then obtain k where "identLoop (advanceByte l) = shift k (advanceByte l)"
    using identLoop_shift by blast
  then show ?thesis
    using assms(1) b by (subst identLoop.simps) (simp add: shift_advanceByte)
qed

section \<open>What one scan returns\<close>

text \<open>
  The literal of a token, as the bytes \<open>raw\<close> the scan moved over determine it: names are
  upper-cased, an unterminated string loses its opening quote, everything else is verbatim.
\<close>

fun literalOf :: "TokenType \<Rightarrow> string \<Rightarrow> string \<Rightarrow> bool" where
  "literalOf TokenKeyword raw lit \<longleftrightarrow> lit = uppercase raw \<and> isKeyword lit"
| "literalOf TokenIdentifier raw lit \<longleftrightarrow> lit = uppercase raw \<and> \<not> isKeyword lit"
| "literalOf TokenLiteralString raw lit \<longleftrightarrow> lit = raw \<or> raw = QUOTE # lit"
| "literalOf TokenEOF raw lit \<longleftrightarrow> False"
| "literalOf TokenError raw lit \<longleftrightarrow> False"
| "literalOf TokenSQLOpaque raw lit \<longleftrightarrow> False"
| "literalOf _ raw lit \<longleftrightarrow> lit = raw"

definition notEOL :: "char \<Rightarrow> bool" where
  "notEOL c \<longleftrightarrow> c \<noteq> CR \<and> c \<noteq> LF"

definition scans :: "Lexer \<Rightarrow> Token \<Rightarrow> Lexer \<Rightarrow> bool" where
  "scans l t l' \<longleftrightarrow>
     (\<exists>k. 0 < k \<and> l' = (shift k l)\<lparr>lxLineHasNonWhitespace := True\<rparr> \<and>
        spans k (\<lambda>c. tkType t = TokenLiteralString \<or> notEOL c) l \<and>
        tkLine t = lxLine l \<and> tkColumn t = lxCol l \<and>
        literalOf (tkType t) (slice (lxPos l) (lxPos l + k) (lxInput l)) (tkLiteral t))"

lemma scansI:
  assumes "r = returnToken \<lparr>tkType = ty, tkLiteral = lit, tkColumn = lxCol l, tkLine = lxLine l\<rparr>
                 (shift k l)"
    and "0 < k" "spans k (\<lambda>c. ty = TokenLiteralString \<or> notEOL c) l"
    and "literalOf ty (slice (lxPos l) (lxPos l + k) (lxInput l)) lit"
  shows "scans l (fst r) (snd r)"
  using assms by (auto simp: scans_def returnToken_def intro!: exI [of _ k])

lemma hasMore_bound: "hasMore l \<Longrightarrow> lxPos l \<le> length (lxInput l)"
  by (simp add: hasMore_def)

lemma notEOL_ident: "isIdentBody c \<or> c = CHR ''-'' \<Longrightarrow> notEOL c"
  by (auto simp: notEOL_def isIdentBody_def byte_defs less_eq_char_def)

lemma scanIdentifier_scans:
  assumes "hasMore l" "isIdentStart (cur l)"
  shows "scans l (fst (scanIdentifier l)) (snd (scanIdentifier l))"
proof -
  obtain k where k: "identLoop l = shift k l" "spans k (\<lambda>c. isIdentBody c \<or> c = CHR ''-'') l"
    using identLoop_shift hasMore_bound assms(1) by blast
  define lit where "lit = uppercase (slice (lxPos l) (lxPos l + k) (lxInput l))"
  define ty where "ty = (if isKeyword lit then TokenKeyword else TokenIdentifier)"
  have "0 < k" using identLoop_pos [OF assms] k(1) by simp
  moreover have "spans k (\<lambda>c. ty = TokenLiteralString \<or> notEOL c) l"
    by (rule spans_mono [OF k(2)]) (simp add: notEOL_ident)
  moreover have "scanIdentifier l = returnToken \<lparr>tkType = ty, tkLiteral = lit,
                   tkColumn = lxCol l, tkLine = lxLine l\<rparr> (shift k l)"
    by (simp add: scanIdentifier_def k(1) Let_def ty_def lit_def)
  ultimately show ?thesis
    by (intro scansI) (auto simp: ty_def lit_def)
qed

lemma consumeToEOL_eq: "consumeToEOL l = advanceWhile notEOL l"
proof -
  have "(\<lambda>c. \<not> (c = LF \<or> c = CR)) = notEOL"
    by (auto simp: notEOL_def fun_eq_iff)
  then show ?thesis by (simp add: consumeToEOL_def)
qed

lemma scanComment_scans:
  assumes "hasMore l" "notEOL (cur l)"
  shows "scans l (fst (scanComment l)) (snd (scanComment l))"
proof -
  obtain k where k: "consumeToEOL l = shift k l" "spans k notEOL l"
      "hasMore (shift k l) \<longrightarrow> \<not> notEOL (cur (shift k l))"
    using advanceWhile_shift [of l notEOL] hasMore_bound [OF assms(1)]
    by (auto simp: consumeToEOL_eq)
  have "0 < k" using k(3) assms by (cases k) auto
  then show ?thesis
    using spans_mono [OF k(2), of "\<lambda>c. TokenComment = TokenLiteralString \<or> notEOL c"]
    by (intro scansI [of _ TokenComment "slice (lxPos l) (lxPos l + k) (lxInput l)" l k])
       (simp_all add: scanComment_def Let_def k(1))
qed

lemma slice_quote:
  assumes "k \<ge> 2" "a + k \<le> length s" "s ! a = q" "s ! (a + k - 1) = q"
  shows "q # slice (Suc a) (a + k - 1) s @ [q] = slice a (a + k) s"
proof -
  have "slice a (a + k) s = take 1 (drop a s) @ take (k - 2) (drop 1 (drop a s))
          @ take 1 (drop (k - 1) (drop a s))"
    using assms(1) take_add [of 1 "k - 2" "drop a s"] take_add [of "k - 1" 1 "drop a s"]
    by (simp add: slice_def add.commute numeral_2_eq_2 Suc_diff_Suc)
  moreover have "take 1 (drop a s) = [q]" "take 1 (drop (k - 1) (drop a s)) = [q]"
    using assms by (auto simp: hd_drop_conv_nth take_Suc add.commute)
  ultimately show ?thesis using assms(1)
    by (simp add: slice_def drop_drop numeral_2_eq_2 Suc_diff_Suc)
qed

lemma scanString_scans:
  assumes "hasMore l" "cur l = QUOTE"
  shows "scans l (fst (scanString l)) (snd (scanString l))"
proof -
  have b: "lxPos (advanceByte l) \<le> length (lxInput (advanceByte l))"
    using assms(1) by (simp add: hasMore_def advanceByte_def)
  obtain k where w: "advanceWhile (\<lambda>c. c \<noteq> QUOTE) (advanceByte l) = shift k (advanceByte l)"
      "spans k (\<lambda>c. c \<noteq> QUOTE) (advanceByte l)"
      "hasMore (shift k (advanceByte l)) \<longrightarrow> cur (shift k (advanceByte l)) = QUOTE"
    using advanceWhile_shift [OF b, of "\<lambda>c. c \<noteq> QUOTE"] by auto
  have k: "advanceWhile (\<lambda>c. c \<noteq> QUOTE) (advanceByte l) = shift (Suc k) l"
      "spans (Suc k) (\<lambda>c. True) l"
      "hasMore (shift (Suc k) l) \<longrightarrow> cur (shift (Suc k) l) = QUOTE"
    using w assms(1) by (simp_all add: shift_advanceByte spans_Suc spans_mono [OF w(2)])
  show ?thesis
  proof (cases "hasMore (shift (Suc k) l)")
    case True
    have raw: "QUOTE # slice (Suc (lxPos l)) (lxPos l + Suc (Suc k) - 1) (lxInput l) @ [QUOTE]
               = slice (lxPos l) (lxPos l + Suc (Suc k)) (lxInput l)"
      using True k(3) assms by (intro slice_quote) (auto simp: hasMore_def cur_def)
    have "scanString l = returnToken \<lparr>tkType = TokenLiteralString,
            tkLiteral = slice (lxPos l) (lxPos l + Suc (Suc k)) (lxInput l),
            tkColumn = lxCol l, tkLine = lxLine l\<rparr> (shift (Suc (Suc k)) l)"
      using True k(1) raw by (simp add: scanString_def Let_def advanceByte_shift)
    then show ?thesis
      using True by (intro scansI) (auto simp: spans_def hasMore_def)
  next
    case False
    then have e: "lxPos l + Suc k = length (lxInput l)"
      using k(2) by (simp add: hasMore_def spans_def)
    have "slice (lxPos l) (lxPos l + Suc k) (lxInput l) = drop (lxPos l) (lxInput l)"
      using e by (simp add: slice_def)
    also have "\<dots> = QUOTE # drop (Suc (lxPos l)) (lxInput l)"
      using assms Cons_nth_drop_Suc [of "lxPos l" "lxInput l"] by (simp add: hasMore_def cur_def)
    finally show ?thesis
      using False k(1) e
      by (intro scansI [of _ TokenLiteralString "drop (Suc (lxPos l)) (lxInput l)" l "Suc k"])
         (simp_all add: scanString_def Let_def spans_def)
  qed
qed

definition numberByte :: "char \<Rightarrow> bool" where
  "numberByte c \<longleftrightarrow> isDigitByte c \<or> c \<in> set ''.Ee+-''"

definition moves :: "(char \<Rightarrow> bool) \<Rightarrow> Lexer \<Rightarrow> Lexer \<Rightarrow> bool" where
  "moves P l l' \<longleftrightarrow> (\<exists>k. l' = shift k l \<and> spans k P l)"

lemma moves_refl: "lxPos l \<le> length (lxInput l) \<Longrightarrow> moves P l l"
  unfolding moves_def by (rule exI [of _ 0]) simp

lemma moves_trans: "moves P l l1 \<Longrightarrow> moves P l1 l2 \<Longrightarrow> moves P l l2"
  unfolding moves_def using spans_add by fastforce

lemma moves_bound: "moves P l l' \<Longrightarrow> lxPos l' \<le> length (lxInput l')"
  by (auto simp: moves_def spans_def)

lemma moves_advanceByte: "hasMore l \<Longrightarrow> P (cur l) \<Longrightarrow> moves P l (advanceByte l)"
  unfolding moves_def
  by (rule exI [of _ "Suc 0"]) (auto simp: spans_1 advanceByte_shift [of 0 l, simplified])

lemma moves_advanceWhile:
  "lxPos l \<le> length (lxInput l) \<Longrightarrow> (\<And>c. P c \<Longrightarrow> Q c) \<Longrightarrow> moves Q l (advanceWhile P l)"
  unfolding moves_def using advanceWhile_shift [of l P] spans_mono by metis

lemma moves_digits:
  "lxPos l \<le> length (lxInput l) \<Longrightarrow> moves numberByte l (advanceWhile isDigitByte l)"
  by (rule moves_advanceWhile) (simp_all add: numberByte_def)

lemma moves_scanFraction:
  assumes "lxPos l \<le> length (lxInput l)"
  shows "moves numberByte l (scanFraction l)"
proof (cases "hasMore l \<and> cur l = CHR ''.''")
  case True
  then have "moves numberByte l (advanceByte l)"
    by (intro moves_advanceByte) (auto simp: numberByte_def)
  then show ?thesis
    using True moves_trans moves_digits moves_bound by (auto simp: scanFraction_def)
qed (auto simp: scanFraction_def moves_refl assms)

lemma moves_scanExponent:
  assumes "lxPos l \<le> length (lxInput l)"
  shows "moves numberByte l (scanExponent l)"
proof (cases "hasMore l \<and> (cur l = CHR ''E'' \<or> cur l = CHR ''e'')")
  case True
  define l1 where "l1 = advanceByte l"
  define l2 where "l2 = (if hasMore l1 \<and> (cur l1 = CHR ''+'' \<or> cur l1 = CHR ''-'')
                         then advanceByte l1 else l1)"
  have 1: "moves numberByte l l1"
    unfolding l1_def using True by (intro moves_advanceByte) (auto simp: numberByte_def)
  have 2: "moves numberByte l1 l2"
    using moves_bound [OF 1] unfolding l2_def
    by (auto intro!: moves_advanceByte moves_refl simp: numberByte_def)
  have "moves numberByte l (advanceWhile isDigitByte l2)"
    using 1 2 moves_digits moves_bound moves_trans by meson
  then show ?thesis
    using True by (simp add: scanExponent_def Let_def flip: l1_def l2_def)
qed (auto simp: scanExponent_def moves_refl assms)

lemma scanNumber_scans:
  assumes "hasMore l" "isDigitByte (cur l)"
  shows "scans l (fst (scanNumber l)) (snd (scanNumber l))"
proof -
  have d: "advanceWhile isDigitByte l = advanceWhile isDigitByte (advanceByte l)"
    using assms by (simp add: advanceWhile.simps [of _ l])
  have 1: "moves numberByte l (advanceByte l)"
    using assms by (intro moves_advanceByte) (auto simp: numberByte_def)
  have 2: "moves numberByte (advanceByte l) (scanExponent (scanFraction (advanceWhile isDigitByte l)))"
    unfolding d using moves_bound [OF 1] moves_digits moves_scanFraction moves_scanExponent
      moves_bound moves_trans by meson
  obtain k where k: "scanExponent (scanFraction (advanceWhile isDigitByte l)) = shift (Suc k) l"
    using 2 by (auto simp: moves_def shift_advanceByte)
  obtain j where "scanExponent (scanFraction (advanceWhile isDigitByte l)) = shift j l"
      "spans j numberByte l"
    using moves_trans [OF 1 2] by (auto simp: moves_def)
  moreover from this k have "j = Suc k"
    by (metis add_left_cancel shift_sel(2))
  ultimately have s: "spans (Suc k) numberByte l" by simp
  have "notEOL c" if "numberByte c" for c
    using that by (auto simp: numberByte_def notEOL_def isDigitByte_def less_eq_char_def)
  then show ?thesis
    by (intro scansI [of _ TokenLiteralNumeric _ l "Suc k"])
       (auto simp: scanNumber_def Let_def k intro: spans_mono [OF s])
qed

lemma scanFixed_scans:
  assumes "lit \<noteq> []" "ty = TokenOperator \<or> ty = TokenPunctuation"
    and "slice (lxPos l) (lxPos l + length lit) (lxInput l) = lit" "list_all notEOL lit"
  shows "scans l (fst (scanFixed ty lit l)) (snd (scanFixed ty lit l))"
proof (rule scansI)
  show "scanFixed ty lit l = returnToken \<lparr>tkType = ty, tkLiteral = lit, tkColumn = lxCol l,
          tkLine = lxLine l\<rparr> (shift (length lit) l)"
    by (simp add: scanFixed_def shift_def)
  have "lxPos l + length lit \<le> length (lxInput l)"
  proof (rule ccontr)
    assume "\<not> ?thesis"
    then have "length (slice (lxPos l) (lxPos l + length lit) (lxInput l)) < length lit"
      using assms(1) by (cases lit) (auto simp: slice_def)
    with assms(3) show False by simp
  qed
  moreover have "\<forall>i<length lit. lxInput l ! (lxPos l + i) = lit ! i"
    using calculation assms(3)
    by (metis add_diff_cancel_left' le_add1 le_trans nth_drop nth_take slice_def)
  ultimately show "spans (length lit) (\<lambda>c. ty = TokenLiteralString \<or> notEOL c) l"
    using assms(4) by (simp add: spans_def list_all_length)
qed (use assms in auto)

lemma slice_one: "hasMore l \<Longrightarrow> slice (lxPos l) (lxPos l + length [cur l]) (lxInput l) = [cur l]"
  by (simp add: hasMore_def cur_def slice_def take_Suc hd_drop_conv_nth)

lemma slice_two:
  assumes "hasMore l" "nextIs l (\<lambda>c. c = d)"
  shows "slice (lxPos l) (lxPos l + 2) (lxInput l) = [cur l, d]"
proof -
  have "drop (lxPos l) (lxInput l) = cur l # d # drop (lxPos l + 2) (lxInput l)"
    using assms Cons_nth_drop_Suc [of "lxPos l" "lxInput l"]
      Cons_nth_drop_Suc [of "Suc (lxPos l)" "lxInput l"]
    by (simp add: hasMore_def nextIs_def cur_def)
  then show ?thesis by (simp add: slice_def)
qed

lemma twoByteOperator_slice:
  assumes "hasMore l" "twoByteOperator l = Some lit"
  shows "slice (lxPos l) (lxPos l + 2) (lxInput l) = lit \<and> length lit = 2 \<and> list_all notEOL lit"
proof -
  obtain d where "lit = [cur l, d]" "nextIs l (\<lambda>c. c = d)" "notEOL (cur l)" "notEOL d"
    using assms(2) by (auto simp: twoByteOperator_def notEOL_def split: if_splits)
  then show ?thesis using slice_two [OF assms(1)] by simp
qed

lemma scanToken_scans:
  assumes "hasMore l" "notEOL (cur l)" "scanToken l = Some (t, l')"
  shows "scans l t l'"
proof -
  have fixed: "scans l t l'" if "scanFixed ty [cur l] l = (t, l')"
      "ty = TokenOperator \<or> ty = TokenPunctuation" for ty
    using scanFixed_scans [of "[cur l]" ty l] slice_one [OF assms(1)] assms(2) that by simp
  have two: "scans l t l'" if "twoByteOperator l = Some lit"
      "scanFixed TokenOperator lit l = (t, l')" for lit
    using twoByteOperator_slice [OF assms(1) that(1)] that(2) scanFixed_scans [of lit TokenOperator l]
    by fastforce
  show ?thesis
    using assms scanComment_scans [of l] scanIdentifier_scans [of l] scanString_scans [of l]
      scanNumber_scans [of l]
    by (auto simp: scanToken_def Let_def split: if_splits option.splits intro: fixed two)
qed

section \<open>Offsets, lines and columns\<close>

text \<open>
  The position of an offset: lines end at CR, LF or CR LF, both count from 1. The third
  component remembers a CR as the last byte, so that an LF after it ends no further line.
\<close>

fun locateStep :: "int \<times> int \<times> bool \<Rightarrow> char \<Rightarrow> int \<times> int \<times> bool" where
  "locateStep (ln, col, afterCR) c =
     (if c = CR then (ln + 1, 1, True)
      else if c = LF then (if afterCR then (ln, 1, False) else (ln + 1, 1, False))
      else (ln, col + 1, False))"

definition locateState :: "string \<Rightarrow> nat \<Rightarrow> int \<times> int \<times> bool" where
  "locateState s n = foldl locateStep (1, 1, False) (take n s)"

definition locate :: "string \<Rightarrow> nat \<Rightarrow> int \<times> int" where
  "locate s n = (case locateState s n of (ln, col, _) \<Rightarrow> (ln, col))"

definition located :: "Lexer \<Rightarrow> bool" where
  "located l \<longleftrightarrow>
     lxPos l \<le> length (lxInput l) \<and>
     (\<exists>cr. locateState (lxInput l) (lxPos l) = (lxLine l, lxCol l, cr) \<and>
           (cr \<longrightarrow> \<not> (hasMore l \<and> cur l = LF)))"

lemma located_NewLexer: "located (NewLexer s)"
  by (auto simp: located_def NewLexer_def locateState_def)

lemma located_locate: "located l \<Longrightarrow> locate (lxInput l) (lxPos l) = (lxLine l, lxCol l)"
  by (auto simp: located_def locate_def)

lemma located_flag [simp]: "located (l\<lparr>lxLineHasNonWhitespace := b\<rparr>) = located l"
  by (simp add: located_def hasMore_def cur_def)

lemma locateState_Suc:
  "n < length s \<Longrightarrow> locateState s (Suc n) = locateStep (locateState s n) (s ! n)"
  by (simp add: locateState_def take_Suc_conv_app_nth)

lemma located_advanceByte:
  assumes "located l" "hasMore l" "notEOL (cur l)"
  shows "located (advanceByte l)"
  using assms by (auto simp: located_def hasMore_def cur_def advanceByte_def notEOL_def locateState_Suc)

lemma located_consumeLF:
  assumes "located l" "hasMore l" "cur l = LF"
  shows "located (consumeLF l)"
  using assms by (auto simp: located_def hasMore_def cur_def consumeLF_def locateState_Suc)

lemma located_consumeCR:
  assumes "located l" "hasMore l" "cur l = CR"
  shows "located (consumeCR l)"
  using assms
  by (auto simp: located_def hasMore_def cur_def consumeCR_def locateState_Suc Let_def)

lemma located_shift: "located l \<Longrightarrow> spans k notEOL l \<Longrightarrow> located (shift k l)"
proof (induction k)
  case (Suc k)
  then have "spans k notEOL l" by (simp add: spans_def)
  with Suc have "located (shift k l)" by simp
  moreover have "hasMore (shift k l)" "notEOL (cur (shift k l))"
    using Suc(3) by (auto simp: spans_def hasMore_def cur_def)
  ultimately show ?case
    using located_advanceByte advanceByte_shift by metis
qed simp

text \<open>The part of a call before the token starts.\<close>

definition skips :: "Lexer \<Rightarrow> Lexer \<Rightarrow> bool" where
  "skips l l' \<longleftrightarrow>
     lxInput l' = lxInput l \<and> lxPos l \<le> lxPos l' \<and> lxPos l' \<le> length (lxInput l') \<and>
     (located l \<longrightarrow> located l')"

lemma skips_refl: "lxPos l \<le> length (lxInput l) \<Longrightarrow> skips l l"
  by (simp add: skips_def)

lemma skips_trans [trans]: "skips l l1 \<Longrightarrow> skips l1 l2 \<Longrightarrow> skips l l2"
  by (auto simp: skips_def)

lemma skips_bound: "skips l l' \<Longrightarrow> lxPos l' \<le> length (lxInput l')"
  by (auto simp: skips_def)

lemma skips_moves:
  assumes "hasMore l"
  shows "notEOL (cur l) \<Longrightarrow> skips l (advanceByte l)"
    and "cur l = LF \<Longrightarrow> skips l (consumeLF l)"
    and "cur l = CR \<Longrightarrow> skips l (consumeCR l)"
  using assms located_advanceByte located_consumeLF located_consumeCR
  by (auto simp: skips_def advanceByte_def consumeLF_def consumeCR_def hasMore_def Let_def)

lemma skipWhitespace_skips:
  "lxPos l \<le> length (lxInput l) \<Longrightarrow>
   skips l (skipWhitespace l) \<and> (hasMore (skipWhitespace l) \<longrightarrow> notEOL (cur (skipWhitespace l)))"
proof (induction l rule: skipWhitespace.induct)
  case (1 l)
  show ?case
  proof (cases "hasMore l")
    case True
    consider "cur l = CR" | "cur l = LF" | "cur l = SPACE \<or> cur l = TAB"
      | "cur l \<noteq> CR" "cur l \<noteq> LF" "\<not> (cur l = SPACE \<or> cur l = TAB)" by blast
    then show ?thesis
    proof cases
      case 1
      then show ?thesis
        using "1.IH"(1) [OF True refl 1] skips_moves(3) [OF True 1] True
        by (subst (1 2 3) skipWhitespace.simps) (auto simp: Let_def skips_bound intro: skips_trans)
    next
      case 2
      then show ?thesis
        using "1.IH"(2) [OF True refl _ 2] skips_moves(2) [OF True 2] True
        by (subst (1 2 3) skipWhitespace.simps) (auto simp: Let_def skips_bound intro: skips_trans)
    next
      case 3
      then have "cur l \<noteq> CR" "cur l \<noteq> LF" "notEOL (cur l)" by (auto simp: notEOL_def)
      then show ?thesis
        using "1.IH"(3) [OF True refl _ _ 3] skips_moves(1) [OF True] 3 True
        by (subst (1 2 3) skipWhitespace.simps) (auto simp: Let_def skips_bound intro: skips_trans)
    next
      case 4
      then show ?thesis
        using True skips_refl [OF "1.prems"] 
        by (subst (1 2 3) skipWhitespace.simps) (auto simp: Let_def notEOL_def)
    qed
  next
    case False
    then show ?thesis
      using skips_refl [OF "1.prems"] by (subst (1 2 3) skipWhitespace.simps) auto
  qed
qed

lemma scans_facts:
  assumes "scans l t l'"
  shows "lxInput l' = lxInput l" "lxPos l < lxPos l'" "lxPos l' \<le> length (lxInput l')"
    "lxLine l' = lxLine l" "tkLine t = lxLine l" "tkColumn t = lxCol l" "tkType t \<noteq> TokenEOF"
    "tkType t \<noteq> TokenLiteralString \<Longrightarrow> located l \<Longrightarrow> located l'"
proof -
  obtain k where k: "0 < k" "l' = (shift k l)\<lparr>lxLineHasNonWhitespace := True\<rparr>"
    "spans k (\<lambda>c. tkType t = TokenLiteralString \<or> notEOL c) l"
    using assms by (auto simp: scans_def)
  then show "lxInput l' = lxInput l" "lxPos l < lxPos l'" "lxPos l' \<le> length (lxInput l')"
    "lxLine l' = lxLine l" by (auto simp: spans_def shift_def)
  show "tkLine t = lxLine l" "tkColumn t = lxCol l" "tkType t \<noteq> TokenEOF"
    using assms by (auto simp: scans_def)
  show "located l'" if "tkType t \<noteq> TokenLiteralString" "located l"
    using that k located_shift [of l k] by simp
qed

lemma NextToken_cases:
  assumes "lxPos l \<le> length (lxInput l)"
  shows "\<exists>l1. skips l l1 \<and>
     (if tkType (fst (NextToken l)) = TokenEOF
      then NextToken l = (eofToken l1, l1) \<and> \<not> hasMore l1
      else scans l1 (fst (NextToken l)) (snd (NextToken l)))"
  using assms
proof (induction l rule: NextToken.induct)
  case (1 l)
  define l1 where "l1 = skipWhitespace l"
  have s: "skips l l1" "hasMore l1 \<longrightarrow> notEOL (cur l1)"
    using skipWhitespace_skips [OF "1.prems"] by (simp_all add: l1_def)
  show ?case
  proof (cases "hasMore l1")
    case False
    then have "NextToken l = (eofToken l1, l1)"
      by (subst NextToken.simps) (simp add: l1_def Let_def)
    with s(1) False show ?thesis
      by (intro exI [of _ l1]) (simp add: eofToken_def)
  next
    case True
    show ?thesis
    proof (cases "scanToken l1")
      case None
      then have n: "NextToken l = NextToken (advanceByte l1)"
        using True by (subst NextToken.simps) (simp add: l1_def Let_def)
      have a: "skips l (advanceByte l1)"
        using s skips_moves(1) [OF True] True skips_trans by blast
      from "1.IH" [OF l1_def] True None skips_bound [OF a] a show ?thesis
        unfolding n by (meson skips_trans)
    next
      case (Some r)
      then have n: "NextToken l = r"
        using True by (subst NextToken.simps) (simp add: l1_def Let_def)
      have "scans l1 (fst r) (snd r)"
        using scanToken_scans [OF True] Some s(2) True by simp
      then show ?thesis using s(1) n scans_facts(7) by auto
    qed
  qed
qed

section \<open>Token streams\<close>

lemma NextToken_elim:
  assumes "lxPos l \<le> length (lxInput l)" "NextToken l = (t, l')"
  obtains l1 where "skips l l1"
    "if tkType t = TokenEOF then NextToken l = (eofToken l1, l1) \<and> \<not> hasMore l1 else scans l1 t l'"
  using NextToken_cases [OF assms(1)] unfolding assms(2) fst_conv snd_conv by blast

lemma NextToken_facts:
  assumes "lxPos l \<le> length (lxInput l)" "NextToken l = (t, l')"
  shows "lxInput l' = lxInput l" "lxPos l' \<le> length (lxInput l')" "lxPos l \<le> lxPos l'"
    "tkType t \<noteq> TokenEOF \<Longrightarrow> lxPos l < lxPos l'"
    "tkType t = TokenEOF \<Longrightarrow> lxPos l' = length (lxInput l) \<and> tkLiteral t = []"
    "tkType t \<noteq> TokenError" "tkType t \<noteq> TokenSQLOpaque"
proof -
  obtain l1 where l1: "skips l l1" "if tkType t = TokenEOF
      then NextToken l = (eofToken l1, l1) \<and> \<not> hasMore l1
      else scans l1 t l'"
    using NextToken_elim [OF assms] .
  then show "lxInput l' = lxInput l" "lxPos l' \<le> length (lxInput l')" "lxPos l \<le> lxPos l'"
    "tkType t \<noteq> TokenEOF \<Longrightarrow> lxPos l < lxPos l'"
    "tkType t = TokenEOF \<Longrightarrow> lxPos l' = length (lxInput l) \<and> tkLiteral t = []"
    using assms(2) scans_facts [of l1 t l']
    by (auto simp: skips_def hasMore_def eofToken_def split: if_splits)
  show "tkType t \<noteq> TokenError" "tkType t \<noteq> TokenSQLOpaque"
    using l1 by (auto simp: scans_def split: if_splits)
qed

text \<open>The token sequences a source produces, and where the cursor is after them.\<close>

inductive lexes :: "string \<Rightarrow> Token list \<Rightarrow> Lexer \<Rightarrow> bool" for s where
  lexes_start: "lexes s [] (NewLexer s)"
| lexes_token: "lexes s ts l \<Longrightarrow> NextToken l = (t, l') \<Longrightarrow> tkType t \<noteq> TokenEOF \<Longrightarrow>
    lexes s (ts @ [t]) l'"

definition oneLine :: "Token \<Rightarrow> bool" where
  "oneLine t \<longleftrightarrow> list_all notEOL (tkLiteral t)"

lemma lexes_bound: "lexes s ts l \<Longrightarrow> lxInput l = s \<and> lxPos l \<le> length s \<and> length ts \<le> lxPos l"
proof (induction rule: lexes.induct)
  case (lexes_token ts l t l')
  then show ?case using NextToken_facts [of l t l'] by auto
qed (simp add: NewLexer_def)

lemma spans_oneLine:
  assumes "spans k (\<lambda>c. True) l" "list_all notEOL (slice (lxPos l) (lxPos l + k) (lxInput l))"
  shows "spans k notEOL l"
  using assms by (auto simp: spans_def list_all_length slice_def)

lemma scans_located:
  assumes "scans l t l'" "located l" "tkType t = TokenLiteralString \<longrightarrow> oneLine t"
  shows "located l'"
proof (cases "tkType t = TokenLiteralString")
  case True
  obtain k where k: "l' = (shift k l)\<lparr>lxLineHasNonWhitespace := True\<rparr>" "spans k (\<lambda>c. True) l"
    "literalOf (tkType t) (slice (lxPos l) (lxPos l + k) (lxInput l)) (tkLiteral t)"
    using assms(1) True by (auto simp: scans_def)
  have "notEOL QUOTE" by (simp add: notEOL_def)
  then have "spans k notEOL l"
    using k(2,3) assms(3) True spans_oneLine [OF k(2)] by (auto simp: oneLine_def)
  then show ?thesis using k(1) assms(2) located_shift by simp
qed (use assms scans_facts(8) in blast)

lemma lexes_located:
  assumes "lexes s ts l" "\<forall>t\<in>set ts. tkType t = TokenLiteralString \<longrightarrow> oneLine t"
  shows "located l"
  using assms
proof (induction rule: lexes.induct)
  case lexes_start
  then show ?case by (simp add: located_NewLexer)
next
  case (lexes_token ts l t l')
  then have "located l" by simp
  moreover have "lxPos l \<le> length (lxInput l)" using lexes_bound lexes_token by blast
  ultimately obtain l1 where "located l1" "scans l1 t l'"
    using NextToken_cases [of l] lexes_token by (fastforce simp: skips_def)
  then show ?case using scans_located lexes_token(5) by simp
qed

text \<open>
  C7. Exact tokens. Whatever tokens the lexer has returned so far, if none of them is a string
  literal with a line end inside, the next token's line and column are those of the byte it
  starts at, and its literal is the text from there to the cursor (names upper-cased, an
  unterminated string without its opening quote).
\<close>

theorem NextToken_exact:
  assumes "lexes s ts l" "\<forall>t\<in>set ts. tkType t = TokenLiteralString \<longrightarrow> oneLine t"
    and "NextToken l = (t, l')"
  shows "if tkType t = TokenEOF
         then lxPos l' = length s \<and> locate s (length s) = (tkLine t, tkColumn t)
         else \<exists>start. lxPos l \<le> start \<and> start < lxPos l' \<and> lxPos l' \<le> length s \<and>
                locate s start = (tkLine t, tkColumn t) \<and>
                literalOf (tkType t) (slice start (lxPos l') s) (tkLiteral t)"
proof -
  have l: "located l" "lxInput l = s" "lxPos l \<le> length (lxInput l)"
    using lexes_located lexes_bound assms(1,2) by auto
  obtain l1 where l1: "skips l l1" "if tkType t = TokenEOF
      then NextToken l = (eofToken l1, l1) \<and> \<not> hasMore l1 else scans l1 t l'"
    using NextToken_elim [OF l(3) assms(3)] .
  have l1': "locate s (lxPos l1) = (lxLine l1, lxCol l1)" "lxInput l1 = s" "lxPos l \<le> lxPos l1"
    using l1(1) l located_locate [of l1] by (auto simp: skips_def)
  show ?thesis
  proof (cases "tkType t = TokenEOF")
    case True
    then show ?thesis
      using l1(2) l1' assms(3) skips_bound [OF l1(1)] by (auto simp: eofToken_def hasMore_def)
  next
    case False
    with l1(2) have sc: "scans l1 t l'" by simp
    moreover have "literalOf (tkType t) (slice (lxPos l1) (lxPos l') s) (tkLiteral t)"
      using sc l1'(2) by (auto simp: scans_def)
    ultimately show ?thesis
      using False l1' scans_facts [OF sc] by (auto intro!: exI [of _ "lxPos l1"])
  qed
qed


section \<open>Opaque SQL spans\<close>

lemma drop_cur:
  assumes "drop (lxPos l) (lxInput l) = c # r"
  shows "hasMore l" "cur l = c" "drop (Suc (lxPos l)) (lxInput l) = r"
proof -
  show h: "hasMore l"
    using assms by (metis drop_eq_Nil hasMore_def list.distinct(1) not_less)
  then show "cur l = c" "drop (Suc (lxPos l)) (lxInput l) = r"
    using assms Cons_nth_drop_Suc [of "lxPos l" "lxInput l"] by (auto simp: cur_def hasMore_def)
qed

lemma nextIs_drop:
  assumes "drop (lxPos l) (lxInput l) = c # r"
  shows "nextIs l P \<longleftrightarrow> r \<noteq> [] \<and> P (hd r)"
  using drop_cur(3) [OF assms]
  by (auto simp: nextIs_def hd_drop_conv_nth drop_eq_Nil simp flip: drop_cur(3) [OF assms])

lemma consumeCR_drop:
  assumes "drop (lxPos l) (lxInput l) = CR # r"
  shows "drop (lxPos (consumeCR l)) (lxInput l) = (if r \<noteq> [] \<and> hd r = LF then tl r else r)"
    and "lxInput (consumeCR l) = lxInput l"
    and "lxPos (consumeCR l) = (if r \<noteq> [] \<and> hd r = LF then lxPos l + 2 else lxPos l + 1)"
  using nextIs_drop [OF assms, of "\<lambda>c. c = LF"] drop_cur(3) [OF assms]
  by (auto simp: consumeCR_def Let_def hasMore_def cur_def nextIs_def tl_drop drop_Suc
      simp flip: drop_cur(3) [OF assms])

text \<open>The loop at the end of a body: at the end of the input, or at the closing brackets.\<close>

lemma opaqueLoop_end:
  assumes "lxPos l \<le> length (lxInput l)" "drop (lxPos l) (lxInput l) = rest"
    and "rest = [] \<or> (\<exists>r. rest = ''>>'' @ r)"
  shows "\<exists>l'. opaqueLoop a l = ((slice a (lxPos l) (lxInput l), rest = []), l') \<and>
           lxInput l' = lxInput l \<and> lxPos l' = lxPos l + length (take 2 rest) \<and> (located l \<longrightarrow> located l')"
proof (cases rest)
  case Nil
  then have "lxPos l = length (lxInput l)" using assms by simp
  then show ?thesis using Nil by (subst opaqueLoop.simps) (simp add: hasMore_def slice_def)
next
  case Cons
  then obtain r where r: "drop (lxPos l) (lxInput l) = CHR ''>'' # CHR ''>'' # r" "rest = CHR ''>'' # CHR ''>'' # r"
    using assms by auto
  note d = drop_cur [OF r(1)]
  have n: "nextIs l (\<lambda>c. c = CHR ''>'')" using nextIs_drop [OF r(1)] by simp
  have "drop (lxPos (advanceByte l)) (lxInput (advanceByte l)) = CHR ''>'' # r"
    using d(3) by (simp add: advanceByte_def)
  note d1 = drop_cur [OF this]
  have loc: "located (shift 2 l)" if "located l"
    using located_advanceByte [OF located_advanceByte [OF that d(1)] d1(1)] d(2) d1(2)
      advanceByte_shift [of 0 l] advanceByte_shift [of 1 l]
    by (simp add: notEOL_def numeral_2_eq_2)
  show ?thesis
    using d n r(2) loc by (subst opaqueLoop.simps) (auto simp: Let_def shift_def)
qed

text \<open>One turn inside a body takes one character, or a line end of two, and stays inside.\<close>

lemma opaqueLoop_turn:
  assumes dr: "drop (lxPos l) (lxInput l) = c # b @ rest"
    and inside: "\<not> contains ((c # b) @ take 1 rest) ''>>''" and closed: "rest = [] \<or> (\<exists>r. rest = ''>>'' @ r)"
  shows "\<exists>l2 n. opaqueLoop a l = opaqueLoop a l2 \<and> skips l l2 \<and> lxPos l2 = lxPos l + n \<and> 0 < n \<and> n \<le> Suc (length b) \<and>
           drop (lxPos l2) (lxInput l) = drop n (c # b) @ rest \<and> \<not> contains (drop n (c # b) @ take 1 rest) ''>>''"
proof -
  note d = drop_cur [OF dr]
  have nc: "\<not> contains (b @ take 1 rest) ''>>''" using inside by simp
  consider "c = CR" | "c = LF" | "notEOL c" by (auto simp: notEOL_def)
  then show ?thesis
  proof cases
    case 1
    have "skips l (consumeCR l)" using skips_moves(3) d 1 by simp
    moreover have "\<not> (b = [] \<and> rest \<noteq> [] \<and> hd rest = LF)" using closed by auto
    moreover have "contains (b @ take 1 rest) ''>>''" if "contains (tl b @ take 1 rest) ''>>''" "b \<noteq> []"
      using that by (cases b) auto
    moreover have "opaqueLoop a l = opaqueLoop a (consumeCR l)"
      using 1 d by (subst opaqueLoop.simps) simp
    ultimately show ?thesis
      using nc consumeCR_drop [of l "b @ rest"] dr 1
      by (intro exI [of _ "consumeCR l"] exI [of _ "if b \<noteq> [] \<and> hd b = LF then 2 else 1"])
         (cases b; auto split: if_splits)
  next
    case 2
    then have "skips l (consumeLF l)" using skips_moves(2) d by simp
    moreover have "opaqueLoop a l = opaqueLoop a (consumeLF l)"
      using 2 d by (subst opaqueLoop.simps) simp
    ultimately show ?thesis
      using d(3) nc by (intro exI [of _ "consumeLF l"] exI [of _ 1]) (simp add: consumeLF_def)
  next
    case 3
    then have "skips l (advanceByte l)" using skips_moves(1) d by simp
    moreover have "\<not> (c = CHR ''>'' \<and> nextIs l (\<lambda>c. c = CHR ''>''))"
      using inside closed nextIs_drop [OF dr, of "\<lambda>c. c = CHR ''>''"]
      by (cases b) (auto simp: hasPrefix_def)
    then have "opaqueLoop a l = opaqueLoop a (advanceByte l)"
      using 3 d by (subst opaqueLoop.simps) (auto simp: notEOL_def)
    ultimately show ?thesis
      using d(3) nc by (intro exI [of _ "advanceByte l"] exI [of _ 1]) (simp add: advanceByte_def)
  qed
qed

lemma opaqueLoop_body:
  assumes "lxPos l \<le> length (lxInput l)" "drop (lxPos l) (lxInput l) = body @ rest"
    and "\<not> contains (body @ take 1 rest) ''>>''"
    and "rest = [] \<or> (\<exists>r. rest = ''>>'' @ r)"
  shows "\<exists>l'. opaqueLoop a l = ((slice a (lxPos l + length body) (lxInput l), rest = []), l') \<and>
           lxInput l' = lxInput l \<and> lxPos l' = lxPos l + length body + length (take 2 rest) \<and>
           (located l \<longrightarrow> located l')"
  using assms
proof (induction "length body" arbitrary: body l rule: less_induct)
  case less
  note IH = less.hyps and prems = less.prems
  show ?case
  proof (cases body)
    case Nil
    then show ?thesis using opaqueLoop_end [OF prems(1) _ prems(4), of a] prems(2) by simp
  next
    case (Cons c b)
    from opaqueLoop_turn [of l c b rest a] prems Cons obtain l2 n where
      turn: "opaqueLoop a l = opaqueLoop a l2" and skip: "skips l l2"
      and n: "lxPos l2 = lxPos l + n" "0 < n" "n \<le> length body"
      and later: "drop (lxPos l2) (lxInput l) = drop n body @ rest" "\<not> contains (drop n body @ take 1 rest) ''>>''"
      by auto
    have "lxInput l2 = lxInput l" "lxPos l2 \<le> length (lxInput l2)" "located l \<longrightarrow> located l2"
      using skip by (auto simp: skips_def)
    moreover have "length (drop n body) < length body" using n by simp
    ultimately show ?thesis
      using turn n later IH [of "drop n body" l2] prems(4) by simp blast
  qed
qed


lemma ScanOpaqueSpan_body:
  assumes "drop (lxPos l) (lxInput l) = ''<<'' @ body @ rest"
    and "\<not> contains (body @ take 1 rest) ''>>''" "rest = [] \<or> (\<exists>r. rest = ''>>'' @ r)"
  shows "\<exists>l'. ScanOpaqueSpan l = ((\<lparr>tkType = TokenSQLOpaque, tkLiteral = body, tkColumn = lxCol l,
                tkLine = lxLine l\<rparr>, rest = []), l') \<and>
           lxInput l' = lxInput l \<and> drop (lxPos l') (lxInput l') = drop 2 rest \<and>
           (located l \<longrightarrow> located l')"
proof -
  have dr: "drop (lxPos l) (lxInput l) = CHR ''<'' # CHR ''<'' # body @ rest" using assms(1) by simp
  note d = drop_cur [OF dr]
  have s: "skipWhitespace l = l"
    using d by (subst skipWhitespace.simps) (simp add: Let_def)
  have "drop (lxPos (advanceByte l)) (lxInput (advanceByte l)) = CHR ''<'' # body @ rest"
    using d(3) by (simp add: advanceByte_def)
  note d1 = drop_cur [OF this]
  define l1 where "l1 = (shift 2 l)\<lparr>lxLineHasNonWhitespace := True\<rparr>"
  have d2: "drop (lxPos l1) (lxInput l1) = body @ rest"
    using d1(3) by (simp add: l1_def advanceByte_def shift_def)
  have b: "lxPos l1 \<le> length (lxInput l1)" and
    n: "Suc (lxPos l) < length (lxInput l)" "lxInput l ! lxPos l = CHR ''<''"
       "lxInput l ! Suc (lxPos l) = CHR ''<''"
    using d(1,2) d1(1,2) by (auto simp: hasMore_def cur_def advanceByte_def l1_def shift_def)
  have loc: "located l1" if "located l"
    using located_advanceByte [OF located_advanceByte [OF that d(1)] d1(1)] d(2) d1(2)
      advanceByte_shift [of 0 l] advanceByte_shift [of 1 l]
    by (simp add: notEOL_def numeral_2_eq_2 l1_def)
  obtain l' where l': "opaqueLoop (lxPos l1) l1
      = ((slice (lxPos l1) (lxPos l1 + length body) (lxInput l1), rest = []), l')"
    "lxInput l' = lxInput l1" "lxPos l' = lxPos l1 + length body + length (take 2 rest)"
    "located l1 \<longrightarrow> located l'"
    using opaqueLoop_body [OF b d2 assms(2,3)] by blast
  have "slice (lxPos l1) (lxPos l1 + length body) (lxInput l1) = body"
    by (simp add: slice_def d2)
  moreover have "drop (lxPos l') (lxInput l')
      = drop (length (take 2 rest)) (drop (length body) (drop (lxPos l1) (lxInput l1)))"
    by (simp add: l'(2,3) add_ac)
  then have "drop (lxPos l') (lxInput l') = drop 2 rest"
    using assms(3) by (auto simp: d2)
  moreover have "ScanOpaqueSpan l = ((\<lparr>tkType = TokenSQLOpaque,
      tkLiteral = slice (lxPos l1) (lxPos l1 + length body) (lxInput l1), tkColumn = lxCol l,
      tkLine = lxLine l\<rparr>, rest = []), l')"
    using l'(1) n by (simp add: ScanOpaqueSpan_def s Let_def l1_def shift_def)
  moreover have "lxInput l' = lxInput l" by (simp add: l'(2) l1_def)
  ultimately show ?thesis
    using l'(4) loc by auto
qed

lemma locateState_pos: "locateState s n = (ln, col, cr) \<Longrightarrow> 1 \<le> ln \<and> 1 \<le> col"
proof (induction n arbitrary: ln col cr)
  case (Suc n)
  obtain ln0 col0 cr0 where 0: "locateState s n = (ln0, col0, cr0)" by (metis prod.exhaust)
  show ?case
  proof (cases "n < length s")
    case True
    then show ?thesis
      using Suc.IH [OF 0] Suc.prems 0 by (auto simp: locateState_Suc split: if_splits)
  next
    case False
    then show ?thesis using Suc by (simp add: locateState_def)
  qed
qed (simp add: locateState_def)

text \<open>
  C29. Opaque SQL spans. As long as the lexer has only been asked for tokens before, and none of them was a
  string over several lines, when the parser's lookahead is the first \<open><\<close> of \<open><<\<close>, re-scanning from
  it returns the text up to the first \<open>>>\<close> (or, without one, to the end of the source, and says
  so), at the position of the opener, leaves the cursor right behind \<open>>>\<close>, and reports the line
  and column of the cursor.
\<close>

theorem ScanOpaqueSpanFrom_exact:
  assumes "lexes s ts l" "\<forall>t\<in>set ts. tkType t = TokenLiteralString \<longrightarrow> oneLine t"
    and "NextToken l = (t, l')" "tkType t = TokenOperator" "tkLiteral t = ''<''"
    and "drop (lxPos l') s = ''<'' @ body @ rest" "\<not> contains (body @ take 1 rest) ''>>''"
    and "rest = [] \<or> (\<exists>r. rest = ''>>'' @ r)"
  shows "case ScanOpaqueSpanFrom t l' of (os, l'') \<Rightarrow>
           osToken os = \<lparr>tkType = TokenSQLOpaque, tkLiteral = body, tkColumn = tkColumn t,
                         tkLine = tkLine t\<rparr> \<and>
           osUnterminated os = (rest = []) \<and> drop (lxPos l'') s = drop 2 rest \<and>
           locate s (lxPos l'') = (osEndLine os, osEndCol os)"
proof -
  have l: "located l" "lxInput l = s" "lxPos l \<le> length (lxInput l)"
    using lexes_located lexes_bound assms(1,2) by auto
  obtain l1 where l1: "skips l l1" "scans l1 t l'"
    using NextToken_elim [OF l(3) assms(3)] assms(4) by auto
  then have l1': "located l1" "lxInput l1 = s" using l by (auto simp: skips_def)
  obtain k where k: "l' = (shift k l1)\<lparr>lxLineHasNonWhitespace := True\<rparr>"
    "slice (lxPos l1) (lxPos l1 + k) s = ''<''" "tkLine t = lxLine l1" "tkColumn t = lxCol l1"
    "lxPos l1 + k \<le> length s" using l1(2) assms(4,5) l1'(2) by (auto simp: scans_def spans_def)
  have k1: "k = 1" using length_slice [of "lxPos l1 + k" s "lxPos l1"] k(2,5) by simp
  define l0 where "l0 = l1\<lparr>lxLineHasNonWhitespace := True\<rparr>"
  have "1 \<le> lxCol l1" using l1'(1) locateState_pos by (auto simp: located_def)
  then have rescan: "ScanOpaqueSpanFrom t l' = (let ((tok, u), l2) = ScanOpaqueSpan l0 in
      (\<lparr>osToken = tok, osEndLine = lxLine l2, osEndCol = lxCol l2, osUnterminated = u\<rparr>, l2))"
    by (simp add: ScanOpaqueSpanFrom_def assms(5) k(1) k1 shift_def l0_def)
  have "drop (lxPos l0) (lxInput l0) = slice (lxPos l1) (lxPos l1 + 1) s @ drop (lxPos l1 + 1) s"
    using append_take_drop_id [of 1 "drop (lxPos l1) s"] by (simp add: l0_def l1'(2) slice_def)
  also have "\<dots> = ''<<'' @ body @ rest"
    using k(2) k1 assms(6) by (simp add: k(1) shift_def)
  finally obtain l2 where l2: "ScanOpaqueSpan l0 = ((\<lparr>tkType = TokenSQLOpaque, tkLiteral = body,
      tkColumn = lxCol l0, tkLine = lxLine l0\<rparr>, rest = []), l2)"
    "lxInput l2 = lxInput l0" "drop (lxPos l2) (lxInput l2) = drop 2 rest" "located l2"
    using ScanOpaqueSpan_body [OF _ assms(7,8), of l0] l1'(1) by (auto simp: l0_def)
  show ?thesis
    using located_locate [OF l2(4)] l2(1-3) k(3,4) l1'(2) unfolding rescan
    by (simp add: l0_def)
qed

lemma NextToken_example:
  "NextToken (NewLexer ''  #a'') =
     (\<lparr>tkType = TokenIdentifier, tkLiteral = ''#A'', tkColumn = 3, tkLine = 1\<rparr>,
      \<lparr>lxInput = ''  #a'', lxPos = 4, lxLine = 1, lxCol = 5, lxLineHasNonWhitespace = True\<rparr>)"
  by code_simp

lemma NextToken_exact_witness:
  "\<exists>start<4. locate ''  #a'' start = (1, 3) \<and> uppercase (slice start 4 ''  #a'') = ''#A''"
  using NextToken_exact [OF lexes_start _ NextToken_example] by auto

lemma NextToken_span_example:
  "NextToken (NewLexer ''<<a>b>>.'') =
     (\<lparr>tkType = TokenOperator, tkLiteral = ''<'', tkColumn = 1, tkLine = 1\<rparr>,
      \<lparr>lxInput = ''<<a>b>>.'', lxPos = 1, lxLine = 1, lxCol = 2, lxLineHasNonWhitespace = True\<rparr>)"
  by code_simp

lemma ScanOpaqueSpanFrom_exact_witness:
  "case ScanOpaqueSpanFrom (fst (NextToken (NewLexer ''<<a>b>>.'')))
     (snd (NextToken (NewLexer ''<<a>b>>.''))) of (os, l'') \<Rightarrow>
     tkLiteral (osToken os) = ''a>b'' \<and> \<not> osUnterminated os \<and> drop (lxPos l'') ''<<a>b>>.'' = ''.''"
proof -
  have "\<not> contains (''a>b'' @ take 1 ''>>.'') ''>>''" by code_simp
  then show ?thesis
    using ScanOpaqueSpanFrom_exact [OF lexes_start _ NextToken_span_example, of "''a>b''" "''>>.''"]
    by (simp add: NextToken_span_example split: prod.splits)
qed

end
