(* ===== verification/Ast.thy ===== *)
theory Ast
  imports Lexer_Facts
begin

text \<open>
  The parse tree, \<open>internal/analysis/natural/ast.go\<close>. Every node has a start and an end; the
  statements that hold a target share the record \<open>TargetStatement\<close>, those whose target may be
  quoted extend it, as the Go structs repeat these fields. The loop statements hold the nodes
  of their body, so they are datatypes, mutually recursive with \<open>Node\<close>; \<open>DataField\<close> holds its
  children.
\<close>

section \<open>Statements\<close>

record OperandRef =
  orName :: string
  orRange :: Range
  orHostVar :: bool

record Statement =
  StartPos :: Position
  EndPos :: Position

record TargetStatement = Statement +
  Target :: string
  TargetRange :: Range

type_synonym PerformStatement = TargetStatement
type_synonym ReadStatement = TargetStatement
type_synonym StoreStatement = TargetStatement
type_synonym FindStatement = TargetStatement
type_synonym GetStatement = TargetStatement

record LiteralTargetStatement = TargetStatement +
  TargetIsLiteral :: bool

type_synonym IncludeStatement = LiteralTargetStatement
type_synonym FetchStatement = LiteralTargetStatement

record CallStatement = LiteralTargetStatement +
  Parameters :: "string list"

record RunStatement = LiteralTargetStatement +
  Library :: string

record LabelStatement = Statement +
  Label :: string

type_synonym RecordUpdateStatement = LabelStatement
type_synonym RecordDeleteStatement = LabelStatement
type_synonym CommitStatement = Statement
type_synonym RollbackStatement = Statement

record WhereStatement = Statement +
  WhereOperands :: "OperandRef list"

record SelectSingleStatement = WhereStatement +
  Columns :: "OperandRef list"
  IntoTargets :: "OperandRef list"
  FromTables :: "OperandRef list"

record InsertStatement = Statement +
  IntoTable :: "OperandRef list"
  Values :: "OperandRef list"

record SQLUpdateStatement = WhereStatement +
  UpdateTable :: "OperandRef list"
  SetTargets :: "OperandRef list"

record SQLDeleteStatement = WhereStatement +
  FromTable :: "OperandRef list"

record MergeStatement = Statement +
  MergeTable :: "OperandRef list"

record CallDBProcStatement = Statement +
  ProcName :: string
  ProcNameRange :: Range
  ProcNameIsLiteral :: bool

record ProcessSQLStatement = Statement +
  DDMName :: string
  DDMNameRange :: Range
  Body :: string
  BodyRange :: Range

record WorkFileDefinition = Statement +
  WorkFileNumber :: int
  WorkFileName :: string
  WorkFileNameRange :: Range

text \<open>The statement nodes a loop body can hold: the results of \<open>firstStatementNode\<close>.\<close>

datatype Node =
    NodeCall CallStatement | NodePerform PerformStatement | NodeInclude IncludeStatement
  | NodeFetch FetchStatement | NodeRun RunStatement | NodeRead ReadStatement
  | NodeStore StoreStatement | NodeCommit CommitStatement | NodeRollback RollbackStatement
  | NodeCallDBProc CallDBProcStatement | NodeSelect SelectStatement
  | NodeSelectSingle SelectSingleStatement | NodeReadResultSet ReadResultSetStatement
  | NodeProcessSQL ProcessSQLStatement | NodeInsert InsertStatement
  | NodeSQLUpdate SQLUpdateStatement | NodeSQLDelete SQLDeleteStatement
  | NodeMerge MergeStatement
and SelectStatement =
    SelectStatement (selHead: SelectSingleStatement) (selBody: "Node list")
and ReadResultSetStatement =
    ReadResultSetStatement (rrsSpan: Statement) (ResultSetOperand: OperandRef) (rrsBody: "Node list")

section \<open>Definitions\<close>

record ArrayBound =
  abLower :: int
  abUpper :: int
  abUpperUnbounded :: bool

datatype DataField =
  DataField (dfStartPos: Position) (dfEndPos: Position) (dfLevel: int) (dfName: string)
    (dfType: string) (dfDimensions: "ArrayBound list") (dfRedefines: string)
    (dfChildren: "DataField list") (dfNameRange: Range) (dfViewOfDDM: string)

record DataSection = Statement +
  SectionKind :: string
  SectionFields :: "DataField list"
  Using :: string
  UsingRange :: Range

record NaturalMap = Statement +
  MapName :: string
  MapFields :: "DataField list"

text \<open>The field \<open>DataSection\<close> of the Go struct is never set, so it is left out.\<close>

record Subroutine = Statement +
  SubroutineName :: string
  SubroutineNameRange :: Range

section \<open>The program\<close>

record Program = Statement +
  Diagnostics :: "Diagnostic list"
  Subroutines :: "Subroutine list"
  DataSections :: "DataSection list"
  Includes :: "IncludeStatement list"
  Calls :: "CallStatement list"
  Fetches :: "FetchStatement list"
  Runs :: "RunStatement list"
  Performs :: "PerformStatement list"
  Maps :: "NaturalMap list"
  Reads :: "ReadStatement list"
  Stores :: "StoreStatement list"
  Finds :: "FindStatement list"
  Gets :: "GetStatement list"
  RecordUpdates :: "RecordUpdateStatement list"
  RecordDeletes :: "RecordDeleteStatement list"
  SelectSingles :: "SelectSingleStatement list"
  Selects :: "SelectStatement list"
  Inserts :: "InsertStatement list"
  SQLUpdates :: "SQLUpdateStatement list"
  SQLDeletes :: "SQLDeleteStatement list"
  Merges :: "MergeStatement list"
  Commits :: "CommitStatement list"
  Rollbacks :: "RollbackStatement list"
  CallDBProcs :: "CallDBProcStatement list"
  ProcessSQLs :: "ProcessSQLStatement list"
  ReadResultSets :: "ReadResultSetStatement list"
  WorkFiles :: "WorkFileDefinition list"

definition emptyProgram :: "Position \<Rightarrow> Program" where
  "emptyProgram start =
     \<lparr>StartPos = start, EndPos = zeroPosition, Diagnostics = [], Subroutines = [],
      DataSections = [], Includes = [], Calls = [], Fetches = [], Runs = [], Performs = [],
      Maps = [], Reads = [], Stores = [], Finds = [], Gets = [], RecordUpdates = [],
      RecordDeletes = [], SelectSingles = [], Selects = [], Inserts = [], SQLUpdates = [],
      SQLDeletes = [], Merges = [], Commits = [], Rollbacks = [], CallDBProcs = [],
      ProcessSQLs = [], ReadResultSets = [], WorkFiles = []\<rparr>"

end
