(* ===== verification/Parser.thy ===== *)
theory Parser
  imports Ast
begin

text \<open>
  The parser's state and the operations every statement uses, from \<open>parser.go\<close>: the one-token
  lookahead, the tests on it, diagnostics, and the recovery loops. A parse method takes the
  state and returns the new one beside its result.

  Every loop of the parser ends because it consumes tokens: \<open>psize\<close> is what is left to
  consume, \<open>follows p q\<close> says that \<open>q\<close> is \<open>p\<close> some tokens and diagnostics later.
\<close>

named_theorems parser_steps \<open>that an operation on the state follows its argument\<close>
named_theorems parser_pairs \<open>the same for operations that also return a value\<close>

record Parser =
  paLexer :: Lexer
  paCurrent :: Token
  paPrev :: Token
  paDiagnostics :: "Diagnostic list"

section \<open>Lookahead\<close>

definition NewParser :: "Lexer \<Rightarrow> Parser" where
  "NewParser l =
     (let (t, l') = NextToken l
      in \<lparr>paLexer = l', paCurrent = t, paPrev = t, paDiagnostics = []\<rparr>)"

definition advance :: "Parser \<Rightarrow> Parser" where
  "advance p =
     (let (t, l) = NextToken (paLexer p)
      in p\<lparr>paLexer := l, paCurrent := t, paPrev := paCurrent p\<rparr>)"

abbreviation curType :: "Parser \<Rightarrow> TokenType" where "curType p \<equiv> tkType (paCurrent p)"
abbreviation curLiteral :: "Parser \<Rightarrow> string" where "curLiteral p \<equiv> tkLiteral (paCurrent p)"
abbreviation curLine :: "Parser \<Rightarrow> int" where "curLine p \<equiv> tkLine (paCurrent p)"
abbreviation curColumn :: "Parser \<Rightarrow> int" where "curColumn p \<equiv> tkColumn (paCurrent p)"

abbreviation atEOF :: "Parser \<Rightarrow> bool" where "atEOF p \<equiv> curType p = TokenEOF"

definition tokenPos :: "Token \<Rightarrow> Position" where
  "tokenPos t = Position (tkLine t) (tkColumn t)"

definition currentPos :: "Parser \<Rightarrow> Position" where
  "currentPos p = Position (curLine p) (curColumn p)"

definition prevPos :: "Parser \<Rightarrow> Position" where
  "prevPos p = Position (tkLine (paPrev p)) (tkColumn (paPrev p))"

definition tokenRange :: "Token \<Rightarrow> Range" where
  "tokenRange tok =
     Range (Position (tkLine tok) (tkColumn tok))
           (Position (tkLine tok) (tkColumn tok + int (length (tkLiteral tok)) - 1))"

definition addDiagnostic ::
  "string \<Rightarrow> Position \<Rightarrow> Position \<Rightarrow> DiagnosticSeverity \<Rightarrow> Parser \<Rightarrow> Parser" where
  "addDiagnostic message start endPos severity p =
     p\<lparr>paDiagnostics := paDiagnostics p @
         [\<lparr>dgMessage = message, dgSeverity = severity, dgCode = DiagnosticCodeNone,
           dgRange = Range start endPos\<rparr>]\<rparr>"

text \<open>
  \<open>matches\<close> with a type and a literal, \<open>matchesLiteral\<close>, and \<open>matches\<close> with a type alone, which
  is \<open>curType p = ty\<close>.
\<close>

definition matches :: "TokenType \<Rightarrow> string \<Rightarrow> Parser \<Rightarrow> bool" where
  "matches ty lit p \<longleftrightarrow> curType p = ty \<and> curLiteral p = lit"

definition matchesLiteral :: "string list \<Rightarrow> Parser \<Rightarrow> bool" where
  "matchesLiteral lits p \<longleftrightarrow> curLiteral p \<in> set lits"

definition isNameToken :: "Parser \<Rightarrow> bool" where
  "isNameToken p \<longleftrightarrow> curType p = TokenIdentifier \<or> curType p = TokenKeyword"

definition isProgramBoundary :: "Parser \<Rightarrow> bool" where
  "isProgramBoundary p \<longleftrightarrow> matchesLiteral [''END'', ''END-DEFINE''] p"

definition statementKeywords :: "string list" where
  "statementKeywords =
     [''DEFINE'', ''CALLNAT'', ''PERFORM'', ''INCLUDE'', ''FETCH'', ''RUN'', ''READ'', ''FIND'',
      ''FINDNAT'', ''STORE'', ''GET'', ''COMMIT'', ''ROLLBACK'', ''CALLDBPROC'', ''SELECT'',
      ''INSERT'', ''UPDATE'', ''DELETE'', ''MERGE'', ''PROCESS'']"

definition isStatementKeyword :: "string \<Rightarrow> bool" where
  "isStatementKeyword literal \<longleftrightarrow> literal \<in> set statementKeywords"

definition atStatement :: "Parser \<Rightarrow> bool" where
  "atStatement p \<longleftrightarrow> curType p = TokenKeyword \<and> isStatementKeyword (curLiteral p)"

section \<open>Progress\<close>

definition psize :: "Parser \<Rightarrow> nat" where
  "psize p = remaining (paLexer p) + (if atEOF p \<and> curLiteral p = [] then 0 else 1)"

definition follows :: "Parser \<Rightarrow> Parser \<Rightarrow> bool" where
  "follows p q \<longleftrightarrow>
     psize q \<le> psize p \<and> lxInput (paLexer q) = lxInput (paLexer p) \<and>
     (\<exists>ds. paDiagnostics q = paDiagnostics p @ ds)"

lemma NextToken_remaining:
  assumes "NextToken l = (t, l')"
  shows "lxInput l' = lxInput l" "remaining l' \<le> remaining l"
    "tkType t \<noteq> TokenEOF \<Longrightarrow> remaining l' < remaining l"
    "tkType t = TokenEOF \<Longrightarrow> tkLiteral t = []"
proof -
  consider "lxPos l \<le> length (lxInput l)" | "\<not> hasMore l" "remaining l = 0"
    by (force simp: hasMore_def remaining_def)
  then have *: "lxInput l' = lxInput l \<and> remaining l' \<le> remaining l \<and>
      (tkType t \<noteq> TokenEOF \<longrightarrow> remaining l' < remaining l) \<and>
      (tkType t = TokenEOF \<longrightarrow> tkLiteral t = [])"
  proof cases
    case 1
    then show ?thesis using NextToken_facts [OF 1 assms] by (auto simp: remaining_def)
  next
    case 2
    then have "skipWhitespace l = l" by (subst skipWhitespace.simps) simp
    with 2 have "NextToken l = (eofToken l, l)" by (subst NextToken.simps) simp
    with assms show ?thesis by (auto simp: eofToken_def)
  qed
  from * show "lxInput l' = lxInput l" "remaining l' \<le> remaining l"
    "tkType t \<noteq> TokenEOF \<Longrightarrow> remaining l' < remaining l"
    "tkType t = TokenEOF \<Longrightarrow> tkLiteral t = []" by auto
qed

lemma follows_refl [parser_steps, simp]: "follows p p"
  by (simp add: follows_def)

lemma follows_trans: "follows p q \<Longrightarrow> follows q r \<Longrightarrow> follows p r"
  by (fastforce simp: follows_def)

lemma follows_psize: "follows p q \<Longrightarrow> psize q \<le> psize p"
  by (simp add: follows_def)

lemma psize_advance_cases:
  assumes "\<not> (atEOF p \<and> curLiteral p = [])"
  shows "psize (advance p) < psize p"
proof (cases "NextToken (paLexer p)")
  case (Pair t l)
  then show ?thesis
    using NextToken_remaining [OF Pair] assms by (auto simp: psize_def advance_def)
qed

lemma psize_advance: "\<not> atEOF p \<Longrightarrow> psize (advance p) < psize p"
  by (rule psize_advance_cases) simp

lemma psize_advance_le: "psize (advance p) \<le> psize p"
proof (cases "NextToken (paLexer p)")
  case (Pair t l)
  then show ?thesis
    using NextToken_remaining [OF Pair] by (auto simp: psize_def advance_def)
qed

lemma follows_advance: "follows p (advance p)"
proof -
  obtain t l where n: "NextToken (paLexer p) = (t, l)" by fastforce
  show ?thesis
    using NextToken_remaining(1) [OF n] psize_advance_le [of p]
    by (simp add: follows_def) (simp add: advance_def n)
qed

lemma follows_then_advance [parser_steps, simp]: "follows p q \<Longrightarrow> follows p (advance q)"
  by (rule follows_trans [OF _ follows_advance])

lemma follows_addDiagnostic [parser_steps, simp]:
  "follows p q \<Longrightarrow> follows p (addDiagnostic m s e sev q)"
  by (auto simp: follows_def addDiagnostic_def psize_def)

lemma follows_advance_trans: "follows (advance p) q \<Longrightarrow> follows p q"
  by (rule follows_trans [OF follows_advance])

lemma psize_advance_trans: "\<not> atEOF p \<Longrightarrow> follows (advance p) q \<Longrightarrow> psize q < psize p"
  using psize_advance follows_psize by fastforce

section \<open>Recovery loops\<close>

text \<open>A loop of the shape \<open>for p.current.Type != TokenEOF && !stop { p.advance() }\<close>.\<close>

function skipUntil :: "(Parser \<Rightarrow> bool) \<Rightarrow> Parser \<Rightarrow> Parser" where
  "skipUntil stop p = (if atEOF p \<or> stop p then p else skipUntil stop (advance p))"
  by pat_completeness auto
termination by (relation "measure (\<lambda>(_, p). psize p)") (auto intro: psize_advance)

declare skipUntil.simps [simp del]

lemma follows_skipUntil0: "follows p (skipUntil stop p)"
proof (induction stop p rule: skipUntil.induct)
  case (1 stop p)
  then show ?case
    by (subst skipUntil.simps) (auto intro: follows_advance_trans)
qed

lemma follows_skipUntil [parser_steps, simp]: "follows p q \<Longrightarrow> follows p (skipUntil stop q)"
  by (rule follows_trans [OF _ follows_skipUntil0])

lemma skipUntil_stops: "atEOF (skipUntil stop p) \<or> stop (skipUntil stop p)"
proof (induction stop p rule: skipUntil.induct)
  case (1 stop p)
  then show ?case by (subst (1 2) skipUntil.simps) auto
qed

definition loopTerminators :: "string list" where
  "loopTerminators = [''END-SELECT'', ''LOOP'', ''END-RESULT'']"

definition skipToNextStatement :: "Parser \<Rightarrow> Parser" where
  "skipToNextStatement p =
     skipUntil (\<lambda>q. curType q = TokenKeyword \<and>
                   (isStatementKeyword (curLiteral q) \<or> matchesLiteral loopTerminators q
                    \<or> isProgramBoundary q)) p"

definition skipToNextLoopBody :: "Parser \<Rightarrow> Parser" where
  "skipToNextLoopBody p = skipUntil (\<lambda>q. atStatement q \<or> matchesLiteral loopTerminators q) p"

definition skipSQLClause :: "Parser \<Rightarrow> Parser" where
  "skipSQLClause p =
     (let p1 = (if matchesLiteral [''GROUP'', ''HAVING'', ''ORDER''] p
                then (let q = advance p in if matchesLiteral [''BY''] q then advance q else q)
                else p)
      in skipUntil (\<lambda>q. matchesLiteral [''END-SELECT'', ''LOOP''] q \<or> isProgramBoundary q
                      \<or> atStatement q
                      \<or> matchesLiteral [''GROUP'', ''HAVING'', ''ORDER'', ''WHERE'', ''FROM'', ''INTO''] q)
           p1)"

text \<open>The parenthesised row limit that \<open>READ\<close>, \<open>FIND\<close> and \<open>GET\<close> skip on their line.\<close>

definition skipParens :: "int \<Rightarrow> Parser \<Rightarrow> Parser" where
  "skipParens startLine p =
     (if curLine p = startLine \<and> matches TokenPunctuation ''('' p
      then (let q = skipUntil (matches TokenPunctuation '')'') (advance p)
            in if matches TokenPunctuation '')'' q then advance q else q)
      else p)"

function labelLoop :: "string \<Rightarrow> Parser \<Rightarrow> string \<times> Parser" where
  "labelLoop b p =
     (if atEOF p \<or> matches TokenPunctuation '')'' p then (b, p)
      else labelLoop (b @ curLiteral p) (advance p))"
  by pat_completeness auto
termination by (relation "measure (\<lambda>(_, p). psize p)") (auto intro: psize_advance)

definition parseLabelParens :: "Parser \<Rightarrow> string \<times> Parser" where
  "parseLabelParens p =
     (if \<not> matches TokenPunctuation ''('' p then ([], p)
      else let (b, q) = labelLoop [] (advance p)
           in (b, if matches TokenPunctuation '')'' q then advance q else q))"

declare labelLoop.simps [simp del]

lemma follows_labelLoop0: "follows p (snd (labelLoop b p))"
proof (induction b p rule: labelLoop.induct)
  case (1 b p)
  then show ?case
    by (subst labelLoop.simps) (auto intro: follows_advance_trans)
qed

lemma follows_labelLoop [parser_pairs]: "labelLoop b q = (s, r) \<Longrightarrow> follows p q \<Longrightarrow> follows p r"
  using follows_labelLoop0 [of q b] by (auto intro: follows_trans)

lemma follows_skips [parser_steps, simp]:
  "follows p q \<Longrightarrow> follows p (skipToNextStatement q)"
  "follows p q \<Longrightarrow> follows p (skipToNextLoopBody q)"
  "follows p q \<Longrightarrow> follows p (skipSQLClause q)"
  "follows p q \<Longrightarrow> follows p (skipParens n q)"
  by (simp_all add: skipToNextStatement_def skipToNextLoopBody_def skipSQLClause_def skipParens_def
      Let_def parser_steps)

lemma follows_parseLabelParens [parser_pairs]:
  "parseLabelParens q = (s, r) \<Longrightarrow> follows p q \<Longrightarrow> follows p r"
  by (auto simp: parseLabelParens_def intro: parser_steps parser_pairs split: prod.splits if_splits)

section \<open>Literals\<close>

definition isTerminatedString :: "string \<Rightarrow> bool" where
  "isTerminatedString s \<longleftrightarrow> length s \<ge> 2 \<and> hd s = QUOTE \<and> last s = QUOTE"

definition unquoteString :: "string \<Rightarrow> string" where
  "unquoteString s =
     (if length s \<ge> 2 \<and> hd s = QUOTE \<and> last s = QUOTE then slice 1 (length s - 1) s else s)"

definition consumeStringTarget :: "Parser \<Rightarrow> string \<times> Parser" where
  "consumeStringTarget p =
     (let tok = paCurrent p;
          p1 = (if \<not> isTerminatedString (tkLiteral tok)
                then addDiagnostic ''Unterminated string literal'' (tokenPos tok) (tokenPos tok)
                       DiagnosticError p
                else p)
      in (unquoteString (tkLiteral tok), advance p1))"

lemma unquoteString_quoted [simp]: "unquoteString (QUOTE # s @ [QUOTE]) = s"
  by (simp add: unquoteString_def slice_def)

lemma follows_consumeStringTarget [parser_pairs]:
  "consumeStringTarget q = (s, r) \<Longrightarrow> follows p q \<Longrightarrow> follows p r"
  by (auto simp: consumeStringTarget_def Let_def intro: parser_steps parser_pairs split: if_splits)

end
