(* ===== verification/Parser_Fields.thy ===== *)
theory Parser_Fields
  imports Parser
begin

text \<open>
  \<open>DEFINE DATA\<close>, \<open>DEFINE SUBROUTINE\<close>, \<open>DEFINE MAP\<close> and \<open>DEFINE WORK FILE\<close>, from \<open>parser.go\<close>.
  The code keeps a stack of pointers to the fields that are still open and appends a new field
  to the children of the top one. Those fields are the rightmost branch of the forest built so
  far, so the model's stack holds their levels (top first), and \<open>attach\<close> follows the branch.
\<close>

section \<open>Formats and dimensions\<close>

definition needsGap :: "string \<Rightarrow> Parser \<Rightarrow> bool" where
  "needsGap spec p \<longleftrightarrow>
     spec \<noteq> [] \<and> tkLine (paPrev p) = curLine p \<and>
     curColumn p > tkColumn (paPrev p) + int (length (tkLiteral (paPrev p))) - 1 + 1"

function typeSpecLoop :: "string \<Rightarrow> nat \<Rightarrow> Parser \<Rightarrow> string \<times> Parser" where
  "typeSpecLoop spec depth p =
     (if atEOF p then (spec, p)
      else let spec1 = (if needsGap spec p then spec @ '' '' else spec) in
           if matches TokenPunctuation ''('' p
           then typeSpecLoop (spec1 @ curLiteral p) (depth + 1) (advance p)
           else if matches TokenPunctuation '')'' p
           then (if depth = 0 then (spec1, p)
                 else typeSpecLoop (spec1 @ curLiteral p) (depth - 1) (advance p))
           else typeSpecLoop (spec1 @ curLiteral p) depth (advance p))"
  by pat_completeness auto
termination by (relation "measure (\<lambda>(_, _, p). psize p)") (auto intro: psize_advance)

declare typeSpecLoop.simps [simp del]

definition parseTypeSpec :: "Parser \<Rightarrow> string \<times> Parser" where
  "parseTypeSpec p = typeSpecLoop [] 0 p"

definition parseDimension :: "string \<Rightarrow> ArrayBound" where
  "parseDimension dimStr =
     (case indexByte dimStr (CHR '':'') of
        Some i \<Rightarrow>
          let lowerStr = trimSpace (take i dimStr);
              upperStr = trimSpace (drop (i + 1) dimStr)
          in if upperStr = ''*''
             then \<lparr>abLower = fst (atoi lowerStr), abUpper = 0, abUpperUnbounded = True\<rparr>
             else \<lparr>abLower = fst (atoi lowerStr), abUpper = fst (atoi upperStr), abUpperUnbounded = False\<rparr>
      | None \<Rightarrow>
          if dimStr = ''*'' then \<lparr>abLower = 1, abUpper = 0, abUpperUnbounded = True\<rparr>
          else \<lparr>abLower = 1, abUpper = fst (atoi dimStr), abUpperUnbounded = False\<rparr>)"

definition parseDimensions :: "string \<Rightarrow> ArrayBound list" where
  "parseDimensions spec =
     map parseDimension (filter (\<lambda>s. s \<noteq> []) (map trimSpace (splitByte (CHR '','') spec)))"

definition parseTypeAndDimensions :: "string \<Rightarrow> string \<times> ArrayBound list" where
  "parseTypeAndDimensions spec =
     (if spec = [] then ([], [])
      else let (typeStr, dimStr) =
                 (case indexByte spec (CHR ''/'') of
                    Some i \<Rightarrow> (trimSpace (take i spec), trimSpace (drop (i + 1) spec))
                  | None \<Rightarrow> (trimSpace spec, []))
           in (typeStr, if dimStr \<noteq> [] then parseDimensions dimStr else []))"

lemma follows_typeSpecLoop0: "follows p (snd (typeSpecLoop spec depth p))"
proof (induction spec depth p rule: typeSpecLoop.induct)
  case (1 spec depth p)
  then show ?case
    by (subst typeSpecLoop.simps) (auto simp: Let_def intro: follows_advance_trans)
qed

lemma follows_parseTypeSpec [parser_pairs]:
  "parseTypeSpec q = (s, r) \<Longrightarrow> follows p q \<Longrightarrow> follows p r"
  using follows_typeSpecLoop0 [of q "[]" 0] by (auto simp: parseTypeSpec_def intro: follows_trans)

section \<open>One data field\<close>

definition parseRedefine :: "Parser \<Rightarrow> (bool \<times> string) \<times> Parser" where
  "parseRedefine p =
     (if matches TokenKeyword ''REDEFINE'' p
      then let q = advance p
           in if curType q = TokenIdentifier \<or> curType q = TokenKeyword
              then ((True, curLiteral q), advance q)
              else ((True, []), q)
      else ((False, []), p))"

text \<open>
  The name: an identifier or keyword, or \<open>+\<close> and an adjacent one. After a lone \<open>+\<close> the code
  restores its two tokens, but not the lexer, which has moved on.
\<close>

definition parseFieldName :: "Position \<Rightarrow> Parser \<Rightarrow> (string \<times> Range \<times> Position) \<times> Parser" where
  "parseFieldName fieldStartPos p =
     (if matches TokenOperator ''+'' p
      then let plusLine = curLine p; plusCol = curColumn p; q = advance p
           in if (curType q = TokenIdentifier \<or> curType q = TokenKeyword)
                 \<and> curLine q = plusLine \<and> curColumn q = plusCol + 1
              then ((''+'' @ curLiteral q,
                     Range (Position plusLine plusCol)
                           (Position (curLine q) (curColumn q + int (length (curLiteral q)) - 1)),
                     Position plusLine plusCol),
                    advance q)
              else (([], zeroRange, fieldStartPos),
                    q\<lparr>paCurrent := paCurrent p, paPrev := paPrev p\<rparr>)
      else if curType p = TokenIdentifier \<or> curType p = TokenKeyword
      then ((curLiteral p,
             Range (Position (curLine p) (curColumn p))
                   (Position (curLine p) (curColumn p + int (length (curLiteral p)) - 1)),
             fieldStartPos),
            advance p)
      else (([], zeroRange, fieldStartPos), p))"

definition parseViewOf :: "Parser \<Rightarrow> string \<times> Parser" where
  "parseViewOf p =
     (if matchesLiteral [''VIEW''] p
      then let viewLine = curLine p;
               q = advance p;
               q1 = (if matchesLiteral [''OF''] q then advance q else q)
           in if (curType q1 = TokenIdentifier \<or> curType q1 = TokenKeyword) \<and> curLine q1 = viewLine
              then (curLiteral q1, advance q1)
              else ([], q1)
      else ([], p))"

definition parseFieldType :: "string \<Rightarrow> Parser \<Rightarrow> (string \<times> ArrayBound list) \<times> Parser" where
  "parseFieldType name p =
     (if matches TokenPunctuation ''('' p
      then let (spec, q) = parseTypeSpec (advance p)
           in (parseTypeAndDimensions spec,
               if matches TokenPunctuation '')'' q then advance q else q)
      else if name \<noteq> [] \<and> toUpper name = ''FILLER''
      then (if curType p = TokenLiteralNumeric
            then let numLine = curLine p; q = advance p
                 in if curType q = TokenIdentifier \<and> curLine q = numLine
                    then ((curLiteral p @ curLiteral q, []), advance q)
                    else ((curLiteral p, []), q)
            else (([], []), p))
      else (([], []), p))"

definition parseDataField :: "Parser \<Rightarrow> DataField option \<times> Parser" where
  "parseDataField p =
     (let level = fst (atoi (curLiteral p));
          fieldStartPos = currentPos p;
          ((isRedefine, redefineTarget), p1) = parseRedefine (advance p);
          ((name, nameRange, startPos), p2) =
            (if isRedefine then (([], zeroRange, fieldStartPos), p1)
             else parseFieldName fieldStartPos p1)
      in if \<not> isRedefine \<and> name = [] then (None, p2)
         else let (viewOfDDM, p3) = (if isRedefine then ([], p2) else parseViewOf p2);
                  ((fieldType, dimensions), p4) =
                    (if isRedefine then (([], []), p3) else parseFieldType name p3);
                  endPos = Position (tkLine (paPrev p4))
                             (tkColumn (paPrev p4) + int (length (tkLiteral (paPrev p4))) - 1)
              in (Some (DataField startPos endPos level name fieldType dimensions redefineTarget []
                          nameRange viewOfDDM), p4))"

lemma follows_restore:
  "\<not> (atEOF p \<and> curLiteral p = []) \<Longrightarrow>
     follows p ((advance p)\<lparr>paCurrent := paCurrent p, paPrev := paPrev p\<rparr>)"
  by (cases "NextToken (paLexer p)")
     (auto simp: follows_def psize_def advance_def dest: NextToken_remaining(1,2))

lemma follows_parseRedefine [parser_pairs]:
  "parseRedefine q = (x, r) \<Longrightarrow> follows p q \<Longrightarrow> follows p r"
  by (auto simp: parseRedefine_def Let_def intro: parser_steps parser_pairs split: if_splits)

lemma follows_parseFieldName [parser_pairs]:
  "parseFieldName s q = (x, r) \<Longrightarrow> follows p q \<Longrightarrow> follows p r"
  by (auto simp: parseFieldName_def Let_def matches_def
      intro: parser_steps parser_pairs follows_trans [OF _ follows_restore] split: if_splits)

lemma follows_parseViewOf [parser_pairs]:
  "parseViewOf q = (x, r) \<Longrightarrow> follows p q \<Longrightarrow> follows p r"
  by (auto simp: parseViewOf_def Let_def intro: parser_steps parser_pairs split: if_splits)

lemma follows_parseFieldType [parser_pairs]:
  "parseFieldType n q = (x, r) \<Longrightarrow> follows p q \<Longrightarrow> follows p r"
  by (auto simp: parseFieldType_def Let_def intro: parser_steps parser_pairs split: if_splits prod.splits)

lemma follows_parseDataField:
  "parseDataField p = (f, q) \<Longrightarrow> follows (advance p) q"
  by (auto simp: parseDataField_def Let_def split: if_splits prod.splits)
     (erule parser_pairs | simp)+

lemma psize_parseDataField:
  "\<not> atEOF p \<Longrightarrow> parseDataField p = (f, q) \<Longrightarrow> psize q < psize p"
  using follows_parseDataField psize_advance_trans by blast

section \<open>The field forest\<close>

fun addChild :: "(DataField list \<Rightarrow> DataField list) \<Rightarrow> DataField \<Rightarrow> DataField" where
  "addChild h (DataField s e l n t d r cs nr v) = DataField s e l n t d r (h cs) nr v"

fun attach :: "nat \<Rightarrow> DataField \<Rightarrow> DataField list \<Rightarrow> DataField list" where
  "attach 0 f forest = forest @ [f]"
| "attach (Suc d) f forest =
     (if forest = [] then [f]
      else butlast forest @ [addChild (attach d f) (last forest)])"

definition popStack :: "int \<Rightarrow> int list \<Rightarrow> int list" where
  "popStack level stack = dropWhile (\<lambda>l. l \<ge> level) stack"

definition pushField :: "DataField \<Rightarrow> int list \<times> DataField list \<Rightarrow> int list \<times> DataField list" where
  "pushField f st =
     (case st of (stack, forest) \<Rightarrow>
        let stack1 = popStack (dfLevel f) stack
        in (dfLevel f # stack1, attach (length stack1) f forest))"

section \<open>DEFINE DATA\<close>

definition isSectionKeyword :: "Parser \<Rightarrow> bool" where
  "isSectionKeyword p \<longleftrightarrow>
     matchesLiteral [''LOCAL'', ''PARAMETER'', ''GLOBAL'', ''LINKAGE'', ''INDEPENDENT'',
                     ''CONTEXT'', ''OBJECT''] p"

function dataFieldsLoop ::
  "int list \<times> DataField list \<Rightarrow> Parser \<Rightarrow> (int list \<times> DataField list) \<times> Parser" where
  "dataFieldsLoop st p =
     (if atEOF p then (st, p)
      else if isSectionKeyword p \<or> isProgramBoundary p then (st, p)
      else if atStatement p then (st, p)
      else if curType p \<noteq> TokenLiteralNumeric then dataFieldsLoop st (advance p)
      else case parseDataField p of
             (None, q) \<Rightarrow> dataFieldsLoop st q
           | (Some f, q) \<Rightarrow> dataFieldsLoop (pushField f st) q)"
  by pat_completeness auto
termination
  by (relation "measure (\<lambda>(_, p). psize p)")
     (auto intro: psize_advance psize_parseDataField dest: sym)

declare dataFieldsLoop.simps [simp del]

definition parseDataFields :: "Parser \<Rightarrow> DataField list \<times> Parser" where
  "parseDataFields p = (let ((_, forest), q) = dataFieldsLoop ([], []) p in (forest, q))"

lemma follows_dataFieldsLoop0: "follows p (snd (dataFieldsLoop st p))"
proof (induction st p rule: dataFieldsLoop.induct)
  case (1 st p)
  then show ?case
    by (subst dataFieldsLoop.simps)
       (auto intro: follows_advance_trans follows_trans [OF follows_trans [OF follows_advance
         follows_parseDataField]] split: prod.splits option.splits)
qed

lemma follows_parseDataFields [parser_pairs]:
  "parseDataFields q = (fs, r) \<Longrightarrow> follows p q \<Longrightarrow> follows p r"
  using follows_dataFieldsLoop0 [of q "([], [])"]
  by (auto simp: parseDataFields_def intro: follows_trans split: prod.splits)

text \<open>The \<open>USING\<close> clause of a section.\<close>

definition parseUsing :: "Parser \<Rightarrow> (string \<times> Range) \<times> Parser" where
  "parseUsing p =
     (if matchesLiteral [''USING''] p
      then let q = advance p
           in if curType q = TokenIdentifier \<or> curType q = TokenKeyword
              then ((curLiteral q,
                     Range (currentPos q)
                       (Position (curLine q) (curColumn q + (int (length (curLiteral q)) - 1)))),
                    advance q)
              else (([], zeroRange), q)
      else (([], zeroRange), p))"

definition parseSection :: "Position \<Rightarrow> Parser \<Rightarrow> DataSection \<times> Parser" where
  "parseSection sectionStartPos p =
     (let ((usingName, usingRange), p1) = parseUsing (advance p);
          (fields, p2) = parseDataFields p1
      in (\<lparr>StartPos = sectionStartPos, EndPos = prevPos p2, SectionKind = toLower (curLiteral p),
           SectionFields = fields, Using = usingName, UsingRange = usingRange\<rparr>, p2))"

lemma follows_parseUsing [parser_pairs]: "parseUsing q = (x, r) \<Longrightarrow> follows p q \<Longrightarrow> follows p r"
  by (auto simp: parseUsing_def Let_def intro: parser_steps split: if_splits)

lemma follows_parseSection: "parseSection s p = (x, q) \<Longrightarrow> follows (advance p) q"
  by (auto simp: parseSection_def split: prod.splits) (erule parser_pairs | simp)+

lemma psize_parseSection:
  assumes "isSectionKeyword p" "parseSection s p = (x, q)"
  shows "psize q < psize p"
proof -
  have "curLiteral p \<noteq> []"
    using assms(1) by (auto simp: isSectionKeyword_def matchesLiteral_def)
  then have "psize (advance p) < psize p" by (intro psize_advance_cases) simp
  then show ?thesis using follows_psize [OF follows_parseSection [OF assms(2)]] by simp
qed

text \<open>The first section starts at \<open>DEFINE\<close>, every other one at its keyword.\<close>

function sectionsLoop :: "Position \<Rightarrow> bool \<Rightarrow> Program \<Rightarrow> Parser \<Rightarrow> Program \<times> Parser" where
  "sectionsLoop startPos firstSection ast p =
     (if isSectionKeyword p
      then case parseSection (if firstSection then startPos else currentPos p) p of
             (section, q) \<Rightarrow>
               sectionsLoop startPos False (ast\<lparr>DataSections := DataSections ast @ [section]\<rparr>) q
      else (ast, p))"
  by pat_completeness auto
termination
  by (relation "measure (\<lambda>(_, _, _, p). psize p)") (auto intro: psize_parseSection dest: sym)

declare sectionsLoop.simps [simp del]

definition parseDataSection :: "Position \<Rightarrow> Program \<Rightarrow> Parser \<Rightarrow> Program \<times> Parser" where
  "parseDataSection startPos ast p = sectionsLoop startPos True ast (advance p)"

lemma follows_sectionsLoop0: "follows p (snd (sectionsLoop s b ast p))"
proof (induction s b ast p rule: sectionsLoop.induct)
  case (1 s b ast p)
  then show ?case
    by (subst sectionsLoop.simps)
       (auto intro: follows_trans [OF follows_trans [OF follows_advance follows_parseSection]]
         split: prod.splits)
qed

lemma follows_parseDataSection [parser_pairs]:
  "parseDataSection s ast q = (x, r) \<Longrightarrow> follows p q \<Longrightarrow> follows p r"
  using follows_sectionsLoop0 [of "advance q" s True ast]
  by (auto simp: parseDataSection_def intro: follows_trans [OF follows_then_advance])

section \<open>DEFINE SUBROUTINE, DEFINE MAP and DEFINE WORK FILE\<close>

function subroutineLoop :: "Parser \<Rightarrow> Parser" where
  "subroutineLoop p =
     (if atEOF p then p
      else if matches TokenKeyword ''END'' p
      then (let q = advance p in if matchesLiteral [''SUBROUTINE''] q then advance q else q)
      else if matches TokenIdentifier ''END-SUBROUTINE'' p then advance p
      else subroutineLoop (advance p))"
  by pat_completeness auto
termination by (relation "measure psize") (auto intro: psize_advance)

declare subroutineLoop.simps [simp del]

definition parseSubroutine :: "Position \<Rightarrow> Program \<Rightarrow> Parser \<Rightarrow> Program \<times> Parser" where
  "parseSubroutine startPos ast p =
     (let p1 = advance p;
          (name, nameRange, p2) =
            (if isNameToken p1
             then (curLiteral p1,
                   Range (Position (curLine p1) (curColumn p1))
                         (Position (curLine p1) (curColumn p1 + int (length (curLiteral p1)) - 1)),
                   advance p1)
             else ([], zeroRange, p1));
          p3 = subroutineLoop p2;
          sub = \<lparr>StartPos = startPos, EndPos = prevPos p3, SubroutineName = name,
                 SubroutineNameRange = nameRange\<rparr>
      in (ast\<lparr>Subroutines := Subroutines ast @ [sub]\<rparr>, p3))"

function mapLoop ::
  "int list \<times> DataField list \<Rightarrow> Parser \<Rightarrow> (int list \<times> DataField list) \<times> Parser" where
  "mapLoop st p =
     (if atEOF p then (st, p)
      else if matches TokenKeyword ''END'' p
      then (let q = advance p in (st, if matchesLiteral [''MAP''] q then advance q else q))
      else if matches TokenIdentifier ''END-MAP'' p then (st, advance p)
      else if curType p \<noteq> TokenLiteralNumeric then mapLoop st (advance p)
      else case parseDataField p of
             (None, q) \<Rightarrow> mapLoop st q
           | (Some f, q) \<Rightarrow> mapLoop (pushField f st) q)"
  by pat_completeness auto
termination
  by (relation "measure (\<lambda>(_, p). psize p)")
     (auto intro: psize_advance psize_parseDataField dest: sym)

declare mapLoop.simps [simp del]

definition parseMap :: "Position \<Rightarrow> Program \<Rightarrow> Parser \<Rightarrow> Program \<times> Parser" where
  "parseMap startPos ast p =
     (let p1 = advance p;
          (name, p2) =
            (if curType p1 = TokenLiteralString then consumeStringTarget p1
             else if curType p1 = TokenIdentifier then (curLiteral p1, advance p1)
             else ([], p1));
          ((_, fields), p3) = mapLoop ([], []) p2;
          m = \<lparr>StartPos = startPos, EndPos = prevPos p3, MapName = name, MapFields = fields\<rparr>
      in (ast\<lparr>Maps := Maps ast @ [m]\<rparr>, p3))"

definition workFileError :: "string \<Rightarrow> Position \<Rightarrow> Program \<Rightarrow> Parser \<Rightarrow> Program \<times> Parser" where
  "workFileError message startPos ast p =
     (ast, skipToNextStatement (addDiagnostic message startPos (prevPos p) DiagnosticError p))"

definition parseWorkFile :: "Position \<Rightarrow> Program \<Rightarrow> Parser \<Rightarrow> Program \<times> Parser" where
  "parseWorkFile startPos ast p0 =
     (let p = advance p0 in
      if \<not> matchesLiteral [''FILE''] p
      then workFileError ''DEFINE WORK requires FILE keyword'' startPos ast p
      else let p1 = advance p in
      if curType p1 \<noteq> TokenLiteralNumeric
      then workFileError ''DEFINE WORK FILE requires an integer file number'' startPos ast p1
      else let (num, ok) = atoi (curLiteral p1) in
      if \<not> ok
      then workFileError ''DEFINE WORK FILE number must be a plain integer'' startPos ast p1
      else let p2 = advance p1 in
      if curType p2 = TokenLiteralString \<or> curType p2 = TokenIdentifier
      then let name = (if curType p2 = TokenLiteralString then unquoteString (curLiteral p2)
                       else curLiteral p2);
               p3 = advance p2;
               wf = \<lparr>StartPos = startPos, EndPos = prevPos p3, WorkFileNumber = num,
                     WorkFileName = name, WorkFileNameRange = tokenRange (paCurrent p2)\<rparr>
           in (ast\<lparr>WorkFiles := WorkFiles ast @ [wf]\<rparr>, skipToNextStatement p3)
      else workFileError ''DEFINE WORK FILE requires a file name (string literal or variable)''
             startPos ast p2)"

lemma follows_subroutineLoop0: "follows p (subroutineLoop p)"
proof (induction p rule: subroutineLoop.induct)
  case (1 p)
  then show ?case
    by (subst subroutineLoop.simps) (auto simp: Let_def intro: follows_advance_trans)
qed

lemma follows_subroutineLoop [parser_steps, simp]: "follows p q \<Longrightarrow> follows p (subroutineLoop q)"
  by (rule follows_trans [OF _ follows_subroutineLoop0])

lemma follows_mapLoop0: "follows p (snd (mapLoop st p))"
proof (induction st p rule: mapLoop.induct)
  case (1 st p)
  then show ?case
    by (subst mapLoop.simps)
       (auto simp: Let_def intro: follows_advance_trans
         follows_trans [OF follows_trans [OF follows_advance follows_parseDataField]]
         split: prod.splits option.splits)
qed

lemma follows_mapLoop [parser_pairs]: "mapLoop st q = (x, r) \<Longrightarrow> follows p q \<Longrightarrow> follows p r"
  using follows_mapLoop0 [of q st] by (auto intro: follows_trans)

lemma follows_define_parts [parser_pairs]:
  "parseSubroutine s ast q = (x, r) \<Longrightarrow> follows p q \<Longrightarrow> follows p r"
  "parseWorkFile s ast q = (x, r) \<Longrightarrow> follows p q \<Longrightarrow> follows p r"
  "parseMap s ast q = (x, r) \<Longrightarrow> follows p q \<Longrightarrow> follows p r"
  by (auto simp: parseSubroutine_def parseWorkFile_def parseMap_def workFileError_def Let_def
      split: if_splits prod.splits elim!: parser_pairs)

text \<open>\<open>parseDefine\<close>: the dispatch on the word after \<open>DEFINE\<close>.\<close>

definition parseDefine :: "Program \<Rightarrow> Parser \<Rightarrow> Program \<times> Parser" where
  "parseDefine ast p =
     (if \<not> matches TokenKeyword ''DEFINE'' p then (ast, p)
      else let defStartPos = currentPos p; q = advance p
           in if matches TokenKeyword ''DATA'' q then parseDataSection defStartPos ast q
              else if matchesLiteral [''SUBROUTINE''] q then parseSubroutine defStartPos ast q
              else if matchesLiteral [''MAP''] q then parseMap defStartPos ast q
              else if matchesLiteral [''WORK''] q then parseWorkFile defStartPos ast q
              else (ast, skipToNextStatement q))"

lemma follows_parseDefine:
  "matches TokenKeyword ''DEFINE'' p \<Longrightarrow> parseDefine ast p = (x, q) \<Longrightarrow> follows (advance p) q"
  by (auto simp: parseDefine_def Let_def intro: parser_steps parser_pairs split: if_splits)

end
