(* ===== verification/Parser_Stmts.thy ===== *)
theory Parser_Stmts
  imports Parser_Fields
begin

text \<open>
  The statements of the host language, from \<open>parser.go\<close>: calls, includes, transfers of control
  and the Adabas data access statements. Each method consumes its keyword, looks for the operand
  on the same line, recovers to the next statement, and appends a node to the program; the
  branches without a node are the ones of the code.
\<close>

section \<open>Operands\<close>

definition keywordEnd :: "Position \<Rightarrow> nat \<Rightarrow> Position" where
  "keywordEnd startPos len = Position (Line startPos) (Column startPos + int len - 1)"

text \<open>The test that the operand is missing: \<open>EOF\<close>, or a token of another line.\<close>

definition offLine :: "int \<Rightarrow> Parser \<Rightarrow> bool" where
  "offLine startLine p \<longleftrightarrow> atEOF p \<or> curLine p \<noteq> startLine"

definition missingOperand :: "string \<Rightarrow> Position \<Rightarrow> nat \<Rightarrow> Parser \<Rightarrow> Parser" where
  "missingOperand message startPos len p =
     addDiagnostic message startPos (keywordEnd startPos len) DiagnosticError p"

text \<open>
  The target operand of \<open>CALLNAT\<close>, \<open>INCLUDE\<close>, \<open>FETCH\<close> and \<open>RUN\<close>: a quoted name or an identifier.
  \<open>None\<close> when the token is neither, and then nothing is consumed.
\<close>

definition parseTarget :: "Parser \<Rightarrow> (string \<times> bool \<times> Range) option \<times> Parser" where
  "parseTarget p =
     (if curType p = TokenLiteralString
      then let (target, q) = consumeStringTarget p
           in (Some (target, True, tokenRange (paCurrent p)), q)
      else if curType p = TokenIdentifier
      then (Some (curLiteral p, False, tokenRange (paCurrent p)), advance p)
      else (None, p))"

definition targetOf :: "(string \<times> bool \<times> Range) option \<Rightarrow> string \<times> bool \<times> Range" where
  "targetOf x = (case x of Some t \<Rightarrow> t | None \<Rightarrow> ([], False, zeroRange))"

text \<open>The view name of the data access statements: an identifier.\<close>

definition parseView :: "Parser \<Rightarrow> (string \<times> Range) \<times> Parser" where
  "parseView p =
     (if curType p = TokenIdentifier
      then ((curLiteral p, tokenRange (paCurrent p)), advance p)
      else (([], zeroRange), p))"

lemma follows_parseTarget [parser_pairs]: "parseTarget q = (x, r) \<Longrightarrow> follows p q \<Longrightarrow> follows p r"
  by (auto simp: parseTarget_def split: if_splits prod.splits elim: parser_pairs)

lemma follows_parseView [parser_pairs]: "parseView q = (x, r) \<Longrightarrow> follows p q \<Longrightarrow> follows p r"
  by (auto simp: parseView_def split: if_splits)

lemma follows_missingOperand [parser_steps, simp]:
  "follows p q \<Longrightarrow> follows p (missingOperand m s n q)"
  by (simp add: missingOperand_def)

section \<open>Calls and transfers of control\<close>

definition parseCallStatement :: "Program \<Rightarrow> Parser \<Rightarrow> Program \<times> Parser" where
  "parseCallStatement ast p0 =
     (let startPos = currentPos p0; startLine = curLine p0; p = advance p0 in
      if offLine startLine p
      then (ast, missingOperand ''CALLNAT requires a target operand'' startPos 7 p)
      else case parseTarget p of
        (None, q) \<Rightarrow> (ast, missingOperand ''CALLNAT requires a target operand'' startPos 7 q)
      | (Some (target, isLit, rng), q) \<Rightarrow>
          let q1 = skipToNextStatement q;
              call = \<lparr>StartPos = startPos, EndPos = prevPos q1, Target = target, TargetRange = rng,
                      TargetIsLiteral = isLit, Parameters = []\<rparr>
          in (if target \<noteq> [] then ast\<lparr>Calls := Calls ast @ [call]\<rparr> else ast, q1))"

definition parsePerformStatement :: "Program \<Rightarrow> Parser \<Rightarrow> Program \<times> Parser" where
  "parsePerformStatement ast p0 =
     (let startPos = currentPos p0; startLine = curLine p0; p = advance p0 in
      if offLine startLine p
      then (ast, missingOperand ''PERFORM requires a target operand'' startPos 7 p)
      else let (target, rng, q) =
                 (if matches TokenKeyword ''BREAK'' p then ([], zeroRange, p)
                  else if isNameToken p then (curLiteral p, tokenRange (paCurrent p), advance p)
                  else ([], zeroRange, p));
               q1 = skipToNextStatement q;
               perform = \<lparr>StartPos = startPos, EndPos = prevPos q1, Target = target, TargetRange = rng\<rparr>
           in (ast\<lparr>Performs := Performs ast @ [perform]\<rparr>, q1))"

definition parseIncludeStatement :: "Program \<Rightarrow> Parser \<Rightarrow> Program \<times> Parser" where
  "parseIncludeStatement ast p0 =
     (let startPos = currentPos p0; startLine = curLine p0; p = advance p0 in
      if offLine startLine p
      then (ast, missingOperand ''INCLUDE requires a target operand'' startPos 7 p)
      else let (t, q) = parseTarget p;
               (target, isLit, rng) = targetOf t;
               q1 = skipToNextStatement q;
               inc = \<lparr>StartPos = startPos, EndPos = prevPos q1, Target = target, TargetRange = rng,
                      TargetIsLiteral = isLit\<rparr>
           in (ast\<lparr>Includes := Includes ast @ [inc]\<rparr>, q1))"

definition parseFetchStatement :: "Program \<Rightarrow> Parser \<Rightarrow> Program \<times> Parser" where
  "parseFetchStatement ast p0 =
     (let startPos = currentPos p0; startLine = curLine p0; p1 = advance p0;
          p = (if curLine p1 = startLine \<and> matchesLiteral [''REPEAT'', ''RETURN''] p1
               then advance p1 else p1) in
      if offLine startLine p
      then let q = missingOperand ''FETCH requires a target operand'' startPos 5 p;
               fetch = \<lparr>StartPos = startPos, EndPos = prevPos q, Target = [], TargetRange = zeroRange,
                        TargetIsLiteral = False\<rparr>
           in (ast\<lparr>Fetches := Fetches ast @ [fetch]\<rparr>, q)
      else let (t, q) = parseTarget p;
               (target, isLit, rng) = targetOf t;
               q1 = skipToNextStatement q;
               fetch = \<lparr>StartPos = startPos, EndPos = prevPos q1, Target = target, TargetRange = rng,
                        TargetIsLiteral = isLit\<rparr>
           in (ast\<lparr>Fetches := Fetches ast @ [fetch]\<rparr>, q1))"

definition parseRunLibrary :: "int \<Rightarrow> Parser \<Rightarrow> string \<times> Parser" where
  "parseRunLibrary startLine p =
     (if \<not> atEOF p \<and> curLine p = startLine
      then (if curType p = TokenLiteralString then consumeStringTarget p
            else if curType p = TokenIdentifier then (curLiteral p, advance p)
            else ([], p))
      else ([], p))"

definition parseRunStatement :: "Program \<Rightarrow> Parser \<Rightarrow> Program \<times> Parser" where
  "parseRunStatement ast p0 =
     (let startPos = currentPos p0; startLine = curLine p0; p = advance p0 in
      if offLine startLine p
      then (ast, missingOperand ''RUN requires a target operand'' startPos 3 p)
      else let (t, q) = parseTarget p;
               (target, isLit, rng) = targetOf t;
               (lib, q1) = parseRunLibrary startLine q;
               q2 = skipToNextStatement q1;
               run = \<lparr>StartPos = startPos, EndPos = prevPos q2, Target = target, TargetRange = rng,
                      TargetIsLiteral = isLit, Library = lib\<rparr>
           in (ast\<lparr>Runs := Runs ast @ [run]\<rparr>, q2))"

lemma follows_parseRunLibrary [parser_pairs]:
  "parseRunLibrary n q = (x, r) \<Longrightarrow> follows p q \<Longrightarrow> follows p r"
  by (auto simp: parseRunLibrary_def split: if_splits elim: parser_pairs)

lemma follows_call_statements:
  "parseCallStatement ast p = (x, q) \<Longrightarrow> follows (advance p) q"
  "parsePerformStatement ast p = (x, q) \<Longrightarrow> follows (advance p) q"
  "parseIncludeStatement ast p = (x, q) \<Longrightarrow> follows (advance p) q"
  "parseFetchStatement ast p = (x, q) \<Longrightarrow> follows (advance p) q"
  "parseRunStatement ast p = (x, q) \<Longrightarrow> follows (advance p) q"
  by (auto simp: parseCallStatement_def parsePerformStatement_def parseIncludeStatement_def
      parseFetchStatement_def parseRunStatement_def Let_def
      split: if_splits prod.splits option.splits intro!: parser_steps elim!: parser_pairs)

section \<open>Adabas data access\<close>

text \<open>\<open>parsePlainRead\<close> is the part of \<open>parseReadStatement\<close> for the form without \<open>RESULT SET\<close>.\<close>

definition parsePlainRead :: "Position \<Rightarrow> int \<Rightarrow> Program \<Rightarrow> Parser \<Rightarrow> Program \<times> Parser" where
  "parsePlainRead startPos startLine ast p1 =
     (let p = skipParens startLine p1 in
      if offLine startLine p
      then let q = missingOperand ''READ requires a target operand'' startPos 4 p;
               read = \<lparr>StartPos = startPos, EndPos = prevPos q, Target = [], TargetRange = zeroRange\<rparr>
           in (ast\<lparr>Reads := Reads ast @ [read]\<rparr>, q)
      else let ((target, rng), q) = parseView p;
               q1 = skipToNextStatement q;
               read = \<lparr>StartPos = startPos, EndPos = prevPos q1, Target = target, TargetRange = rng\<rparr>
           in (ast\<lparr>Reads := Reads ast @ [read]\<rparr>, q1))"

definition parseFindStatement :: "Program \<Rightarrow> Parser \<Rightarrow> Program \<times> Parser" where
  "parseFindStatement ast p0 =
     (let startPos = currentPos p0; startLine = curLine p0;
          p1 = skipParens startLine (advance p0);
          p = (if curLine p1 = startLine \<and> matchesLiteral [''NUMBER''] p1 then advance p1 else p1) in
      if offLine startLine p
      then (ast, missingOperand ''FIND requires a target operand'' startPos 4 p)
      else let ((target, rng), q) = parseView p;
               q1 = skipToNextStatement q;
               find = \<lparr>StartPos = startPos, EndPos = prevPos q1, Target = target, TargetRange = rng\<rparr>
           in (ast\<lparr>Finds := Finds ast @ [find]\<rparr>, q1))"

definition parseGetStatement :: "Program \<Rightarrow> Parser \<Rightarrow> Program \<times> Parser" where
  "parseGetStatement ast p0 =
     (let startPos = currentPos p0; startLine = curLine p0; p = advance p0 in
      if curLine p = startLine \<and> matchesLiteral [''SAME''] p
      then let q = skipToNextStatement (advance p);
               get = \<lparr>StartPos = startPos, EndPos = prevPos q, Target = [], TargetRange = zeroRange\<rparr>
           in (ast\<lparr>Gets := Gets ast @ [get]\<rparr>, q)
      else if offLine startLine p
      then (ast, missingOperand ''GET requires a target operand'' startPos 3 p)
      else let ((target, rng), q) = parseView p;
               q1 = skipToNextStatement (skipParens startLine q);
               get = \<lparr>StartPos = startPos, EndPos = prevPos q1, Target = target, TargetRange = rng\<rparr>
           in (ast\<lparr>Gets := Gets ast @ [get]\<rparr>, q1))"

text \<open>
  The loop over the words \<open>RECORD\<close>, \<open>IN\<close>, \<open>FILE\<close>. Its condition has no test for \<open>EOF\<close>: the token
  of \<open>EOF\<close> has no literal.
\<close>

function storeClauseLoop :: "int \<Rightarrow> Parser \<Rightarrow> Parser" where
  "storeClauseLoop startLine p =
     (if curLine p = startLine \<and> matchesLiteral [''RECORD'', ''IN'', ''FILE''] p
      then storeClauseLoop startLine (advance p) else p)"
  by pat_completeness auto
termination
  by (relation "measure (\<lambda>(_, p). psize p)")
     (auto intro!: psize_advance_cases simp: matchesLiteral_def)

declare storeClauseLoop.simps [simp del]

definition parseStoreStatement :: "Program \<Rightarrow> Parser \<Rightarrow> Program \<times> Parser" where
  "parseStoreStatement ast p0 =
     (let startPos = currentPos p0; startLine = curLine p0;
          p = storeClauseLoop startLine (advance p0) in
      if offLine startLine p
      then let q = missingOperand ''STORE requires a target operand'' startPos 5 p;
               store = \<lparr>StartPos = startPos, EndPos = prevPos q, Target = [], TargetRange = zeroRange\<rparr>
           in (ast\<lparr>Stores := Stores ast @ [store]\<rparr>, q)
      else let ((target, rng), q) = parseView p;
               q1 = skipToNextStatement q;
               store = \<lparr>StartPos = startPos, EndPos = prevPos q1, Target = target, TargetRange = rng\<rparr>
           in (ast\<lparr>Stores := Stores ast @ [store]\<rparr>, q1))"

lemma follows_storeClauseLoop0: "follows p (storeClauseLoop n p)"
proof (induction n p rule: storeClauseLoop.induct)
  case (1 n p)
  then show ?case by (subst storeClauseLoop.simps) (auto intro: follows_advance_trans)
qed

lemma follows_storeClauseLoop [parser_steps, simp]:
  "follows p q \<Longrightarrow> follows p (storeClauseLoop n q)"
  by (rule follows_trans [OF _ follows_storeClauseLoop0])

lemma follows_parsePlainRead [parser_pairs]:
  "parsePlainRead s n ast q = (x, r) \<Longrightarrow> follows p q \<Longrightarrow> follows p r"
  by (auto simp: parsePlainRead_def Let_def split: if_splits prod.splits intro!: parser_steps elim!: parser_pairs)

lemma follows_access_statements:
  "parseFindStatement ast p = (x, q) \<Longrightarrow> follows (advance p) q"
  "parseGetStatement ast p = (x, q) \<Longrightarrow> follows (advance p) q"
  "parseStoreStatement ast p = (x, q) \<Longrightarrow> follows (advance p) q"
  by (auto simp: parseFindStatement_def parseGetStatement_def parseStoreStatement_def Let_def
      split: if_splits prod.splits intro!: parser_steps elim!: parser_pairs)

end
