(* ===== verification/Parser_SQL.thy ===== *)
theory Parser_SQL
  imports Parser_Stmts
begin

text \<open>
  Embedded SQL, from \<open>parser.go\<close>: the clauses of \<open>SELECT\<close>, the other SQL statements, the record
  forms of \<open>UPDATE\<close> and \<open>DELETE\<close>, and \<open>PROCESS SQL\<close> with its opaque span. The loop bodies of
  \<open>SELECT\<close> and \<open>READ RESULT SET\<close> are in \<open>Parser_Dispatch\<close>.
\<close>

section \<open>Operand loops\<close>

definition operandRef :: "bool \<Rightarrow> Parser \<Rightarrow> OperandRef" where
  "operandRef hostVar p =
     \<lparr>orName = curLiteral p, orRange = tokenRange (paCurrent p), orHostVar = hostVar\<rparr>"

definition isSelectStopKeyword :: "Parser \<Rightarrow> bool" where
  "isSelectStopKeyword p \<longleftrightarrow>
     matchesLiteral [''END-SELECT'', ''LOOP''] p \<or> isProgramBoundary p \<or> atStatement p"

text \<open>The loop of the clauses \<open>SELECT\<close>, \<open>INTO\<close> and \<open>FROM\<close>, which differ in the words that end them.\<close>

function clauseLoop :: "string list \<Rightarrow> OperandRef list \<Rightarrow> Parser \<Rightarrow> OperandRef list \<times> Parser" where
  "clauseLoop stops acc p =
     (if atEOF p \<or> isSelectStopKeyword p \<or> matchesLiteral stops p then (acc, p)
      else clauseLoop stops (if isNameToken p then acc @ [operandRef False p] else acc) (advance p))"
  by pat_completeness auto
termination by (relation "measure (\<lambda>(_, _, p). psize p)") (auto intro: psize_advance)

declare clauseLoop.simps [simp del]

definition parseSelectColumns :: "Parser \<Rightarrow> OperandRef list \<times> Parser" where
  "parseSelectColumns p = clauseLoop [''INTO'', ''FROM'', ''WHERE''] [] p"

definition parseSelectInto :: "Parser \<Rightarrow> OperandRef list \<times> Parser" where
  "parseSelectInto p =
     (if \<not> matchesLiteral [''INTO''] p then ([], p)
      else clauseLoop [''FROM'', ''WHERE''] [] (advance p))"

definition parseSelectFrom :: "Parser \<Rightarrow> OperandRef list \<times> Parser" where
  "parseSelectFrom p =
     (if \<not> matchesLiteral [''FROM''] p then ([], p) else clauseLoop [''WHERE''] [] (advance p))"

text \<open>An optional colon, then the operand; any other token is skipped.\<close>

definition hostOperand :: "(Parser \<Rightarrow> bool) \<Rightarrow> OperandRef list \<Rightarrow> Parser \<Rightarrow> OperandRef list \<times> Parser" where
  "hostOperand isOperand acc p =
     (let (hostVar, q) = (if matches TokenPunctuation '':'' p then (True, advance p) else (False, p))
      in (if isOperand q then acc @ [operandRef hostVar q] else acc, advance q))"

lemma hostOperand_follows: "hostOperand f acc p = (acc', q) \<Longrightarrow> follows (advance p) q"
  by (auto simp: hostOperand_def split: if_splits)

lemma psize_hostOperand: "\<not> atEOF p \<Longrightarrow> hostOperand f acc p = (acc', q) \<Longrightarrow> psize q < psize p"
  using hostOperand_follows psize_advance_trans by blast

lemma psize_skipSQLClause:
  "\<not> atEOF p \<Longrightarrow> matchesLiteral [''GROUP'', ''HAVING'', ''ORDER''] p \<Longrightarrow> psize (skipSQLClause p) < psize p"
  by (rule psize_advance_trans) (auto simp: skipSQLClause_def Let_def)

function whereLoop :: "OperandRef list \<Rightarrow> Parser \<Rightarrow> OperandRef list \<times> Parser" where
  "whereLoop acc p =
     (if atEOF p \<or> isSelectStopKeyword p then (acc, p)
      else if matchesLiteral [''GROUP'', ''HAVING'', ''ORDER''] p then whereLoop acc (skipSQLClause p)
      else case hostOperand isNameToken acc p of (acc', q) \<Rightarrow> whereLoop acc' q)"
  by pat_completeness auto
termination
  by (relation "measure (\<lambda>(_, p). psize p)")
     (auto intro: psize_hostOperand psize_skipSQLClause dest: sym split: prod.splits)

declare whereLoop.simps [simp del]

definition parseSelectWhere :: "Parser \<Rightarrow> OperandRef list \<times> Parser" where
  "parseSelectWhere p =
     (if \<not> matchesLiteral [''WHERE''] p then ([], p) else whereLoop [] (advance p))"

lemma follows_clauseLoop0: "follows p (snd (clauseLoop stops acc p))"
proof (induction stops acc p rule: clauseLoop.induct)
  case (1 stops acc p)
  then show ?case by (subst clauseLoop.simps) (auto intro: follows_advance_trans)
qed

lemma follows_clauseLoop [parser_pairs]:
  "clauseLoop stops acc q = (x, r) \<Longrightarrow> follows p q \<Longrightarrow> follows p r"
  using follows_clauseLoop0 [of q stops acc] by (auto intro: follows_trans)

lemma follows_whereLoop0: "follows p (snd (whereLoop acc p))"
proof (induction acc p rule: whereLoop.induct)
  case (1 acc p)
  then show ?case
    by (subst whereLoop.simps)
       (auto intro: follows_trans [OF follows_trans [OF follows_advance hostOperand_follows]]
         follows_trans [OF follows_skips(3) [OF follows_refl]] split: prod.splits)
qed

lemma follows_whereLoop [parser_pairs]:
  "whereLoop acc q = (x, r) \<Longrightarrow> follows p q \<Longrightarrow> follows p r"
  using follows_whereLoop0 [of q acc] by (auto intro: follows_trans)

lemma follows_clauses [parser_pairs]:
  "parseSelectColumns q = (x, r) \<Longrightarrow> follows p q \<Longrightarrow> follows p r"
  "parseSelectInto q = (x, r) \<Longrightarrow> follows p q \<Longrightarrow> follows p r"
  "parseSelectFrom q = (x, r) \<Longrightarrow> follows p q \<Longrightarrow> follows p r"
  "parseSelectWhere q = (x, r) \<Longrightarrow> follows p q \<Longrightarrow> follows p r"
  by (auto simp: parseSelectColumns_def parseSelectInto_def parseSelectFrom_def parseSelectWhere_def
      split: if_splits elim: parser_pairs)

text \<open>The four clauses in order, shared by both forms of \<open>SELECT\<close>.\<close>

definition parseSelectOperands :: "Position \<Rightarrow> Parser \<Rightarrow> SelectSingleStatement \<times> Parser" where
  "parseSelectOperands startPos p =
     (let (columns, p1) = parseSelectColumns p;
          (into, p2) = parseSelectInto p1;
          (tables, p3) = parseSelectFrom p2;
          (wheres, p4) = parseSelectWhere p3
      in (\<lparr>StartPos = startPos, EndPos = zeroPosition, WhereOperands = wheres, Columns = columns,
           IntoTargets = into, FromTables = tables\<rparr>, p4))"

lemma follows_parseSelectOperands [parser_pairs]:
  "parseSelectOperands s q = (x, r) \<Longrightarrow> follows p q \<Longrightarrow> follows p r"
  by (auto simp: parseSelectOperands_def split: prod.splits elim!: parser_pairs)

section \<open>Transactions and CALLDBPROC\<close>

definition parseCommitStatement :: "Program \<Rightarrow> Parser \<Rightarrow> Program \<times> Parser" where
  "parseCommitStatement ast p =
     (ast\<lparr>Commits := Commits ast @
        [\<lparr>StartPos = currentPos p,
          EndPos = Position (curLine p) (curColumn p + int (length (curLiteral p)) - 1)\<rparr>]\<rparr>,
      skipToNextStatement (advance p))"

definition parseRollbackStatement :: "Program \<Rightarrow> Parser \<Rightarrow> Program \<times> Parser" where
  "parseRollbackStatement ast p =
     (ast\<lparr>Rollbacks := Rollbacks ast @
        [\<lparr>StartPos = currentPos p,
          EndPos = Position (curLine p) (curColumn p + int (length (curLiteral p)) - 1)\<rparr>]\<rparr>,
      skipToNextStatement (advance p))"

definition parseCallDBProcStatement :: "Program \<Rightarrow> Parser \<Rightarrow> Program \<times> Parser" where
  "parseCallDBProcStatement ast p =
     (let (t, q) = parseTarget (advance p);
          (name, isLit, rng) = targetOf t;
          q1 = skipToNextStatement q
      in (ast\<lparr>CallDBProcs := CallDBProcs ast @
            [\<lparr>StartPos = currentPos p, EndPos = prevPos q1, ProcName = name, ProcNameRange = rng,
              ProcNameIsLiteral = isLit\<rparr>]\<rparr>, q1))"

section \<open>INSERT and MERGE\<close>

definition tableOperand :: "Parser \<Rightarrow> OperandRef list \<times> Parser" where
  "tableOperand p =
     (if curType p = TokenIdentifier then ([operandRef False p], advance p) else ([], p))"

function valuesLoop :: "OperandRef list \<Rightarrow> Parser \<Rightarrow> OperandRef list \<times> Parser" where
  "valuesLoop acc p =
     (if atEOF p \<or> matches TokenPunctuation '')'' p then (acc, p)
      else case hostOperand (\<lambda>q. isNameToken q \<or> curType q = TokenLiteralNumeric) acc p of
             (acc', q) \<Rightarrow> valuesLoop acc' q)"
  by pat_completeness auto
termination
  by (relation "measure (\<lambda>(_, p). psize p)") (auto intro: psize_hostOperand dest: sym split: prod.splits)

declare valuesLoop.simps [simp del]

definition parseValues :: "Parser \<Rightarrow> OperandRef list \<times> Parser" where
  "parseValues p =
     (if matchesLiteral [''VALUES''] p
      then let p1 = advance p
           in if matches TokenPunctuation ''('' p1
              then let (vals, q) = valuesLoop [] (advance p1)
                   in (vals, if matches TokenPunctuation '')'' q then advance q else q)
              else ([], p1)
      else ([], p))"

definition parseInsertStatement :: "Program \<Rightarrow> Parser \<Rightarrow> Program \<times> Parser" where
  "parseInsertStatement ast p0 =
     (let startPos = currentPos p0; p = advance p0 in
      if \<not> matchesLiteral [''INTO''] p then (ast, skipToNextStatement p)
      else let (table, p1) = tableOperand (advance p);
               p2 = skipUntil (\<lambda>q. matchesLiteral [''VALUES''] q \<or> isProgramBoundary q \<or> atStatement q) p1;
               (vals, p3) = parseValues p2;
               p4 = skipToNextStatement p3
           in (ast\<lparr>Inserts := Inserts ast @
                 [\<lparr>StartPos = startPos, EndPos = prevPos p4, IntoTable = table, Values = vals\<rparr>]\<rparr>, p4))"

definition parseMergeStatement :: "Program \<Rightarrow> Parser \<Rightarrow> Program \<times> Parser" where
  "parseMergeStatement ast p0 =
     (let startPos = currentPos p0; p = advance p0 in
      if \<not> matchesLiteral [''INTO''] p then (ast, skipToNextStatement p)
      else let (table, p1) = tableOperand (advance p);
               p2 = skipToNextStatement p1
           in (ast\<lparr>Merges := Merges ast @
                 [\<lparr>StartPos = startPos, EndPos = prevPos p2, MergeTable = table\<rparr>]\<rparr>, p2))"

lemma follows_valuesLoop0: "follows p (snd (valuesLoop acc p))"
proof (induction acc p rule: valuesLoop.induct)
  case (1 acc p)
  then show ?case
    by (subst valuesLoop.simps)
       (auto intro: follows_trans [OF follows_trans [OF follows_advance hostOperand_follows]]
         split: prod.splits)
qed

lemma follows_valuesLoop [parser_pairs]:
  "valuesLoop acc q = (x, r) \<Longrightarrow> follows p q \<Longrightarrow> follows p r"
  using follows_valuesLoop0 [of q acc] by (auto intro: follows_trans)

lemma follows_tableOperand [parser_pairs]:
  "tableOperand q = (x, r) \<Longrightarrow> follows p q \<Longrightarrow> follows p r"
  by (auto simp: tableOperand_def split: if_splits)

lemma follows_parseValues [parser_pairs]:
  "parseValues q = (x, r) \<Longrightarrow> follows p q \<Longrightarrow> follows p r"
  by (auto simp: parseValues_def Let_def split: if_splits prod.splits
      intro!: parser_steps elim!: parser_pairs)

lemma follows_sql_statements:
  "parseCommitStatement ast p = (x, q) \<Longrightarrow> follows (advance p) q"
  "parseRollbackStatement ast p = (x, q) \<Longrightarrow> follows (advance p) q"
  "parseCallDBProcStatement ast p = (x, q) \<Longrightarrow> follows (advance p) q"
  "parseInsertStatement ast p = (x, q) \<Longrightarrow> follows (advance p) q"
  "parseMergeStatement ast p = (x, q) \<Longrightarrow> follows (advance p) q"
  by (auto simp: parseCommitStatement_def parseRollbackStatement_def parseCallDBProcStatement_def
      parseInsertStatement_def parseMergeStatement_def Let_def
      split: if_splits prod.splits intro!: parser_steps elim!: parser_pairs)


section \<open>UPDATE and DELETE\<close>

text \<open>
  The loops of the SQL \<open>UPDATE\<close>: a colon is remembered until the next operand, across operators
  and other tokens. \<open>SET\<close> ends at \<open>WHERE\<close> too.
\<close>

function updateLoop ::
  "(Parser \<Rightarrow> bool) \<Rightarrow> bool \<Rightarrow> OperandRef list \<Rightarrow> Parser \<Rightarrow> OperandRef list \<times> Parser" where
  "updateLoop stop colonPending acc p =
     (if atEOF p \<or> stop p \<or> isStatementKeyword (curLiteral p) \<or> isProgramBoundary p then (acc, p)
      else if matches TokenPunctuation '':'' p then updateLoop stop True acc (advance p)
      else if curType p = TokenOperator then updateLoop stop colonPending acc (advance p)
      else if isNameToken p
      then updateLoop stop False (acc @ [operandRef colonPending p]) (advance p)
      else updateLoop stop colonPending acc (advance p))"
  by pat_completeness auto
termination by (relation "measure (\<lambda>(_, _, _, p). psize p)") (auto intro: psize_advance)

declare updateLoop.simps [simp del]

definition parseUpdateStatement :: "Program \<Rightarrow> Parser \<Rightarrow> Program \<times> Parser" where
  "parseUpdateStatement ast p0 =
     (let startPos = currentPos p0; p = advance p0 in
      if curType p \<noteq> TokenIdentifier
      then let (label, q) = parseLabelParens p
           in (ast\<lparr>RecordUpdates := RecordUpdates ast @
                 [\<lparr>StartPos = startPos, EndPos = prevPos q, Label = label\<rparr>]\<rparr>,
               skipToNextStatement q)
      else let p1 = advance p in
      if \<not> (matchesLiteral [''SET''] p1 \<or> matchesLiteral [''WHERE''] p1)
      then (ast, skipToNextStatement p1)
      else let (targets, p2) =
                 (if matchesLiteral [''SET''] p1
                  then updateLoop (matchesLiteral [''WHERE'']) False [] (advance p1) else ([], p1));
               (wheres, p3) =
                 (if matchesLiteral [''WHERE''] p2
                  then updateLoop (\<lambda>_. False) False [] (advance p2) else ([], p2));
               p4 = skipToNextStatement p3
           in (ast\<lparr>SQLUpdates := SQLUpdates ast @
                 [\<lparr>StartPos = startPos, EndPos = prevPos p4, WhereOperands = wheres,
                   UpdateTable = [operandRef False p], SetTargets = targets\<rparr>]\<rparr>, p4))"

function deleteWhereLoop :: "OperandRef list \<Rightarrow> Parser \<Rightarrow> OperandRef list \<times> Parser" where
  "deleteWhereLoop acc p =
     (if atEOF p \<or> isStatementKeyword (curLiteral p) \<or> isProgramBoundary p then (acc, p)
      else case hostOperand isNameToken acc p of (acc', q) \<Rightarrow> deleteWhereLoop acc' q)"
  by pat_completeness auto
termination
  by (relation "measure (\<lambda>(_, p). psize p)")
     (auto intro: psize_hostOperand dest: sym split: prod.splits)

declare deleteWhereLoop.simps [simp del]

definition parseDeleteStatement :: "Program \<Rightarrow> Parser \<Rightarrow> Program \<times> Parser" where
  "parseDeleteStatement ast p0 =
     (let startPos = currentPos p0; p = advance p0 in
      if matchesLiteral [''FROM''] p
      then let (table, p1) = tableOperand (advance p);
               (wheres, p2) = (if matchesLiteral [''WHERE''] p1
                               then deleteWhereLoop [] (advance p1) else ([], p1));
               p3 = skipToNextStatement p2
           in (ast\<lparr>SQLDeletes := SQLDeletes ast @
                 [\<lparr>StartPos = startPos, EndPos = prevPos p3, WhereOperands = wheres,
                   FromTable = table\<rparr>]\<rparr>, p3)
      else let (label, q) = parseLabelParens p
           in (ast\<lparr>RecordDeletes := RecordDeletes ast @
                 [\<lparr>StartPos = startPos, EndPos = prevPos q, Label = label\<rparr>]\<rparr>,
               skipToNextStatement q))"

lemma follows_updateLoop0: "follows p (snd (updateLoop stop b acc p))"
proof (induction stop b acc p rule: updateLoop.induct)
  case (1 stop b acc p)
  then show ?case by (subst updateLoop.simps) (auto intro: follows_advance_trans)
qed

lemma follows_updateLoop [parser_pairs]:
  "updateLoop stop b acc q = (x, r) \<Longrightarrow> follows p q \<Longrightarrow> follows p r"
  using follows_updateLoop0 [of q stop b acc] by (auto intro: follows_trans)

lemma follows_deleteWhereLoop0: "follows p (snd (deleteWhereLoop acc p))"
proof (induction acc p rule: deleteWhereLoop.induct)
  case (1 acc p)
  then show ?case
    by (subst deleteWhereLoop.simps)
       (auto intro: follows_trans [OF follows_trans [OF follows_advance hostOperand_follows]]
         split: prod.splits)
qed

lemma follows_deleteWhereLoop [parser_pairs]:
  "deleteWhereLoop acc q = (x, r) \<Longrightarrow> follows p q \<Longrightarrow> follows p r"
  using follows_deleteWhereLoop0 [of q acc] by (auto intro: follows_trans)

lemma follows_update_delete:
  "parseUpdateStatement ast p = (x, q) \<Longrightarrow> follows (advance p) q"
  "parseDeleteStatement ast p = (x, q) \<Longrightarrow> follows (advance p) q"
  by (auto simp: parseUpdateStatement_def parseDeleteStatement_def Let_def
      split: if_splits prod.splits intro!: parser_steps elim!: parser_pairs)

section \<open>PROCESS SQL\<close>

text \<open>
  The span is scanned by the lexer itself, so the lookahead is refilled afterwards without
  moving \<open>prev\<close>: \<open>rescan\<close>.
\<close>

definition rescan :: "Parser \<Rightarrow> OpaqueSpan \<times> Parser" where
  "rescan p =
     (let (os, l) = ScanOpaqueSpanFrom (paCurrent p) (paLexer p);
          (t, l') = NextToken l
      in (os, p\<lparr>paLexer := l', paCurrent := t\<rparr>))"

definition malformedProcessSQL :: "string \<Rightarrow> Position \<Rightarrow> Program \<Rightarrow> Parser \<Rightarrow> Program \<times> Parser" where
  "malformedProcessSQL what startPos ast p =
     (ast, addDiagnostic (''malformed PROCESS SQL statement: expected '' @ what) startPos (prevPos p)
             DiagnosticError p)"

definition parseProcessBody :: "Position \<Rightarrow> Token \<Rightarrow> Program \<Rightarrow> Parser \<Rightarrow> Program \<times> Parser" where
  "parseProcessBody startPos ddm ast p =
     (if matches TokenOperator ''<'' p
      then let (os, q) = rescan p;
               bodyRange = Range (Position (tkLine (osToken os)) (tkColumn (osToken os)))
                                 (Position (osEndLine os) (osEndCol os - 1));
               q1 = (if osUnterminated os
                     then addDiagnostic ''unterminated PROCESS SQL << ... >> block: missing >>''
                            (Start bodyRange) (End bodyRange) DiagnosticError q
                     else q)
           in (ast\<lparr>ProcessSQLs := ProcessSQLs ast @
                 [\<lparr>StartPos = startPos, EndPos = End bodyRange, DDMName = tkLiteral ddm,
                   DDMNameRange = tokenRange ddm, Body = tkLiteral (osToken os),
                   BodyRange = bodyRange\<rparr>]\<rparr>, q1)
      else let q = addDiagnostic ''PROCESS SQL requires a << ... >> body'' startPos
                     (End (tokenRange ddm)) DiagnosticError p
           in (ast\<lparr>ProcessSQLs := ProcessSQLs ast @
                 [\<lparr>StartPos = startPos, EndPos = prevPos q, DDMName = tkLiteral ddm,
                   DDMNameRange = tokenRange ddm, Body = [], BodyRange = zeroRange\<rparr>]\<rparr>, q))"

definition parseProcessSQLStatement :: "Program \<Rightarrow> Parser \<Rightarrow> Program \<times> Parser" where
  "parseProcessSQLStatement ast p0 =
     (let startPos = currentPos p0; startLine = curLine p0; p = advance p0 in
      if offLine startLine p then malformedProcessSQL ''SQL keyword'' startPos ast p
      else if \<not> matchesLiteral [''SQL''] p then (ast, skipToNextStatement p)
      else let p1 = advance p in
      if offLine startLine p1 then malformedProcessSQL ''DDM name'' startPos ast p1
      else if curType p1 \<noteq> TokenIdentifier
      then malformedProcessSQL ''DDM name identifier'' startPos ast p1
      else parseProcessBody startPos (paCurrent p1) ast (advance p1))"

lemma lxInput_moves [simp]:
  "lxInput (advanceByte l) = lxInput l" "lxInput (consumeLF l) = lxInput l"
  "lxInput (consumeCR l) = lxInput l"
  by (simp_all add: advanceByte_def consumeLF_def consumeCR_def Let_def)

definition lexesOn :: "Lexer \<Rightarrow> Lexer \<Rightarrow> bool" where
  "lexesOn l l' \<longleftrightarrow> remaining l' \<le> remaining l \<and> lxInput l' = lxInput l"

lemma lexesOn_moves:
  assumes "hasMore l"
  shows "lexesOn (advanceByte l) l' \<Longrightarrow> lexesOn l l'" "lexesOn (consumeLF l) l' \<Longrightarrow> lexesOn l l'"
    "lexesOn (consumeCR l) l' \<Longrightarrow> lexesOn l l'"
  using remaining_moves [OF assms] by (auto simp: lexesOn_def)

lemma lexesOn_skipWhitespace: "lexesOn l (skipWhitespace l)"
proof (induction l rule: skipWhitespace.induct)
  case (1 l)
  then show ?case
    using lexesOn_moves by (subst skipWhitespace.simps) (auto simp: Let_def lexesOn_def)
qed

lemma lexesOn_opaqueLoop: "lexesOn l (snd (opaqueLoop a l))"
proof (induction a l rule: opaqueLoop.induct)
  case (1 a l)
  show ?case
  proof (cases "hasMore l")
    case True
    then show ?thesis
      using 1 lexesOn_moves [OF True]
      by (subst opaqueLoop.simps) (auto simp: Let_def lexesOn_def remaining_def)
  next
    case False
    then show ?thesis by (subst opaqueLoop.simps) (simp add: lexesOn_def)
  qed
qed

lemma lexesOn_ScanOpaqueSpan:
  assumes "ScanOpaqueSpan l = (x, l')"
  shows "lexesOn l l'"
proof -
  define l1 where "l1 = skipWhitespace l"
  define l2 where "l2 = l1\<lparr>lxPos := lxPos l1 + 2, lxCol := lxCol l1 + 2, lxLineHasNonWhitespace := True\<rparr>"
  have "lexesOn l l1" by (simp add: l1_def lexesOn_skipWhitespace)
  moreover have "lexesOn l1 l2" by (auto simp: lexesOn_def l2_def remaining_def)
  moreover have "l' = l1 \<or> l' = snd (opaqueLoop (lxPos l2) l2)"
    using assms
    by (auto simp: ScanOpaqueSpan_def Let_def l1_def l2_def split: if_splits prod.splits)
  ultimately show ?thesis
    using lexesOn_opaqueLoop [of l2 "lxPos l2"] by (auto simp: lexesOn_def)
qed

lemma psize_rescan:
  assumes "matches TokenOperator ''<'' p" "rescan p = (os, q)"
  shows "follows p q"
proof -
  define l where "l = paLexer p"
  define l0 where "l0 = l\<lparr>lxPos := (if lxPos l \<ge> 1 then lxPos l - 1 else 0),
                       lxCol := (if lxCol l > 1 then lxCol l - 1 else 1)\<rparr>"
  obtain x l1 where l1: "ScanOpaqueSpan l0 = (x, l1)" by fastforce
  obtain t l2 where l2: "NextToken l1 = (t, l2)" by fastforce
  have "ScanOpaqueSpanFrom (paCurrent p) l
      = (\<lparr>osToken = fst x, osEndLine = lxLine l1, osEndCol = lxCol l1, osUnterminated = snd x\<rparr>, l1)"
    using assms(1) l1
    by (cases x) (simp add: ScanOpaqueSpanFrom_def matches_def l0_def Let_def cong: if_cong)
  then have q: "q = p\<lparr>paLexer := l2, paCurrent := t\<rparr>"
    using assms(2) l2 by (simp add: rescan_def l_def)
  have "remaining l0 \<le> remaining l + 1" "lxInput l0 = lxInput l"
    by (auto simp: l0_def remaining_def)
  then show ?thesis
    using lexesOn_ScanOpaqueSpan [OF l1] NextToken_remaining [OF l2] assms(1)
    by (auto simp: follows_def q psize_def lexesOn_def l_def matches_def)
qed

lemma follows_rescan [parser_pairs]:
  "rescan q = (os, r) \<Longrightarrow> matches TokenOperator ''<'' q \<Longrightarrow> follows p q \<Longrightarrow> follows p r"
  using psize_rescan follows_trans by blast

lemma follows_parseProcessBody [parser_pairs]:
  "parseProcessBody s t ast q = (x, r) \<Longrightarrow> follows p q \<Longrightarrow> follows p r"
  by (auto simp: parseProcessBody_def Let_def split: if_splits prod.splits
      intro!: parser_steps elim!: parser_pairs)

lemma follows_parseProcessSQLStatement:
  "parseProcessSQLStatement ast p = (x, q) \<Longrightarrow> follows (advance p) q"
  by (auto simp: parseProcessSQLStatement_def malformedProcessSQL_def Let_def split: if_splits
      intro!: parser_steps elim!: parser_pairs)

end
