(* ===== verification/Parser_Dispatch.thy ===== *)
theory Parser_Dispatch
  imports Parser_SQL
begin

text \<open>
  Statement dispatch, loop bodies and \<open>Parse\<close>, from \<open>parser.go\<close>. The methods that dispatch and
  the one that parses a loop body call each other. Here they take the parser of loop bodies as
  an argument, and \<open>parseLoopBodyWithDiagnostic\<close> closes the circle with a bound on its steps, the
  number of bytes left; \<open>bodyLoop_eq\<close> shows that it satisfies the equation of the code, so
  the bound is never reached.
\<close>

section \<open>The statements with a body\<close>

type_synonym LoopParser = "string list \<Rightarrow> string \<Rightarrow> Token \<Rightarrow> Parser \<Rightarrow> Node list \<times> Parser"

definition parseReadStatement :: "LoopParser \<Rightarrow> Program \<Rightarrow> Parser \<Rightarrow> Program \<times> Parser" where
  "parseReadStatement loopBody ast p0 =
     (let startPos = currentPos p0; startLine = curLine p0; readToken = paCurrent p0; p = advance p0 in
      if matchesLiteral [''RESULT''] p
      then let p1 = advance p in
           if matchesLiteral [''SET''] p1
           then let p2 = advance p1;
                    (operand, p3) =
                      (if curType p2 = TokenIdentifier then (operandRef False p2, advance p2)
                       else (\<lparr>orName = [], orRange = zeroRange, orHostVar = False\<rparr>, p2));
                    (body, p4) = loopBody [''END-RESULT'', ''LOOP''] ''READ RESULT SET'' readToken
                                   (skipToNextLoopBody p3);
                    rrs = ReadResultSetStatement \<lparr>StartPos = startPos, EndPos = prevPos p4\<rparr> operand body
                in (ast\<lparr>ReadResultSets := ReadResultSets ast @ [rrs]\<rparr>, p4)
           else parsePlainRead startPos startLine ast (p1\<lparr>paCurrent := paCurrent p, paPrev := paPrev p\<rparr>)
      else parsePlainRead startPos startLine ast p)"

definition parseSelectStatement :: "LoopParser \<Rightarrow> Program \<Rightarrow> Parser \<Rightarrow> Program \<times> Parser" where
  "parseSelectStatement loopBody ast p0 =
     (let startPos = currentPos p0; selectToken = paCurrent p0; p = advance p0 in
      if matchesLiteral [''SINGLE''] p
      then let (sel, p1) = parseSelectOperands startPos (advance p);
               p2 = skipToNextStatement p1
           in (ast\<lparr>SelectSingles := SelectSingles ast @ [sel\<lparr>EndPos := prevPos p2\<rparr>]\<rparr>, p2)
      else let (sel, p1) = parseSelectOperands startPos p;
               (body, p2) = loopBody [''END-SELECT'', ''LOOP''] ''SELECT'' selectToken p1
           in (ast\<lparr>Selects := Selects ast @ [SelectStatement (sel\<lparr>EndPos := prevPos p2\<rparr>) body]\<rparr>, p2))"

section \<open>Dispatch\<close>

definition dispatchStatement :: "LoopParser \<Rightarrow> Program \<Rightarrow> Parser \<Rightarrow> Program \<times> Parser" where
  "dispatchStatement loopBody ast p =
     (if matches TokenKeyword ''DEFINE'' p then parseDefine ast p
      else if matches TokenKeyword ''CALLNAT'' p then parseCallStatement ast p
      else if matches TokenKeyword ''PERFORM'' p then parsePerformStatement ast p
      else if matches TokenKeyword ''INCLUDE'' p then parseIncludeStatement ast p
      else if matches TokenKeyword ''FETCH'' p then parseFetchStatement ast p
      else if matches TokenKeyword ''RUN'' p then parseRunStatement ast p
      else if matches TokenKeyword ''READ'' p then parseReadStatement loopBody ast p
      else if curType p = TokenKeyword \<and> matchesLiteral [''FIND'', ''FINDNAT''] p
      then parseFindStatement ast p
      else if matches TokenKeyword ''GET'' p then parseGetStatement ast p
      else if matches TokenKeyword ''STORE'' p then parseStoreStatement ast p
      else if matches TokenKeyword ''COMMIT'' p then parseCommitStatement ast p
      else if matches TokenKeyword ''ROLLBACK'' p then parseRollbackStatement ast p
      else if matches TokenKeyword ''CALLDBPROC'' p then parseCallDBProcStatement ast p
      else if matches TokenKeyword ''SELECT'' p then parseSelectStatement loopBody ast p
      else if matches TokenKeyword ''INSERT'' p then parseInsertStatement ast p
      else if matches TokenKeyword ''UPDATE'' p then parseUpdateStatement ast p
      else if matches TokenKeyword ''DELETE'' p then parseDeleteStatement ast p
      else if matches TokenKeyword ''MERGE'' p then parseMergeStatement ast p
      else if matches TokenKeyword ''PROCESS'' p then parseProcessSQLStatement ast p
      else (ast, advance p))"

text \<open>The first node of a throwaway program, in the order of the code's tests.\<close>

definition firstStatementNode :: "Program \<Rightarrow> Node option" where
  "firstStatementNode tmp =
     (if Calls tmp \<noteq> [] then Some (NodeCall (hd (Calls tmp)))
      else if Performs tmp \<noteq> [] then Some (NodePerform (hd (Performs tmp)))
      else if Includes tmp \<noteq> [] then Some (NodeInclude (hd (Includes tmp)))
      else if Fetches tmp \<noteq> [] then Some (NodeFetch (hd (Fetches tmp)))
      else if Runs tmp \<noteq> [] then Some (NodeRun (hd (Runs tmp)))
      else if Reads tmp \<noteq> [] then Some (NodeRead (hd (Reads tmp)))
      else if Stores tmp \<noteq> [] then Some (NodeStore (hd (Stores tmp)))
      else if Commits tmp \<noteq> [] then Some (NodeCommit (hd (Commits tmp)))
      else if Rollbacks tmp \<noteq> [] then Some (NodeRollback (hd (Rollbacks tmp)))
      else if CallDBProcs tmp \<noteq> [] then Some (NodeCallDBProc (hd (CallDBProcs tmp)))
      else if Selects tmp \<noteq> [] then Some (NodeSelect (hd (Selects tmp)))
      else if SelectSingles tmp \<noteq> [] then Some (NodeSelectSingle (hd (SelectSingles tmp)))
      else if ReadResultSets tmp \<noteq> [] then Some (NodeReadResultSet (hd (ReadResultSets tmp)))
      else if ProcessSQLs tmp \<noteq> [] then Some (NodeProcessSQL (hd (ProcessSQLs tmp)))
      else if Inserts tmp \<noteq> [] then Some (NodeInsert (hd (Inserts tmp)))
      else if SQLUpdates tmp \<noteq> [] then Some (NodeSQLUpdate (hd (SQLUpdates tmp)))
      else if SQLDeletes tmp \<noteq> [] then Some (NodeSQLDelete (hd (SQLDeletes tmp)))
      else if Merges tmp \<noteq> [] then Some (NodeMerge (hd (Merges tmp)))
      else None)"

definition parseStatement :: "LoopParser \<Rightarrow> Parser \<Rightarrow> Node option \<times> Parser" where
  "parseStatement loopBody p =
     (if matches TokenKeyword ''DEFINE'' p then (None, skipToNextLoopBody p)
      else let (tmp, q) = dispatchStatement loopBody (emptyProgram zeroPosition) p
           in (firstStatementNode tmp, q))"

section \<open>Loop bodies\<close>

definition terminatorText :: "string list \<Rightarrow> string" where
  "terminatorText terminators =
     (if length terminators = 2 \<and> hd terminators = ''END-SELECT'' then ''END-SELECT/LOOP''
      else if length terminators = 2 \<and> hd terminators = ''END-RESULT'' then ''END-RESULT/LOOP''
      else joinStrings terminators ''/'')"

text \<open>One turn of the loop, with the check that the turn has moved on, and its end.\<close>

definition loopTurn :: "LoopParser \<Rightarrow> Node list \<Rightarrow> Parser \<Rightarrow> Node list \<times> Parser" where
  "loopTurn loopBody body p =
     (let (stmt, q) = parseStatement loopBody p
      in (case stmt of None \<Rightarrow> body | Some s \<Rightarrow> body @ [s],
          if \<not> atEOF q \<and> curLine q = curLine p \<and> curColumn q = curColumn p then advance q else q))"

definition finishLoop :: "string list \<Rightarrow> string \<Rightarrow> Token \<Rightarrow> Parser \<Rightarrow> Parser" where
  "finishLoop terminators openingKeyword openingToken p =
     (let p1 = (if atEOF p \<and> \<not> matchesLiteral terminators p
                then addDiagnostic
                       (''unterminated '' @ openingKeyword @ '' loop: missing '' @ terminatorText terminators)
                       (Start (tokenRange openingToken)) (prevPos p) DiagnosticError p
                else p)
      in if matchesLiteral terminators p1 then advance p1 else p1)"

fun boundedLoop :: "nat \<Rightarrow> string list \<Rightarrow> Node list \<Rightarrow> Parser \<Rightarrow> Node list \<times> Parser" where
  "boundedLoop 0 terminators body p = (body, p)"
| "boundedLoop (Suc n) terminators body p =
     (if atEOF p \<or> matchesLiteral terminators p then (body, p)
      else let (body1, p1) =
                 loopTurn (\<lambda>ts kw tok q. let (b, r) = boundedLoop n ts [] q in (b, finishLoop ts kw tok r))
                   body p
           in boundedLoop n terminators body1 p1)"

definition bodyLoop :: "string list \<Rightarrow> Node list \<Rightarrow> Parser \<Rightarrow> Node list \<times> Parser" where
  "bodyLoop terminators body p = boundedLoop (Suc (psize p)) terminators body p"

definition parseLoopBodyWithDiagnostic :: LoopParser where
  "parseLoopBodyWithDiagnostic terminators openingKeyword openingToken p =
     (let (body, q) = bodyLoop terminators [] p
      in (body, finishLoop terminators openingKeyword openingToken q))"

section \<open>Every statement consumes\<close>

definition consumes :: "LoopParser \<Rightarrow> bool" where
  "consumes loopBody \<longleftrightarrow> (\<forall>ts kw tok q x r. loopBody ts kw tok q = (x, r) \<longrightarrow> follows q r)"

lemma consumesD [parser_pairs]:
  "loopBody ts kw tok q = (x, r) \<Longrightarrow> consumes loopBody \<Longrightarrow> follows p q \<Longrightarrow> follows p r"
  by (auto simp: consumes_def intro: follows_trans)

lemma follows_restore_result:
  "matchesLiteral [''RESULT''] q \<Longrightarrow> follows p q \<Longrightarrow>
     follows p ((advance q)\<lparr>paCurrent := paCurrent q, paPrev := paPrev q\<rparr>)"
  by (rule follows_trans [OF _ follows_restore]) (auto simp: matchesLiteral_def)

lemma follows_loop_statements:
  assumes "consumes loopBody"
  shows "parseReadStatement loopBody ast p = (x, q) \<Longrightarrow> follows (advance p) q"
    and "parseSelectStatement loopBody ast p = (x, q) \<Longrightarrow> follows (advance p) q"
  using assms
  by (auto simp: parseReadStatement_def parseSelectStatement_def Let_def
      split: if_splits prod.splits intro!: parser_steps elim!: parser_pairs
      intro: follows_restore_result)

lemmas follows_statements =
  follows_call_statements follows_access_statements follows_sql_statements follows_update_delete
  follows_parseProcessSQLStatement follows_parseDefine

lemma follows_dispatchStatement:
  assumes "consumes loopBody" "dispatchStatement loopBody ast p = (x, q)"
  shows "follows (advance p) q"
  using assms(2) follows_loop_statements [OF assms(1)] unfolding dispatchStatement_def
  by (auto split: if_splits intro: follows_statements)

lemma follows_parseStatement:
  assumes "consumes loopBody" "parseStatement loopBody p = (x, q)"
  shows "follows (advance p) q \<or> q = p \<and> \<not> atEOF p"
proof (cases "matches TokenKeyword ''DEFINE'' p")
  case True
  then have "skipToNextLoopBody p = p"
    unfolding skipToNextLoopBody_def
    by (subst skipUntil.simps)
       (simp add: atStatement_def matches_def isStatementKeyword_def statementKeywords_def)
  with True assms show ?thesis by (simp add: parseStatement_def matches_def)
next
  case False
  with assms show ?thesis
    by (auto simp: parseStatement_def split: prod.splits dest: follows_dispatchStatement)
qed

lemma follows_loopTurn:
  assumes "consumes loopBody" "loopTurn loopBody body p = (x, q)"
  shows "follows (advance p) q"
proof (cases "parseStatement loopBody p")
  case (Pair stmt r)
  from follows_parseStatement [OF assms(1) this] show ?thesis
  proof
    assume "follows (advance p) r"
    with Pair assms(2) show ?thesis by (auto simp: loopTurn_def split: if_splits)
  next
    assume "r = p \<and> \<not> atEOF p"
    with Pair assms(2) show ?thesis by (auto simp: loopTurn_def)
  qed
qed

lemma psize_loopTurn:
  "consumes loopBody \<Longrightarrow> loopTurn loopBody body p = (x, q) \<Longrightarrow> \<not> atEOF p \<Longrightarrow> psize q < psize p"
  using follows_loopTurn psize_advance_trans by blast

lemma follows_finishLoop [parser_steps, simp]:
  "follows p q \<Longrightarrow> follows p (finishLoop ts kw tok q)"
  by (auto simp: finishLoop_def Let_def)

definition boundedBody :: "nat \<Rightarrow> LoopParser" where
  "boundedBody n ts kw tok q = (let (b, r) = boundedLoop n ts [] q in (b, finishLoop ts kw tok r))"

lemma boundedLoop_Suc:
  "boundedLoop (Suc n) ts body p =
     (if atEOF p \<or> matchesLiteral ts p then (body, p)
      else let (body1, p1) = loopTurn (boundedBody n) body p in boundedLoop n ts body1 p1)"
  by (simp add: boundedBody_def [abs_def])

declare boundedLoop.simps(2) [simp del]

lemma follows_boundedLoop: "boundedLoop n ts body p = (x, q) \<Longrightarrow> follows p q"
  and consumes_boundedBody: "consumes (boundedBody n)"
proof (induction n arbitrary: ts body p x q)
  case 0
  { case 1 then show ?case by simp }
  { case 2 then show ?case by (simp add: consumes_def boundedBody_def) }
next
  case (Suc n)
  have loop: "follows p q" if "boundedLoop (Suc n) ts body p = (x, q)" for ts body p x q
  proof (cases "atEOF p \<or> matchesLiteral ts p")
    case False
    obtain b1 p1 where l: "loopTurn (boundedBody n) body p = (b1, p1)" by fastforce
    then have "follows p p1" using follows_loopTurn [OF Suc.IH(2)] follows_advance_trans by blast
    moreover have "follows p1 q"
      using that l False by (intro Suc.IH(1)) (simp add: boundedLoop_Suc)
    ultimately show ?thesis by (rule follows_trans)
  qed (use that in \<open>auto simp: boundedLoop_Suc\<close>)
  { case 1 then show ?case by (rule loop) }
  { case 2 then show ?case
      by (auto simp: consumes_def boundedBody_def split: prod.splits dest: loop) }
qed

section \<open>The bound is not reached\<close>

definition agreeBelow :: "nat \<Rightarrow> LoopParser \<Rightarrow> LoopParser \<Rightarrow> bool" where
  "agreeBelow n b b' \<longleftrightarrow> (\<forall>ts kw tok q. psize q < n \<longrightarrow> b ts kw tok q = b' ts kw tok q)"

lemma dispatchStatement_cong:
  assumes "agreeBelow (psize p) b b'" "\<not> atEOF p"
  shows "dispatchStatement b ast p = dispatchStatement b' ast p"
proof -
  have below: "b ts kw tok q = b' ts kw tok q" if "follows (advance p) q" for ts kw tok q
    using assms that psize_advance_trans by (auto simp: agreeBelow_def)
  have "parseReadStatement b ast p = parseReadStatement b' ast p"
    by (simp add: parseReadStatement_def Let_def below)
  moreover have "parseSelectStatement b ast p = parseSelectStatement b' ast p"
  proof (cases "parseSelectOperands (currentPos p) (advance p)")
    case (Pair sel p1)
    then have "follows (advance p) p1" by (rule follows_parseSelectOperands) simp
    then show ?thesis by (simp add: parseSelectStatement_def Let_def Pair below)
  qed
  ultimately show ?thesis unfolding dispatchStatement_def by (simp only:)
qed

lemma loopTurn_cong:
  assumes "agreeBelow (psize p) b b'" "\<not> atEOF p"
  shows "loopTurn b body p = loopTurn b' body p"
  using dispatchStatement_cong [OF assms] by (simp add: loopTurn_def parseStatement_def)

lemma boundedLoop_enough:
  "psize p < n \<Longrightarrow> psize p < m \<Longrightarrow> boundedLoop n ts body p = boundedLoop m ts body p"
proof (induction n arbitrary: m ts body p)
  case (Suc n)
  then obtain m' where m: "m = Suc m'" by (cases m) auto
  show ?case
  proof (cases "atEOF p \<or> matchesLiteral ts p")
    case False
    have "boundedLoop n us [] q = boundedLoop m' us [] q" if "psize q < psize p" for us q
      using that Suc.prems m by (intro Suc.IH) auto
    then have "agreeBelow (psize p) (boundedBody n) (boundedBody m')"
      by (simp add: agreeBelow_def boundedBody_def)
    then have t: "loopTurn (boundedBody n) body p = loopTurn (boundedBody m') body p"
      using False loopTurn_cong by blast
    obtain body1 p1 where l: "loopTurn (boundedBody m') body p = (body1, p1)" by fastforce
    then have "psize p1 < psize p"
      using False psize_loopTurn consumes_boundedBody by blast
    then show ?thesis
      using False Suc.IH [of p1 m' ts body1] Suc.prems m t l by (simp add: boundedLoop_Suc)
  qed (auto simp: boundedLoop_Suc m)
qed simp

lemma agree_parseLoopBody:
  assumes "psize p \<le> n"
  shows "agreeBelow (psize p) (boundedBody n) parseLoopBodyWithDiagnostic"
proof -
  have "boundedLoop n ts [] q = boundedLoop (Suc (psize q)) ts [] q" if "psize q < psize p" for ts q
    using that assms by (intro boundedLoop_enough) auto
  then show ?thesis
    by (simp add: agreeBelow_def boundedBody_def parseLoopBodyWithDiagnostic_def bodyLoop_def)
qed

lemma consumes_parseLoopBody: "consumes parseLoopBodyWithDiagnostic"
  by (auto simp: consumes_def parseLoopBodyWithDiagnostic_def bodyLoop_def split: prod.splits
      dest: follows_boundedLoop)

lemma bodyLoop_eq:
  "bodyLoop ts body p =
     (if atEOF p \<or> matchesLiteral ts p then (body, p)
      else let (body1, p1) = loopTurn parseLoopBodyWithDiagnostic body p in bodyLoop ts body1 p1)"
proof (cases "atEOF p \<or> matchesLiteral ts p")
  case False
  have t: "loopTurn (boundedBody (psize p)) body p = loopTurn parseLoopBodyWithDiagnostic body p"
    using agree_parseLoopBody False loopTurn_cong by blast
  obtain body1 p1 where l: "loopTurn parseLoopBodyWithDiagnostic body p = (body1, p1)" by fastforce
  then have "psize p1 < psize p" using False psize_loopTurn consumes_parseLoopBody by blast
  then show ?thesis
    using False boundedLoop_enough [of p1 "psize p" "Suc (psize p1)"]
    by (simp add: bodyLoop_def boundedLoop_Suc t l)
qed (simp add: bodyLoop_def boundedLoop_Suc)

section \<open>Parse\<close>

definition dispatch :: "Program \<Rightarrow> Parser \<Rightarrow> Program \<times> Parser" where
  "dispatch = dispatchStatement parseLoopBodyWithDiagnostic"

lemma follows_dispatch: "dispatch ast p = (x, q) \<Longrightarrow> follows (advance p) q"
  unfolding dispatch_def using follows_dispatchStatement consumes_parseLoopBody by blast

lemma psize_dispatch: "\<not> atEOF p \<Longrightarrow> dispatch ast p = (x, q) \<Longrightarrow> psize q < psize p"
  using follows_dispatch psize_advance_trans by blast

function parseLoop :: "Program \<Rightarrow> Parser \<Rightarrow> Program \<times> Parser" where
  "parseLoop ast p =
     (if atEOF p then (ast, p) else case dispatch ast p of (ast', q) \<Rightarrow> parseLoop ast' q)"
  by pat_completeness auto
termination
  by (relation "measure (\<lambda>(_, p). psize p)") (auto intro: psize_dispatch dest: sym split: prod.splits)

declare parseLoop.simps [simp del]

definition Parse :: "Parser \<Rightarrow> Program" where
  "Parse p =
     (let (ast, q) = parseLoop (emptyProgram (currentPos p)) p
      in ast\<lparr>EndPos := prevPos q, Diagnostics := paDiagnostics q\<rparr>)"

definition parseSource :: "string \<Rightarrow> Program" where
  "parseSource s = Parse (NewParser (NewLexer s))"

end
