(* ===== verification/Field_Forest.thy ===== *)
theory Field_Forest
  imports Parser_Dispatch
begin

text \<open>
  What the level numbers of \<open>DEFINE DATA\<close> and \<open>DEFINE MAP\<close> mean, stated without the parser's
  stack: a forest whose preorder is the sequence of fields, whose children are deeper than
  their parent, and whose siblings never get deeper from left to right. There is at most one
  such forest, and \<open>pushField\<close>, the parser's step, builds it.
\<close>

section \<open>The specification\<close>

definition bare :: "DataField \<Rightarrow> DataField" where
  "bare f = addChild (\<lambda>_. []) f"

fun preorder :: "DataField \<Rightarrow> DataField list" where
  "preorder (DataField s e l n t d r cs nr v) =
     DataField s e l n t d r [] nr v # concat (map preorder cs)"

definition preorderForest :: "DataField list \<Rightarrow> DataField list" where
  "preorderForest fs = concat (map preorder fs)"

definition siblings :: "DataField list \<Rightarrow> bool" where
  "siblings fs \<longleftrightarrow> sorted_wrt (\<lambda>a b. dfLevel a \<ge> dfLevel b) fs"

fun nested :: "DataField \<Rightarrow> bool" where
  "nested (DataField s e l n t d r cs nr v) \<longleftrightarrow>
     siblings cs \<and> (\<forall>c\<in>set cs. l < dfLevel c \<and> nested c)"

definition nestedForest :: "DataField list \<Rightarrow> bool" where
  "nestedForest fs \<longleftrightarrow> siblings fs \<and> (\<forall>f\<in>set fs. nested f)"

definition buildForest :: "DataField list \<Rightarrow> DataField list" where
  "buildForest fs = snd (fold pushField fs ([], []))"

section \<open>One forest at most\<close>

lemma preorder_eq: "preorder f = bare f # preorderForest (dfChildren f)"
  by (cases f) (simp add: bare_def preorderForest_def)

lemma nested_iff:
  "nested f \<longleftrightarrow> nestedForest (dfChildren f) \<and> (\<forall>c\<in>set (dfChildren f). dfLevel f < dfLevel c)"
  by (cases f) (auto simp: nestedForest_def)

lemma preorderForest_simps [simp]:
  "preorderForest [] = []"
  "preorderForest (f # fs) = bare f # preorderForest (dfChildren f) @ preorderForest fs"
  by (simp_all add: preorderForest_def preorder_eq)

lemma preorderForest_append [simp]:
  "preorderForest (fs @ gs) = preorderForest fs @ preorderForest gs"
  by (simp add: preorderForest_def)

lemma bare_level [simp]: "dfLevel (bare f) = dfLevel f"
  by (cases f) (simp add: bare_def)

lemma bare_inject: "bare f = bare g \<Longrightarrow> dfChildren f = dfChildren g \<Longrightarrow> f = g"
  by (cases f; cases g) (simp add: bare_def)

lemma nestedForest_Nil [simp]: "nestedForest []"
  by (simp add: nestedForest_def siblings_def)

lemma nestedForest_Cons [simp]:
  "nestedForest (f # fs) \<longleftrightarrow> nested f \<and> nestedForest fs \<and> (\<forall>g\<in>set fs. dfLevel g \<le> dfLevel f)"
  by (auto simp: nestedForest_def siblings_def)

lemma preorder_deeper:
  "nestedForest fs \<Longrightarrow> \<forall>f\<in>set fs. l < dfLevel f \<Longrightarrow> g \<in> set (preorderForest fs) \<Longrightarrow> l < dfLevel g"
proof (induction "length (preorderForest fs)" arbitrary: fs rule: less_induct)
  case less
  then show ?case
  proof (cases fs)
    case (Cons f fs')
    with less.prems consider "g = bare f" | "g \<in> set (preorderForest (dfChildren f))"
      | "g \<in> set (preorderForest fs')" by auto
    then show ?thesis
    proof cases
      case 2
      have "l < dfLevel c" if "c \<in> set (dfChildren f)" for c
        using that less.prems(1,2) Cons nested_iff [of f] by fastforce
      moreover have "nestedForest (dfChildren f)" using less.prems(1) Cons nested_iff [of f] by simp
      ultimately show ?thesis using 2 Cons by (intro less.hyps [of "dfChildren f"]) auto
    next
      case 3
      then show ?thesis using less.prems Cons by (intro less.hyps [of fs']) auto
    qed (use less.prems Cons in auto)
  qed (use less.prems in simp)
qed

lemma preorder_unique:
  "nestedForest fs \<Longrightarrow> nestedForest gs \<Longrightarrow> preorderForest fs = preorderForest gs \<Longrightarrow> fs = gs"
proof (induction "length (preorderForest fs)" arbitrary: fs gs rule: less_induct)
  case less
  show ?case
  proof (cases fs)
    case Nil
    with less.prems(3) show ?thesis by (cases gs) auto
  next
    case (Cons f fs')
    with less.prems(3) obtain g gs' where g: "gs = g # gs'" by (cases gs) auto
    have b: "bare f = bare g"
      and eq: "preorderForest (dfChildren f) @ preorderForest fs'
             = preorderForest (dfChildren g) @ preorderForest gs'"
      using less.prems(3) Cons g by auto
    have l: "dfLevel f = dfLevel g" using b bare_level by metis
    let ?deep = "\<lambda>x. dfLevel f < dfLevel x"
    have kids: "takeWhile ?deep (preorderForest (dfChildren h) @ preorderForest hs)
                  = preorderForest (dfChildren h)"
      if h: "nestedForest (h # hs)" "dfLevel h = dfLevel f" for h hs
    proof -
      have "?deep x" if "x \<in> set (preorderForest (dfChildren h))" for x
        using that h preorder_deeper [of "dfChildren h" "dfLevel h" x] by (simp add: nested_iff)
      moreover have "takeWhile ?deep (preorderForest hs) = []"
        using h by (cases hs) auto
      ultimately show ?thesis by (simp add: takeWhile_append)
    qed
    have c: "preorderForest (dfChildren f) = preorderForest (dfChildren g)"
      using kids [of f fs'] kids [of g gs'] less.prems(1,2) Cons g l eq by metis
    with eq have r: "preorderForest fs' = preorderForest gs'" by simp
    have "dfChildren f = dfChildren g"
      using less.hyps [of "dfChildren f" "dfChildren g"] less.prems Cons g c by (simp add: nested_iff)
    moreover have "fs' = gs'"
      using less.hyps [of fs' gs'] less.prems Cons g r by simp
    ultimately show ?thesis using b bare_inject Cons g by blast
  qed
qed

section \<open>The parser's step\<close>

text \<open>The rightmost branch, deepest field first: what the code's stack points to.\<close>

function spine :: "DataField list \<Rightarrow> DataField list" where
  "spine fs = (if fs = [] then [] else spine (dfChildren (last fs)) @ [last fs])"
  by pat_completeness auto
termination
proof (relation "measure (\<lambda>fs. size_list size fs)", goal_cases)
  case (2 fs)
  then have "last fs \<in> set fs" by simp
  then have "size (last fs) \<le> size_list size fs"
    by (rule size_list_estimation') simp
  moreover have "size_list size (dfChildren f) < size f" for f :: DataField
    by (cases f) simp
  ultimately show ?case by (metis in_measure less_le_trans)
qed simp

declare spine.simps [simp del]

lemma spine_Nil [simp]: "spine [] = []"
  by (simp add: spine.simps)

lemma spine_snoc [simp]: "spine (fs @ [f]) = spine (dfChildren f) @ [f]"
  by (simp add: spine.simps [of "fs @ [f]"])

lemma addChild_sel [simp]:
  "dfLevel (addChild h f) = dfLevel f" "dfChildren (addChild h f) = h (dfChildren f)"
  "bare (addChild h f) = bare f"
  by (cases f; simp add: bare_def)+

lemma attach_preorder:
  "d \<le> length (spine forest) \<Longrightarrow> dfChildren f = [] \<Longrightarrow>
     preorderForest (attach d f forest) = preorderForest forest @ [bare f]"
proof (induction d arbitrary: forest)
  case (Suc d)
  then obtain gs g where g: "forest = gs @ [g]" by (cases forest rule: rev_cases) auto
  with Suc show ?case by simp
qed simp

lemma attach_spine:
  "d \<le> length (spine forest) \<Longrightarrow> dfChildren f = [] \<Longrightarrow>
     map dfLevel (spine (attach d f forest))
       = dfLevel f # map dfLevel (drop (length (spine forest) - d) (spine forest))"
proof (induction d arbitrary: forest)
  case (Suc d)
  then obtain gs g where g: "forest = gs @ [g]" by (cases forest rule: rev_cases) auto
  with Suc show ?case by (simp add: Suc_diff_le)
qed simp

lemma nestedForest_snoc:
  "nestedForest (fs @ [f]) \<longleftrightarrow> nestedForest fs \<and> nested f \<and> (\<forall>g\<in>set fs. dfLevel f \<le> dfLevel g)"
  by (auto simp: nestedForest_def siblings_def sorted_wrt_append)

text \<open>Levels grow along the branch, so what \<open>popStack\<close> leaves is a bottom part of the stack.\<close>

lemma spine_sorted:
  "nestedForest fs \<Longrightarrow> sorted_wrt (\<lambda>a b. dfLevel b < dfLevel a) (spine fs)
     \<and> (spine fs \<noteq> [] \<longrightarrow> last (spine fs) = last fs)"
proof (induction fs rule: spine.induct)
  case (1 fs)
  show ?case
  proof (cases fs rule: rev_cases)
    case (snoc gs g)
    have n: "nestedForest (dfChildren g)" "\<forall>c\<in>set (dfChildren g). dfLevel g < dfLevel c"
      using 1(2) snoc by (auto simp: nestedForest_snoc nested_iff)
    then have IH: "sorted_wrt (\<lambda>a b. dfLevel b < dfLevel a) (spine (dfChildren g))
        \<and> (spine (dfChildren g) \<noteq> [] \<longrightarrow> last (spine (dfChildren g)) = last (dfChildren g))"
      using 1(1) snoc by simp
    have "dfLevel g < dfLevel x" if x: "x \<in> set (spine (dfChildren g))" for x
    proof -
      let ?s = "spine (dfChildren g)"
      have ne: "dfChildren g \<noteq> []" using x by (cases "dfChildren g = []") auto
      have "x = last ?s \<or> dfLevel (last ?s) < dfLevel x"
      proof (cases ?s rule: rev_cases)
        case (snoc s y)
        with x IH show ?thesis by (auto simp: sorted_wrt_append)
      qed (use x in simp)
      moreover have "last ?s = last (dfChildren g)" using IH x by (cases "?s = []") auto
      moreover have "dfLevel g < dfLevel (last (dfChildren g))" using n(2) ne by simp
      ultimately show ?thesis by auto
    qed
    with IH show ?thesis using snoc by (simp add: sorted_wrt_append)
  qed simp
qed


lemma attach_levels:
  "c \<in> set (attach d f fs) \<Longrightarrow> dfLevel c = dfLevel f \<or> (\<exists>x\<in>set fs. dfLevel c = dfLevel x)"
proof (cases d)
  case (Suc e)
  assume "c \<in> set (attach d f fs)"
  with Suc show ?thesis by (cases fs rule: rev_cases) auto
qed auto

lemma attach_nested:
  "nestedForest fs \<Longrightarrow> dfChildren f = [] \<Longrightarrow> d \<le> length (spine fs) \<Longrightarrow>
     \<forall>x\<in>set (take (length (spine fs) - d) (spine fs)). dfLevel f \<le> dfLevel x \<Longrightarrow>
     \<forall>x\<in>set (drop (length (spine fs) - d) (spine fs)). dfLevel x < dfLevel f \<Longrightarrow>
     nestedForest (attach d f fs)"
proof (induction d arbitrary: fs)
  case 0
  have "dfLevel f \<le> dfLevel g" if "g \<in> set fs" for g
  proof (cases fs rule: rev_cases)
    case (snoc gs h)
    then have "dfLevel f \<le> dfLevel h" using 0(4) by simp
    moreover have "dfLevel h \<le> dfLevel g" using 0(1) that snoc by (auto simp: nestedForest_snoc)
    ultimately show ?thesis by simp
  qed (use that in simp)
  moreover have "nested f" using 0(2) by (simp add: nested_iff)
  ultimately show ?case using 0(1) by (simp add: nestedForest_snoc)
next
  case (Suc d)
  then obtain gs g where g: "fs = gs @ [g]" by (cases fs rule: rev_cases) auto
  have n: "nestedForest gs" "nestedForest (dfChildren g)" "\<forall>h\<in>set gs. dfLevel g \<le> dfLevel h"
    "\<forall>c\<in>set (dfChildren g). dfLevel g < dfLevel c"
    using Suc.prems(1) g by (auto simp: nestedForest_snoc nested_iff)
  have lt: "dfLevel g < dfLevel f" using Suc.prems(3,5) g by (simp add: Suc_diff_le)
  have "nestedForest (attach d f (dfChildren g))"
    using Suc.prems g n(2) by (intro Suc.IH) auto
  moreover have "dfLevel g < dfLevel c" if "c \<in> set (attach d f (dfChildren g))" for c
    using attach_levels [OF that] lt n(4) by auto
  ultimately show ?case using g n by (simp add: nestedForest_snoc nested_iff)
qed

definition forestInv :: "DataField list \<Rightarrow> int list \<times> DataField list \<Rightarrow> bool" where
  "forestInv fs st \<longleftrightarrow>
     nestedForest (snd st) \<and> preorderForest (snd st) = fs \<and> fst st = map dfLevel (spine (snd st))"

lemma dropWhile_spine:
  fixes xs :: "DataField list" and v :: int
  assumes "sorted_wrt (\<lambda>a b. dfLevel b < dfLevel a) xs"
  defines "k \<equiv> length xs - length (dropWhile (\<lambda>l. l \<ge> v) (map dfLevel xs))"
  shows "dropWhile (\<lambda>l. l \<ge> v) (map dfLevel xs) = map dfLevel (drop k xs)"
    "\<forall>x\<in>set (take k xs). v \<le> dfLevel x" "\<forall>x\<in>set (drop k xs). dfLevel x < v"
proof -
  let ?P = "\<lambda>x. dfLevel x \<ge> v"
  have dw: "dropWhile (\<lambda>l. l \<ge> v) (map dfLevel xs) = map dfLevel (dropWhile ?P xs)"
    by (simp add: dropWhile_map comp_def)
  have "length xs = length (takeWhile ?P xs) + length (dropWhile ?P xs)"
    by (metis length_append takeWhile_dropWhile_id)
  then have "k = length (takeWhile ?P xs)" unfolding k_def dw by simp
  then have k: "drop k xs = dropWhile ?P xs" "take k xs = takeWhile ?P xs"
    by (simp_all add: dropWhile_eq_drop takeWhile_eq_take [symmetric])
  show "dropWhile (\<lambda>l. l \<ge> v) (map dfLevel xs) = map dfLevel (drop k xs)" by (simp add: dw k)
  show "\<forall>x\<in>set (take k xs). v \<le> dfLevel x" by (auto simp: k dest: set_takeWhileD)
  show "\<forall>x\<in>set (drop k xs). dfLevel x < v"
    unfolding k using assms(1) by (induction xs) (auto)
qed

lemma pushField_inv:
  assumes "forestInv fs st" "dfChildren f = []"
  shows "forestInv (fs @ [f]) (pushField f st)"
proof -
  obtain stack forest where st: "st = (stack, forest)" by fastforce
  let ?s = "spine forest"
  define d where "d = length (popStack (dfLevel f) stack)"
  have stack: "stack = map dfLevel ?s" and n: "nestedForest forest" "preorderForest forest = fs"
    using assms(1) st by (auto simp: forestInv_def)
  note dw = dropWhile_spine [OF spine_sorted [OF n(1), THEN conjunct1], of "dfLevel f"]
  have d: "d \<le> length ?s" "length ?s - (length ?s - d) = d"
    unfolding d_def popStack_def stack by (simp_all add: order_trans [OF length_dropWhile_le])
  have dw': "popStack (dfLevel f) stack = map dfLevel (drop (length ?s - d) ?s)"
    "\<forall>x\<in>set (take (length ?s - d) ?s). dfLevel f \<le> dfLevel x"
    "\<forall>x\<in>set (drop (length ?s - d) ?s). dfLevel x < dfLevel f"
    using dw unfolding d_def popStack_def stack by simp_all
  have "bare f = f" using assms(2) by (cases f) (simp add: bare_def)
  then have "preorderForest (attach d f forest) = fs @ [f]"
    using attach_preorder [OF d(1) assms(2)] n(2) by simp
  moreover have "nestedForest (attach d f forest)"
    using attach_nested [OF n(1) assms(2) d(1) dw'(2,3)] .
  moreover have "map dfLevel (spine (attach d f forest)) = dfLevel f # popStack (dfLevel f) stack"
    using attach_spine [OF d(1) assms(2)] dw'(1) by simp
  moreover have "pushField f st = (dfLevel f # popStack (dfLevel f) stack, attach d f forest)"
    by (simp add: pushField_def st d_def Let_def)
  ultimately show ?thesis by (simp add: forestInv_def)
qed


section \<open>The fields of a section\<close>

text \<open>\<open>reads p fs q\<close>: from \<open>p\<close> to \<open>q\<close> the parser consumes the field lines \<open>fs\<close>, in this order.\<close>

inductive reads :: "Parser \<Rightarrow> DataField list \<Rightarrow> Parser \<Rightarrow> bool" where
  reads_done: "reads p [] p"
| reads_skip: "\<not> atEOF p \<Longrightarrow> curType p \<noteq> TokenLiteralNumeric \<Longrightarrow> reads (advance p) fs q \<Longrightarrow> reads p fs q"
| reads_none: "curType p = TokenLiteralNumeric \<Longrightarrow> parseDataField p = (None, p') \<Longrightarrow> reads p' fs q \<Longrightarrow>
    reads p fs q"
| reads_field: "curType p = TokenLiteralNumeric \<Longrightarrow> parseDataField p = (Some f, p') \<Longrightarrow> reads p' fs q \<Longrightarrow>
    reads p (f # fs) q"

lemma parseDataField_bare: "parseDataField p = (Some f, q) \<Longrightarrow> dfChildren f = []"
  by (auto simp: parseDataField_def Let_def split: if_splits prod.splits)

lemma reads_bare: "reads p fs q \<Longrightarrow> \<forall>f\<in>set fs. dfChildren f = []"
  by (induction rule: reads.induct) (auto dest: parseDataField_bare)

lemma dataFieldsLoop_reads:
  "dataFieldsLoop st p = (st', q) \<Longrightarrow> \<exists>fs. reads p fs q \<and> st' = fold pushField fs st"
proof (induction st p arbitrary: st' q rule: dataFieldsLoop.induct)
  case (1 st p)
  let ?stop = "atEOF p \<or> isSectionKeyword p \<or> isProgramBoundary p \<or> atStatement p"
  note eq = "1.prems" [unfolded dataFieldsLoop.simps [of st p]]
  show ?case
  proof (cases ?stop)
    case True
    with eq have "st' = st \<and> q = p" by (auto split: if_splits)
    then show ?thesis by (auto intro: exI [of _ "[]"] reads_done)
  next
    case no_stop: False
    show ?thesis
    proof (cases "curType p = TokenLiteralNumeric")
      case False
      with no_stop eq have "dataFieldsLoop st (advance p) = (st', q)" by simp
      then show ?thesis
        using "1.IH"(1) no_stop False by (blast intro: reads_skip)
    next
      case True
      obtain x p' where x: "parseDataField p = (x, p')" by fastforce
      show ?thesis
      proof (cases x)
        case None
        then have "dataFieldsLoop st p' = (st', q)" using x eq no_stop True by simp
        then obtain fs where "reads p' fs q" "st' = fold pushField fs st"
          using "1.IH"(2) [OF _ _ _ _ x [symmetric]] no_stop True None by auto
        then show ?thesis using x None True by (blast intro: reads_none)
      next
        case (Some f)
        then have "dataFieldsLoop (pushField f st) p' = (st', q)" using x eq no_stop True by simp
        then obtain fs where "reads p' fs q" "st' = fold pushField fs (pushField f st)"
          using "1.IH"(3) [OF _ _ _ _ x [symmetric] Some] no_stop True by (cases st') auto
        then show ?thesis
          using x Some True by (intro exI [of _ "f # fs"]) (auto intro: reads_field)
      qed
    qed
  qed
qed

lemma fold_pushField_inv:
  "forestInv fs st \<Longrightarrow> \<forall>g\<in>set gs. dfChildren g = [] \<Longrightarrow> forestInv (fs @ gs) (fold pushField gs st)"
proof (induction gs arbitrary: fs st)
  case (Cons g gs)
  then show ?case using pushField_inv [of fs st g] Cons.IH [of "fs @ [g]"] by simp
qed simp

lemma buildForest_spec:
  assumes "\<forall>f\<in>set fs. dfChildren f = []"
  shows "nestedForest (buildForest fs) \<and> preorderForest (buildForest fs) = fs"
proof -
  have "forestInv [] ([], [])" by (simp add: forestInv_def)
  from fold_pushField_inv [OF this assms] show ?thesis
    by (simp add: forestInv_def buildForest_def)
qed

text \<open>
  C1. Nesting by level number. The fields of a section are the lines read, nested in the only
  way in which the forest read in preorder gives back the lines in their order, every child
  has a higher level number than its parent, and no sibling a higher one than the sibling
  before it.
\<close>

theorem parseDataFields_nesting:
  assumes "parseDataFields p = (forest, q)"
  shows "\<exists>fs. reads p fs q \<and>
           (\<forall>F. nestedForest F \<and> preorderForest F = fs \<longleftrightarrow> F = forest)"
proof -
  obtain stack where "dataFieldsLoop ([], []) p = ((stack, forest), q)"
    using assms by (auto simp: parseDataFields_def split: prod.splits)
  then obtain fs where fs: "reads p fs q" "(stack, forest) = fold pushField fs ([], [])"
    using dataFieldsLoop_reads by blast
  then have "forest = buildForest fs" by (metis buildForest_def snd_conv)
  with buildForest_spec [OF reads_bare [OF fs(1)]] have
    "nestedForest forest" "preorderForest forest = fs" by simp_all
  with fs(1) preorder_unique show ?thesis by metis
qed

definition exampleSection :: string where
  "exampleSection = ''1 #A'' @ [LF] @ ''2 #B (N5)'' @ [LF] @ ''1 #C'' @ [LF] @ ''END-DEFINE''"

lemma parseDataFields_nesting_witness:
  "\<exists>fs q. reads (NewParser (NewLexer exampleSection)) fs q \<and>
      map dfName fs = [''#A'', ''#B'', ''#C'']"
proof -
  let ?p = "NewParser (NewLexer exampleSection)"
  obtain forest q where f: "parseDataFields ?p = (forest, q)" by fastforce
  have "map dfName (preorderForest (fst (parseDataFields ?p))) = [''#A'', ''#B'', ''#C'']"
    by code_simp
  then have "map dfName (preorderForest forest) = [''#A'', ''#B'', ''#C'']" by (simp add: f)
  then show ?thesis using parseDataFields_nesting [OF f] by metis
qed

end
