(* ===== verification/Parser_Facts.thy ===== *)
theory Parser_Facts
  imports Parser_Dispatch
begin

text \<open>
  Properties of the parser: its loops end, where the body of a loop ends, statements only add, and what
  \<open>CALLNAT\<close> records on each of its branches.
\<close>

section \<open>Termination\<close>

lemma diagnostics_advance [simp]: "paDiagnostics (advance p) = paDiagnostics p"
  by (simp add: advance_def split: prod.splits)

text \<open>
  \<open>parseLoopBodyWithDiagnostic\<close>, defined with a bound on its steps, satisfies
  the unbounded recursion of the code: dispatch statements until a terminator or the end of the
  file, step over a statement that consumed nothing, then report a missing terminator or
  consume the one found. The bodies of nested loops are parsed by the same function.
\<close>

lemma parseLoopBody_equations:
  "parseLoopBodyWithDiagnostic ts kw tok p =
     (let (body, q) = bodyLoop ts [] p in (body, finishLoop ts kw tok q)) \<and>
   bodyLoop ts body p =
     (if atEOF p \<or> matchesLiteral ts p then (body, p)
      else let (body1, p1) = loopTurn parseLoopBodyWithDiagnostic body p in bodyLoop ts body1 p1)"
  using bodyLoop_eq by (simp add: parseLoopBodyWithDiagnostic_def)

lemma bodyLoop_stops:
  "bodyLoop ts body p = (x, r) \<Longrightarrow> atEOF r \<or> matchesLiteral ts r"
proof (induction "psize p" arbitrary: body p rule: less_induct)
  case less
  show ?case
  proof (cases "atEOF p \<or> matchesLiteral ts p")
    case False
    obtain body1 p1 where l: "loopTurn parseLoopBodyWithDiagnostic body p = (body1, p1)" by fastforce
    then have "psize p1 < psize p" using False psize_loopTurn consumes_parseLoopBody by blast
    moreover have "bodyLoop ts body1 p1 = (x, r)" using less.prems False l by (subst (asm) bodyLoop_eq) simp
    ultimately show ?thesis by (rule less.hyps)
  qed (use less.prems in \<open>subst (asm) bodyLoop_eq, auto\<close>)
qed


text \<open>
  C31. Progress. Dispatching a statement at any token but the end of the file consumes input, and
  otherwise only adds diagnostics: it never changes the source or drops a diagnostic.
\<close>

theorem dispatch_progress:
  assumes "\<not> atEOF p" "dispatch ast p = (ast', q)"
  shows "psize q < psize p \<and> lxInput (paLexer q) = lxInput (paLexer p) \<and>
         (\<exists>ds. paDiagnostics q = paDiagnostics p @ ds)"
  using psize_dispatch [OF assms] follows_advance_trans [OF follows_dispatch [OF assms(2)]]
  by (simp add: follows_def)

definition callnatParser :: Parser where
  "callnatParser = NewParser (NewLexer ''CALLNAT'')"

text \<open>A loop whose body is a DEFINE, on which a turn consumes nothing, and which ends with the file.\<close>

definition defineParser :: Parser where
  "defineParser = NewParser (NewLexer ''DEFINE'')"


lemma dispatch_progress_witness:
  "psize (snd (dispatch (emptyProgram zeroPosition) callnatParser)) < psize callnatParser"
proof -
  have "\<not> atEOF callnatParser" by code_simp
  from dispatch_progress [OF this, of "emptyProgram zeroPosition"] show ?thesis
    by (cases "dispatch (emptyProgram zeroPosition) callnatParser") simp
qed

section \<open>CALLNAT\<close>

lemma diagnostics_skipUntil [simp]: "paDiagnostics (skipUntil stop p) = paDiagnostics p"
proof (induction stop p rule: skipUntil.induct)
  case (1 stop p)
  then show ?case
    by (subst skipUntil.simps) (auto simp: advance_def split: prod.splits)
qed

lemma consumeStringTarget_simps:
  "fst (consumeStringTarget p) = unquoteString (curLiteral p)"
  by (simp add: consumeStringTarget_def Let_def)

text \<open>
  \<open>CALLNAT\<close>. A call is recorded exactly when an identifier or a string that is not empty
  stands next on the keyword's line; it carries that operand, unquoted, and its range. Without
  an operand on the line, or with another token there, nothing is recorded and one error is
  reported at the keyword. An empty string is dropped without an error about the operand.
\<close>

lemma parseCallStatement_cases:
  assumes "parseCallStatement ast p = (ast', q)"
  shows "let t = paCurrent (advance p);
             target = (if tkType t = TokenLiteralString then unquoteString (tkLiteral t) else tkLiteral t)
     in if tkType t = TokenEOF \<or> tkLine t \<noteq> curLine p
           \<or> tkType t \<noteq> TokenLiteralString \<and> tkType t \<noteq> TokenIdentifier
        then ast' = ast \<and>
             q = missingOperand ''CALLNAT requires a target operand'' (currentPos p) 7 (advance p)
        else if target = [] then ast' = ast
        else ast' = ast\<lparr>Calls := Calls ast @
               [\<lparr>StartPos = currentPos p, EndPos = prevPos q, Target = target, TargetRange = tokenRange t,
                 TargetIsLiteral = (tkType t = TokenLiteralString), Parameters = []\<rparr>]\<rparr>"
  using assms consumeStringTarget_simps [of "advance p"]
  by (auto simp: parseCallStatement_def parseTarget_def offLine_def Let_def
      split: if_splits prod.splits option.splits)

lemma parseCallStatement_cases_witness:
  "\<exists>q. parseCallStatement (emptyProgram zeroPosition) callnatParser = (emptyProgram zeroPosition, q) \<and>
     map dgMessage (paDiagnostics q) = [''CALLNAT requires a target operand'']"
proof -
  obtain ast' q where e: "parseCallStatement (emptyProgram zeroPosition) callnatParser = (ast', q)"
    by fastforce
  have "tkType (paCurrent (advance callnatParser)) = TokenEOF" by code_simp
  moreover have "paDiagnostics callnatParser = []" by code_simp
  ultimately show ?thesis
    using parseCallStatement_cases [OF e] e by (simp add: missingOperand_def addDiagnostic_def)
qed

section \<open>What a program holds\<close>

definition callsOK :: "Program \<Rightarrow> bool" where
  "callsOK ast \<longleftrightarrow> (\<forall>c\<in>set (Calls ast). Target c \<noteq> [])"

lemma callsOK_call:
  "parseCallStatement ast p = (ast', q) \<Longrightarrow> callsOK ast \<Longrightarrow> callsOK ast'"
  by (auto simp: parseCallStatement_def Let_def callsOK_def split: if_splits prod.splits option.splits)

lemma Calls_sections: "Calls (fst (sectionsLoop s b ast p)) = Calls ast"
proof (induction s b ast p rule: sectionsLoop.induct)
  case (1 s b ast p)
  then show ?case by (subst sectionsLoop.simps) (auto split: prod.splits)
qed

lemma Calls_define:
  "parseDataSection s ast p = (x, q) \<Longrightarrow> Calls x = Calls ast"
  "parseSubroutine s ast p = (x, q) \<Longrightarrow> Calls x = Calls ast"
  "parseMap s ast p = (x, q) \<Longrightarrow> Calls x = Calls ast"
  "parseWorkFile s ast p = (x, q) \<Longrightarrow> Calls x = Calls ast"
  using Calls_sections [of s True ast "advance p"]
  by (auto simp: parseDataSection_def parseSubroutine_def parseMap_def parseWorkFile_def
      workFileError_def Let_def split: if_splits prod.splits)

lemma Calls_parseDefine: "parseDefine ast p = (x, q) \<Longrightarrow> Calls x = Calls ast"
  by (auto simp: parseDefine_def Let_def dest: Calls_define split: if_splits)

lemma Calls_others:
  "parsePerformStatement ast p = (x, q) \<Longrightarrow> Calls x = Calls ast"
  "parseIncludeStatement ast p = (x, q) \<Longrightarrow> Calls x = Calls ast"
  "parseFetchStatement ast p = (x, q) \<Longrightarrow> Calls x = Calls ast"
  "parseRunStatement ast p = (x, q) \<Longrightarrow> Calls x = Calls ast"
  "parsePlainRead s n ast p = (x, q) \<Longrightarrow> Calls x = Calls ast"
  "parseFindStatement ast p = (x, q) \<Longrightarrow> Calls x = Calls ast"
  "parseGetStatement ast p = (x, q) \<Longrightarrow> Calls x = Calls ast"
  "parseStoreStatement ast p = (x, q) \<Longrightarrow> Calls x = Calls ast"
  by (auto simp: parsePerformStatement_def parseIncludeStatement_def parseFetchStatement_def
      parseRunStatement_def parsePlainRead_def parseFindStatement_def parseGetStatement_def
      parseStoreStatement_def Let_def split: if_splits prod.splits)

lemma Calls_sql:
  "parseCommitStatement ast p = (x, q) \<Longrightarrow> Calls x = Calls ast"
  "parseRollbackStatement ast p = (x, q) \<Longrightarrow> Calls x = Calls ast"
  "parseCallDBProcStatement ast p = (x, q) \<Longrightarrow> Calls x = Calls ast"
  "parseInsertStatement ast p = (x, q) \<Longrightarrow> Calls x = Calls ast"
  "parseMergeStatement ast p = (x, q) \<Longrightarrow> Calls x = Calls ast"
  "parseUpdateStatement ast p = (x, q) \<Longrightarrow> Calls x = Calls ast"
  "parseDeleteStatement ast p = (x, q) \<Longrightarrow> Calls x = Calls ast"
  "parseProcessSQLStatement ast p = (x, q) \<Longrightarrow> Calls x = Calls ast"
  by (auto simp: parseCommitStatement_def parseRollbackStatement_def parseCallDBProcStatement_def
      parseInsertStatement_def parseMergeStatement_def parseUpdateStatement_def
      parseDeleteStatement_def parseProcessSQLStatement_def malformedProcessSQL_def
      parseProcessBody_def Let_def split: if_splits prod.splits)

lemma Calls_loops:
  "parseReadStatement b ast p = (x, q) \<Longrightarrow> Calls x = Calls ast"
  "parseSelectStatement b ast p = (x, q) \<Longrightarrow> Calls x = Calls ast"
  by (auto simp: parseReadStatement_def parseSelectStatement_def Let_def dest: Calls_others
      split: if_splits prod.splits)

lemma callsOK_dispatch: "dispatch ast p = (x, q) \<Longrightarrow> callsOK ast \<Longrightarrow> callsOK x"
  unfolding dispatch_def dispatchStatement_def
  by (auto split: if_splits simp: callsOK_def
      dest: Calls_parseDefine Calls_others Calls_sql Calls_loops callsOK_call [unfolded callsOK_def])

lemma callsOK_parseLoop: "callsOK ast \<Longrightarrow> callsOK (fst (parseLoop ast p))"
proof (induction ast p rule: parseLoop.induct)
  case (1 ast p)
  then show ?case
    using callsOK_dispatch [of ast p] by (subst parseLoop.simps) (auto split: prod.splits)
qed

text \<open>
  No call without a target: whatever the source, every call the parser records has one.
\<close>

theorem Calls_have_targets: "list_all (\<lambda>c. Target c \<noteq> []) (Calls (parseSource s))"
proof -
  let ?p = "NewParser (NewLexer s)"
  have "callsOK (fst (parseLoop (emptyProgram (currentPos ?p)) ?p))"
    by (rule callsOK_parseLoop) (simp add: callsOK_def emptyProgram_def)
  then show ?thesis
    by (simp add: parseSource_def Parse_def callsOK_def list_all_iff split: prod.splits)
qed

end
