(* ===== verification/Extract.thy ===== *)
theory Extract
  imports Parser_Dispatch
begin

text \<open>
  Extraction of calls and data access from the syntax tree: \<open>calls.go\<close>, \<open>data.go\<close>, \<open>sql.go\<close>.
  Each extractor walks the lists of the program kind by kind, skips statements without a target,
  and sorts its entries by source position with a stable sort.
\<close>

section \<open>Call edges\<close>

definition isStaticLiteral :: "bool \<Rightarrow> string \<Rightarrow> bool" where
  "isStaticLiteral targetIsLiteral target \<longleftrightarrow> targetIsLiteral \<and> \<not> contains target ''&''"

definition edgeKind :: "bool \<Rightarrow> EdgeKind \<Rightarrow> EdgeKind \<Rightarrow> EdgeKind" where
  "edgeKind targetIsLiteral static dynamic = (if targetIsLiteral then static else dynamic)"

definition stmtRange :: "Position \<Rightarrow> Position \<Rightarrow> Range" where
  "stmtRange start stop = Range start stop"

text \<open>The end of a site: the end of its target where one was captured, else the statement's.\<close>

definition siteEnd :: "Position \<Rightarrow> Range \<Rightarrow> Position" where
  "siteEnd stmtEnd targetRange = (if Line (Start targetRange) > 0 then End targetRange else stmtEnd)"

definition inlineSubs :: "Program \<Rightarrow> string \<rightharpoonup> Range" where
  "inlineSubs prog =
     foldl (\<lambda>m sub. m(SubroutineName sub \<mapsto> Range (StartPos sub) (EndPos sub))) Map.empty (Subroutines prog)"

definition callEdge :: "CallStatement \<Rightarrow> EdgeEntry" where
  "callEdge c =
     \<lparr>eeSource = stmtRange (StartPos c) (siteEnd (EndPos c) (TargetRange c)),
      eeTarget = TargetRange c,
      eeKind = edgeKind (isStaticLiteral (TargetIsLiteral c) (Target c)) EdgeCalls EdgeCallsDynamic,
      eeTargetName = Target c, eeLibrary = []\<rparr>"

definition performEdge :: "(string \<rightharpoonup> Range) \<Rightarrow> PerformStatement \<Rightarrow> EdgeEntry" where
  "performEdge subs p =
     \<lparr>eeSource = stmtRange (StartPos p) (siteEnd (EndPos p) (TargetRange p)),
      eeTarget = (case subs (Target p) of Some r \<Rightarrow> r | None \<Rightarrow> zeroRange),
      eeKind = EdgePerforms, eeTargetName = Target p, eeLibrary = []\<rparr>"

definition includeEdge :: "IncludeStatement \<Rightarrow> EdgeEntry" where
  "includeEdge i =
     \<lparr>eeSource = stmtRange (StartPos i) (EndPos i), eeTarget = TargetRange i,
      eeKind = EdgeIncludes, eeTargetName = Target i, eeLibrary = []\<rparr>"

definition fetchEdge :: "FetchStatement \<Rightarrow> EdgeEntry" where
  "fetchEdge f =
     \<lparr>eeSource = stmtRange (StartPos f) (siteEnd (EndPos f) (TargetRange f)),
      eeTarget = TargetRange f,
      eeKind = edgeKind (isStaticLiteral (TargetIsLiteral f) (Target f)) EdgeNavigatesTo EdgeNavigatesToDynamic,
      eeTargetName = Target f, eeLibrary = []\<rparr>"

definition runEdge :: "RunStatement \<Rightarrow> EdgeEntry" where
  "runEdge r =
     \<lparr>eeSource = stmtRange (StartPos r) (siteEnd (EndPos r) (TargetRange r)),
      eeTarget = TargetRange r,
      eeKind = edgeKind (isStaticLiteral (TargetIsLiteral r) (Target r)) EdgeNavigatesTo EdgeNavigatesToDynamic,
      eeTargetName = Target r, eeLibrary = Library r\<rparr>"

definition hasTarget :: "'a TargetStatement_scheme \<Rightarrow> bool" where
  "hasTarget s \<longleftrightarrow> Target s \<noteq> []"

definition extractEdges :: "Program \<Rightarrow> EdgeEntry list" where
  "extractEdges prog =
     sortBySource eeSource
       (map callEdge (filter hasTarget (Calls prog))
        @ map (performEdge (inlineSubs prog)) (filter hasTarget (Performs prog))
        @ map includeEdge (filter hasTarget (Includes prog))
        @ map fetchEdge (filter hasTarget (Fetches prog))
        @ map runEdge (filter hasTarget (Runs prog)))"

section \<open>Adabas data access\<close>

definition namedEntry :: "EdgeKind \<Rightarrow> TargetStatement \<Rightarrow> DataAccessEntry" where
  "namedEntry kind s =
     \<lparr>daName = Target s, daKind = kind, daSource = stmtRange (StartPos s) (EndPos s),
      daNameRange = TargetRange s\<rparr>"

definition unboundWrite :: "LabelStatement \<Rightarrow> DataAccessEntry" where
  "unboundWrite s =
     \<lparr>daName = [], daKind = EdgeWrites, daSource = stmtRange (StartPos s) (EndPos s),
      daNameRange = zeroRange\<rparr>"

definition extractDataAccess :: "Program \<Rightarrow> DataAccessEntry list" where
  "extractDataAccess prog =
     sortBySource daSource
       (map (namedEntry EdgeReads) (filter hasTarget (Reads prog))
        @ map (namedEntry EdgeWrites) (filter hasTarget (Stores prog))
        @ map (namedEntry EdgeReads) (filter hasTarget (Finds prog))
        @ map (namedEntry EdgeReads) (filter hasTarget (Gets prog))
        @ map unboundWrite (RecordUpdates prog)
        @ map unboundWrite (RecordDeletes prog))"

section \<open>Embedded SQL\<close>

definition hasNaturalSigil :: "string \<Rightarrow> bool" where
  "hasNaturalSigil name \<longleftrightarrow> name \<noteq> [] \<and> hd name \<in> set ''#&+@''"

definition namedOperands :: "OperandRef list \<Rightarrow> OperandRef list" where
  "namedOperands ops = filter (\<lambda>op. orName op \<noteq> []) ops"

definition tableEntries :: "EdgeKind \<Rightarrow> OperandRef list \<Rightarrow> Position \<Rightarrow> Position \<Rightarrow> DataAccessEntry list" where
  "tableEntries kind tables start stop =
     map (\<lambda>t. \<lparr>daName = orName t, daKind = kind, daSource = stmtRange start stop,
               daNameRange = orRange t\<rparr>) (namedOperands tables)"

definition appendWriteEntries ::
  "DataAccessEntry list \<Rightarrow> OperandRef list \<Rightarrow> Position \<Rightarrow> Position \<Rightarrow> DataAccessEntry list" where
  "appendWriteEntries dst tables start stop = dst @ tableEntries EdgeWrites tables start stop"

definition selectReads :: "SelectSingleStatement \<Rightarrow> DataAccessEntry list" where
  "selectReads s = tableEntries EdgeReads (FromTables s) (StartPos s) (EndPos s)"

definition extractSQLAccess :: "Program \<Rightarrow> DataAccessEntry list" where
  "extractSQLAccess prog =
     (let reads1 = concat (map (\<lambda>s. selectReads (selHead s)) (Selects prog))
                   @ concat (map selectReads (SelectSingles prog));
          w1 = foldl (\<lambda>es s. appendWriteEntries es (IntoTable s) (StartPos s) (EndPos s)) reads1 (Inserts prog);
          w2 = foldl (\<lambda>es s. appendWriteEntries es (UpdateTable s) (StartPos s) (EndPos s)) w1 (SQLUpdates prog);
          w3 = foldl (\<lambda>es s. appendWriteEntries es (FromTable s) (StartPos s) (EndPos s)) w2 (SQLDeletes prog);
          w4 = foldl (\<lambda>es s. appendWriteEntries es (MergeTable s) (StartPos s) (EndPos s)) w3 (Merges prog);
          sets = map (\<lambda>r. \<lparr>daName = [], daKind = EdgeReads,
                           daSource = stmtRange (StartPos (rrsSpan r)) (EndPos (rrsSpan r)),
                           daNameRange = zeroRange\<rparr>) (ReadResultSets prog);
          procs = map (\<lambda>p. \<lparr>daName = DDMName p, daKind = EdgeReads,
                            daSource = stmtRange (StartPos p) (EndPos p), daNameRange = DDMNameRange p\<rparr>)
                    (filter (\<lambda>p. DDMName p \<noteq> []) (ProcessSQLs prog))
      in sortBySource daSource (w4 @ sets @ procs))"

definition procEdge :: "CallDBProcStatement \<Rightarrow> EdgeEntry" where
  "procEdge c =
     \<lparr>eeSource = stmtRange (StartPos c) (EndPos c), eeTarget = zeroRange,
      eeKind = edgeKind (isStaticLiteral (ProcNameIsLiteral c) (ProcName c)) EdgeCalls EdgeCallsDynamic,
      eeTargetName = ProcName c, eeLibrary = []\<rparr>"

definition extractSQLCalls :: "Program \<Rightarrow> EdgeEntry list" where
  "extractSQLCalls prog =
     sortBySource eeSource (map procEdge (filter (\<lambda>c. ProcName c \<noteq> []) (CallDBProcs prog)))"

section \<open>Host variables\<close>

definition isOpaqueQualifierByte :: "char \<Rightarrow> bool" where
  "isOpaqueQualifierByte b \<longleftrightarrow> b \<in> set ''uUgGtT''"

definition isNaturalNameByte :: "char \<Rightarrow> bool" where
  "isNaturalNameByte b \<longleftrightarrow> isLowerByte b \<or> isUpperByte b \<or> isDigitByte b \<or> b = CHR ''-''"

definition isNaturalSigilByte :: "char \<Rightarrow> bool" where
  "isNaturalSigilByte b \<longleftrightarrow> b \<in> set ''#&+@''"

text \<open>
  The scan of an opaque body. The code moves an index over the body and counts lines and
  columns beside it; the model's cursor holds the rest of the body and the two counters.
\<close>

record OpaqueCursor =
  ocRest :: string
  ocLine :: int
  ocCol :: int

definition ocNext :: "OpaqueCursor \<Rightarrow> OpaqueCursor" where
  "ocNext c = c\<lparr>ocRest := tl (ocRest c), ocCol := ocCol c + 1\<rparr>"

definition ocAt :: "OpaqueCursor \<Rightarrow> (char \<Rightarrow> bool) \<Rightarrow> bool" where
  "ocAt c P \<longleftrightarrow> ocRest c \<noteq> [] \<and> P (hd (ocRest c))"

definition ocLF :: "OpaqueCursor \<Rightarrow> OpaqueCursor" where
  "ocLF c = c\<lparr>ocRest := tl (ocRest c), ocLine := ocLine c + 1, ocCol := 1\<rparr>"

definition ocCR :: "OpaqueCursor \<Rightarrow> OpaqueCursor" where
  "ocCR c = (let c1 = ocLF c in if ocAt c1 (\<lambda>x. x = LF) then c1\<lparr>ocRest := tl (ocRest c1)\<rparr> else c1)"

function ocSkipWhile :: "(char \<Rightarrow> bool) \<Rightarrow> OpaqueCursor \<Rightarrow> OpaqueCursor" where
  "ocSkipWhile P c = (if ocAt c P then ocSkipWhile P (ocNext c) else c)"
  by pat_completeness auto
termination
  by (relation "measure (\<lambda>(_, c). length (ocRest c))") (auto simp: ocAt_def ocNext_def)

definition scanName :: "OpaqueCursor \<Rightarrow> string \<times> OpaqueCursor" where
  "scanName c =
     (let c1 = (if ocAt c isNaturalSigilByte then ocNext c else c);
          c2 = ocSkipWhile isNaturalNameByte c1
      in (take (length (ocRest c) - length (ocRest c2)) (ocRest c), c2))"

function parenLoop :: "OpaqueCursor \<Rightarrow> OpaqueCursor" where
  "parenLoop c =
     (if ocAt c (\<lambda>x. x \<noteq> CHR '')'')
      then (if ocAt c (\<lambda>x. x = LF) then parenLoop (ocLF c)
            else if ocAt c (\<lambda>x. x = CR) then parenLoop (ocCR c)
            else parenLoop (ocNext c))
      else c)"
  by pat_completeness auto
termination
  by (relation "measure (\<lambda>c. length (ocRest c))")
     (auto simp: ocAt_def ocNext_def ocLF_def ocCR_def Let_def)

definition skipParenSubscript :: "OpaqueCursor \<Rightarrow> OpaqueCursor" where
  "skipParenSubscript c =
     (let c1 = parenLoop (ocNext c) in if ocRest c1 \<noteq> [] then ocNext c1 else c1)"

declare ocSkipWhile.simps [simp del] parenLoop.simps [simp del]

text \<open>What follows a colon: \<open>None\<close> where the code goes on scanning without a reference.\<close>

definition opaqueName :: "OpaqueCursor \<Rightarrow> string option \<times> OpaqueCursor" where
  "opaqueName c0 =
     (let c = (if ocAt c0 isOpaqueQualifierByte \<and> ocAt (ocNext c0) (\<lambda>x. x = CHR '':'')
               then ocNext (ocNext c0) else c0) in
      if ocAt c isDigitByte then (None, c)
      else let (name0, c1) = scanName c; name = toUpper name0 in
      if name0 = [] then (None, c1)
      else if name = ''INDICATOR'' \<or> name = ''LINDICATOR''
      then let c2 = ocSkipWhile (\<lambda>x. x = SPACE \<or> x = TAB) c1 in
           if \<not> ocAt c2 (\<lambda>x. x = CHR '':'') then (None, c2)
           else let (real, c3) = scanName (ocNext c2)
                in if real = [] then (None, c3) else (Some (toUpper real), c3)
      else (Some name, c1))"

definition opaqueStep :: "OpaqueCursor \<Rightarrow> HostVarRef option \<times> OpaqueCursor" where
  "opaqueStep c =
     (if ocAt c (\<lambda>x. x = CR) then (None, ocCR c)
      else if ocAt c (\<lambda>x. x = LF) then (None, ocLF c)
      else if \<not> ocAt c (\<lambda>x. x = CHR '':'') then (None, ocNext c)
      else case opaqueName (ocNext c) of
             (None, c1) \<Rightarrow> (None, c1)
           | (Some name, c1) \<Rightarrow>
               let c2 = (if ocAt c1 (\<lambda>x. x = CHR ''('') then skipParenSubscript c1 else c1)
               in (Some \<lparr>hvName = name,
                         hvRange = Range (Position (ocLine c) (ocCol c)) (Position (ocLine c2) (ocCol c2))\<rparr>,
                   c2))"

lemma ocSkipWhile_le: "length (ocRest (ocSkipWhile P c)) \<le> length (ocRest c)"
proof (induction P c rule: ocSkipWhile.induct)
  case (1 P c)
  then show ?case by (subst ocSkipWhile.simps) (auto simp: ocNext_def)
qed

lemma parenLoop_le: "length (ocRest (parenLoop c)) \<le> length (ocRest c)"
proof (induction c rule: parenLoop.induct)
  case (1 c)
  then show ?case
    by (subst parenLoop.simps) (auto simp: ocNext_def ocLF_def ocCR_def ocAt_def Let_def)
qed

definition ocBehind :: "OpaqueCursor \<Rightarrow> OpaqueCursor \<Rightarrow> bool" where
  "ocBehind c c' \<longleftrightarrow> length (ocRest c') \<le> length (ocRest c)"

lemma ocBehind_moves [simp]:
  "ocBehind c c" "ocBehind c c' \<Longrightarrow> ocBehind c (ocNext c')" "ocBehind c c' \<Longrightarrow> ocBehind c (ocLF c')"
  "ocBehind c c' \<Longrightarrow> ocBehind c (ocCR c')" "ocBehind c c' \<Longrightarrow> ocBehind c (ocSkipWhile P c')"
  "ocBehind c c' \<Longrightarrow> ocBehind c (skipParenSubscript c')"
  using ocSkipWhile_le [of P c'] parenLoop_le [of "ocNext c'"]
  by (auto simp: ocBehind_def ocNext_def ocLF_def ocCR_def skipParenSubscript_def Let_def)

lemma ocBehind_scanName: "scanName c' = (s, c'') \<Longrightarrow> ocBehind c c' \<Longrightarrow> ocBehind c c''"
  by (auto simp: scanName_def Let_def)

lemma ocBehind_opaqueName: "opaqueName c' = (x, c'') \<Longrightarrow> ocBehind c c' \<Longrightarrow> ocBehind c c''"
  by (auto simp: opaqueName_def Let_def split: if_splits prod.splits
      intro!: ocBehind_moves(2-) elim!: ocBehind_scanName)

lemma ocBehind_ocNext [simp]: "ocBehind (ocNext c) (ocLF c)" "ocBehind (ocNext c) (ocCR c)"
  by (auto simp: ocBehind_def ocNext_def ocLF_def ocCR_def Let_def)

lemma opaqueStep_behind: "opaqueStep c = (r, c') \<Longrightarrow> ocBehind (ocNext c) c'"
  by (auto simp: opaqueStep_def Let_def split: if_splits prod.splits option.splits
      intro!: ocBehind_moves(6) elim!: ocBehind_opaqueName)

lemma opaqueStep_less: "ocRest c \<noteq> [] \<Longrightarrow> opaqueStep c = (r, c') \<Longrightarrow> length (ocRest c') < length (ocRest c)"
  using opaqueStep_behind [of c r c'] by (cases "ocRest c") (auto simp: ocBehind_def ocNext_def)

function opaqueVarsLoop :: "HostVarRef list \<Rightarrow> OpaqueCursor \<Rightarrow> HostVarRef list" where
  "opaqueVarsLoop refs c =
     (if ocRest c = [] then refs
      else case opaqueStep c of (r, c1) \<Rightarrow>
             opaqueVarsLoop (case r of None \<Rightarrow> refs | Some ref \<Rightarrow> refs @ [ref]) c1)"
  by pat_completeness auto
termination
  by (relation "measure (\<lambda>(_, c). length (ocRest c))")
     (auto intro: opaqueStep_less dest: sym split: prod.splits)

declare opaqueVarsLoop.simps [simp del]

definition scanOpaqueHostVars :: "string \<Rightarrow> Position \<Rightarrow> HostVarRef list" where
  "scanOpaqueHostVars body bodyStart =
     opaqueVarsLoop [] \<lparr>ocRest = body, ocLine = Line bodyStart, ocCol = Column bodyStart + 2\<rparr>"

definition addAll :: "HostVarRef list \<Rightarrow> OperandRef list \<Rightarrow> HostVarRef list" where
  "addAll refs ops = refs @ map (\<lambda>op. \<lparr>hvName = orName op, hvRange = orRange op\<rparr>) (namedOperands ops)"

definition addHostVars :: "HostVarRef list \<Rightarrow> OperandRef list \<Rightarrow> HostVarRef list" where
  "addHostVars refs ops =
     addAll refs (filter (\<lambda>op. orHostVar op \<or> hasNaturalSigil (orName op)) (namedOperands ops))"

definition selectHostVars :: "HostVarRef list \<Rightarrow> SelectSingleStatement \<Rightarrow> HostVarRef list" where
  "selectHostVars refs s = addHostVars (addAll refs (IntoTargets s)) (WhereOperands s)"

definition extractHostVarRefs :: "Program \<Rightarrow> HostVarRef list" where
  "extractHostVarRefs prog =
     (let r1 = foldl (\<lambda>refs s. selectHostVars refs (selHead s)) [] (Selects prog);
          r2 = foldl selectHostVars r1 (SelectSingles prog);
          r3 = foldl (\<lambda>refs s. addHostVars refs (Values s)) r2 (Inserts prog);
          r4 = foldl (\<lambda>refs s. addHostVars (addHostVars refs (SetTargets s)) (WhereOperands s)) r3 (SQLUpdates prog);
          r5 = foldl (\<lambda>refs s. addHostVars refs (WhereOperands s)) r4 (SQLDeletes prog);
          r6 = foldl (\<lambda>refs p. if Body p = [] then refs
                               else refs @ scanOpaqueHostVars (Body p) (Start (BodyRange p))) r5 (ProcessSQLs prog)
      in sortBySource hvRange r6)"

end
