(* ===== verification/Structure.thy ===== *)
theory Structure
  imports Extract
begin

text \<open>
  Data definitions, data areas and work files (\<open>data.go\<close>) and the symbol tree (\<open>structure.go\<close>).
  A \<open>REDEFINE\<close> block is a field without a name: its fields become children of the field it
  redefines, the first of that name among the siblings before it, or, at the top of a section,
  the last of that name in the section.
\<close>

section \<open>Definitions\<close>

definition convertArrayBounds :: "ArrayBound list \<Rightarrow> ArrayDimension list" where
  "convertArrayBounds bounds =
     map (\<lambda>b. \<lparr>Lower = abLower b, Upper = abUpper b, UpperUnbounded = abUpperUnbounded b\<rparr>) bounds"

fun appendChildren :: "DataDefinition list \<Rightarrow> DataDefinition \<Rightarrow> DataDefinition" where
  "appendChildren subs (DataDefinition n l t d k r nr cs rd v) = DataDefinition n l t d k r nr (cs @ subs) rd v"

fun mergeFirst :: "string \<Rightarrow> DataDefinition list \<Rightarrow> DataDefinition list \<Rightarrow> DataDefinition list" where
  "mergeFirst target subs [] = []"
| "mergeFirst target subs (d # ds) =
     (if ddName d = target then appendChildren subs d # ds else d # mergeFirst target subs ds)"

definition isRedefineBlock :: "DataField \<Rightarrow> bool" where
  "isRedefineBlock f \<longleftrightarrow> dfName f = [] \<and> dfRedefines f \<noteq> []"

lemma size_children: "c \<in> set (dfChildren f) \<Longrightarrow> size c < size f"
  by (cases f) (auto dest: size_list_estimation' [of c _ _ size])

function fieldToDefinition :: "DataField \<Rightarrow> string \<Rightarrow> string \<Rightarrow> DataDefinition" where
  "fieldToDefinition f sectionKind redefines =
     DataDefinition (dfName f) (dfLevel f) (dfType f) (convertArrayBounds (dfDimensions f)) sectionKind
       (Range (dfStartPos f) (dfEndPos f)) (dfNameRange f)
       (foldl (\<lambda>defs child.
           if isRedefineBlock child
           then mergeFirst (dfRedefines child)
                  (map (\<lambda>sub. fieldToDefinition sub [] (dfRedefines child)) (dfChildren child)) defs
           else defs @ [fieldToDefinition child [] []])
         [] (dfChildren f))
       redefines (dfViewOfDDM f)"
  by pat_completeness auto
termination
  by (relation "measure (\<lambda>(f, _, _). size f)") (auto dest!: size_children)

declare fieldToDefinition.simps [simp del]

text \<open>\<open>extractDefinitions\<close>: per section, \<open>fieldIdx\<close> maps a name to its last definition.\<close>

definition topField ::
  "string \<Rightarrow> DataDefinition list \<times> (string \<rightharpoonup> nat) \<Rightarrow> DataField \<Rightarrow> DataDefinition list \<times> (string \<rightharpoonup> nat)"
  where
  "topField kind st f =
     (case st of (defs, fieldIdx) \<Rightarrow>
        if isRedefineBlock f
        then (case fieldIdx (dfRedefines f) of
                Some idx \<Rightarrow>
                  (defs[idx := appendChildren
                      (map (\<lambda>c. fieldToDefinition c [] (dfRedefines f)) (dfChildren f)) (defs ! idx)], fieldIdx)
              | None \<Rightarrow> (defs, fieldIdx))
        else (defs @ [fieldToDefinition f kind []], fieldIdx(dfName f \<mapsto> length defs)))"

definition extractDefinitions :: "Program \<Rightarrow> DataDefinition list" where
  "extractDefinitions prog =
     foldl (\<lambda>defs section.
         if SectionFields section = [] then defs
         else fst (foldl (topField (SectionKind section)) (defs, Map.empty) (SectionFields section)))
       [] (DataSections prog)"

definition extractWorkFiles :: "Program \<Rightarrow> WorkFile list" where
  "extractWorkFiles prog =
     sortBySource wfRange
       (map (\<lambda>w. \<lparr>wfNumber = WorkFileNumber w, wfName = WorkFileName w,
                  wfRange = stmtRange (StartPos w) (EndPos w)\<rparr>) (WorkFiles prog))"

definition extractDataAreaRefs :: "Program \<Rightarrow> DataAreaRef list" where
  "extractDataAreaRefs prog =
     map (\<lambda>s. \<lparr>darName = Using s, darSectionKind = SectionKind s, darRange = UsingRange s\<rparr>)
       (filter (\<lambda>s. Using s \<noteq> []) (DataSections prog))"

section \<open>Symbols\<close>

function dataDefinitionToSymbol :: "DataDefinition \<Rightarrow> Symbol list" where
  "dataDefinitionToSymbol def =
     [Symbol SymbolDataField (ddName def) (Range (Start (ddRange def)) (End (ddRange def)))
        (if ddNameRange def = zeroRange then Range (Start (ddRange def)) (Start (ddRange def))
         else ddNameRange def)
        (concat (map dataDefinitionToSymbol (ddChildren def)))
        (ddType def) (ddLevel def) (ddDimensions def) (ddRedefines def) (ddViewOfDDM def)]"
  by pat_completeness auto
termination
proof (relation "measure size", goal_cases)
  case (2 def z)
  then show ?case by (cases def) (auto dest: size_list_estimation' [of z _ _ size])
qed simp

function dataFieldToSymbol :: "DataField \<Rightarrow> Symbol list" where
  "dataFieldToSymbol field =
     [Symbol SymbolDataField (dfName field) (Range (dfStartPos field) (dfEndPos field))
        (Range (dfStartPos field) (dfStartPos field))
        (concat (map dataFieldToSymbol (dfChildren field))) [] 0 [] [] []]"
  by pat_completeness auto
termination by (relation "measure size") (auto intro: size_children)

declare dataDefinitionToSymbol.simps [simp del] dataFieldToSymbol.simps [simp del]

text \<open>
  The section a definition is shown under: the first whose span contains its start, else the
  first of its kind.
\<close>

definition spanContains :: "DataSection \<Rightarrow> Position \<Rightarrow> bool" where
  "spanContains section start \<longleftrightarrow>
     \<not> sourceStartLess (Line start) (Column start) (Line (StartPos section)) (Column (StartPos section)) \<and>
     \<not> sourceStartLess (Line (EndPos section)) (Column (EndPos section)) (Line start) (Column start)"

fun firstIndex :: "('a \<Rightarrow> bool) \<Rightarrow> 'a list \<Rightarrow> nat option" where
  "firstIndex P [] = None"
| "firstIndex P (x # xs) = (if P x then Some 0 else map_option Suc (firstIndex P xs))"

definition sectionOf :: "DataSection list \<Rightarrow> DataDefinition \<Rightarrow> nat option" where
  "sectionOf sections def =
     (case firstIndex (\<lambda>s. spanContains s (Start (ddRange def))) sections of
        Some i \<Rightarrow> Some i
      | None \<Rightarrow> firstIndex (\<lambda>s. ddSectionKind def = SectionKind s) sections)"

definition sectionDefs :: "DataSection list \<Rightarrow> DataDefinition list \<Rightarrow> nat \<Rightarrow> DataDefinition list" where
  "sectionDefs sections defs i = filter (\<lambda>d. sectionOf sections d = Some i) defs"

definition sectionSymbol :: "DataSection \<Rightarrow> DataDefinition list \<Rightarrow> Symbol" where
  "sectionSymbol section defs =
     Symbol SymbolDataSection (toUpper (SectionKind section)) (Range (StartPos section) (EndPos section))
       (Range (StartPos section) (StartPos section)) (concat (map dataDefinitionToSymbol defs))
       [] 0 [] [] []"

definition subroutineSymbol :: "Subroutine \<Rightarrow> Symbol" where
  "subroutineSymbol s =
     Symbol SymbolSubroutine (SubroutineName s) (Range (StartPos s) (EndPos s)) (SubroutineNameRange s)
       [] [] 0 [] [] []"

definition mapSymbol :: "NaturalMap \<Rightarrow> Symbol" where
  "mapSymbol m =
     Symbol SymbolMap (MapName m) (Range (StartPos m) (EndPos m)) (Range (StartPos m) (StartPos m))
       (concat (map dataFieldToSymbol (MapFields m))) [] 0 [] [] []"

definition ddmSymbol :: "DataAccessEntry \<Rightarrow> Symbol" where
  "ddmSymbol e =
     (let rangeEnd = End (daSource e);
          nameEnd = End (daNameRange e)
      in Symbol SymbolDDMReference (daName e)
           (Range (Start (daSource e))
              (if sourceStartLess (Line rangeEnd) (Column rangeEnd) (Line nameEnd) (Column nameEnd)
               then nameEnd else rangeEnd))
           (Range (Start (daNameRange e)) (End (daNameRange e))) [] [] 0 [] [] [])"

definition extractStructure ::
  "string \<Rightarrow> Program \<Rightarrow> DataDefinition list \<Rightarrow> DataAccessEntry list \<Rightarrow> Symbol" where
  "extractStructure path prog defs access =
     (let fileName = pathBase path;
          objectName = take (length fileName - length (pathExt fileName)) fileName;
          sections = DataSections prog;
          children =
            map (\<lambda>i. sectionSymbol (sections ! i) (sectionDefs sections defs i)) [0..<length sections]
            @ map subroutineSymbol (Subroutines prog)
            @ map mapSymbol (Maps prog)
            @ map ddmSymbol (filter (\<lambda>e. daName e \<noteq> []) access)
      in Symbol SymbolObject objectName (Range (StartPos prog) (EndPos prog))
           (Range (StartPos prog) (StartPos prog)) (sortBySource symRange children) [] 0 [] [] [])"

end
