(* ===== verification/Runes.thy ===== *)
theory Runes
  imports Prelude
begin

text \<open>
  A Go \<open>range\<close> loop over a string decodes UTF-8: \<open>decodeRune\<close> is \<open>utf8.DecodeRuneInString\<close>, the
  code point and width of the first character, with U+FFFD and width 1 for a byte that starts
  no valid encoding; \<open>runes\<close> lists the characters of a string with their byte offsets. The
  width of a character in UTF-16 is 2 beyond the basic plane and 1 otherwise.
\<close>

definition byteVal :: "char \<Rightarrow> nat" where
  "byteVal c = of_char c"

definition inRange :: "nat \<Rightarrow> nat \<Rightarrow> char \<Rightarrow> bool" where
  "inRange lo hi c \<longleftrightarrow> lo \<le> byteVal c \<and> byteVal c \<le> hi"

abbreviation runeError :: nat where "runeError \<equiv> 0xFFFD"

text \<open>The range of the second byte, which excludes overlong forms, surrogates and values past U+10FFFF.\<close>

definition secondOK :: "nat \<Rightarrow> char \<Rightarrow> bool" where
  "secondOK b0 c =
     inRange (if b0 = 0xE0 then 0xA0 else if b0 = 0xF0 then 0x90 else 0x80)
             (if b0 = 0xED then 0x9F else if b0 = 0xF4 then 0x8F else 0xBF) c"

definition decodeRune :: "string \<Rightarrow> nat \<times> nat" where
  "decodeRune s =
     (case s of
        [] \<Rightarrow> (runeError, 0)
      | c # rest \<Rightarrow>
          let b0 = byteVal c in
          if b0 < 0x80 then (b0, 1)
          else if 0xC2 \<le> b0 \<and> b0 \<le> 0xDF then
            (case rest of
               c1 # _ \<Rightarrow> if secondOK b0 c1 then ((b0 - 0xC0) * 64 + (byteVal c1 - 0x80), 2)
                         else (runeError, 1)
             | _ \<Rightarrow> (runeError, 1))
          else if 0xE0 \<le> b0 \<and> b0 \<le> 0xEF then
            (case rest of
               c1 # c2 # _ \<Rightarrow>
                 if secondOK b0 c1 \<and> inRange 0x80 0xBF c2
                 then (((b0 - 0xE0) * 64 + (byteVal c1 - 0x80)) * 64 + (byteVal c2 - 0x80), 3)
                 else (runeError, 1)
             | _ \<Rightarrow> (runeError, 1))
          else if 0xF0 \<le> b0 \<and> b0 \<le> 0xF4 then
            (case rest of
               c1 # c2 # c3 # _ \<Rightarrow>
                 if secondOK b0 c1 \<and> inRange 0x80 0xBF c2 \<and> inRange 0x80 0xBF c3
                 then ((((b0 - 0xF0) * 64 + (byteVal c1 - 0x80)) * 64 + (byteVal c2 - 0x80)) * 64
                        + (byteVal c3 - 0x80), 4)
                 else (runeError, 1)
             | _ \<Rightarrow> (runeError, 1))
          else (runeError, 1))"

lemma decodeRune_width: "s \<noteq> [] \<Longrightarrow> 1 \<le> snd (decodeRune s) \<and> snd (decodeRune s) \<le> length s"
  by (cases s) (auto simp: decodeRune_def Let_def split: list.splits)

lemma decodeRune_ascii: "byteVal c < 0x80 \<Longrightarrow> decodeRune (c # s) = (byteVal c, 1)"
  by (simp add: decodeRune_def)

function runesFrom :: "nat \<Rightarrow> string \<Rightarrow> (nat \<times> nat) list" where
  "runesFrom i s =
     (if s = [] then []
      else case decodeRune s of (r, w) \<Rightarrow> (i, r) # runesFrom (i + max 1 w) (drop (max 1 w) s))"
  by pat_completeness auto
termination by (relation "measure (\<lambda>(_, s). length s)") auto

declare runesFrom.simps [simp del]

definition runes :: "string \<Rightarrow> (nat \<times> nat) list" where
  "runes s = runesFrom 0 s"

definition utf16Width :: "nat \<Rightarrow> nat" where
  "utf16Width r = (if r > 0xFFFF then 2 else 1)"

lemma runesFrom_Nil [simp]: "runesFrom i [] = []"
  by (simp add: runesFrom.simps)

lemma runesFrom_Cons:
  "s \<noteq> [] \<Longrightarrow> runesFrom i s =
     (i, fst (decodeRune s)) # runesFrom (i + snd (decodeRune s)) (drop (snd (decodeRune s)) s)"
  using decodeRune_width [of s] by (subst runesFrom.simps) (auto split: prod.splits simp: max_def)

end
