(* ===== verification/DDM.thy ===== *)
theory DDM
  imports Model Runes
begin

text \<open>
  The scanner of DDM reports, \<open>ddm.go\<close>: fixed columns, one field a line, groups nested by level.
  The code's stack holds pointers to the groups that are still open; they lie on the rightmost
  branch of the forest, so the model keeps their levels, as in \<open>Parser_Fields\<close>. Fields that are
  not groups are never pushed, so a deeper field after one of them is its sibling.
\<close>

definition ddmOffsetLevel :: nat where "ddmOffsetLevel = 2"
definition ddmOffsetName :: nat where "ddmOffsetName = 7"
definition ddmNameLen :: nat where "ddmNameLen = 32"
definition ddmOffsetFormat :: nat where "ddmOffsetFormat = 41"
definition ddmOffsetLength :: nat where "ddmOffsetLength = 43"
definition ddmLengthLen :: nat where "ddmLengthLen = 4"
definition ddmMinFieldLen :: nat where "ddmMinFieldLen = ddmOffsetName + 1"

lemmas ddm_columns = ddmOffsetLevel_def ddmOffsetName_def ddmNameLen_def ddmOffsetFormat_def
  ddmOffsetLength_def ddmLengthLen_def ddmMinFieldLen_def

section \<open>Lines\<close>

fun replaceCRLF :: "string \<Rightarrow> string" where
  "replaceCRLF (a # b # s) = (if a = CR \<and> b = LF then LF # replaceCRLF s else a # replaceCRLF (b # s))"
| "replaceCRLF s = s"

definition splitLines :: "string \<Rightarrow> string list" where
  "splitLines content = splitByte LF (replaceCRLF content)"

definition isSQLTypeLine :: "string \<Rightarrow> bool" where
  "isSQLTypeLine line \<longleftrightarrow>
     length line \<ge> 9 \<and> take 6 line = ''TYPE: '' \<and> slice 6 9 line = ''SQL'' \<and>
     (length line = 9 \<or> line ! 9 = SPACE \<or> line ! 9 = CR)"

definition isHeaderLine :: "string \<Rightarrow> bool" where
  "isHeaderLine line \<longleftrightarrow> length line \<ge> 6 \<and> take 6 line = ''TYPE: ''"

definition isDashedLine :: "string \<Rightarrow> bool" where
  "isDashedLine line \<longleftrightarrow> list_all (\<lambda>(_, r). r = 0x2D \<or> r = 0x20) (runes line)"

definition shouldSkipLine :: "string \<Rightarrow> bool" where
  "shouldSkipLine line \<longleftrightarrow>
     line = [] \<or> hd line = CHR ''*'' \<or> length line \<ge> 4 \<and> take 4 line = ''DB: ''
     \<or> length line \<ge> 6 \<and> take 6 line = ''TYPE: ''
     \<or> length line > 1 \<and> hd line = CHR ''T'' \<and> line ! 1 = SPACE \<and> contains line ''Name''
     \<or> isDashedLine line \<or> contains line ''DDM OUTPUT TERMINATED''"

section \<open>Columns\<close>

definition parseLevelAndType :: "string \<Rightarrow> (int \<times> char) option" where
  "parseLevelAndType line =
     (if length line < ddmMinFieldLen then None
      else if \<not> isDigitByte (line ! ddmOffsetLevel) then None
      else Some (digitValue (line ! ddmOffsetLevel),
                 if hd line = CHR ''G'' \<or> hd line = CHR ''P'' \<or> hd line = CHR ''M''
                 then hd line else SPACE))"

definition nameField :: "string \<Rightarrow> string" where
  "nameField line = slice ddmOffsetName (min (ddmOffsetName + ddmNameLen) (length line)) line"

definition parseName :: "string \<Rightarrow> string" where
  "parseName line = (if length line \<le> ddmOffsetName then [] else toUpper (trimSpace (nameField line)))"

definition isGroupType :: "char \<Rightarrow> bool" where
  "isGroupType typeFlag \<longleftrightarrow> typeFlag = CHR ''G'' \<or> typeFlag = CHR ''P''"

abbreviation unbounded :: ArrayDimension where
  "unbounded \<equiv> \<lparr>Lower = 1, Upper = 0, UpperUnbounded = True\<rparr>"

definition parseFormatAndDimensions :: "string \<Rightarrow> char \<Rightarrow> string \<times> ArrayDimension list" where
  "parseFormatAndDimensions line typeFlag =
     (if isGroupType typeFlag
      then ([], if typeFlag = CHR ''P'' then [unbounded] else [])
      else let format = (if length line > ddmOffsetFormat
                         then let ch = line ! ddmOffsetFormat
                              in if ch \<noteq> SPACE \<and> ch \<noteq> CHR ''-'' then [ch] else []
                         else []);
               len = (if length line > ddmOffsetLength
                      then trimSpace (slice ddmOffsetLength
                             (min (ddmOffsetLength + ddmLengthLen) (length line)) line)
                      else [])
           in (format @ len, if typeFlag = CHR ''M'' then [unbounded] else []))"

definition computeNameRange :: "string \<Rightarrow> nat \<Rightarrow> Range" where
  "computeNameRange line lineNo =
     (if length line \<le> ddmOffsetName then zeroRange
      else let inked = map fst (filter (\<lambda>(_, r). r \<noteq> 0x20) (runes (nameField line)))
           in if inked = [] then zeroRange
              else Range (Position (int lineNo + 1) (int (ddmOffsetName + hd inked) + 1))
                         (Position (int lineNo + 1) (int (ddmOffsetName + last inked) + 1)))"

section \<open>Nesting\<close>

fun mapChildren :: "(DataDefinition list \<Rightarrow> DataDefinition list) \<Rightarrow> DataDefinition \<Rightarrow> DataDefinition" where
  "mapChildren h (DataDefinition n l t d k r nr cs rd v) = DataDefinition n l t d k r nr (h cs) rd v"

fun attachDefinition :: "nat \<Rightarrow> DataDefinition \<Rightarrow> DataDefinition list \<Rightarrow> DataDefinition list" where
  "attachDefinition 0 d ds = ds @ [d]"
| "attachDefinition (Suc n) d ds =
     (if ds = [] then [d] else butlast ds @ [mapChildren (attachDefinition n d) (last ds)])"

definition ddmRow :: "string \<Rightarrow> nat \<Rightarrow> (DataDefinition \<times> bool) option" where
  "ddmRow line lineNo =
     (if shouldSkipLine line then None
      else case parseLevelAndType line of
        None \<Rightarrow> None
      | Some (level, typeFlag) \<Rightarrow>
          let name = parseName line in
          if name = [] then None
          else let (ddType, dimensions) = parseFormatAndDimensions line typeFlag
               in Some (DataDefinition name level ddType dimensions []
                          (Range (Position (int lineNo + 1) 1)
                                 (Position (int lineNo + 1) (int (length line) + 1)))
                          (computeNameRange line lineNo) [] [] [],
                        isGroupType typeFlag))"

definition ddmStep ::
  "int list \<times> DataDefinition list \<Rightarrow> nat \<times> string \<Rightarrow> int list \<times> DataDefinition list" where
  "ddmStep st row =
     (case st of (stack, defs) \<Rightarrow>
      (case ddmRow (snd row) (fst row) of
         None \<Rightarrow> st
       | Some (def, isGroup) \<Rightarrow>
           let stack1 = dropWhile (\<lambda>l. l \<ge> ddLevel def) stack
           in (if isGroup then ddLevel def # stack1 else stack1,
               attachDefinition (length stack1) def defs)))"

fun sqlHeader :: "string list \<Rightarrow> bool" where
  "sqlHeader [] \<longleftrightarrow> False"
| "sqlHeader (l # ls) \<longleftrightarrow> isSQLTypeLine l \<or> \<not> isHeaderLine l \<and> sqlHeader ls"

definition extractDDMDefinitions :: "string \<Rightarrow> DataDefinition list" where
  "extractDDMDefinitions content =
     (let lines = splitLines content
      in if sqlHeader lines then []
         else snd (foldl ddmStep ([], []) (enumerate 0 lines)))"

end
