(* ===== verification/Format.thy ===== *)
theory Format
  imports Prelude
begin

text \<open>
  The formatting verbs of package \<open>fmt\<close> that the program uses in messages: \<open>%d\<close> and \<open>%q\<close>.
\<close>

fun natDigits :: "nat \<Rightarrow> string" where
  "natDigits n = (if n < 10 then [char_of (48 + n)] else natDigits (n div 10) @ [char_of (48 + n mod 10)])"

declare natDigits.simps [simp del]

definition itoa :: "int \<Rightarrow> string" where
  "itoa i = (if i < 0 then CHR ''-'' # natDigits (nat (- i)) else natDigits (nat i))"

text \<open>
  The verb \<open>%q\<close>: quoted, with a backslash before quotes and backslashes. Control bytes and bytes
  above 127, which it would escape or decode, are left as they are.
\<close>

definition quoteGo :: "string \<Rightarrow> string" where
  "quoteGo s =
     CHR 0x22 # concat (map (\<lambda>c. if c = CHR 0x22 \<or> c = BACKSLASH then [BACKSLASH, c] else [c]) s) @ [CHR 0x22]"

lemma digitsValue_snoc: "digitsValue (s @ [c]) = 10 * digitsValue s + digitValue c"
  by (simp add: digitsValue_def)

lemma digit_char:
  "k < 10 \<Longrightarrow> digitValue (char_of (48 + k)) = int k" "k < 10 \<Longrightarrow> isDigitByte (char_of (48 + k))"
  by (simp_all add: digitValue_def isDigitByte_def less_eq_char_def)

lemma natDigits_digits: "natDigits n \<noteq> [] \<and> list_all isDigitByte (natDigits n)"
proof (induction n rule: natDigits.induct)
  case (1 n)
  then show ?case by (subst (1 2) natDigits.simps) (simp add: digit_char del: add.commute)
qed

lemma natDigits_value: "digitsValue (natDigits n) = int n"
proof (induction n rule: natDigits.induct)
  case (1 n)
  have "10 * int (n div 10) + int (n mod 10) = int n"
    by (metis mult_div_mod_eq of_nat_add of_nat_mult of_nat_numeral)
  with 1 show ?case
    by (subst natDigits.simps) (auto simp: digit_char digitsValue_snoc, simp add: digitsValue_def digit_char)
qed

text \<open>Reading back what \<open>%d\<close> prints: every 64-bit integer survives.\<close>

lemma atoi_itoa:
  assumes "minInt \<le> i" "i \<le> maxInt"
  shows "atoi (itoa i) = (i, True)"
proof -
  have h: "hd (natDigits n) \<noteq> CHR ''-'' \<and> hd (natDigits n) \<noteq> CHR ''+''" for n
    using natDigits_digits [of n] by (cases "natDigits n") (auto simp: isDigitByte_def less_eq_char_def)
  show ?thesis
    using assms natDigits_digits [of "nat i"] natDigits_digits [of "nat (- i)"] h [of "nat i"]
    by (auto simp: atoi_def itoa_def Let_def natDigits_value)
qed

end
