(* ===== verification/Analyzer.thy ===== *)
theory Analyzer
  imports Structure DDM Format
begin

text \<open>
  The analysis of one file: classification by extension (\<open>objecttype.go\<close>), the pipeline
  \<open>Analyze\<close> (\<open>analyzer.go\<close>), and the scan for uses of variables (\<open>variablerefs.go\<close>).
\<close>

section \<open>Classification\<close>

definition builtInExtensions :: "(string \<times> ObjectType) list" where
  "builtInExtensions =
     [(''.NSP'', ObjectProgram), (''.NSN'', ObjectSubprogram), (''.NSS'', ObjectExternalSubroutine),
      (''.NSC'', ObjectCopycode), (''.NSM'', ObjectMap), (''.NSL'', ObjectLocalDataArea),
      (''.NSG'', ObjectGlobalDataArea), (''.NSA'', ObjectParameterDataArea),
      (''.NSH'', ObjectHelproutine), (''.NSD'', ObjectDDM), (''.NS4'', ObjectClass),
      (''.NS7'', ObjectFunction), (''.NS3'', ObjectDialog), (''.NS8'', ObjectAdapter),
      (''.NST'', ObjectText)]"

definition normalizeExt :: "string \<Rightarrow> string" where
  "normalizeExt path = toUpper (pathExt path)"

definition classify :: "string \<Rightarrow> (string \<rightharpoonup> ObjectType) \<Rightarrow> ObjectType" where
  "classify path custom =
     (let normalizedExt = normalizeExt path in
      if normalizedExt = [] then ObjectUnknown
      else case custom normalizedExt of
        Some objType \<Rightarrow> objType
      | None \<Rightarrow> (case map_of builtInExtensions normalizedExt of
                   Some objType \<Rightarrow> objType
                 | None \<Rightarrow> ObjectUnknown))"

section \<open>Analyze\<close>

definition extensionDiagnostic :: "string \<Rightarrow> Diagnostic" where
  "extensionDiagnostic path =
     \<lparr>dgMessage = ''unrecognized extension '' @ quoteGo (normalizeExt path),
      dgSeverity = DiagnosticInfo, dgCode = DiagnosticCodeSyntax,
      dgRange = Range (Position 1 1) (Position 1 1)\<rparr>"

definition dataAreaEdge :: "DataAreaRef \<Rightarrow> EdgeEntry" where
  "dataAreaEdge ref =
     \<lparr>eeSource = darRange ref, eeTarget = zeroRange, eeKind = EdgeUsesDataArea,
      eeTargetName = darName ref, eeLibrary = []\<rparr>"

definition analyzeProgram :: "string \<Rightarrow> FileAnalysis \<Rightarrow> Program \<Rightarrow> FileAnalysis" where
  "analyzeProgram path result ast =
     (let diags = faDiagnostics result
                  @ map (\<lambda>d. d\<lparr>dgCode := DiagnosticCodeSyntax\<rparr>) (Diagnostics ast);
          defs = extractDefinitions ast;
          edges1 = sortBySource eeSource (extractEdges ast @ extractSQLCalls ast);
          access = sortBySource daSource (extractDataAccess ast @ extractSQLAccess ast);
          refs = extractDataAreaRefs ast;
          edges2 = sortBySource eeSource (edges1 @ map dataAreaEdge refs)
      in result\<lparr>faDiagnostics := diags, faEdges := edges2, faDataAccess := access,
                faDefinitions := defs, faWorkFiles := extractWorkFiles ast,
                faHostVarRefs := extractHostVarRefs ast, faDataAreaRefs := refs,
                faStructure := Some (extractStructure path ast defs access)\<rparr>)"

definition Analyze :: "(string \<rightharpoonup> ObjectType) \<Rightarrow> string \<Rightarrow> string \<Rightarrow> FileAnalysis" where
  "Analyze custom path content =
     (let objType = classify path custom;
          result = zeroFileAnalysis\<lparr>faObjectType := objType,
                     faDiagnostics := (if objType = ObjectUnknown then [extensionDiagnostic path] else [])\<rparr>
      in if objType = ObjectDDM
         then result\<lparr>faDefinitions := extractDDMDefinitions content\<rparr>
         else analyzeProgram path result (parseSource content))"

section \<open>Uses of variables\<close>

definition variableRef :: "Token \<Rightarrow> VariableRef" where
  "variableRef tok =
     \<lparr>vrName = tkLiteral tok,
      vrRange = Range (Position (tkLine tok) (tkColumn tok))
                  (Position (tkLine tok) (tkColumn tok + int (length (tkLiteral tok)) - 1))\<rparr>"

lemma NextToken_moves:
  "(t, l') = NextToken l \<Longrightarrow> remaining l' \<le> remaining l \<and> (tkType t = TokenEOF \<or> remaining l' < remaining l)"
  using NextToken_remaining(2,3) [of l t l'] by auto

function variableRefsLoop :: "VariableRef list \<Rightarrow> bool \<Rightarrow> Lexer \<Rightarrow> VariableRef list" where
  "variableRefsLoop refs inDataSection l =
     (case NextToken l of (tok, l1) \<Rightarrow>
        if tkType tok = TokenEOF then refs
        else if tkType tok = TokenKeyword \<and> tkLiteral tok = ''DEFINE''
        then (case NextToken l1 of (nextTok, l2) \<Rightarrow>
                variableRefsLoop refs
                  (if tkType nextTok = TokenKeyword \<and> tkLiteral nextTok = ''DATA'' then True else inDataSection)
                  l2)
        else if tkType tok = TokenIdentifier \<and> (tkLiteral tok = ''END-DEFINE'' \<or> tkLiteral tok = ''END-DATA'')
        then variableRefsLoop refs False l1
        else if inDataSection then variableRefsLoop refs inDataSection l1
        else if tkType tok \<noteq> TokenIdentifier then variableRefsLoop refs inDataSection l1
        else if tkLiteral tok \<noteq> [] \<and> hd (tkLiteral tok) = CHR ''*'' then variableRefsLoop refs inDataSection l1
        else if tkLiteral tok \<noteq> [] \<and> hd (tkLiteral tok) = CHR ''&'' then variableRefsLoop refs inDataSection l1
        else variableRefsLoop (refs @ [variableRef tok]) inDataSection l1)"
  by pat_completeness auto
termination
  by (relation "measure (\<lambda>(_, _, l). remaining l)")
     (auto dest!: NextToken_moves split: prod.splits)

declare variableRefsLoop.simps [simp del]

definition ExtractVariableRefs :: "string \<Rightarrow> VariableRef list" where
  "ExtractVariableRefs content =
     (if content = [] then [] else variableRefsLoop [] False (NewLexer content))"

end
