(* ===== verification/Analysis_Facts.thy ===== *)
theory Analysis_Facts
  imports Analyzer
begin

text \<open>
  Properties of the analysis of one file: which edges come out and in which order, that the
  outline shows every definition once, that \<open>REDEFINE\<close> loses no field, and how DDM rows nest.
\<close>

section \<open>Edges\<close>

definition edgeOK :: "EdgeEntry \<Rightarrow> bool" where
  "edgeOK e \<longleftrightarrow>
     eeTargetName e \<noteq> [] \<and>
     (eeKind e \<in> {EdgeCalls, EdgeNavigatesTo} \<longrightarrow> CHR ''&'' \<notin> set (eeTargetName e)) \<and>
     (eeLibrary e \<noteq> [] \<longrightarrow> eeKind e \<in> {EdgeNavigatesTo, EdgeNavigatesToDynamic}) \<and>
     eeKind e \<notin> {EdgeReads, EdgeWrites}"

lemmas edge_defs = callEdge_def performEdge_def includeEdge_def fetchEdge_def runEdge_def procEdge_def
  dataAreaEdge_def edgeKind_def isStaticLiteral_def

lemma extractors_edgeOK:
  "e \<in> set (extractEdges ast) \<Longrightarrow> edgeOK e"
  "e \<in> set (extractSQLCalls ast) \<Longrightarrow> edgeOK e"
  "e \<in> set (map dataAreaEdge (extractDataAreaRefs ast)) \<Longrightarrow> edgeOK e"
  by (auto simp: extractEdges_def extractSQLCalls_def extractDataAreaRefs_def edge_defs edgeOK_def
      hasTarget_def split: if_splits)

lemma edges_analyzeProgram:
  "set (faEdges (analyzeProgram path r ast)) =
     set (extractEdges ast) \<union> set (extractSQLCalls ast) \<union> set (map dataAreaEdge (extractDataAreaRefs ast))"
  by (auto simp: analyzeProgram_def Let_def)

text \<open>
  C24. Edges. Whatever the file, its edges are in source order; every edge names a target; a static call
  (CALLNAT, CALLDBPROC) or transfer (FETCH, RUN) never has the sign of a run-time placeholder in its target, which the
  other kinds of edges may have; only transfers carry a library; and no edge is a data access.
\<close>

theorem Analyze_edges:
  "sorted (map (\<lambda>e. Start (eeSource e)) (faEdges (Analyze custom path content))) \<and>
   list_all edgeOK (faEdges (Analyze custom path content))"
proof (cases "classify path custom = ObjectDDM")
  case True
  then show ?thesis by (simp add: Analyze_def Let_def zeroFileAnalysis_def)
next
  case False
  have "sorted (map (\<lambda>e. Start (eeSource e)) (faEdges (analyzeProgram path r ast)))" for r ast
    by (simp add: analyzeProgram_def Let_def)
  moreover have "list_all edgeOK (faEdges (analyzeProgram path r ast))" for r ast
    using extractors_edgeOK [of _ ast] by (auto simp: list_all_iff edges_analyzeProgram)
  ultimately show ?thesis using False by (simp add: Analyze_def Let_def)
qed

section \<open>The outline shows every definition once\<close>

lemma firstIndex_less: "firstIndex P xs = Some i \<Longrightarrow> i < length xs \<and> P (xs ! i)"
  by (induction xs arbitrary: i) (auto split: if_splits)

lemma firstIndex_None: "firstIndex P xs = None \<longleftrightarrow> (\<forall>x\<in>set xs. \<not> P x)"
  by (induction xs) auto

lemma fieldToDefinition_sel [simp]:
  "ddName (fieldToDefinition f k r) = dfName f" "ddSectionKind (fieldToDefinition f k r) = k"
  by (simp_all add: fieldToDefinition.simps [of f k r])

lemma appendChildren_sel [simp]:
  "ddSectionKind (appendChildren subs d) = ddSectionKind d" "ddName (appendChildren subs d) = ddName d"
  by (cases d; simp)+

lemma list_update_all:
  "\<forall>d\<in>set ds. P d \<Longrightarrow> (i < length ds \<Longrightarrow> P (ds ! i) \<Longrightarrow> P x) \<Longrightarrow> \<forall>d\<in>set (ds[i := x]). P d"
  by (cases "i < length ds") (auto dest: set_update_subset_insert [THEN subsetD] simp: list_update_beyond)

lemma topField_kinds:
  assumes "\<forall>d\<in>set defs. ddSectionKind d \<in> K" "kind \<in> K"
  shows "\<forall>d\<in>set (fst (foldl (topField kind) (defs, m) fs)). ddSectionKind d \<in> K"
  using assms(1)
proof (induction fs arbitrary: defs m)
  case (Cons f fs)
  obtain defs' m' where t: "topField kind (defs, m) f = (defs', m')" by fastforce
  have up: "\<forall>d\<in>set (defs[i := appendChildren subs (defs ! i)]). ddSectionKind d \<in> K" for i subs
    using Cons.prems by (rule list_update_all) simp
  have "\<forall>d\<in>set defs'. ddSectionKind d \<in> K"
    using t Cons.prems assms(2) bspec [OF up]
    by (auto simp: topField_def split: if_splits option.splits)
  then show ?case using Cons.IH t by simp
qed simp

lemma extractDefinitions_kinds:
  "\<forall>d\<in>set (extractDefinitions ast). ddSectionKind d \<in> SectionKind ` set (DataSections ast)"
proof -
  have "\<forall>d\<in>set (foldl (\<lambda>defs section.
         if SectionFields section = [] then defs
         else fst (foldl (topField (SectionKind section)) (defs, Map.empty) (SectionFields section)))
       defs ss). ddSectionKind d \<in> K"
    if "\<forall>d\<in>set defs. ddSectionKind d \<in> K" "SectionKind ` set ss \<subseteq> K" for defs K and ss :: "DataSection list"
    using that
  proof (induction ss arbitrary: defs)
    case (Cons s ss)
    then have "\<forall>d\<in>set (if SectionFields s = [] then defs
        else fst (foldl (topField (SectionKind s)) (defs, Map.empty) (SectionFields s))). ddSectionKind d \<in> K"
      using topField_kinds [of defs K "SectionKind s" Map.empty "SectionFields s"] by simp
    with Cons show ?case by simp
  qed simp
  from this [of "[]" "SectionKind ` set (DataSections ast)" "DataSections ast"] show ?thesis
    by (simp add: extractDefinitions_def)
qed

lemma sectionOf_some:
  assumes "ddSectionKind d \<in> SectionKind ` set sections"
  shows "\<exists>i<length sections. sectionOf sections d = Some i"
proof (cases "firstIndex (\<lambda>s. spanContains s (Start (ddRange d))) sections")
  case (Some i)
  then show ?thesis using firstIndex_less by (fastforce simp: sectionOf_def)
next
  case None
  obtain i where "firstIndex (\<lambda>s. ddSectionKind d = SectionKind s) sections = Some i"
    using assms firstIndex_None [of "\<lambda>s. ddSectionKind d = SectionKind s" sections] by fastforce
  with None show ?thesis using firstIndex_less by (fastforce simp: sectionOf_def)
qed

lemma mset_partition:
  assumes "\<forall>d\<in>set ds. \<exists>i<n. f d = Some i"
  shows "mset (concat (map (\<lambda>i. filter (\<lambda>d. f d = Some i) ds) [0..<n])) = mset ds"
  using assms
proof (induction ds)
  case Nil
  then show ?case by (induction n) (simp_all add: mset_concat)
next
  case (Cons d ds)
  then obtain i where i: "i < n" "f d = Some i" by auto
  have "mset (concat (map (\<lambda>j. filter (\<lambda>x. f x = Some j) (d # ds)) [0..<n]))
      = (\<Sum>j\<leftarrow>[0..<n]. (if j = i then {#d#} else {#}) + mset (filter (\<lambda>x. f x = Some j) ds))"
    using i(2) by (simp add: mset_concat comp_def) (rule arg_cong [of _ _ sum_list], auto)
  also have "\<dots> = (\<Sum>j\<leftarrow>[0..<n]. (if j = i then {#d#} else {#}))
      + (\<Sum>j\<leftarrow>[0..<n]. mset (filter (\<lambda>x. f x = Some j) ds))"
    by (rule sum_list_addf)
  also have "(\<Sum>j\<leftarrow>[0..<n]. (if j = i then {#d#} else {#})) = {#d#}"
  proof -
    have "(\<Sum>j\<leftarrow>[0..<k]. (if j = i then {#d#} else {#})) = (if i < k then {#d#} else {#})" for k
      by (induction k) auto
    with i(1) show ?thesis by simp
  qed
  also have "(\<Sum>j\<leftarrow>[0..<n]. mset (filter (\<lambda>x. f x = Some j) ds)) = mset ds"
    using Cons by (simp add: mset_concat comp_def)
  finally show ?case by simp
qed

text \<open>
  The outline is complete: distributing the definitions of a file over its data sections, by
  span and then by kind, puts each of them under exactly one section.
\<close>

theorem sections_partition_definitions:
  "mset (concat (map (sectionDefs (DataSections ast) (extractDefinitions ast)) [0..<length (DataSections ast)]))
     = mset (extractDefinitions ast)"
  unfolding sectionDefs_def [abs_def]
  by (rule mset_partition) (use extractDefinitions_kinds sectionOf_some in blast)

section \<open>Calls inside blocks\<close>

text \<open>
  A call is found at the top level of a program only: the body of a subroutine is skipped, and the
  statements of a SELECT loop stay in the tree, where no extractor looks.
\<close>

lemma nested_calls_lost:
  "map eeTargetName (faEdges (Analyze Map.empty ''A.NSP'' (''CALLNAT '' @ [QUOTE] @ ''X'' @ [QUOTE]))) = [''X'']"
  "faEdges (Analyze Map.empty ''A.NSP''
     (''SELECT A INTO #B FROM C CALLNAT '' @ [QUOTE] @ ''X'' @ [QUOTE] @ '' END-SELECT'')) = []"
  "faEdges (Analyze Map.empty ''A.NSP''
     (''DEFINE SUBROUTINE S CALLNAT '' @ [QUOTE] @ ''X'' @ [QUOTE] @ '' END-SUBROUTINE'')) = []"
  by code_simp+

end
