(* ===== verification/Config.thy ===== *)
theory Config
  imports Format Model
begin

text \<open>
  The workspace configuration, \<open>config.go\<close>, and the index keys of \<open>paths.go\<close>. The TOML decoder
  and the file system are outside the repository: \<open>FindRoot\<close> takes the question "does this file
  exist" as an argument, and validation starts from a decoded configuration. A Go map is an
  association list, in some order of its entries; its keys are distinct.
\<close>

section \<open>The schema\<close>

record WorkspaceConfig =
  Extensions :: "string list"
  Exclude :: "string list"
  MaxFileSize :: int
  ExtensionTypes :: "(string \<times> string) list"

record CacheConfig =
  CachePath :: string

record AnalysisConfig =
  FlagDynamicCalls :: bool
  DynamicCallMinLength :: int
  EnableCodeLens :: bool

record Library =
  libName :: string
  libPath :: string
  Steplibs :: "string list"

record ResolutionConfig =
  Libraries :: "Library list"

record Config =
  cfgWorkspace :: WorkspaceConfig
  cfgCache :: CacheConfig
  cfgAnalysis :: AnalysisConfig
  cfgResolution :: ResolutionConfig

record Problem =
  prKey :: string
  prMessage :: string
  prFallenBackTo :: string

definition Defaults :: Config where
  "Defaults =
     \<lparr>cfgWorkspace =
        \<lparr>Extensions = [''.NSP'', ''.NSN'', ''.NSS'', ''.NSC'', ''.NSM'', ''.NSL'', ''.NSG'', ''.NSA'',
                       ''.NSH'', ''.NSD'', ''.NS4'', ''.NS7'', ''.NS3'', ''.NS8'', ''.NST''],
         Exclude = [''archive'', ''backup'', ''.git''], MaxFileSize = 5000000, ExtensionTypes = []\<rparr>,
      cfgCache = \<lparr>CachePath = ''.natural-lsp-cache''\<rparr>,
      cfgAnalysis = \<lparr>FlagDynamicCalls = True, DynamicCallMinLength = 6, EnableCodeLens = True\<rparr>,
      cfgResolution = \<lparr>Libraries = []\<rparr>\<rparr>"

definition validExtensionTypeValues :: "string list" where
  "validExtensionTypeValues =
     [''program'', ''subprogram'', ''externalsubroutine'', ''copycode'', ''map'', ''localdataarea'',
      ''globaldataarea'', ''parameterdataarea'', ''helproutine'', ''ddm'', ''class'', ''function'',
      ''dialog'', ''adapter'', ''text'']"

section \<open>The workspace root\<close>

definition sentinelName :: string where "sentinelName = ''.natural-lsp.toml''"

text \<open>\<open>filepath.Dir\<close> and \<open>filepath.Join\<close> with a file name, on clean paths with slashes.\<close>

definition filepathDir :: "string \<Rightarrow> string" where
  "filepathDir p =
     (case lastIndexByte p (CHR ''/'') of
        None \<Rightarrow> ''.''
      | Some i \<Rightarrow> if i = 0 then ''/'' else take i p)"

definition filepathJoin :: "string \<Rightarrow> string \<Rightarrow> string" where
  "filepathJoin dir name = (if dir = ''/'' then dir @ name else dir @ ''/'' @ name)"

lemma filepathDir_shorter:
  "length (filepathDir p) < length p \<or> filepathDir p = ''.'' \<or> filepathDir p = p"
proof (cases "lastIndexByte p (CHR ''/'')")
  case (Some i)
  then have i: "i < length p" by (rule lastIndexByte_less)
  show ?thesis
  proof (cases "i = 0 \<and> length p = 1")
    case True
    moreover have "CHR ''/'' \<in> set p"
      using Some indexByte_None_iff [of "rev p" "CHR ''/''"] by (auto simp: lastIndexByte_def)
    ultimately have "p = ''/''" by (cases p) auto
    then show ?thesis using Some True by (simp add: filepathDir_def)
  next
    case False
    with i have "i \<noteq> 0 \<or> 1 < length p" by linarith
    then show ?thesis using i Some by (auto simp: filepathDir_def)
  qed
qed (simp add: filepathDir_def)

text \<open>\<open>FindRoot\<close>, from a start that is already absolute and clean; \<open>stat\<close> says which files exist.\<close>

function rootLoop :: "(string \<Rightarrow> bool) \<Rightarrow> string \<Rightarrow> string \<Rightarrow> string \<times> bool" where
  "rootLoop stat start dir =
     (if stat (filepathJoin dir sentinelName) then (dir, True)
      else let parent = filepathDir dir
           in if parent = dir then (start, False) else rootLoop stat start parent)"
  by pat_completeness auto
termination
proof (relation "measure (\<lambda>(_, _, dir). if dir = ''.'' then 0 else Suc (length dir))", goal_cases)
  case (2 stat start dir x)
  then show ?case using filepathDir_shorter [of dir] by (auto simp: filepathDir_def lastIndexByte_def)
qed simp

declare rootLoop.simps [simp del]

definition FindRoot :: "(string \<Rightarrow> bool) \<Rightarrow> string \<Rightarrow> string \<times> bool" where
  "FindRoot stat start = rootLoop stat start start"

text \<open>The root \<open>Bootstrap\<close> works with: the sentinel's directory, else the client's hint, else the start.\<close>

definition bootstrapRoot :: "(string \<Rightarrow> bool) \<Rightarrow> string \<Rightarrow> string \<Rightarrow> string" where
  "bootstrapRoot stat start workspaceHint =
     (case FindRoot stat start of
        (root, found) \<Rightarrow> if \<not> found \<and> workspaceHint \<noteq> [] then workspaceHint else root)"

section \<open>Exclusion and index keys\<close>

definition isSeparator :: "char \<Rightarrow> bool" where
  "isSeparator c \<longleftrightarrow> c = CHR ''/'' \<or> c = BACKSLASH"

definition IsExcluded :: "Config \<Rightarrow> string \<Rightarrow> bool" where
  "IsExcluded c relPath \<longleftrightarrow>
     list_ex (\<lambda>segment. list_ex (\<lambda>entry. toUpper segment = toUpper entry) (Exclude (cfgWorkspace c)))
       (fieldsFunc isSeparator relPath)"

definition NormalizeKey :: "string \<Rightarrow> string" where
  "NormalizeKey rel = map (\<lambda>c. if c = BACKSLASH then CHR ''/'' else c) rel"

section \<open>Validation\<close>

definition onlyDots :: "string \<Rightarrow> bool" where
  "onlyDots s \<longleftrightarrow> list_all (\<lambda>c. c = CHR ''.'') s"

definition withDot :: "string \<Rightarrow> string" where
  "withDot s = (if hasPrefix s ''.'' then s else CHR ''.'' # s)"

definition normalizeStep :: "string list \<times> nat \<Rightarrow> string \<Rightarrow> string list \<times> nat" where
  "normalizeStep st raw =
     (case st of (normalized, dropped) \<Rightarrow>
        let ext = trimSpace raw in
        if ext = [] then (normalized, dropped + 1)
        else let ext = toUpper (withDot ext) in
        if onlyDots ext then (normalized, dropped + 1)
        else if ext \<in> set normalized then (normalized, dropped)
        else (normalized @ [ext], dropped))"

definition normalizeExtensions :: "string list \<Rightarrow> string list \<times> nat" where
  "normalizeExtensions exts = foldl normalizeStep ([], 0) exts"

definition validateExtensions :: "Config \<Rightarrow> Config \<times> Problem list" where
  "validateExtensions cfg =
     (let ws = cfgWorkspace cfg;
          (normalized, dropped) = normalizeExtensions (Extensions ws);
          ps1 = (if dropped > 0
                 then [\<lparr>prKey = ''workspace.extensions'',
                        prMessage = itoa (int dropped) @ '' degenerate extension(s) were dropped (dot-only or whitespace-only entries are not valid); using the normalized set'',
                        prFallenBackTo = ''normalized set without degenerate entries''\<rparr>]
                 else [])
      in if normalized \<noteq> [] then (cfg\<lparr>cfgWorkspace := ws\<lparr>Extensions := normalized\<rparr>\<rparr>, ps1)
         else let def = Extensions (cfgWorkspace Defaults)
              in (cfg\<lparr>cfgWorkspace := ws\<lparr>Extensions := def\<rparr>\<rparr>,
                  ps1 @ [\<lparr>prKey = ''workspace.extensions'',
                          prMessage = ''workspace.extensions contained no usable entries after normalization; using the default object-type set'',
                          prFallenBackTo = joinStrings def [SPACE]\<rparr>]))"

definition validateFileSize :: "Config \<Rightarrow> Config \<times> Problem list" where
  "validateFileSize cfg =
     (let ws = cfgWorkspace cfg; fallback = MaxFileSize (cfgWorkspace Defaults) in
      if MaxFileSize ws \<le> 0
      then (cfg\<lparr>cfgWorkspace := ws\<lparr>MaxFileSize := fallback\<rparr>\<rparr>,
            [\<lparr>prKey = ''workspace.max_file_size'',
              prMessage = ''workspace.max_file_size must be a positive byte count, got '' @ itoa (MaxFileSize ws)
                @ ''; using default '' @ itoa fallback,
              prFallenBackTo = itoa fallback\<rparr>])
      else (cfg, []))"

definition validateCachePath :: "Config \<Rightarrow> Config \<times> Problem list" where
  "validateCachePath cfg =
     (let fallback = CachePath (cfgCache Defaults) in
      if CachePath (cfgCache cfg) = []
      then (cfg\<lparr>cfgCache := (cfgCache cfg)\<lparr>CachePath := fallback\<rparr>\<rparr>,
            [\<lparr>prKey = ''cache.path'',
              prMessage = ''cache.path must not be empty; using default '' @ quoteGo fallback,
              prFallenBackTo = fallback\<rparr>])
      else (cfg, []))"

definition nameless :: "Library \<Rightarrow> bool" where
  "nameless lib \<longleftrightarrow> trimSpace (libName lib) = []"

definition validateLibraries :: "Config \<Rightarrow> Config \<times> Problem list" where
  "validateLibraries cfg =
     (let libs = Libraries (cfgResolution cfg) in
      (cfg\<lparr>cfgResolution := (cfgResolution cfg)\<lparr>Libraries := filter (\<lambda>l. \<not> nameless l) libs\<rparr>\<rparr>,
       map (\<lambda>_. \<lparr>prKey = ''resolution.library.name'',
                   prMessage = ''a [[resolution.library]] entry has no name and was dropped'',
                   prFallenBackTo = ''entry omitted''\<rparr>) (filter nameless libs)))"

definition validateMinLength :: "Config \<Rightarrow> Config \<times> Problem list" where
  "validateMinLength cfg =
     (let an = cfgAnalysis cfg; fallback = DynamicCallMinLength (cfgAnalysis Defaults) in
      if DynamicCallMinLength an \<le> 0
      then (cfg\<lparr>cfgAnalysis := an\<lparr>DynamicCallMinLength := fallback\<rparr>\<rparr>,
            [\<lparr>prKey = ''analysis.dynamic_call_min_length'',
              prMessage = ''analysis.dynamic_call_min_length must be positive, got ''
                @ itoa (DynamicCallMinLength an) @ ''; using default '' @ itoa fallback,
              prFallenBackTo = itoa fallback\<rparr>])
      else (cfg, []))"

abbreviation omitted :: "string \<Rightarrow> Problem" where
  "omitted message \<equiv>
     \<lparr>prKey = ''workspace.extension_types'', prMessage = message, prFallenBackTo = ''entry omitted''\<rparr>"

definition extensionTypeStep ::
  "(string \<times> string) list \<Rightarrow> (string \<times> string) list \<times> Problem list \<Rightarrow> string
    \<Rightarrow> (string \<times> string) list \<times> Problem list" where
  "extensionTypeStep types st key =
     (case st of (validated, problems) \<Rightarrow>
        let value = the (map_of types key);
            normalizedKey = withDot (toUpper (trimSpace key))
        in if normalizedKey = ''.''
           then (validated, problems @ [omitted (''degenerate extension key '' @ quoteGo key
                   @ '' (normalized to '' @ quoteGo normalizedKey @ ''); entry dropped'')])
           else if normalizedKey \<in> set (map fst validated)
           then (validated, problems @ [omitted (''duplicate extension '' @ quoteGo normalizedKey
                   @ '' (normalized from '' @ quoteGo key @ '') already mapped; entry dropped'')])
           else if toLower value \<notin> set validExtensionTypeValues
           then (validated, problems @ [omitted (''invalid object type '' @ quoteGo value
                   @ '' for extension '' @ quoteGo key @ ''; entry dropped'')])
           else (validated @ [(normalizedKey, toLower value)], problems))"

definition validateExtensionTypes :: "Config \<Rightarrow> Config \<times> Problem list" where
  "validateExtensionTypes cfg =
     (let ws = cfgWorkspace cfg;
          types = ExtensionTypes ws;
          (validated, problems) = foldl (extensionTypeStep types) ([], []) (sort (map fst types))
      in (cfg\<lparr>cfgWorkspace := ws\<lparr>ExtensionTypes := validated\<rparr>\<rparr>, problems))"

text \<open>\<open>Validate\<close>: the checks in the code's order, each on what the one before returned.\<close>

definition andThen ::
  "(Config \<Rightarrow> Config \<times> Problem list) \<Rightarrow> Config \<times> Problem list \<Rightarrow> Config \<times> Problem list" where
  "andThen check st =
     (case st of (cfg, ps) \<Rightarrow> case check cfg of (cfg', ps') \<Rightarrow> (cfg', ps @ ps'))"

definition Validate :: "Config \<Rightarrow> Config \<times> Problem list" where
  "Validate cfg =
     foldl (\<lambda>st check. andThen check st) (cfg, [])
       [validateExtensions, validateFileSize, validateCachePath, validateLibraries, validateMinLength,
        validateExtensionTypes]"

end
