(* ===== verification/Config_Facts.thy ===== *)
theory Config_Facts
  imports Config
begin

text \<open>
  What validation guarantees: the configuration it returns meets the documented rules, and
  validating it again changes nothing and reports nothing; and the laws of the path functions.
\<close>

section \<open>Exclusion\<close>

lemma dropWhile_prefix:
  "dropWhile P s \<noteq> [] \<Longrightarrow> dropWhile P (s @ t) = dropWhile P s @ t"
  by (induction s) auto

lemma takeWhile_boundary:
  "t = [] \<or> P (hd t) \<Longrightarrow> takeWhile (\<lambda>c. \<not> P c) (s @ t) = takeWhile (\<lambda>c. \<not> P c) s"
  by (induction s) (cases t; auto)+

lemma dropWhile_boundary:
  "t = [] \<or> P (hd t) \<Longrightarrow> dropWhile (\<lambda>c. \<not> P c) (s @ t) = dropWhile (\<lambda>c. \<not> P c) s @ t"
  by (induction s) (cases t; auto)+

lemma fieldsFunc_append:
  "t = [] \<or> P (hd t) \<Longrightarrow> fieldsFunc P (s @ t) = fieldsFunc P s @ fieldsFunc P t"
proof (induction P s rule: fieldsFunc.induct)
  case (1 P s)
  show ?case
  proof (cases "dropWhile P s = []")
    case True
    then have "dropWhile P (s @ t) = dropWhile P t" by (induction s) (auto split: if_splits)
    with True show ?thesis
      by (simp add: fieldsFunc.simps [of P "s @ t"] fieldsFunc.simps [of P s] fieldsFunc.simps [of P t])
  next
    case False
    let ?r = "dropWhile (\<lambda>c. \<not> P c) (dropWhile P s)"
    have "fieldsFunc P (?r @ t) = fieldsFunc P ?r @ fieldsFunc P t"
      using 1(1) [OF refl False] 1(2) by simp
    then show ?thesis
      unfolding fieldsFunc.simps [of P "s @ t"] fieldsFunc.simps [of P s]
      using False 1(2)
      by (simp only: dropWhile_prefix takeWhile_boundary dropWhile_boundary Let_def append_is_Nil_conv
          if_False simp_thms append_Cons append_Nil)
  qed
qed

text \<open>
  Exclusion is inherited: whatever lies below an excluded path is excluded, so the indexer
  loses nothing it would have taken by skipping an excluded directory as a whole.
\<close>

theorem IsExcluded_below:
  assumes "IsExcluded c dir"
  shows "IsExcluded c (dir @ ''/'' @ rest)"
  using assms fieldsFunc_append [of "''/'' @ rest" isSeparator dir]
  by (auto simp: IsExcluded_def isSeparator_def)

theorem IsExcluded_below_witness:
  "IsExcluded Defaults (''src/ARCHIVE'' @ ''/'' @ ''A.NSP'')"
  by (rule IsExcluded_below) code_simp

section \<open>The workspace root\<close>

text \<open>\<open>filepath.Dir\<close> repeated up to its fixed point.\<close>

function ancestors :: "string \<Rightarrow> string list" where
  "ancestors dir = dir # (if filepathDir dir = dir then [] else ancestors (filepathDir dir))"
  by pat_completeness auto
termination
proof (relation "measure (\<lambda>dir. if dir = ''.'' then 0 else Suc (length dir))", goal_cases)
  case (2 dir)
  then show ?case using filepathDir_shorter [of dir] by (auto simp: filepathDir_def lastIndexByte_def)
qed simp

declare ancestors.simps [simp del]

lemma rootLoop_ancestors:
  "rootLoop stat start dir =
     (case find (\<lambda>d. stat (filepathJoin d sentinelName)) (ancestors dir) of
        Some d \<Rightarrow> (d, True) | None \<Rightarrow> (start, False))"
proof (induction stat start dir rule: rootLoop.induct)
  case (1 stat start dir)
  then show ?case by (subst rootLoop.simps, subst ancestors.simps) (simp add: Let_def)
qed

text \<open>
  Nearest sentinel wins: the root is the first directory with a sentinel among the start and
  its ancestors, in that order, and the start itself, flagged as not found, when there is none.
\<close>

theorem FindRoot_nearest:
  "FindRoot stat start =
     (case find (\<lambda>d. stat (filepathJoin d sentinelName)) (ancestors start) of
        Some d \<Rightarrow> (d, True) | None \<Rightarrow> (start, False))"
  by (simp add: FindRoot_def rootLoop_ancestors)

section \<open>Validation\<close>

definition validExtension :: "string \<Rightarrow> bool" where
  "validExtension e \<longleftrightarrow>
     hasPrefix e ''.'' \<and> \<not> onlyDots e \<and> toUpper e = e \<and> trimSpace e = e"

definition validType :: "string \<times> string \<Rightarrow> bool" where
  "validType e \<longleftrightarrow>
     hasPrefix (fst e) ''.'' \<and> fst e \<noteq> ''.'' \<and> toUpper (fst e) = fst e \<and> trimSpace (fst e) = fst e
     \<and> snd e \<in> set validExtensionTypeValues"

definition validConfig :: "Config \<Rightarrow> bool" where
  "validConfig cfg \<longleftrightarrow>
     Extensions (cfgWorkspace cfg) \<noteq> [] \<and> distinct (Extensions (cfgWorkspace cfg)) \<and>
     list_all validExtension (Extensions (cfgWorkspace cfg)) \<and>
     MaxFileSize (cfgWorkspace cfg) > 0 \<and>
     distinct (map fst (ExtensionTypes (cfgWorkspace cfg))) \<and>
     list_all validType (ExtensionTypes (cfgWorkspace cfg)) \<and>
     CachePath (cfgCache cfg) \<noteq> [] \<and> DynamicCallMinLength (cfgAnalysis cfg) > 0 \<and>
     list_all (\<lambda>l. \<not> nameless l) (Libraries (cfgResolution cfg))"

lemma space_small: "isSpaceByte c \<Longrightarrow> (of_char c :: nat) \<le> 32"
  by (auto simp: isSpaceByte_def)

lemma space_upper [simp]: "isSpaceByte (byteToUpper c) = isSpaceByte c"
proof (cases "isLowerByte c")
  case True
  then have "97 \<le> (of_char c :: nat)" "(of_char c :: nat) \<le> 122"
    by (simp_all add: isLowerByte_def less_eq_char_def)
  moreover from this have "(of_char (byteToUpper c) :: nat) = of_char c - 32"
    using True by (simp add: byteToUpper_def)
  ultimately show ?thesis using space_small [of c] space_small [of "byteToUpper c"] by auto
qed (simp add: byteToUpper_def)

lemma trimSpace_toUpper: "trimSpace (toUpper s) = toUpper (trimSpace s)"
  by (simp add: trimSpace_def toUpper_def dropWhile_map rev_map comp_def)

lemma dropWhile_fixed: "dropWhile P s = s \<longleftrightarrow> s = [] \<or> \<not> P (hd s)"
  using length_dropWhile_le [of P "tl s"]
  by (cases s) (auto dest: arg_cong [of _ _ length])

lemma trimSpace_iff: "trimSpace s = s \<longleftrightarrow> s = [] \<or> \<not> isSpaceByte (hd s) \<and> \<not> isSpaceByte (last s)"
proof
  let ?d = "dropWhile isSpaceByte s"
  assume *: "trimSpace s = s"
  have "length s \<le> length ?d"
    using arg_cong [OF *, of length] length_dropWhile_le [of isSpaceByte "rev ?d"] by (simp add: trimSpace_def)
  then have "?d = s"
    by (metis append_eq_conv_conj append.left_neutral length_append length_dropWhile_le
        add_diff_cancel_right' le_antisym takeWhile_dropWhile_id length_0_conv diff_self_eq_0)
  with * show "s = [] \<or> \<not> isSpaceByte (hd s) \<and> \<not> isSpaceByte (last s)"
    by (metis dropWhile_fixed hd_rev rev_is_Nil_conv rev_rev_ident trimSpace_def)
next
  assume "s = [] \<or> \<not> isSpaceByte (hd s) \<and> \<not> isSpaceByte (last s)"
  then show "trimSpace s = s"
    by (metis dropWhile_fixed hd_rev rev_is_Nil_conv rev_rev_ident trimSpace_def)
qed

lemma trimSpace_idem [simp]: "trimSpace (trimSpace s) = trimSpace s"
proof (cases "trimSpace s = []")
  case True
  show ?thesis unfolding True by (simp add: trimSpace_def)
next
  case False
  let ?d = "dropWhile isSpaceByte s"
  let ?e = "dropWhile isSpaceByte (rev ?d)"
  have e: "trimSpace s = rev ?e" "?e \<noteq> []" using False by (simp_all add: trimSpace_def)
  have "last (trimSpace s) = hd ?e" using e by (simp add: last_rev)
  then have l: "\<not> isSpaceByte (last (trimSpace s))" using hd_dropWhile [of isSpaceByte "rev ?d"] e by simp
  have "last ?e = last (rev ?d)"
    using e(2) by (metis last_appendR takeWhile_dropWhile_id)
  then have "hd (trimSpace s) = hd ?d" using e by (simp add: hd_rev last_rev)
  moreover have "?d \<noteq> []" using e(2) by (metis dropWhile.simps(1) rev.simps(1))
  ultimately have "\<not> isSpaceByte (hd (trimSpace s))" using hd_dropWhile [of isSpaceByte s] by simp
  with l show ?thesis by (simp add: trimSpace_iff)
qed

lemma trimSpace_withDot: "s \<noteq> [] \<Longrightarrow> trimSpace s = s \<Longrightarrow> trimSpace (withDot s) = withDot s"
  by (auto simp: trimSpace_iff withDot_def isSpaceByte_def)

lemma byteToUpper_dot [simp]: "byteToUpper c = CHR ''.'' \<longleftrightarrow> c = CHR ''.''"
proof (cases "isLowerByte c")
  case True
  then have "97 \<le> (of_char c :: nat)" "(of_char c :: nat) \<le> 122"
    by (simp_all add: isLowerByte_def less_eq_char_def)
  moreover from this have "(of_char (byteToUpper c) :: nat) = of_char c - 32"
    using True by (simp add: byteToUpper_def)
  ultimately show ?thesis by auto
qed (simp add: byteToUpper_def)

lemma toUpper_withDot: "toUpper (withDot s) = withDot (toUpper s)"
proof -
  have "hasPrefix (toUpper s) ''.'' = hasPrefix s ''.''"
    by (cases s) (auto simp: hasPrefix_def toUpper_def)
  then show ?thesis by (simp add: withDot_def toUpper_def)
qed

lemma withDot_prefix [simp]: "hasPrefix (withDot s) ''.''" "withDot s \<noteq> []"
  by (auto simp: withDot_def hasPrefix_def)

lemma withDot_id [simp]: "hasPrefix s ''.'' \<Longrightarrow> withDot s = s"
  by (simp add: withDot_def)

lemma normalizeStep_valid:
  "list_all validExtension (fst st) \<and> distinct (fst st) \<Longrightarrow>
   list_all validExtension (fst (normalizeStep st e)) \<and> distinct (fst (normalizeStep st e))"
  by (cases st) (auto simp: normalizeStep_def Let_def validExtension_def toUpper_withDot trimSpace_withDot
      trimSpace_toUpper)

lemma normalizeExtensions_valid:
  "list_all validExtension (fst (normalizeExtensions es)) \<and> distinct (fst (normalizeExtensions es))"
proof -
  have "list_all validExtension (fst st) \<and> distinct (fst st) \<Longrightarrow>
    list_all validExtension (fst (foldl normalizeStep st es)) \<and> distinct (fst (foldl normalizeStep st es))" for st
    by (induction es arbitrary: st) (simp_all add: normalizeStep_valid)
  then show ?thesis by (simp add: normalizeExtensions_def)
qed

lemma normalizeExtensions_fixed:
  assumes "list_all validExtension es" "distinct es"
  shows "normalizeExtensions es = (es, 0)"
proof -
  have "foldl normalizeStep (pre, 0) es = (pre @ es, 0)"
    if "list_all validExtension es" "distinct (pre @ es)" for pre
    using that
  proof (induction es arbitrary: pre)
    case (Cons e es)
    then have "normalizeStep (pre, 0) e = (pre @ [e], 0)"
      by (auto simp: normalizeStep_def Let_def validExtension_def onlyDots_def)
    with Cons show ?case by simp
  qed simp
  from this [of "[]"] assms show ?thesis by (simp add: normalizeExtensions_def)
qed

lemma withDot_key:
  "withDot (toUpper (trimSpace k)) \<noteq> ''.'' \<Longrightarrow> v \<in> set validExtensionTypeValues \<Longrightarrow>
     validType (withDot (toUpper (trimSpace k)), v)"
  by (cases "trimSpace k = []")
     (simp add: toUpper_def withDot_def hasPrefix_def,
      simp add: validType_def toUpper_withDot trimSpace_withDot trimSpace_toUpper)

lemma extensionTypeStep_valid:
  "list_all validType (fst st) \<and> distinct (map fst (fst st)) \<Longrightarrow>
   list_all validType (fst (extensionTypeStep types st k))
     \<and> distinct (map fst (fst (extensionTypeStep types st k)))"
  by (cases st) (auto simp: extensionTypeStep_def Let_def withDot_key)

lemma extensionTypes_valid:
  "list_all validType (fst st) \<and> distinct (map fst (fst st)) \<Longrightarrow>
   list_all validType (fst (foldl (extensionTypeStep types) st ks))
     \<and> distinct (map fst (fst (foldl (extensionTypeStep types) st ks)))"
  by (induction ks arbitrary: st) (simp_all add: extensionTypeStep_valid)

lemma validType_value: "v \<in> set validExtensionTypeValues \<Longrightarrow> toLower v = v"
proof -
  have "list_all (\<lambda>v. toLower v = v) validExtensionTypeValues" by code_simp
  then show "v \<in> set validExtensionTypeValues \<Longrightarrow> toLower v = v" by (simp add: list_all_iff)
qed

lemma extensionTypes_fixed:
  assumes "list_all validType types" "distinct (map fst types)"
  shows "foldl (extensionTypeStep types) ([], []) (sort (map fst types))
           = (map (\<lambda>k. (k, the (map_of types k))) (sort (map fst types)), [])"
proof -
  have ok: "validType (k, the (map_of types k))" if "k \<in> set (map fst types)" for k
    using that assms by (auto simp: list_all_iff)
  have "foldl (extensionTypeStep types) (map (\<lambda>k. (k, the (map_of types k))) pre, []) ks
      = (map (\<lambda>k. (k, the (map_of types k))) (pre @ ks), [])"
    if "set (pre @ ks) \<subseteq> set (map fst types)" "distinct (pre @ ks)" for pre ks
    using that
  proof (induction ks arbitrary: pre)
    case (Cons k ks)
    then have "validType (k, the (map_of types k))" using ok by simp
    with Cons(3) have "extensionTypeStep types (map (\<lambda>k. (k, the (map_of types k))) pre, []) k
        = (map (\<lambda>k. (k, the (map_of types k))) (pre @ [k]), [])"
      by (auto simp: extensionTypeStep_def Let_def validType_def validType_value)
    with Cons.prems Cons.IH [of "pre @ [k]"] show ?case by simp
  qed simp
  from this [of "[]" "sort (map fst types)"] assms(2) show ?thesis by simp
qed

lemmas validate_defs = validateExtensions_def validateFileSize_def validateCachePath_def
  validateLibraries_def validateMinLength_def validateExtensionTypes_def

lemma fst_andThen [simp]: "fst (andThen check st) = fst (check (fst st))"
  by (simp add: andThen_def split: prod.splits)

lemma snd_andThen: "snd (andThen check st) = snd st @ snd (check (fst st))"
  by (simp add: andThen_def split: prod.splits)

text \<open>What each check does to the five parts it may touch.\<close>

definition usableExtensions :: "string list \<Rightarrow> string list" where
  "usableExtensions es =
     (let n = fst (normalizeExtensions es) in if n = [] then Extensions (cfgWorkspace Defaults) else n)"

lemma validateExtensions_fields [simp]:
  "cfgWorkspace (fst (validateExtensions c))
     = (cfgWorkspace c)\<lparr>Extensions := usableExtensions (Extensions (cfgWorkspace c))\<rparr>"
  "cfgCache (fst (validateExtensions c)) = cfgCache c"
  "cfgAnalysis (fst (validateExtensions c)) = cfgAnalysis c"
  "cfgResolution (fst (validateExtensions c)) = cfgResolution c"
  by (simp_all add: validateExtensions_def usableExtensions_def Let_def split: prod.splits)

lemma validateFileSize_fields [simp]:
  "cfgWorkspace (fst (validateFileSize c))
     = (cfgWorkspace c)\<lparr>MaxFileSize := if MaxFileSize (cfgWorkspace c) \<le> 0
                          then MaxFileSize (cfgWorkspace Defaults) else MaxFileSize (cfgWorkspace c)\<rparr>"
  "cfgCache (fst (validateFileSize c)) = cfgCache c"
  "cfgAnalysis (fst (validateFileSize c)) = cfgAnalysis c"
  "cfgResolution (fst (validateFileSize c)) = cfgResolution c"
  by (simp_all add: validateFileSize_def Let_def)

lemma validateCachePath_fields [simp]:
  "cfgWorkspace (fst (validateCachePath c)) = cfgWorkspace c"
  "CachePath (cfgCache (fst (validateCachePath c))) =
     (if CachePath (cfgCache c) = [] then CachePath (cfgCache Defaults) else CachePath (cfgCache c))"
  "cfgAnalysis (fst (validateCachePath c)) = cfgAnalysis c"
  "cfgResolution (fst (validateCachePath c)) = cfgResolution c"
  by (simp_all add: validateCachePath_def Let_def)

lemma validateLibraries_fields [simp]:
  "cfgWorkspace (fst (validateLibraries c)) = cfgWorkspace c"
  "cfgCache (fst (validateLibraries c)) = cfgCache c"
  "cfgAnalysis (fst (validateLibraries c)) = cfgAnalysis c"
  "Libraries (cfgResolution (fst (validateLibraries c)))
     = filter (\<lambda>l. \<not> nameless l) (Libraries (cfgResolution c))"
  by (simp_all add: validateLibraries_def Let_def)

lemma validateMinLength_fields [simp]:
  "cfgWorkspace (fst (validateMinLength c)) = cfgWorkspace c"
  "cfgCache (fst (validateMinLength c)) = cfgCache c"
  "DynamicCallMinLength (cfgAnalysis (fst (validateMinLength c))) =
     (if DynamicCallMinLength (cfgAnalysis c) \<le> 0 then DynamicCallMinLength (cfgAnalysis Defaults)
      else DynamicCallMinLength (cfgAnalysis c))"
  "cfgResolution (fst (validateMinLength c)) = cfgResolution c"
  by (simp_all add: validateMinLength_def Let_def)

lemma validateExtensionTypes_fields [simp]:
  "cfgWorkspace (fst (validateExtensionTypes c))
     = (cfgWorkspace c)\<lparr>ExtensionTypes :=
          fst (foldl (extensionTypeStep (ExtensionTypes (cfgWorkspace c))) ([], [])
                 (sort (map fst (ExtensionTypes (cfgWorkspace c)))))\<rparr>"
  "cfgCache (fst (validateExtensionTypes c)) = cfgCache c"
  "cfgAnalysis (fst (validateExtensionTypes c)) = cfgAnalysis c"
  "cfgResolution (fst (validateExtensionTypes c)) = cfgResolution c"
  by (simp_all add: validateExtensionTypes_def Let_def split: prod.splits)

lemma Defaults_valid: "validConfig Defaults"
  by code_simp

lemma usableExtensions_valid:
  "usableExtensions es \<noteq> [] \<and> list_all validExtension (usableExtensions es) \<and> distinct (usableExtensions es)"
  using normalizeExtensions_valid [of es] Defaults_valid
  by (simp add: usableExtensions_def Let_def validConfig_def)

lemma Validate_validConfig: "validConfig (fst (Validate cfg))"
  using Defaults_valid
    extensionTypes_valid [of "([], [])" "ExtensionTypes (cfgWorkspace cfg)" "sort (map fst (ExtensionTypes (cfgWorkspace cfg)))"]
    usableExtensions_valid [of "Extensions (cfgWorkspace cfg)"]
  by (simp add: Validate_def validConfig_def list_all_iff)

text \<open>
  Validation always returns a usable configuration: extensions are upper case, dotted, distinct
  and at least one; limits are positive; the cache path is not empty; every library has a name; the
  extension table has normalized distinct keys and known object types.
\<close>

theorem Validate_valid: "validConfig (fst (Validate cfg))"
  by (rule Validate_validConfig)

lemma validConfig_fixed:
  assumes "validConfig cfg"
  shows "validateExtensions cfg = (cfg, [])" "validateFileSize cfg = (cfg, [])"
    "validateCachePath cfg = (cfg, [])" "validateLibraries cfg = (cfg, [])" "validateMinLength cfg = (cfg, [])"
    "validateExtensionTypes cfg =
       (cfg\<lparr>cfgWorkspace := (cfgWorkspace cfg)\<lparr>ExtensionTypes :=
          map (\<lambda>k. (k, the (map_of (ExtensionTypes (cfgWorkspace cfg)) k)))
            (sort (map fst (ExtensionTypes (cfgWorkspace cfg))))\<rparr>\<rparr>, [])"
  using assms
  by (simp_all add: validConfig_def validate_defs Let_def normalizeExtensions_fixed extensionTypes_fixed
      list_all_iff filter_id_conv filter_empty_conv)

lemma map_of_keys: "map_of (map (\<lambda>k. (k, the (map_of m k))) (sort (map fst m))) = map_of m"
proof
  fix k
  show "map_of (map (\<lambda>k. (k, the (map_of m k))) (sort (map fst m))) k = map_of m k"
    unfolding map_of_map_restrict restrict_map_def set_sort set_map dom_map_of_conv_image_fst [symmetric]
    by (cases "map_of m k") auto
qed

definition sameConfig :: "Config \<Rightarrow> Config \<Rightarrow> bool" where
  "sameConfig a b \<longleftrightarrow>
     a\<lparr>cfgWorkspace := (cfgWorkspace a)\<lparr>ExtensionTypes := []\<rparr>\<rparr> = b\<lparr>cfgWorkspace := (cfgWorkspace b)\<lparr>ExtensionTypes := []\<rparr>\<rparr>
     \<and> map_of (ExtensionTypes (cfgWorkspace a)) = map_of (ExtensionTypes (cfgWorkspace b))"

text \<open>
  Validation is idempotent: a second pass reports no problem and returns the same configuration
  (the same as Go maps: the extension table may list its entries in another order).
\<close>

theorem Validate_idempotent:
  "snd (Validate (fst (Validate cfg))) = [] \<and> sameConfig (fst (Validate (fst (Validate cfg)))) (fst (Validate cfg))"
proof -
  let ?v = "fst (Validate cfg)"
  have "Validate ?v = (fst (validateExtensionTypes ?v), [])"
    unfolding Validate_def [of ?v] using validConfig_fixed [OF Validate_validConfig [of cfg]]
    by (simp add: andThen_def)
  then show ?thesis
    using validConfig_fixed(6) [OF Validate_validConfig [of cfg]] by (simp add: sameConfig_def map_of_keys)
qed

end
