(* ===== verification/LineWidth.thy ===== *)
theory LineWidth
  imports Model Runes "HOL-Library.Word"
begin

text \<open>
  Positions on the wire: the conversion of the analyzer's byte columns to code units, twice in the
  program, from the text of the file (\<open>position.go\<close>) and from a table of line widths that is kept
  in memory (\<open>linewidth.go\<close>). Protocol coordinates are \<open>uint32\<close>: 32-bit words. The negotiated
  encoding is a flag, \<open>True\<close> for UTF-16.
\<close>

type_synonym uint32 = "32 word"

record ProtocolPosition =
  ppLine :: uint32
  ppCharacter :: uint32

record ProtocolRange =
  prStart :: ProtocolPosition
  prEnd :: ProtocolPosition

section \<open>From the text\<close>

text \<open>The end of a line that starts at \<open>start\<close> and whose line feed is at \<open>i\<close>: before a carriage return.\<close>

definition lineEnd :: "string \<Rightarrow> nat \<Rightarrow> nat \<Rightarrow> nat" where
  "lineEnd content start i = (if i > start \<and> content ! (i - 1) = CR then i - 1 else i)"

function lineAtLoop :: "string \<Rightarrow> int \<Rightarrow> int \<Rightarrow> nat \<Rightarrow> nat \<Rightarrow> string" where
  "lineAtLoop content line cur start i =
     (if i < length content
      then (if content ! i = LF
            then (if cur = line then Prelude.slice start (lineEnd content start i) content
                  else lineAtLoop content line (cur + 1) (i + 1) (i + 1))
            else lineAtLoop content line cur start (i + 1))
      else if cur = line then drop start content else [])"
  by pat_completeness auto
termination by (relation "measure (\<lambda>(content, _, _, _, i). length content - i)") auto

declare lineAtLoop.simps [simp del]

definition lineAt :: "string \<Rightarrow> int \<Rightarrow> string" where
  "lineAt content line = (if line < 0 then [] else lineAtLoop content line 0 0 0)"

definition utf16Units :: "string \<Rightarrow> nat" where
  "utf16Units s = sum_list (map (\<lambda>(_, r). utf16Width r) (runes s))"

definition byteOffsetToCharacter :: "string \<Rightarrow> int \<Rightarrow> bool \<Rightarrow> uint32" where
  "byteOffsetToCharacter lineText byteOffset utf16 =
     (if byteOffset \<le> 0 then 0
      else let prefix = take (nat byteOffset) lineText
           in if \<not> utf16 then of_nat (length prefix) else of_nat (utf16Units prefix))"

fun charLoop :: "int \<Rightarrow> (nat \<times> nat) list \<Rightarrow> nat \<Rightarrow> nat \<Rightarrow> nat" where
  "charLoop character [] units stop = stop"
| "charLoop character ((i, r) # rs) units stop =
     (if int units \<ge> character then i else charLoop character rs (units + utf16Width r) stop)"

definition characterToByteOffset :: "string \<Rightarrow> int \<Rightarrow> bool \<Rightarrow> nat" where
  "characterToByteOffset lineText character utf16 =
     (if character \<le> 0 then 0
      else if \<not> utf16 then (if character > int (length lineText) then length lineText else nat character)
      else charLoop character (runes lineText) 0 (length lineText))"

definition modelPositionToProtocol :: "Position \<Rightarrow> string \<Rightarrow> bool \<Rightarrow> ProtocolPosition" where
  "modelPositionToProtocol pos content utf16 =
     (let line = (if Line pos - 1 < 0 then 0 else Line pos - 1);
          byteOffset = (if Column pos - 1 < 0 then 0 else Column pos - 1)
      in \<lparr>ppLine = of_int line,
          ppCharacter = byteOffsetToCharacter (lineAt content line) byteOffset utf16\<rparr>)"

definition toProtocolRange :: "Range \<Rightarrow> string \<Rightarrow> bool \<Rightarrow> ProtocolRange" where
  "toProtocolRange r content utf16 =
     (let start = modelPositionToProtocol (Start r) content utf16 in
      if Line (Start r) = Line (End r) \<and> Column (Start r) = Column (End r)
      then \<lparr>prStart = start, prEnd = start\<rparr>
      else let endLine = (if Line (End r) - 1 < 0 then 0 else Line (End r) - 1);
               endByte = (if Column (End r) < 0 then 0 else Column (End r))
           in \<lparr>prStart = start,
               prEnd = \<lparr>ppLine = of_int endLine,
                        ppCharacter = byteOffsetToCharacter (lineAt content endLine) endByte utf16\<rparr>\<rparr>)"

definition fromProtocolPosition :: "ProtocolPosition \<Rightarrow> string \<Rightarrow> bool \<Rightarrow> Position" where
  "fromProtocolPosition p content utf16 =
     (let line = int (unat (ppLine p));
          byteOffset = characterToByteOffset (lineAt content line) (int (unat (ppCharacter p))) utf16
      in Position (line + 1) (int byteOffset + 1))"

section \<open>From the table\<close>

record lineWidth =
  byteLen :: uint32
  lwBytes :: "string option"

type_synonym lineWidthTable = "lineWidth list"

definition makeLineWidth :: "string \<Rightarrow> lineWidth" where
  "makeLineWidth line =
     \<lparr>byteLen = of_nat (length line),
      lwBytes = (if list_all (\<lambda>c. byteVal c < 0x80) line then None else Some line)\<rparr>"

function tableLoop :: "string \<Rightarrow> lineWidth list \<Rightarrow> nat \<Rightarrow> nat \<Rightarrow> lineWidth list" where
  "tableLoop content lines start i =
     (if i < length content
      then (if content ! i = LF
            then tableLoop content (lines @ [makeLineWidth (Prelude.slice start (lineEnd content start i) content)])
                   (i + 1) (i + 1)
            else tableLoop content lines start (i + 1))
      else lines @ [makeLineWidth (drop start content)])"
  by pat_completeness auto
termination by (relation "measure (\<lambda>(content, _, _, i). length content - i)") auto

declare tableLoop.simps [simp del]

definition buildLineWidthTable :: "string \<Rightarrow> lineWidthTable" where
  "buildLineWidthTable content = tableLoop content [] 0 0"

definition codeUnit :: "lineWidthTable \<Rightarrow> int \<Rightarrow> int \<Rightarrow> bool \<Rightarrow> uint32" where
  "codeUnit t line byteOffset utf16 =
     (if line < 0 \<or> line \<ge> int (length t) then 0
      else let lw = t ! nat line in
      if byteOffset \<le> 0 then 0
      else let off = (if byteOffset > int (unat (byteLen lw)) then int (unat (byteLen lw)) else byteOffset)
           in case lwBytes lw of
                None \<Rightarrow> of_int off
              | Some bytes \<Rightarrow> if \<not> utf16 then of_int off else of_nat (utf16Units (take (nat off) bytes)))"

text \<open>A nil table is \<open>None\<close>.\<close>

definition codeUnitOrFallback :: "lineWidthTable option \<Rightarrow> int \<Rightarrow> int \<Rightarrow> bool \<Rightarrow> uint32" where
  "codeUnitOrFallback t line byteOffset utf16 =
     (case t of None \<Rightarrow> if byteOffset < 0 then 0 else of_int byteOffset
      | Some t \<Rightarrow> codeUnit t line byteOffset utf16)"

definition protocolRange :: "lineWidthTable option \<Rightarrow> Range \<Rightarrow> bool \<Rightarrow> uint32 \<times> uint32 \<times> uint32 \<times> uint32" where
  "protocolRange t r utf16 =
     (let sLine = (if Line (Start r) - 1 < 0 then 0 else Line (Start r) - 1);
          sByte = (if Column (Start r) - 1 < 0 then 0 else Column (Start r) - 1);
          startLine = of_int sLine;
          startChar = codeUnitOrFallback t sLine sByte utf16
      in if Line (Start r) = Line (End r) \<and> Column (Start r) = Column (End r)
         then (startLine, startChar, startLine, startChar)
         else let eLine = (if Line (End r) - 1 < 0 then 0 else Line (End r) - 1);
                  eByte = (if Column (End r) < 0 then 0 else Column (End r))
              in (startLine, startChar, of_int eLine, codeUnitOrFallback t eLine eByte utf16))"

definition protocolRangeVia ::
  "(Range \<Rightarrow> bool \<Rightarrow> uint32 \<times> uint32 \<times> uint32 \<times> uint32) \<Rightarrow> Range \<Rightarrow> bool \<Rightarrow> ProtocolRange" where
  "protocolRangeVia conv r utf16 =
     (case conv r utf16 of (sl, sc, el, ec) \<Rightarrow>
        \<lparr>prStart = \<lparr>ppLine = sl, ppCharacter = sc\<rparr>, prEnd = \<lparr>ppLine = el, ppCharacter = ec\<rparr>\<rparr>)"

end
