(* ===== verification/LineWidth_Facts.thy ===== *)
theory LineWidth_Facts
  imports LineWidth
begin

text \<open>
  The two conversions agree: both read the lines of the text, with the carriage return before a
  line feed removed. And a cursor survives the round trip through code units.
\<close>

section \<open>Lines\<close>

definition chompCR :: "string \<Rightarrow> string" where
  "chompCR s = (if s \<noteq> [] \<and> last s = CR then butlast s else s)"

text \<open>The lines of a text: split at line feeds; all but the last lose a trailing carriage return.\<close>

definition linesOf :: "string \<Rightarrow> string list" where
  "linesOf s = (let segs = splitByte LF s in map chompCR (butlast segs) @ [last segs])"

lemma splitByte_ne [simp]: "splitByte c s \<noteq> []"
  by (induction s) (auto split: list.splits)

lemma splitByte_none: "c \<notin> set s \<Longrightarrow> splitByte c s = [s]"
  by (induction s) auto

lemma splitByte_first: "c \<notin> set a \<Longrightarrow> splitByte c (a @ c # b) = a # splitByte c b"
  by (induction a) auto

lemma linesOf_none: "LF \<notin> set s \<Longrightarrow> linesOf s = [s]"
  by (simp add: linesOf_def splitByte_none)

lemma linesOf_first: "LF \<notin> set a \<Longrightarrow> linesOf (a @ LF # b) = chompCR a # linesOf b"
  by (simp add: linesOf_def splitByte_first Let_def)

lemma linesOf_scan:
  assumes "start \<le> i" "i < length content" "content ! i = LF" "LF \<notin> set (Prelude.slice start i content)"
  shows "linesOf (drop start content)
           = Prelude.slice start (lineEnd content start i) content # linesOf (drop (i + 1) content)"
proof -
  let ?a = "Prelude.slice start i content"
  have "drop start content = ?a @ drop (i - start) (drop start content)"
    by (simp only: Prelude.slice_def append_take_drop_id)
  also have "drop (i - start) (drop start content) = LF # drop (i + 1) content"
    using assms(1-3) Cons_nth_drop_Suc [of i content] by simp
  finally have d: "drop start content = ?a @ LF # drop (i + 1) content" .
  have "?a = [] \<longleftrightarrow> i = start" using assms(1,2) by (auto simp: Prelude.slice_def)
  moreover have "last ?a = content ! (i - 1)" if "start < i"
    using that assms(2) by (simp add: Prelude.slice_def last_conv_nth)
  ultimately have "chompCR ?a = Prelude.slice start (lineEnd content start i) content"
    using assms(1,2) by (auto simp: chompCR_def lineEnd_def Prelude.slice_def butlast_take)
  then show ?thesis using d linesOf_first [OF assms(4)] by metis
qed

lemma slice_Suc:
  "start \<le> i \<Longrightarrow> i < length s \<Longrightarrow> Prelude.slice start (Suc i) s = Prelude.slice start i s @ [s ! i]"
  by (simp add: Prelude.slice_def Suc_diff_le take_Suc_conv_app_nth)

lemma lineAtLoop_lines:
  "start \<le> i \<Longrightarrow> i \<le> length content \<Longrightarrow> LF \<notin> set (Prelude.slice start i content) \<Longrightarrow>
   lineAtLoop content line cur start i =
     (let ls = linesOf (drop start content)
      in if cur \<le> line \<and> line < cur + int (length ls) then ls ! nat (line - cur) else [])"
proof (induction content line cur start i rule: lineAtLoop.induct)
  case (1 content line cur start i)
  show ?case
  proof (cases "i < length content")
    case False
    then have "LF \<notin> set (drop start content)" using 1(3-) by (simp add: Prelude.slice_def)
    with False show ?thesis by (subst lineAtLoop.simps) (simp add: linesOf_none)
  next
    case True
    show ?thesis
    proof (cases "content ! i = LF")
      case lf: True
      let ?L = "linesOf (drop (i + 1) content)"
      have L: "linesOf (drop start content) = Prelude.slice start (lineEnd content start i) content # ?L"
        by (rule linesOf_scan [OF 1(3) True lf 1(5)])
      show ?thesis
      proof (cases "cur = line")
        case c: True
        have "lineAtLoop content line cur start i = Prelude.slice start (lineEnd content start i) content"
          using True lf c by (subst lineAtLoop.simps) simp
        then show ?thesis unfolding L Let_def by (simp add: c)
      next
        case c: False
        have "lineAtLoop content line cur start i = lineAtLoop content line (cur + 1) (i + 1) (i + 1)"
          using True lf c by (simp add: lineAtLoop.simps [of content line cur start i])
        also have "\<dots> = (if cur + 1 \<le> line \<and> line < cur + 1 + int (length ?L) then ?L ! nat (line - (cur + 1)) else [])"
          using 1(1) [OF True lf c] True by (simp add: Let_def)
        finally have *: "lineAtLoop content line cur start i = \<dots>" .
        have "nat (line - cur) = Suc (nat (line - (cur + 1)))" if "cur + 1 \<le> line"
          using that by linarith
        then show ?thesis unfolding L Let_def * using c by auto
      qed
    next
      case False
      then show ?thesis
        using 1(2) [OF True False] 1(3-) True by (subst lineAtLoop.simps) (simp add: slice_Suc)
    qed
  qed
qed

lemma lineAt_lines:
  "lineAt content line =
     (if 0 \<le> line \<and> line < int (length (linesOf content)) then linesOf content ! nat line else [])"
  using lineAtLoop_lines [of 0 0 content line 0] by (simp add: lineAt_def Let_def)

lemma tableLoop_lines:
  "start \<le> i \<Longrightarrow> i \<le> length content \<Longrightarrow> LF \<notin> set (Prelude.slice start i content) \<Longrightarrow>
   tableLoop content ls start i = ls @ map makeLineWidth (linesOf (drop start content))"
proof (induction content ls start i rule: tableLoop.induct)
  case (1 content ls start i)
  show ?case
  proof (cases "i < length content")
    case False
    then have "LF \<notin> set (drop start content)" using 1(3-) by (simp add: Prelude.slice_def)
    with False show ?thesis by (subst tableLoop.simps) (simp add: linesOf_none)
  next
    case True
    show ?thesis
    proof (cases "content ! i = LF")
      case lf: True
      have L: "linesOf (drop start content)
          = Prelude.slice start (lineEnd content start i) content # linesOf (drop (i + 1) content)"
        by (rule linesOf_scan [OF 1(3) True lf 1(5)])
      then show ?thesis using 1(1) [OF True lf] True lf by (subst tableLoop.simps) simp
    next
      case False
      then show ?thesis
        using 1(2) [OF True False] 1(3-) True by (subst tableLoop.simps) (simp add: slice_Suc)
    qed
  qed
qed

lemma table_lines: "buildLineWidthTable content = map makeLineWidth (linesOf content)"
  using tableLoop_lines [of 0 0 content "[]"] by (simp add: buildLineWidthTable_def)

section \<open>Code units\<close>

lemma runesFrom_snd: "map snd (runesFrom i s) = map snd (runesFrom j s)"
proof (induction "length s" arbitrary: i j s rule: less_induct)
  case less
  show ?case
  proof (cases "s = []")
    case False
    then have "length (drop (snd (decodeRune s)) s) < length s" using decodeRune_width [of s] by auto
    from less.hyps [OF this] show ?thesis
      unfolding runesFrom_Cons [OF False, of i] runesFrom_Cons [OF False, of j] by simp
  qed simp
qed

lemma utf16Units_Nil [simp]: "utf16Units [] = 0"
  by (simp add: utf16Units_def runes_def)

lemma utf16Units_Cons:
  "s \<noteq> [] \<Longrightarrow> utf16Units s = utf16Width (fst (decodeRune s)) + utf16Units (drop (snd (decodeRune s)) s)"
proof -
  assume s: "s \<noteq> []"
  have u: "utf16Units t = sum_list (map utf16Width (map snd (runesFrom i t)))" for t i
    unfolding runesFrom_snd [of i t 0]
    by (simp add: utf16Units_def runes_def case_prod_unfold comp_def)
  show ?thesis
    unfolding u [of s 0] u [of "drop (snd (decodeRune s)) s" "0 + snd (decodeRune s)"] runesFrom_Cons [OF s] by simp
qed

lemma utf16Units_ascii: "list_all (\<lambda>c. byteVal c < 0x80) s \<Longrightarrow> utf16Units s = length s"
  by (induction s) (simp_all add: utf16Units_Cons decodeRune_ascii utf16Width_def)

lemma utf16Units_le: "utf16Units s \<le> 2 * length s"
proof (induction "length s" arbitrary: s rule: less_induct)
  case less
  show ?case
  proof (cases "s = []")
    case False
    let ?w = "snd (decodeRune s)"
    have w: "1 \<le> ?w" "?w \<le> length s" using decodeRune_width [OF False] by auto
    then have "utf16Units (drop ?w s) \<le> 2 * length (drop ?w s)" by (intro less.hyps) simp
    with w have "2 + utf16Units (drop ?w s) \<le> 2 * length s" by simp
    then show ?thesis by (simp add: utf16Units_Cons [OF False] utf16Width_def)
  qed simp
qed

lemma decodeRune_take:
  "s \<noteq> [] \<Longrightarrow> 1 \<le> n \<Longrightarrow> snd (decodeRune s) \<le> n \<Longrightarrow> decodeRune (take n s) = decodeRune s"
  by (cases s; cases n; cases "tl s"; cases "n - 1"; cases "tl (tl s)"; cases "n - 2"; cases "tl (tl (tl s))"; cases "n - 3")
     (auto simp: decodeRune_def Let_def split: list.splits if_splits)

lemma linesOf_length: "l \<in> set (linesOf s) \<Longrightarrow> length l \<le> length s"
proof -
  have *: "x \<in> set (splitByte LF s) \<Longrightarrow> length x \<le> length s" for x
    by (induction s arbitrary: x) (fastforce split: list.splits if_splits)+
  have "length (chompCR x) \<le> length x" for x by (simp add: chompCR_def)
  moreover assume "l \<in> set (linesOf s)"
  ultimately show ?thesis
    using * in_set_butlastD [of _ "splitByte LF s"] last_in_set [OF splitByte_ne, of LF s]
    by (fastforce simp: linesOf_def Let_def intro: le_trans)
qed

lemma list_all_take: "list_all P s \<Longrightarrow> list_all P (take n s)"
  by (auto simp: list_all_iff dest: in_set_takeD)

lemma u32: "n < 2 ^ 32 \<Longrightarrow> int (unat (of_nat n :: uint32)) = int n"
  "n < 2 ^ 32 \<Longrightarrow> uint (of_nat n :: uint32) = int n" "n < 2 ^ 32 \<Longrightarrow> unat (of_nat n :: uint32) = n"
  by (simp_all add: unsigned_of_nat take_bit_nat_eq_self)

lemma codeUnit_line:
  assumes "length content < 2 ^ 32"
  shows "codeUnit (buildLineWidthTable content) line off utf16
           = byteOffsetToCharacter (lineAt content line) off utf16"
proof (cases "0 \<le> line \<and> line < int (length (linesOf content)) \<and> off > 0")
  case True
  let ?l = "linesOf content ! nat line"
  have "?l \<in> set (linesOf content)" using True by (intro nth_mem) linarith
  then have "length ?l < 2 ^ 32" using assms linesOf_length [of ?l content] by simp
  then have len: "unat (of_nat (length ?l) :: uint32) = length ?l" by (simp add: unat_of_nat)
  have t: "buildLineWidthTable content ! nat line = makeLineWidth ?l"
    unfolding table_lines using True by (intro nth_map) linarith
  have u: "utf16Units (take n ?l) = length (take n ?l)" if "list_all (\<lambda>c. byteVal c < 0x80) ?l" for n
    using list_all_take [OF that, of n] by (rule utf16Units_ascii)
  define n where "n = length (take (nat off) ?l)"
  have clamp: "(if off > int (unat (byteLen (makeLineWidth ?l))) then int (unat (byteLen (makeLineWidth ?l))) else off) = int n"
    using True by (auto simp: makeLineWidth_def len n_def min_def)
  have "take (nat (int n)) ?l = take (nat off) ?l" by (simp add: n_def min_def)
  then show ?thesis
    using True u [of "nat off"]
    unfolding codeUnit_def t table_lines length_map byteOffsetToCharacter_def lineAt_lines Let_def
      t [unfolded table_lines] clamp
    by (auto simp: makeLineWidth_def n_def)
next
  case False
  then show ?thesis
    by (auto simp: codeUnit_def byteOffsetToCharacter_def lineAt_lines table_lines Let_def)
qed

text \<open>
  C9. The two conversions agree: on a file of less than 4 GiB, a range converted through the
  table of line widths kept in memory is the range converted from the text itself, in both
  encodings.
\<close>

theorem protocolRange_agree:
  assumes "length content < 2 ^ 32"
  shows "protocolRangeVia (protocolRange (Some (buildLineWidthTable content))) r utf16
           = toProtocolRange r content utf16"
  using codeUnit_line [OF assms]
  by (simp add: protocolRangeVia_def protocolRange_def codeUnitOrFallback_def toProtocolRange_def
      modelPositionToProtocol_def Let_def)

theorem protocolRange_agree_witness:
  "protocolRangeVia (protocolRange (Some (buildLineWidthTable [CHR 0xC3, CHR 0xA9, CR, LF, CHR ''x''])))
     (Range (Position 1 1) (Position 2 1)) True
   = toProtocolRange (Range (Position 1 1) (Position 2 1)) [CHR 0xC3, CHR 0xA9, CR, LF, CHR ''x''] True"
  by (rule protocolRange_agree) simp

section \<open>The cursor\<close>

text \<open>Offsets between characters; in UTF-8 every byte is a unit.\<close>

definition onBoundary :: "string \<Rightarrow> nat \<Rightarrow> bool \<Rightarrow> bool" where
  "onBoundary s off utf16 \<longleftrightarrow>
     off \<le> length s \<and> (utf16 \<longrightarrow> off = length s \<or> off \<in> set (map fst (runes s)))"

lemma runesFrom_ge: "off \<in> fst ` set (runesFrom i s) \<Longrightarrow> i \<le> off"
proof (induction "length s" arbitrary: i s rule: less_induct)
  case less
  then have s: "s \<noteq> []" by auto
  let ?w = "snd (decodeRune s)"
  from less.prems have "off = i \<or> off \<in> fst ` set (runesFrom (i + ?w) (drop ?w s))"
    by (simp add: runesFrom_Cons [OF s])
  moreover have "length (drop ?w s) < length s" using decodeRune_width [OF s] s by auto
  ultimately show ?case using less.hyps [of "drop ?w s" "i + ?w"] by (metis add_leD1 order_refl)
qed

lemma charLoop_units:
  "off \<in> fst ` set (runesFrom i s) \<or> off = i + length s \<Longrightarrow>
   charLoop (int (units + utf16Units (take (off - i) s))) (runesFrom i s) units (i + length s) = off"
proof (induction "length s" arbitrary: i s units rule: less_induct)
  case less
  show ?case
  proof (cases "s = []")
    case False
    let ?w = "snd (decodeRune s)" and ?r = "fst (decodeRune s)"
    have w: "1 \<le> ?w" "?w \<le> length s" using decodeRune_width [OF False] by auto
    show ?thesis
    proof (cases "off = i")
      case True
      then show ?thesis by (simp add: runesFrom_Cons [OF False])
    next
      case ne: False
      then have b: "off \<in> fst ` set (runesFrom (i + ?w) (drop ?w s)) \<or> off = (i + ?w) + length (drop ?w s)"
        using less.prems w by (auto simp: runesFrom_Cons [OF False])
      then have ge: "i + ?w \<le> off" using runesFrom_ge by auto
      have nz: "take (off - i) s \<noteq> []" using ge w False by auto
      have dr: "decodeRune (take (off - i) s) = decodeRune s"
        using ge w by (intro decodeRune_take [OF False]) auto
      have "drop ?w (take (off - i) s) = take (off - (i + ?w)) (drop ?w s)"
        by (simp add: drop_take)
      then have u: "utf16Units (take (off - i) s) = utf16Width ?r + utf16Units (take (off - (i + ?w)) (drop ?w s))"
        using utf16Units_Cons [OF nz] dr by simp
      have "charLoop (int (units + utf16Width ?r + utf16Units (take (off - (i + ?w)) (drop ?w s))))
          (runesFrom (i + ?w) (drop ?w s)) (units + utf16Width ?r) (i + ?w + length (drop ?w s)) = off"
        using w False b by (intro less.hyps) auto
      moreover have "utf16Width ?r > 0" by (simp add: utf16Width_def)
      ultimately show ?thesis using w u by (simp add: runesFrom_Cons [OF False] add.assoc)
    qed
  qed (use less.prems in simp)
qed

lemma cursor_offset:
  assumes "onBoundary s off utf16" "2 * length s < 2 ^ 32"
  shows "characterToByteOffset s (int (unat (byteOffsetToCharacter s (int off) utf16))) utf16 = off"
proof (cases "off = 0")
  case True
  then show ?thesis by (simp add: byteOffsetToCharacter_def characterToByteOffset_def)
next
  case False
  have len: "off < 2 ^ 32" "length s < 2 ^ 32" using assms by (simp_all add: onBoundary_def)
  have u: "utf16Units (take off s) < 2 ^ 32" using utf16Units_le [of "take off s"] assms by simp
  have "take off s \<noteq> []" using False assms by (auto simp: onBoundary_def)
  then have pos: "utf16Units (take off s) > 0" by (simp add: utf16Units_Cons utf16Width_def)
  have "charLoop (int (utf16Units (take off s))) (runes s) 0 (length s) = off" if utf16
    using charLoop_units [of off 0 s 0] assms that by (auto simp: onBoundary_def runes_def)
  then show ?thesis
    using False assms(1) pos
    by (auto simp: byteOffsetToCharacter_def characterToByteOffset_def onBoundary_def min_def u32 [OF len(1)] u32 [OF len(2)] u32 [OF u])
qed

text \<open>
  C33. A cursor survives the round trip: a position on a character boundary of an existing line,
  converted to protocol coordinates and back, is the same position.
\<close>

theorem cursor_roundtrip:
  assumes "1 \<le> Line pos" "Line pos \<le> int (length (linesOf content))" "Line pos < 2 ^ 32" "1 \<le> Column pos"
    and "onBoundary (lineAt content (Line pos - 1)) (nat (Column pos - 1)) utf16"
    and "2 * length content < 2 ^ 32"
  shows "fromProtocolPosition (modelPositionToProtocol pos content utf16) content utf16 = pos"
proof -
  let ?l = "lineAt content (Line pos - 1)"
  have "int (unat (of_int k :: uint32)) = k" if "0 \<le> k" "k < 2 ^ 32" for k
    using that by (simp add: uint_word_of_int_eq take_bit_int_eq_self flip: uint_nat)
  from this [of "Line pos - 1"] have l: "int (unat (of_int (Line pos - 1) :: uint32)) = Line pos - 1"
    using assms(1,3) by simp
  have "length ?l \<le> length content"
    using assms(1,2) linesOf_length [of ?l content] by (auto simp: lineAt_lines)
  then have "2 * length ?l < 2 ^ 32" using assms(6) by simp
  from cursor_offset [OF assms(5) this] show ?thesis
    using assms(1,4) l by (cases pos) (simp add: fromProtocolPosition_def modelPositionToProtocol_def Let_def)
qed

theorem cursor_roundtrip_witness:
  "fromProtocolPosition (modelPositionToProtocol (Position 2 3) [CHR ''a'', LF, CHR 0xC3, CHR 0xA9, CHR ''b''] True)
     [CHR ''a'', LF, CHR 0xC3, CHR 0xA9, CHR ''b''] True = Position 2 3"
proof (rule cursor_roundtrip)
  let ?c = "[CHR ''a'', LF, CHR 0xC3, CHR 0xA9, CHR ''b'']"
  show "Line (Position 2 3) \<le> int (length (linesOf ?c))" by code_simp
  show "onBoundary (lineAt ?c (Line (Position 2 3) - 1)) (nat (Column (Position 2 3) - 1)) True" by code_simp
qed simp_all

end
