(* ===== verification/Index.thy ===== *)
theory Index
  imports Config LineWidth
begin

text \<open>
  The workspace index, \<open>index.go\<close>, with the naming rules of \<open>resolution.go\<close> it uses. A Go map that
  the code ranges over is an association list in the order of one traversal (Go promises none); the
  theory \<open>Index_Facts\<close> shows that no result depends on that order. The code compares pointers to
  configurations: a reference is an address with the configuration found there, which never changes
  after it is loaded. Each operation of the code holds the index lock while it runs, so it is one
  state change; \<open>cachedNameIndex\<close> takes the lock twice and is two.
\<close>

section \<open>Names and libraries\<close>

definition prefixOfKey :: "string \<Rightarrow> string \<Rightarrow> bool" where
  "prefixOfKey relPath path \<longleftrightarrow>
     hasPrefix relPath path \<and> (length relPath = length path \<or> relPath ! length path = CHR ''/'')"

definition longestStep :: "string \<Rightarrow> string \<times> nat \<Rightarrow> Library \<Rightarrow> string \<times> nat" where
  "longestStep relPath best lib =
     (if prefixOfKey relPath (libPath lib) \<and> length (libPath lib) > snd best
      then (libName lib, length (libPath lib)) else best)"

definition objectName :: "string \<Rightarrow> string" where
  "objectName relPath =
     (let base = pathBase relPath in toUpper (trimSuffix base (pathExt base)))"

definition objectLibrary :: "string \<Rightarrow> Config option \<Rightarrow> string" where
  "objectLibrary relPath cfg =
     (case cfg of
        None \<Rightarrow> []
      | Some c \<Rightarrow>
          let (longestMatch, longestLen) = foldl (longestStep relPath) ([], 0) (Libraries (cfgResolution c))
          in if longestLen > 0 then longestMatch else [])"

definition objectIdentity :: "string \<Rightarrow> Config option \<Rightarrow> string \<times> string" where
  "objectIdentity relPath cfg = (objectName relPath, objectLibrary relPath cfg)"

text \<open>
  The search chain of a library. With no configuration the code's caller has no current library,
  and the chain is empty.
\<close>

definition declaredSteplibs :: "string \<Rightarrow> Config option \<Rightarrow> string list" where
  "declaredSteplibs currentLibrary cfg =
     (case cfg of
        None \<Rightarrow> []
      | Some c \<Rightarrow> (case find (\<lambda>lib. libName lib = currentLibrary) (Libraries (cfgResolution c)) of
                    None \<Rightarrow> [] | Some lib \<Rightarrow> Steplibs lib))"

definition buildSearchChain :: "string \<Rightarrow> Config option \<Rightarrow> string list" where
  "buildSearchChain currentLibrary cfg =
     (if currentLibrary = [] then []
      else currentLibrary # declaredSteplibs currentLibrary cfg @ [''SYSTEM''])"

section \<open>The index\<close>

record Candidate =
  cdPath :: string
  cdName :: string
  cdLibrary :: string
  cdType :: ObjectType

datatype SkipReason = SkipExcluded | SkipTooLarge | SkipUnreadable | SkipAnalyzerPanic

record SkipRecord =
  srPath :: string
  srReason :: SkipReason

type_synonym NameIndex = "(string \<times> Candidate list) list"
type_synonym ConfigRef = "(nat \<times> Config) option"

definition configOf :: "ConfigRef \<Rightarrow> Config option" where
  "configOf ref = map_option snd ref"

record Index =
  ixEntries :: "(string \<times> FileAnalysis) list"
  ixLineWidths :: "(string \<times> lineWidthTable) list"
  ixNameIndex :: "NameIndex option"
  ixNameIndexCfg :: ConfigRef
  ixSkips :: "SkipRecord list"

definition emptyIndex :: Index where
  "emptyIndex = \<lparr>ixEntries = [], ixLineWidths = [], ixNameIndex = None, ixNameIndexCfg = None, ixSkips = []\<rparr>"

definition Skips :: "Index \<Rightarrow> SkipRecord list" where
  "Skips idx = ixSkips idx"

definition addSkip :: "string \<Rightarrow> SkipReason \<Rightarrow> Index \<Rightarrow> Index" where
  "addSkip path reason idx = idx\<lparr>ixSkips := ixSkips idx @ [\<lparr>srPath = path, srReason = reason\<rparr>]\<rparr>"

definition Add :: "string \<Rightarrow> FileAnalysis \<Rightarrow> Index \<Rightarrow> Index" where
  "Add path analysis idx =
     idx\<lparr>ixEntries := AList.update path analysis (ixEntries idx), ixNameIndex := None, ixNameIndexCfg := None\<rparr>"

definition PutContent :: "string \<Rightarrow> string \<Rightarrow> Index \<Rightarrow> Index" where
  "PutContent path content idx =
     idx\<lparr>ixLineWidths := AList.update path (buildLineWidthTable content) (ixLineWidths idx)\<rparr>"

definition lineWidthsFor :: "string \<Rightarrow> Index \<Rightarrow> lineWidthTable option" where
  "lineWidthsFor path idx = map_of (ixLineWidths idx) path"

definition hasLineWidths :: "string \<Rightarrow> Index \<Rightarrow> bool" where
  "hasLineWidths path idx \<longleftrightarrow> map_of (ixLineWidths idx) path \<noteq> None"

definition indexProtocolRange :: "Index \<Rightarrow> string \<Rightarrow> Range \<Rightarrow> bool \<Rightarrow> ProtocolRange" where
  "indexProtocolRange idx path r utf16 = protocolRangeVia (protocolRange (lineWidthsFor path idx)) r utf16"

definition Get :: "string \<Rightarrow> Index \<Rightarrow> FileAnalysis option" where
  "Get path idx = map_of (ixEntries idx) path"

definition Keys :: "Index \<Rightarrow> string list" where
  "Keys idx = map fst (ixEntries idx)"

section \<open>Lookup by name\<close>

definition candidate :: "Config option \<Rightarrow> string \<times> FileAnalysis \<Rightarrow> Candidate" where
  "candidate cfg entry =
     (case objectIdentity (fst entry) cfg of
        (objName, objLibrary) \<Rightarrow>
          \<lparr>cdPath = fst entry, cdName = objName, cdLibrary = objLibrary, cdType = faObjectType (snd entry)\<rparr>)"

definition addCandidate :: "NameIndex \<Rightarrow> Candidate \<Rightarrow> NameIndex" where
  "addCandidate nameMap c = AList.map_default (cdName c) [c] (\<lambda>cs. cs @ [c]) nameMap"

definition buildNameMapFrom :: "(string \<times> FileAnalysis) list \<Rightarrow> Config option \<Rightarrow> NameIndex" where
  "buildNameMapFrom entries cfg =
     map (\<lambda>(name, cs). (name, sort_key cdPath cs)) (foldl addCandidate [] (map (candidate cfg) entries))"

definition bucket :: "NameIndex \<Rightarrow> string \<Rightarrow> Candidate list" where
  "bucket nameIndex name = (case map_of nameIndex name of None \<Rightarrow> [] | Some cs \<Rightarrow> cs)"

definition buildNameIndex :: "Index \<Rightarrow> Config option \<Rightarrow> NameIndex" where
  "buildNameIndex idx cfg = buildNameMapFrom (ixEntries idx) cfg"

text \<open>\<open>cachedNameIndex\<close>: a look under the read lock, then, when that fails, a look and a build under the lock.\<close>

definition fastPath :: "ConfigRef \<Rightarrow> Index \<Rightarrow> NameIndex option" where
  "fastPath cfg idx = (if ixNameIndexCfg idx = cfg then ixNameIndex idx else None)"

definition slowPath :: "ConfigRef \<Rightarrow> Index \<Rightarrow> NameIndex \<times> Index" where
  "slowPath cfg idx =
     (case fastPath cfg idx of
        Some nameIndex \<Rightarrow> (nameIndex, idx)
      | None \<Rightarrow> let built = buildNameMapFrom (ixEntries idx) (configOf cfg)
                in (built, idx\<lparr>ixNameIndex := Some built, ixNameIndexCfg := cfg\<rparr>))"

definition cachedNameIndex :: "ConfigRef \<Rightarrow> Index \<Rightarrow> NameIndex \<times> Index" where
  "cachedNameIndex cfg idx =
     (case fastPath cfg idx of Some nameIndex \<Rightarrow> (nameIndex, idx) | None \<Rightarrow> slowPath cfg idx)"

definition lookupIn :: "NameIndex \<Rightarrow> string \<Rightarrow> ObjectType \<Rightarrow> Candidate list" where
  "lookupIn nameIndex name typ =
     filter (\<lambda>c. \<not> (typ \<noteq> ObjectNone \<and> cdType c \<noteq> typ)) (bucket nameIndex (toUpper name))"

definition LookupByName :: "string \<Rightarrow> ObjectType \<Rightarrow> ConfigRef \<Rightarrow> Index \<Rightarrow> Candidate list \<times> Index" where
  "LookupByName name typ cfg idx =
     (case cachedNameIndex cfg idx of (nameIndex, idx') \<Rightarrow> (lookupIn nameIndex name typ, idx'))"

definition prefixIn ::
  "NameIndex \<Rightarrow> string \<Rightarrow> ObjectType \<Rightarrow> string \<Rightarrow> Config option \<Rightarrow> Candidate list" where
  "prefixIn nameIndex prefix typ referencingPath cfg =
     (let upperPrefix = toUpper prefix;
          allCandidates =
            concat (map (\<lambda>(name, cs). if hasPrefix name upperPrefix then filter (\<lambda>c. cdType c = typ) cs else [])
              nameIndex);
          currentLibrary = snd (objectIdentity referencingPath cfg);
          searchChain = buildSearchChain currentLibrary cfg
      in sort_key cdPath
           (if searchChain \<noteq> [] then filter (\<lambda>c. cdLibrary c \<in> set searchChain) allCandidates
            else allCandidates))"

definition NamesWithPrefix ::
  "string \<Rightarrow> ObjectType \<Rightarrow> string \<Rightarrow> ConfigRef \<Rightarrow> Index \<Rightarrow> Candidate list \<times> Index" where
  "NamesWithPrefix prefix typ referencingPath cfg idx =
     (case cachedNameIndex cfg idx of
        (nameIndex, idx') \<Rightarrow> (prefixIn nameIndex prefix typ referencingPath (configOf cfg), idx'))"

section \<open>Invalidation\<close>

definition includesName :: "string \<Rightarrow> FileAnalysis \<Rightarrow> bool" where
  "includesName name fa \<longleftrightarrow>
     list_ex (\<lambda>edge. eeKind edge = EdgeIncludes \<and> toUpper (eeTargetName edge) = name) (faEdges fa)"

definition includers :: "(string \<times> FileAnalysis) list \<Rightarrow> string \<Rightarrow> string list" where
  "includers entries path =
     map fst (filter (\<lambda>(_, fa). includesName (objectName path) fa) entries)"

text \<open>
  The breadth-first walk. The code keeps two sets, the files found and the files visited; they
  are lists here. A file is added at most once, as its visit is recorded at once.
\<close>

function invalidateLoop ::
  "(string \<times> FileAnalysis) list \<Rightarrow> string list \<Rightarrow> string list \<Rightarrow> string list \<Rightarrow> string list" where
  "invalidateLoop entries dependents visited [] = dependents"
| "invalidateLoop entries dependents visited (current # queue) =
     (let found = filter (\<lambda>p. p \<notin> set visited) (includers entries current)
      in invalidateLoop entries (dependents @ found) (visited @ found) (queue @ found))"
  by pat_completeness auto
termination
proof (relation "inv_image (less_than <*lex*> less_than)
    (\<lambda>(entries, dependents, visited, queue). (card (fst ` set entries - set visited), length queue))", goal_cases)
  case (2 entries dependents visited current queue found)
  show ?case
  proof (cases "found = []")
    case False
    then obtain p where p: "p \<in> set found" by (cases found) auto
    then have "p \<in> fst ` set entries - set visited" using 2 by (auto simp: includers_def)
    then have "fst ` set entries - set (visited @ found) \<subset> fst ` set entries - set visited"
      using p by auto
    then have "card (fst ` set entries - set (visited @ found)) < card (fst ` set entries - set visited)"
      by (intro psubset_card_mono) simp_all
    then show ?thesis by simp
  qed simp
qed (auto intro: wf_inv_image)

definition Invalidate :: "string \<Rightarrow> Index \<Rightarrow> string list" where
  "Invalidate path idx =
     (let dependents = includers (ixEntries idx) path
      in sort (invalidateLoop (ixEntries idx) dependents (path # dependents) dependents))"

end
