(* ===== verification/Resolution.thy ===== *)
theory Resolution
  imports Index
begin

text \<open>
  Resolution of edges, \<open>resolution.go\<close>. Outcomes are a datatype for the code's tagged struct; the
  diagnostics a file's edges add to the shared map come back beside the outcome. The resolution of
  one edge takes the name index as a lookup function, its only use of it.
\<close>

section \<open>Outcomes\<close>

datatype UnresolvedReason = ReasonNoTarget | ReasonDynamic

datatype Resolution =
    Unresolved UnresolvedReason
  | Resolved string ObjectType
  | Ambiguous "string list"

fun IsResolved :: "Resolution \<Rightarrow> bool" where
  "IsResolved (Resolved _ _) \<longleftrightarrow> True"
| "IsResolved _ \<longleftrightarrow> False"

fun IsUnresolved :: "Resolution \<Rightarrow> bool" where
  "IsUnresolved (Unresolved _) \<longleftrightarrow> True"
| "IsUnresolved _ \<longleftrightarrow> False"

fun IsAmbiguous :: "Resolution \<Rightarrow> bool" where
  "IsAmbiguous (Ambiguous _) \<longleftrightarrow> True"
| "IsAmbiguous _ \<longleftrightarrow> False"

fun IsDynamic :: "Resolution \<Rightarrow> bool" where
  "IsDynamic (Unresolved ReasonDynamic) \<longleftrightarrow> True"
| "IsDynamic _ \<longleftrightarrow> False"

definition isZeroRange :: "Range \<Rightarrow> bool" where
  "isZeroRange r \<longleftrightarrow> r = zeroRange"

section \<open>One edge\<close>

definition filterByType :: "Candidate list \<Rightarrow> ObjectType \<Rightarrow> Candidate list" where
  "filterByType candidates typ = filter (\<lambda>c. cdType c = typ) candidates"

fun resolveViaChain :: "Candidate list \<Rightarrow> string list \<Rightarrow> Candidate option" where
  "resolveViaChain candidates [] = None"
| "resolveViaChain candidates (chainLib # libs) =
     (case find (\<lambda>c. cdLibrary c = chainLib) candidates of
        Some c \<Rightarrow> Some c
      | None \<Rightarrow> resolveViaChain candidates libs)"

definition formatAmbiguityMessage :: "string \<Rightarrow> string list \<Rightarrow> string" where
  "formatAmbiguityMessage targetName candidates =
     ''ambiguous reference '' @ [QUOTE] @ targetName @ [QUOTE] @ '': matches '' @ joinStrings (sort candidates) '', ''"

type_synonym Lookup = "string \<Rightarrow> Candidate list"

text \<open>Does the configuration have a library map, and what chain does it give the referencing file.\<close>

definition hasLibraryMap :: "Config option \<Rightarrow> bool" where
  "hasLibraryMap cfg \<longleftrightarrow> (case cfg of None \<Rightarrow> False | Some c \<Rightarrow> Libraries (cfgResolution c) \<noteq> [])"

definition chainOf :: "string \<Rightarrow> Config option \<Rightarrow> string list" where
  "chainOf filePath cfg = buildSearchChain (snd (objectIdentity filePath cfg)) cfg"

definition resolveFlat :: "string \<Rightarrow> EdgeEntry \<Rightarrow> Candidate list \<Rightarrow> Resolution \<times> Diagnostic list" where
  "resolveFlat targetName edge candidates =
     (case candidates of
        [] \<Rightarrow> (Unresolved ReasonNoTarget, [])
      | [c] \<Rightarrow> (Resolved (cdPath c) (cdType c), [])
      | _ \<Rightarrow> let paths = sort (map cdPath candidates)
             in (Ambiguous paths,
                 [\<lparr>dgMessage = formatAmbiguityMessage targetName paths, dgSeverity = DiagnosticWarning,
                   dgCode = DiagnosticCodeAmbiguity, dgRange = eeSource edge\<rparr>]))"

definition resolveByName ::
  "string \<Rightarrow> ObjectType \<Rightarrow> string \<Rightarrow> EdgeEntry \<Rightarrow> Lookup \<Rightarrow> Config option \<Rightarrow> Resolution \<times> Diagnostic list" where
  "resolveByName targetName expectedType filePath edge nameIndex cfg =
     (let upTargetName = toUpper targetName in
      if upTargetName = [] then (Unresolved ReasonNoTarget, [])
      else let candidates = filterByType (nameIndex upTargetName) expectedType in
      if eeLibrary edge \<noteq> []
      then (case find (\<lambda>c. cdLibrary c = eeLibrary edge) candidates of
              Some c \<Rightarrow> (Resolved (cdPath c) (cdType c), [])
            | None \<Rightarrow> (Unresolved ReasonNoTarget, []))
      else if hasLibraryMap cfg \<and> chainOf filePath cfg \<noteq> []
      then (case resolveViaChain candidates (chainOf filePath cfg) of
              Some c \<Rightarrow> (Resolved (cdPath c) (cdType c), [])
            | None \<Rightarrow> (Unresolved ReasonNoTarget, []))
      else resolveFlat targetName edge candidates)"

fun firstBinding :: "(Resolution \<times> Diagnostic list) list \<Rightarrow> Resolution \<times> Diagnostic list" where
  "firstBinding [] = (Unresolved ReasonNoTarget, [])"
| "firstBinding (r # rs) =
     (if IsResolved (fst r) \<or> IsAmbiguous (fst r) then r
      else case firstBinding rs of (res, diags) \<Rightarrow> (res, snd r @ diags))"

definition resolveDataAreaEdge ::
  "string \<Rightarrow> string \<Rightarrow> EdgeEntry \<Rightarrow> Lookup \<Rightarrow> Config option \<Rightarrow> Resolution \<times> Diagnostic list" where
  "resolveDataAreaEdge targetName filePath edge nameIndex cfg =
     firstBinding (map (\<lambda>t. resolveByName targetName t filePath edge nameIndex cfg)
       [ObjectLocalDataArea, ObjectParameterDataArea, ObjectGlobalDataArea])"

definition resolveEdge ::
  "EdgeEntry \<Rightarrow> string \<Rightarrow> ObjectType \<Rightarrow> Lookup \<Rightarrow> Config option \<Rightarrow> Resolution \<times> Diagnostic list" where
  "resolveEdge edge filePath fileObjectType nameIndex cfg =
     (case eeKind edge of
        EdgeCallsDynamic \<Rightarrow> (Unresolved ReasonDynamic, [])
      | EdgeNavigatesToDynamic \<Rightarrow> (Unresolved ReasonDynamic, [])
      | EdgePerforms \<Rightarrow>
          if \<not> isZeroRange (eeTarget edge) then (Resolved filePath fileObjectType, [])
          else resolveByName (eeTargetName edge) ObjectExternalSubroutine filePath edge nameIndex cfg
      | EdgeCalls \<Rightarrow> resolveByName (eeTargetName edge) ObjectSubprogram filePath edge nameIndex cfg
      | EdgeNavigatesTo \<Rightarrow> resolveByName (eeTargetName edge) ObjectProgram filePath edge nameIndex cfg
      | EdgeIncludes \<Rightarrow> resolveByName (eeTargetName edge) ObjectCopycode filePath edge nameIndex cfg
      | EdgeUsesDataArea \<Rightarrow> resolveDataAreaEdge (eeTargetName edge) filePath edge nameIndex cfg
      | _ \<Rightarrow> (Unresolved ReasonNoTarget, []))"

section \<open>The workspace\<close>

text \<open>
  Entries are keyed by file and source range; a file without ambiguity diagnostics has no key in
  the second map.
\<close>

record ResolutionSet =
  rsEntries :: "string \<times> Range \<rightharpoonup> Resolution"
  rsDiagnostics :: "string \<rightharpoonup> Diagnostic list"

definition emptyResolutionSet :: ResolutionSet where
  "emptyResolutionSet = \<lparr>rsEntries = Map.empty, rsDiagnostics = Map.empty\<rparr>"

definition addResolution ::
  "string \<Rightarrow> Range \<Rightarrow> Resolution \<times> Diagnostic list \<Rightarrow> ResolutionSet \<Rightarrow> ResolutionSet" where
  "addResolution filePath source outcome rs =
     (case outcome of (resolution, diags) \<Rightarrow>
        rs\<lparr>rsEntries := (rsEntries rs)((filePath, source) \<mapsto> resolution),
           rsDiagnostics := (if diags = [] then rsDiagnostics rs
             else (rsDiagnostics rs)(filePath \<mapsto>
               (case rsDiagnostics rs filePath of None \<Rightarrow> diags | Some ds \<Rightarrow> ds @ diags)))\<rparr>)"

definition resolveFile ::
  "Lookup \<Rightarrow> Config option \<Rightarrow> ResolutionSet \<Rightarrow> string \<times> FileAnalysis \<Rightarrow> ResolutionSet" where
  "resolveFile nameIndex cfg rs file =
     (case file of (filePath, fa) \<Rightarrow>
        foldl (\<lambda>rs edge. addResolution filePath (eeSource edge)
                 (resolveEdge edge filePath (faObjectType fa) nameIndex cfg) rs) rs (faEdges fa))"

definition Resolve :: "Index \<Rightarrow> Config option \<Rightarrow> ResolutionSet" where
  "Resolve idx cfg =
     (let nameIndex = buildNameIndex idx cfg
      in foldl (resolveFile (bucket nameIndex) cfg) emptyResolutionSet (ixEntries idx))"

definition resGet :: "ResolutionSet option \<Rightarrow> string \<Rightarrow> Range \<Rightarrow> Resolution option" where
  "resGet rs filePath source = (case rs of None \<Rightarrow> None | Some rs \<Rightarrow> rsEntries rs (filePath, source))"

definition DiagnosticsFor :: "ResolutionSet option \<Rightarrow> string \<Rightarrow> Diagnostic list" where
  "DiagnosticsFor rs filePath =
     (case rs of None \<Rightarrow> [] | Some rs \<Rightarrow> (case rsDiagnostics rs filePath of None \<Rightarrow> [] | Some ds \<Rightarrow> ds))"

section \<open>Incremental resolution\<close>

definition changedObjectNames :: "Index \<Rightarrow> string list \<Rightarrow> string list" where
  "changedObjectNames idx changedPaths =
     map objectName (filter (\<lambda>p. Get p idx \<noteq> None) changedPaths)"

definition refersTo :: "string list \<Rightarrow> FileAnalysis \<Rightarrow> bool" where
  "refersTo names fa \<longleftrightarrow> list_ex (\<lambda>edge. toUpper (eeTargetName edge) \<in> set names) (faEdges fa)"

definition affectedFiles :: "Index \<Rightarrow> string list \<Rightarrow> string list" where
  "affectedFiles idx changedPaths =
     (let names = changedObjectNames idx changedPaths
      in remdups (changedPaths @ map fst (filter (\<lambda>(_, fa). refersTo names fa) (ixEntries idx))))"

definition ResolveInto :: "ResolutionSet option \<Rightarrow> Index \<Rightarrow> Config option \<Rightarrow> string list \<Rightarrow> ResolutionSet" where
  "ResolveInto rs idx cfg changedPaths =
     (if changedPaths = [] then (case rs of None \<Rightarrow> emptyResolutionSet | Some rs \<Rightarrow> rs)
      else let affected = affectedFiles idx changedPaths;
               copied = (case rs of
                   None \<Rightarrow> emptyResolutionSet
                 | Some rs \<Rightarrow>
                     \<lparr>rsEntries = (\<lambda>(p, r). if p \<in> set affected then None else rsEntries rs (p, r)),
                      rsDiagnostics = (\<lambda>p. if p \<in> set affected then None else rsDiagnostics rs p)\<rparr>);
               nameIndex = buildNameIndex idx cfg
           in foldl (\<lambda>rs p. case Get p idx of
                       None \<Rightarrow> rs
                     | Some fa \<Rightarrow> resolveFile (bucket nameIndex) cfg rs (p, fa)) copied affected)"

end
