(* ===== verification/FieldResolution.thy ===== *)
theory FieldResolution
  imports Resolution
begin

text \<open>
  Fields across files, \<open>field_resolution.go\<close>: a name used in one program is found in the data area
  or DDM that the search chain selects. A lookup may fill the cache of the index; the functions
  here return the index beside their result. A nil candidate or definition is \<open>None\<close>.
\<close>

section \<open>Searching definitions\<close>

definition hasName :: "string \<Rightarrow> DataDefinition \<Rightarrow> bool" where
  "hasName upperName def \<longleftrightarrow> toUpper (ddName def) = upperName \<and> ddName def \<noteq> []"

definition isGroupNamed :: "string \<Rightarrow> DataDefinition \<Rightarrow> bool" where
  "isGroupNamed groupName def \<longleftrightarrow> ddLevel def = 1 \<and> toUpper (ddName def) = groupName \<and> ddChildren def \<noteq> []"

text \<open>
  The recursion goes into the children of members of the list: a measure on the definitions. The
  code recurses in one loop over the list; the models of that loop return the first hit.
\<close>

lemma size_ddChildren: "d \<in> set ds \<Longrightarrow> size_list size (ddChildren d) < size_list size ds"
proof (induction ds)
  case (Cons a ds)
  have "size_list size (ddChildren a) < size a" by (cases a) simp
  with Cons show ?case by auto
qed simp

fun firstSome :: "('a \<Rightarrow> 'b option) \<Rightarrow> 'a list \<Rightarrow> 'b option" where
  "firstSome f [] = None"
| "firstSome f (x # xs) = (case f x of None \<Rightarrow> firstSome f xs | Some y \<Rightarrow> Some y)"

lemma firstSome_cong [fundef_cong]:
  "xs = ys \<Longrightarrow> (\<And>x. x \<in> set ys \<Longrightarrow> f x = g x) \<Longrightarrow> firstSome f xs = firstSome g ys"
  by (induction xs arbitrary: ys) (auto split: option.splits)

function findDefinitionByNameInDefs :: "string \<Rightarrow> DataDefinition list \<Rightarrow> DataDefinition option" where
  "findDefinitionByNameInDefs variableName defs =
     (let upperName = toUpper variableName in
      case lastIndexByte upperName (CHR ''.'') of
        Some i \<Rightarrow>
          (case firstSome (\<lambda>def. if isGroupNamed (take i upperName) def
                             then Some (findDefinitionByNameInDefs (drop (i + 1) upperName) (ddChildren def))
                             else None) defs of
             Some r \<Rightarrow> r | None \<Rightarrow> None)
      | None \<Rightarrow>
          (case find (hasName upperName) defs of
             Some def \<Rightarrow> Some def
           | None \<Rightarrow> firstSome (\<lambda>def. if ddChildren def \<noteq> []
                                     then findDefinitionByNameInDefs variableName (ddChildren def) else None) defs))"
  by pat_completeness auto
termination
  by (relation "measure (\<lambda>(_, defs). size_list size defs)") (auto intro: size_ddChildren)

function findFieldInDefinitions :: "string \<Rightarrow> DataDefinition list \<Rightarrow> Range" where
  "findFieldInDefinitions variableName defs =
     (let upperName = toUpper variableName in
      case lastIndexByte upperName (CHR ''.'') of
        Some i \<Rightarrow>
          (case firstSome (\<lambda>def. if isGroupNamed (take i upperName) def
                             then Some (findFieldInDefinitions (drop (i + 1) upperName) (ddChildren def))
                             else None) defs of
             Some r \<Rightarrow> r | None \<Rightarrow> zeroRange)
      | None \<Rightarrow>
          (case find (hasName upperName) defs of
             Some def \<Rightarrow> ddNameRange def
           | None \<Rightarrow>
               (case firstSome (\<lambda>def. if ddChildren def \<noteq> []
                                  then let childRange = findFieldInDefinitions variableName (ddChildren def)
                                       in if childRange \<noteq> zeroRange then Some childRange else None
                                  else None) defs of
                  Some r \<Rightarrow> r | None \<Rightarrow> zeroRange)))"
  by pat_completeness auto
termination
  by (relation "measure (\<lambda>(_, defs). size_list size defs)") (auto intro: size_ddChildren)

declare findDefinitionByNameInDefs.simps [simp del] findFieldInDefinitions.simps [simp del]

section \<open>Selecting the object\<close>

definition resolveCandidateViaChain :: "Candidate list \<Rightarrow> string \<Rightarrow> Config option \<Rightarrow> Candidate option" where
  "resolveCandidateViaChain candidates referencingPath cfg =
     (if candidates = [] then None
      else let searchChain = buildSearchChain (snd (objectIdentity referencingPath cfg)) cfg
           in if searchChain \<noteq> [] then resolveViaChain candidates searchChain else Some (hd candidates))"

definition orLookup ::
  "string \<Rightarrow> ConfigRef \<Rightarrow> ObjectType \<Rightarrow> Candidate list \<times> Index \<Rightarrow> Candidate list \<times> Index" where
  "orLookup name cfg t st =
     (case st of (candidates, idx) \<Rightarrow> if candidates = [] then LookupByName name t cfg idx else (candidates, idx))"

definition resolveDataAreaCandidate ::
  "string \<Rightarrow> Index \<Rightarrow> string \<Rightarrow> ConfigRef \<Rightarrow> Candidate option \<times> Index" where
  "resolveDataAreaCandidate dataAreaName idx referencingPath cfg =
     (case orLookup dataAreaName cfg ObjectGlobalDataArea
             (orLookup dataAreaName cfg ObjectParameterDataArea
               (LookupByName dataAreaName ObjectLocalDataArea cfg idx)) of
        (candidates, idx') \<Rightarrow> (resolveCandidateViaChain candidates referencingPath (configOf cfg), idx'))"

definition ResolveDataAreaFieldLocation ::
  "string \<Rightarrow> DataAreaRef \<Rightarrow> Index \<Rightarrow> string \<Rightarrow> ConfigRef \<Rightarrow> (Range \<times> string) \<times> Index" where
  "ResolveDataAreaFieldLocation variableName ref idx referencingPath cfg =
     (case resolveDataAreaCandidate (darName ref) idx referencingPath cfg of
        (None, idx') \<Rightarrow> ((zeroRange, []), idx')
      | (Some c, idx') \<Rightarrow>
          (case Get (cdPath c) idx' of
             None \<Rightarrow> ((zeroRange, []), idx')
           | Some fa \<Rightarrow> ((findFieldInDefinitions variableName (faDefinitions fa), cdPath c), idx')))"

definition ResolveDataAreaField ::
  "string \<Rightarrow> DataAreaRef \<Rightarrow> Index \<Rightarrow> string \<Rightarrow> ConfigRef \<Rightarrow> Range \<times> Index" where
  "ResolveDataAreaField variableName ref idx referencingPath cfg =
     (case ResolveDataAreaFieldLocation variableName ref idx referencingPath cfg of
        ((rng, _), idx') \<Rightarrow> (rng, idx'))"

definition ResolveDDMPath :: "string \<Rightarrow> Index \<Rightarrow> string \<Rightarrow> ConfigRef \<Rightarrow> string \<times> Index" where
  "ResolveDDMPath ddmName idx referencingPath cfg =
     (case LookupByName ddmName ObjectDDM cfg idx of
        (candidates, idx') \<Rightarrow>
          (case resolveCandidateViaChain candidates referencingPath (configOf cfg) of
             Some c \<Rightarrow> (cdPath c, idx') | None \<Rightarrow> ([], idx')))"

definition ResolveDDMFieldLocation ::
  "string \<Rightarrow> string \<Rightarrow> Index \<Rightarrow> string \<Rightarrow> ConfigRef \<Rightarrow> (Range \<times> string) \<times> Index" where
  "ResolveDDMFieldLocation fieldName ddmName idx referencingPath cfg =
     (case ResolveDDMPath ddmName idx referencingPath cfg of
        (ddmPath, idx') \<Rightarrow>
          if ddmPath = [] then ((zeroRange, []), idx')
          else (case Get ddmPath idx' of
                  None \<Rightarrow> ((zeroRange, []), idx')
                | Some ddmFA \<Rightarrow>
                    let fieldRange = findFieldInDefinitions fieldName (faDefinitions ddmFA)
                    in if fieldRange = zeroRange then ((zeroRange, []), idx')
                       else ((fieldRange, ddmPath), idx')))"

definition ResolveDDMFieldType ::
  "string \<Rightarrow> string \<Rightarrow> Index \<Rightarrow> string \<Rightarrow> ConfigRef \<Rightarrow> string \<times> Index" where
  "ResolveDDMFieldType fieldName ddmName idx referencingPath cfg =
     (case ResolveDDMPath ddmName idx referencingPath cfg of
        (ddmPath, idx') \<Rightarrow>
          if ddmPath = [] then ([], idx')
          else (case Get ddmPath idx' of
                  None \<Rightarrow> ([], idx')
                | Some ddmFA \<Rightarrow>
                    (case findDefinitionByNameInDefs fieldName (faDefinitions ddmFA) of
                       None \<Rightarrow> ([], idx') | Some def \<Rightarrow> (ddType def, idx'))))"

end
