(* ===== verification/Index_Facts.thy ===== *)
theory Index_Facts
  imports Index
begin

text \<open>
  Lookup by name. The contract of a name index is a locale: what the list found under a name is,
  over the entries of the index. Everything that resolves names is proved from the contract. The
  program's name index meets it, and the cache in front of it never answers with an old one,
  whatever the interleaving of writers and readers.
\<close>

section \<open>The contract of a name index\<close>

definition wellFormed :: "(string \<times> 'a) list \<Rightarrow> bool" where
  "wellFormed entries \<longleftrightarrow> distinct (map fst entries)"

definition sameName :: "(string \<times> FileAnalysis) list \<Rightarrow> (string \<times> FileAnalysis) list \<Rightarrow> string \<Rightarrow> bool" where
  "sameName es es' n \<longleftrightarrow> {e \<in> set es. objectName (fst e) = n} = {e \<in> set es'. objectName (fst e) = n}"

lemma candidate_sel [simp]:
  "cdPath (candidate cfg e) = fst e" "cdName (candidate cfg e) = objectName (fst e)"
  "cdLibrary (candidate cfg e) = objectLibrary (fst e) cfg" "cdType (candidate cfg e) = faObjectType (snd e)"
  by (simp_all add: candidate_def objectIdentity_def)

locale name_index =
  fixes names :: "(string \<times> FileAnalysis) list \<Rightarrow> Config option \<Rightarrow> string \<Rightarrow> Candidate list"
  assumes names_set:
    "wellFormed es \<Longrightarrow> set (names es cfg n) = candidate cfg ` {e \<in> set es. objectName (fst e) = n}"
    and names_sorted: "wellFormed es \<Longrightarrow> sorted (map cdPath (names es cfg n))"
    and names_distinct: "wellFormed es \<Longrightarrow> distinct (names es cfg n)"
begin

lemma names_paths_distinct: "wellFormed es \<Longrightarrow> distinct (map cdPath (names es cfg n))"
proof -
  assume w: "wellFormed es"
  have "inj_on cdPath (set (names es cfg n))"
  proof (rule inj_onI)
    fix c d
    assume "c \<in> set (names es cfg n)" "d \<in> set (names es cfg n)" and eq: "cdPath c = cdPath d"
    then obtain a b where ab: "a \<in> set es" "c = candidate cfg a" "b \<in> set es" "d = candidate cfg b"
      using names_set [OF w] by auto
    moreover have "inj_on fst (set es)" using w by (simp add: wellFormed_def distinct_map)
    ultimately have "a = b" using eq by (auto dest: inj_onD)
    with ab show "c = d" by simp
  qed
  then show ?thesis using names_distinct [OF w] by (simp add: distinct_map)
qed

text \<open>The answer for a name depends only on the files of that name.\<close>

lemma names_local:
  assumes "wellFormed es" "wellFormed es'" "sameName es es' n"
  shows "names es cfg n = names es' cfg n"
proof -
  have s: "set (names es cfg n) = set (names es' cfg n)"
    using assms by (simp add: names_set sameName_def)
  then have "mset (names es cfg n) = mset (names es' cfg n)"
    using names_distinct assms(1,2) by (simp add: set_eq_iff_mset_eq_distinct)
  moreover have "inj_on cdPath (set (names es cfg n))"
    using names_paths_distinct [OF assms(1)] by (simp add: distinct_map)
  ultimately have "sort_key cdPath (names es cfg n) = sort_key cdPath (names es' cfg n)"
    by (rule sort_key_unique)
  then show ?thesis
    using names_sorted assms(1,2) by (simp add: sorted_sort_id sort_key_id_if_sorted)
qed

lemma names_mem:
  "wellFormed es \<Longrightarrow> c \<in> set (names es cfg n) \<longleftrightarrow>
     (\<exists>fa. map_of es (cdPath c) = Some fa \<and> objectName (cdPath c) = n \<and> c = candidate cfg (cdPath c, fa))"
  by (force simp: names_set wellFormed_def)

end

section \<open>The program's name index\<close>

lemma map_of_map_default:
  "map_of (AList.map_default k v f xs) =
     (map_of xs)(k \<mapsto> case map_of xs k of None \<Rightarrow> v | Some x \<Rightarrow> f x)"
  by (induction xs) (auto simp: fun_eq_iff split: option.splits)

lemma fst_map_default:
  "map fst (AList.map_default k v f xs) = map fst xs @ (if k \<in> fst ` set xs then [] else [k])"
  by (induction xs) auto

lemma foldl_addCandidate:
  "map_of (foldl addCandidate m cs) n =
     (let new = filter (\<lambda>c. cdName c = n) cs
      in if new = [] then map_of m n
         else Some ((case map_of m n of None \<Rightarrow> [] | Some old \<Rightarrow> old) @ new))"
  by (induction cs arbitrary: m) (auto simp: addCandidate_def map_of_map_default Let_def split: option.splits)

lemma foldl_addCandidate_distinct:
  "distinct (map fst m) \<Longrightarrow> distinct (map fst (foldl addCandidate m cs))"
  by (induction cs arbitrary: m) (auto simp: addCandidate_def fst_map_default)

lemma map_of_buildNameMap:
  "map_of (buildNameMapFrom es cfg) n =
     (let cs = filter (\<lambda>c. cdName c = n) (map (candidate cfg) es)
      in if cs = [] then None else Some (sort_key cdPath cs))"
  unfolding buildNameMapFrom_def map_of_map comp_apply foldl_addCandidate
  by (simp add: Let_def)

lemma bucket_buildNameMap:
  "bucket (buildNameMapFrom es cfg) n = sort_key cdPath (filter (\<lambda>c. cdName c = n) (map (candidate cfg) es))"
  by (simp add: bucket_def map_of_buildNameMap Let_def)

interpretation nameIndex: name_index "\<lambda>es cfg. bucket (buildNameMapFrom es cfg)"
proof
  fix es :: "(string \<times> FileAnalysis) list" and cfg n
  assume w: "wellFormed es"
  show "set (bucket (buildNameMapFrom es cfg) n) = candidate cfg ` {e \<in> set es. objectName (fst e) = n}"
    by (auto simp: bucket_buildNameMap)
  show "sorted (map cdPath (bucket (buildNameMapFrom es cfg) n))"
    by (simp add: bucket_buildNameMap)
  have "inj_on (candidate cfg) (set es)"
  proof (rule inj_onI)
    fix a b
    assume ab: "a \<in> set es" "b \<in> set es" and "candidate cfg a = candidate cfg b"
    then have "fst a = fst b" by (metis candidate_sel(1))
    with ab w show "a = b" by (auto simp: wellFormed_def distinct_map dest: inj_onD)
  qed
  then have "distinct (map (candidate cfg) es)"
    using w by (simp add: distinct_map wellFormed_def)
  then show "distinct (bucket (buildNameMapFrom es cfg) n)" by (simp add: bucket_buildNameMap)
qed

section \<open>Lookup and completion\<close>

lemma set_map_of_distinct: "wellFormed m \<Longrightarrow> (k, v) \<in> set m \<longleftrightarrow> map_of m k = Some v"
  by (simp add: wellFormed_def)

lemma wellFormed_buildNameMap: "wellFormed (buildNameMapFrom es cfg)"
proof -
  have *: "map fst (map (\<lambda>(name, cs). (name, sort_key cdPath cs)) m) = map fst m" for m :: NameIndex
    by (induction m) auto
  show ?thesis unfolding wellFormed_def buildNameMapFrom_def *
    by (rule foldl_addCandidate_distinct) simp
qed

lemma in_buildNameMap:
  "(n, cs) \<in> set (buildNameMapFrom es cfg) \<Longrightarrow> c \<in> set cs \<longleftrightarrow> (\<exists>e\<in>set es. c = candidate cfg e \<and> objectName (fst e) = n)"
proof -
  assume "(n, cs) \<in> set (buildNameMapFrom es cfg)"
  then have "map_of (buildNameMapFrom es cfg) n = Some cs"
    by (simp add: set_map_of_distinct [OF wellFormed_buildNameMap])
  then show ?thesis by (auto simp: map_of_buildNameMap Let_def split: if_splits) (metis fst_conv)
qed

lemma in_buildNameMap_ex:
  "e \<in> set es \<Longrightarrow> \<exists>cs. (objectName (fst e), cs) \<in> set (buildNameMapFrom es cfg) \<and> candidate cfg e \<in> set cs"
proof -
  let ?n = "objectName (fst e)"
  assume e: "e \<in> set es"
  then have "map_of (buildNameMapFrom es cfg) ?n \<noteq> None"
    by (auto simp: map_of_buildNameMap Let_def filter_empty_conv)
  then obtain cs where "(?n, cs) \<in> set (buildNameMapFrom es cfg)" by (auto dest: map_of_SomeD)
  with e in_buildNameMap show ?thesis by blast
qed

text \<open>Is a library reachable from the file: on its search chain, or anywhere when it has none.\<close>

definition reachable :: "string \<Rightarrow> Config option \<Rightarrow> string \<Rightarrow> bool" where
  "reachable referencingPath cfg lib \<longleftrightarrow>
     (let chain = buildSearchChain (objectLibrary referencingPath cfg) cfg in chain = [] \<or> lib \<in> set chain)"

lemma prefixIn_exact:
  "sorted (map cdPath (prefixIn (buildNameMapFrom es cfg) prefix typ referencingPath cfg)) \<and>
   set (prefixIn (buildNameMapFrom es cfg) prefix typ referencingPath cfg) =
     candidate cfg ` {e \<in> set es. hasPrefix (objectName (fst e)) (toUpper prefix) \<and>
        faObjectType (snd e) = typ \<and> reachable referencingPath cfg (objectLibrary (fst e) cfg)}"
proof -
  let ?m = "buildNameMapFrom es cfg"
  let ?all = "concat (map (\<lambda>(name, cs). if hasPrefix name (toUpper prefix) then filter (\<lambda>c. cdType c = typ) cs else []) ?m)"
  have "c \<in> set ?all \<longleftrightarrow> (\<exists>n cs. (n, cs) \<in> set ?m \<and> hasPrefix n (toUpper prefix) \<and> c \<in> set cs \<and> cdType c = typ)" for c
    by (force split: if_splits)
  also have "\<dots> c \<longleftrightarrow> c \<in> candidate cfg ` {e \<in> set es. hasPrefix (objectName (fst e)) (toUpper prefix)
      \<and> faObjectType (snd e) = typ}" for c
    using in_buildNameMap [of _ _ es cfg c] in_buildNameMap_ex [of _ es cfg]
    by (auto simp: image_iff) (metis fst_conv snd_conv)+
  finally have "set ?all = candidate cfg ` {e \<in> set es. hasPrefix (objectName (fst e)) (toUpper prefix)
      \<and> faObjectType (snd e) = typ}" by blast
  then show ?thesis
    by (auto simp: prefixIn_def Let_def reachable_def objectIdentity_def)
qed

section \<open>Invalidation\<close>

definition includesFile :: "(string \<times> FileAnalysis) list \<Rightarrow> (string \<times> string) set" where
  "includesFile es = {(q, p). \<exists>fa. (q, fa) \<in> set es \<and> includesName (objectName p) fa}"

lemma set_includers: "set (includers es p) = {q. (q, p) \<in> includesFile es}"
  by (force simp: includers_def includesFile_def)

text \<open>
  The walk keeps: what is found depends on the file; the queue holds found files; of every found
  file outside the queue all the files that include it have been visited.
\<close>

definition walkInv ::
  "(string \<times> FileAnalysis) list \<Rightarrow> string \<Rightarrow> string list \<Rightarrow> string list \<Rightarrow> string list \<Rightarrow> bool" where
  "walkInv es path dependents visited queue \<longleftrightarrow>
     set dependents \<subseteq> {q. (q, path) \<in> (includesFile es)\<^sup>+} \<and> set queue \<subseteq> set dependents \<and>
     set visited = insert path (set dependents) \<and> set (includers es path) \<subseteq> set dependents \<and>
     (path \<in> set dependents \<longrightarrow> (path, path) \<in> includesFile es) \<and>
     (\<forall>p \<in> set dependents - set queue. set (includers es p) \<subseteq> set visited)"

definition walkResult :: "(string \<times> FileAnalysis) list \<Rightarrow> string \<Rightarrow> string set" where
  "walkResult es path =
     {q. (q, path) \<in> (includesFile es)\<^sup>+ \<and> (q = path \<longrightarrow> (path, path) \<in> includesFile es)}"

lemma walkInv_end:
  assumes "walkInv es path dependents visited []"
  shows "set dependents = walkResult es path"
proof
  show "set dependents \<subseteq> walkResult es path"
    using assms by (auto simp: walkInv_def walkResult_def)
  have "q = path \<or> q \<in> set dependents" if "(q, path) \<in> (includesFile es)\<^sup>+" for q
    using that
  proof (induction rule: converse_trancl_induct)
    case (base y)
    then show ?case using assms by (auto simp: walkInv_def set_includers)
  next
    case (step y z)
    then show ?case using assms by (fastforce simp: walkInv_def set_includers)
  qed
  then show "walkResult es path \<subseteq> set dependents"
    using assms by (auto simp: walkResult_def walkInv_def set_includers)
qed

lemma walkInv_step:
  assumes "walkInv es path dependents visited (current # queue)"
    and "found = filter (\<lambda>p. p \<notin> set visited) (includers es current)"
  shows "walkInv es path (dependents @ found) (visited @ found) (queue @ found)"
proof -
  have "(current, path) \<in> (includesFile es)\<^sup>+" using assms(1) by (auto simp: walkInv_def)
  then have "(q, path) \<in> (includesFile es)\<^sup>+" if "q \<in> set found" for q
    using that assms(2) by (auto simp: set_includers intro: trancl_into_trancl2)
  moreover have "set (includers es p) \<subseteq> set (visited @ found)"
    if p: "p \<in> set (dependents @ found) - set (queue @ found)" for p
  proof (cases "p = current")
    case True
    then show ?thesis using assms(2) by auto
  next
    case False
    with p have "p \<in> set dependents - set (current # queue)" by auto
    then have "set (includers es p) \<subseteq> set visited"
      using assms(1) unfolding walkInv_def by blast
    then show ?thesis by auto
  qed
  ultimately show ?thesis
    using assms by (simp add: walkInv_def) (auto simp: set_includers)
qed

lemma invalidateLoop_set:
  "walkInv es path dependents visited queue \<Longrightarrow>
   set (invalidateLoop es dependents visited queue) = walkResult es path"
proof (induction es dependents visited queue rule: invalidateLoop.induct)
  case (1 es dependents visited)
  then show ?case by (simp add: walkInv_end)
next
  case (2 es dependents visited current queue)
  then show ?case using walkInv_step [OF 2(2) refl] by (simp add: Let_def)
qed

text \<open>
  C39. Invalidation returns, sorted, exactly the files that include the changed file directly or
  through others; the file itself only when it includes itself.
\<close>

theorem Invalidate_closure:
  "sorted (Invalidate path idx) \<and> set (Invalidate path idx) = walkResult (ixEntries idx) path"
proof -
  have "walkInv (ixEntries idx) path (includers (ixEntries idx) path)
      (path # includers (ixEntries idx) path) (includers (ixEntries idx) path)"
    by (auto simp: walkInv_def set_includers)
  then show ?thesis by (simp add: Invalidate_def Let_def invalidateLoop_set)
qed

section \<open>The cache under concurrency\<close>

text \<open>
  Readers and writers interleave between the critical sections of the code. A reader looks once
  under the read lock; when it finds nothing it goes on, at some later time, to the slow path. The
  label of a step is the answer given, if any, with the reader's configuration.
\<close>

datatype Answer = Silent | Answer ConfigRef NameIndex

inductive indexStep :: "Index \<times> ConfigRef multiset \<Rightarrow> Answer \<Rightarrow> Index \<times> ConfigRef multiset \<Rightarrow> bool" where
  add: "indexStep (idx, waiting) Silent (Add path fa idx, waiting)"
| putContent: "indexStep (idx, waiting) Silent (PutContent path content idx, waiting)"
| skip: "indexStep (idx, waiting) Silent (addSkip path reason idx, waiting)"
| hit: "fastPath cfg idx = Some names \<Longrightarrow> indexStep (idx, waiting) (Answer cfg names) (idx, waiting)"
| miss: "fastPath cfg idx = None \<Longrightarrow> indexStep (idx, waiting) Silent (idx, add_mset cfg waiting)"
| build: "slowPath cfg idx = (names, idx') \<Longrightarrow>
    indexStep (idx, add_mset cfg waiting) (Answer cfg names) (idx', waiting)"

inductive indexReachable :: "Index \<times> ConfigRef multiset \<Rightarrow> bool" where
  start: "indexReachable (emptyIndex, {#})"
| step: "indexReachable s \<Longrightarrow> indexStep s label s' \<Longrightarrow> indexReachable s'"

inductive_cases answerE: "indexStep s (Answer cfg names) s'"

text \<open>The cache, when there is one, is the name index of the entries; every path has one entry.\<close>

definition cacheInv :: "Index \<Rightarrow> bool" where
  "cacheInv idx \<longleftrightarrow> wellFormed (ixEntries idx) \<and>
     (\<forall>names. ixNameIndex idx = Some names \<longrightarrow>
        names = buildNameMapFrom (ixEntries idx) (configOf (ixNameIndexCfg idx)))"

lemma cacheInv_fast:
  "cacheInv idx \<Longrightarrow> fastPath cfg idx = Some names \<Longrightarrow> names = buildNameMapFrom (ixEntries idx) (configOf cfg)"
  by (auto simp: cacheInv_def fastPath_def split: if_splits)

lemma cacheInv_slow:
  "cacheInv idx \<Longrightarrow> slowPath cfg idx = (names, idx') \<Longrightarrow>
     cacheInv idx' \<and> ixEntries idx' = ixEntries idx \<and> names = buildNameMapFrom (ixEntries idx) (configOf cfg)"
  using cacheInv_fast [of idx cfg]
  by (auto simp: slowPath_def Let_def split: option.splits) (auto simp: cacheInv_def)

lemma cacheInv_ops [simp]:
  "cacheInv emptyIndex" "cacheInv idx \<Longrightarrow> cacheInv (Add path fa idx)"
  "cacheInv idx \<Longrightarrow> cacheInv (PutContent path content idx)" "cacheInv idx \<Longrightarrow> cacheInv (addSkip path reason idx)"
  by (auto simp: cacheInv_def emptyIndex_def Add_def PutContent_def addSkip_def wellFormed_def distinct_update)

lemma cacheInv_reachable: "indexReachable s \<Longrightarrow> cacheInv (fst s)"
proof (induction rule: indexReachable.induct)
  case (step s label s')
  from step.hyps(2) step.IH show ?case
    by (cases rule: indexStep.cases) (auto dest: cacheInv_slow)
qed simp

text \<open>
  C6. The cache is never stale: in every interleaving of additions and lookups, an answer a reader
  gets is the name index of the entries at the moment it is given, under the reader's own
  configuration.
\<close>

theorem cachedNameIndex_current:
  assumes "indexReachable (idx, waiting)" "indexStep (idx, waiting) (Answer cfg names) s'"
  shows "names = buildNameMapFrom (ixEntries idx) (configOf cfg)"
  using assms(2) cacheInv_reachable [OF assms(1)]
  by (auto elim!: answerE dest: cacheInv_fast cacheInv_slow)

definition sampleIndex :: Index where
  "sampleIndex = Add ''LIB/A.NSN'' (zeroFileAnalysis\<lparr>faObjectType := ObjectSubprogram\<rparr>) emptyIndex"

theorem cachedNameIndex_current_witness:
  "fst (slowPath None sampleIndex) = buildNameMapFrom (ixEntries sampleIndex) (configOf None)"
proof (rule cachedNameIndex_current)
  have "indexReachable (sampleIndex, {#})"
    unfolding sampleIndex_def by (rule indexReachable.step [OF indexReachable.start indexStep.add])
  moreover have "fastPath None sampleIndex = None" by code_simp
  ultimately show "indexReachable (sampleIndex, {#None#})"
    by (rule indexReachable.step [OF _ indexStep.miss])
  show "indexStep (sampleIndex, {#None#}) (Answer None (fst (slowPath None sampleIndex)))
      (snd (slowPath None sampleIndex), {#})"
    by (rule indexStep.build) simp
qed

lemma cacheInv_cached:
  "cacheInv idx \<Longrightarrow> fst (cachedNameIndex cfg idx) = buildNameMapFrom (ixEntries idx) (configOf cfg)"
  by (auto simp: cachedNameIndex_def dest: cacheInv_fast split: option.splits)
     (metis cacheInv_slow prod.collapse)

text \<open>
  Lookup by name returns, sorted by path, exactly the files of the index with that name and
  type (any type when none is given), cached or not, whatever the order in which the map is
  traversed.
\<close>

theorem LookupByName_exact:
  assumes "cacheInv idx"
  shows "sorted (map cdPath (fst (LookupByName name typ cfg idx))) \<and>
    set (fst (LookupByName name typ cfg idx)) =
      candidate (configOf cfg) ` {e \<in> set (ixEntries idx). objectName (fst e) = toUpper name \<and>
         (typ = ObjectNone \<or> faObjectType (snd e) = typ)}"
proof -
  have w: "wellFormed (ixEntries idx)" using assms by (simp add: cacheInv_def)
  let ?b = "bucket (buildNameMapFrom (ixEntries idx) (configOf cfg)) (toUpper name)"
  have "fst (LookupByName name typ cfg idx) = filter (\<lambda>c. \<not> (typ \<noteq> ObjectNone \<and> cdType c \<noteq> typ)) ?b"
    using cacheInv_cached [OF assms, of cfg] by (simp add: LookupByName_def lookupIn_def case_prod_unfold)
  moreover have "sorted (map cdPath ?b)" using w by (rule nameIndex.names_sorted)
  ultimately show ?thesis
    using nameIndex.names_set [OF w, of "configOf cfg" "toUpper name"]
    by (auto simp: sorted_filter)
qed

lemma sampleIndex_inv: "cacheInv sampleIndex"
  by (simp add: sampleIndex_def)

theorem LookupByName_exact_witness:
  "sorted (map cdPath (fst (LookupByName ''a'' ObjectSubprogram None sampleIndex))) \<and>
    set (fst (LookupByName ''a'' ObjectSubprogram None sampleIndex)) =
      candidate (configOf None) ` {e \<in> set (ixEntries sampleIndex). objectName (fst e) = toUpper ''a'' \<and>
         (ObjectSubprogram = ObjectNone \<or> faObjectType (snd e) = ObjectSubprogram)}"
  by (rule LookupByName_exact [OF sampleIndex_inv])

text \<open>
  Completion offers, sorted by path, exactly the files of the index of the wanted type whose
  name starts with the prefix and whose library the file being edited can reach.
\<close>

theorem NamesWithPrefix_exact:
  assumes "cacheInv idx"
  shows "sorted (map cdPath (fst (NamesWithPrefix pre typ referencingPath cfg idx))) \<and>
    set (fst (NamesWithPrefix pre typ referencingPath cfg idx)) =
      candidate (configOf cfg) ` {e \<in> set (ixEntries idx). hasPrefix (objectName (fst e)) (toUpper pre) \<and>
        faObjectType (snd e) = typ \<and> reachable referencingPath (configOf cfg) (objectLibrary (fst e) (configOf cfg))}"
  using cacheInv_cached [OF assms, of cfg]
    prefixIn_exact [of "ixEntries idx" "configOf cfg" pre "typ" referencingPath]
  by (simp add: NamesWithPrefix_def case_prod_unfold)

theorem NamesWithPrefix_exact_witness:
  "sorted (map cdPath (fst (NamesWithPrefix [] ObjectSubprogram ''B.NSP'' None sampleIndex))) \<and>
    set (fst (NamesWithPrefix [] ObjectSubprogram ''B.NSP'' None sampleIndex)) =
      candidate (configOf None) ` {e \<in> set (ixEntries sampleIndex). hasPrefix (objectName (fst e)) (toUpper []) \<and>
        faObjectType (snd e) = ObjectSubprogram \<and> reachable ''B.NSP'' (configOf None) (objectLibrary (fst e) (configOf None))}"
  by (rule NamesWithPrefix_exact [OF sampleIndex_inv])

end
