(* ===== verification/Resolution_Facts.thy ===== *)
theory Resolution_Facts
  imports Resolution Index_Facts
begin

text \<open>
  Resolution, from the contract of a name index: what a resolved edge is bound to, which library
  wins, that the order of traversal does not matter, and that re-resolving only the files a change
  affects gives what resolving everything would.
\<close>

section \<open>What an edge depends on\<close>

lemmas resolve_defs = resolveEdge_def resolveDataAreaEdge_def resolveByName_def

text \<open>An edge reads the name index at one name only.\<close>

lemma resolveByName_at:
  "f (toUpper n) = g (toUpper n) \<Longrightarrow> resolveByName n t p e f cfg = resolveByName n t p e g cfg"
  by (simp add: resolveByName_def)

lemma resolveEdge_at:
  assumes "f (toUpper (eeTargetName e)) = g (toUpper (eeTargetName e))"
  shows "resolveEdge e p t f cfg = resolveEdge e p t g cfg"
  using resolveByName_at [of f _ g, OF assms]
  by (cases "eeKind e") (simp_all add: resolveEdge_def resolveDataAreaEdge_def)

section \<open>One file\<close>

definition edgeOutcomes ::
  "Lookup \<Rightarrow> Config option \<Rightarrow> string \<Rightarrow> FileAnalysis \<Rightarrow> (Range \<times> Resolution \<times> Diagnostic list) list" where
  "edgeOutcomes f cfg p fa =
     map (\<lambda>e. (eeSource e, resolveEdge e p (faObjectType fa) f cfg)) (faEdges fa)"

definition fileEntries :: "Lookup \<Rightarrow> Config option \<Rightarrow> string \<Rightarrow> FileAnalysis \<Rightarrow> Range \<rightharpoonup> Resolution" where
  "fileEntries f cfg p fa =
     map_of (rev (map (\<lambda>(r, res, ds). (r, res)) (edgeOutcomes f cfg p fa)))"

definition fileDiagnostics :: "Lookup \<Rightarrow> Config option \<Rightarrow> string \<Rightarrow> FileAnalysis \<Rightarrow> Diagnostic list" where
  "fileDiagnostics f cfg p fa = concat (map (\<lambda>(r, res, ds). ds) (edgeOutcomes f cfg p fa))"

lemma fold_outcomes:
  "foldl (\<lambda>rs (r, o'). addResolution p r o' rs) rs os =
     \<lparr>rsEntries = (\<lambda>(q, r). if q = p then (case map_of (rev (map (\<lambda>(r, res, ds). (r, res)) os)) r of
                                Some x \<Rightarrow> Some x | None \<Rightarrow> rsEntries rs (q, r)) else rsEntries rs (q, r)),
      rsDiagnostics = (let ds = concat (map (\<lambda>(r, res, ds). ds) os) in
        if ds = [] then rsDiagnostics rs
        else (rsDiagnostics rs)(p \<mapsto> (case rsDiagnostics rs p of None \<Rightarrow> ds | Some old \<Rightarrow> old @ ds)))\<rparr>"
proof (induction os rule: rev_induct)
  case Nil
  then show ?case by (cases rs) (auto simp: fun_eq_iff)
next
  case (snoc x os)
  then show ?case
    by (auto simp: addResolution_def Let_def fun_eq_iff split: prod.splits option.splits if_splits)
qed

lemma resolveFile_spec:
  assumes "\<And>r. rsEntries rs (p, r) = None" "rsDiagnostics rs p = None"
  shows "resolveFile f cfg rs (p, fa) =
     \<lparr>rsEntries = (\<lambda>(q, r). if q = p then fileEntries f cfg p fa r else rsEntries rs (q, r)),
      rsDiagnostics = (rsDiagnostics rs)(p :=
         if fileDiagnostics f cfg p fa = [] then None else Some (fileDiagnostics f cfg p fa))\<rparr>"
proof -
  have "resolveFile f cfg rs (p, fa) = foldl (\<lambda>rs (r, o'). addResolution p r o' rs) rs (edgeOutcomes f cfg p fa)"
    by (simp add: resolveFile_def edgeOutcomes_def foldl_map)
  then show ?thesis
    using assms
    by (auto simp: fold_outcomes fileEntries_def fileDiagnostics_def Let_def fun_eq_iff split: option.splits)
qed

text \<open>The reference: every file of a workspace resolved on its own.\<close>

definition resolvedSet :: "Lookup \<Rightarrow> Config option \<Rightarrow> (string \<rightharpoonup> FileAnalysis) \<Rightarrow> ResolutionSet" where
  "resolvedSet f cfg files =
     \<lparr>rsEntries = (\<lambda>(p, r). case files p of None \<Rightarrow> None | Some fa \<Rightarrow> fileEntries f cfg p fa r),
      rsDiagnostics = (\<lambda>p. case files p of None \<Rightarrow> None
         | Some fa \<Rightarrow> if fileDiagnostics f cfg p fa = [] then None else Some (fileDiagnostics f cfg p fa))\<rparr>"

lemma resolveFile_resolvedSet:
  "p \<notin> dom files \<Longrightarrow> resolveFile f cfg (resolvedSet f cfg files) (p, fa) = resolvedSet f cfg (files(p \<mapsto> fa))"
  by (subst resolveFile_spec) (auto simp: resolvedSet_def fun_eq_iff domIff)

lemma foldl_resolveFile:
  "distinct (map fst es) \<Longrightarrow> dom files \<inter> fst ` set es = {} \<Longrightarrow>
   foldl (resolveFile f cfg) (resolvedSet f cfg files) es = resolvedSet f cfg (files ++ map_of es)"
proof (induction es arbitrary: files)
  case (Cons e es)
  obtain p fa where e: "e = (p, fa)" by fastforce
  have "foldl (resolveFile f cfg) (resolvedSet f cfg files) (e # es)
      = foldl (resolveFile f cfg) (resolvedSet f cfg (files(p \<mapsto> fa))) es"
    using Cons.prems e by (simp add: resolveFile_resolvedSet)
  also have "\<dots> = resolvedSet f cfg (files(p \<mapsto> fa) ++ map_of es)"
  proof (rule Cons.IH)
    show "dom (files(p \<mapsto> fa)) \<inter> fst ` set es = {}"
      using Cons.prems e by (subst dom_fun_upd) auto
  qed (use Cons.prems in simp)
  also have "files(p \<mapsto> fa) ++ map_of es = (files ++ map_of es)(p \<mapsto> fa)"
    using Cons.prems(1) e by (intro map_add_upd_left) (simp add: dom_map_of_conv_image_fst)
  also have "\<dots> = files ++ map_of (e # es)"
    by (simp only: e map_of.simps fst_conv snd_conv map_add_upd)
  finally show ?case .
qed simp

lemma resolvedSet_empty: "resolvedSet f cfg Map.empty = emptyResolutionSet"
  by (simp add: resolvedSet_def emptyResolutionSet_def fun_eq_iff)

lemma Resolve_resolvedSet:
  "wellFormed (ixEntries idx) \<Longrightarrow>
     Resolve idx cfg = resolvedSet (bucket (buildNameIndex idx cfg)) cfg (map_of (ixEntries idx))"
  using foldl_resolveFile [of "ixEntries idx" Map.empty, unfolded resolvedSet_empty]
  by (simp add: Resolve_def Let_def wellFormed_def)

section \<open>From the contract\<close>

lemma find_SomeD: "find P xs = Some x \<Longrightarrow> x \<in> set xs \<and> P x"
  by (induction xs) (auto split: if_splits)

lemma sameName_refl: "set es = set es' \<Longrightarrow> sameName es es' n"
  by (simp add: sameName_def)

context name_index
begin

text \<open>A file's resolution depends only on the files that bear a name one of its edges mentions.\<close>

lemma resolve_local:
  assumes "wellFormed es" "wellFormed es'"
    and "\<And>e. e \<in> set (faEdges fa) \<Longrightarrow> sameName es es' (toUpper (eeTargetName e))"
  shows "edgeOutcomes (names es cfg) cfg p fa = edgeOutcomes (names es' cfg) cfg p fa"
proof -
  have "resolveEdge e p t (names es cfg) cfg = resolveEdge e p t (names es' cfg) cfg"
    if "e \<in> set (faEdges fa)" for e t
    by (rule resolveEdge_at) (rule names_local [OF assms(1,2) assms(3) [OF that]])
  then show ?thesis by (simp add: edgeOutcomes_def)
qed

lemma resolve_local_file:
  assumes "wellFormed es" "wellFormed es'"
    and "\<And>e. e \<in> set (faEdges fa) \<Longrightarrow> sameName es es' (toUpper (eeTargetName e))"
  shows "fileEntries (names es cfg) cfg p fa = fileEntries (names es' cfg) cfg p fa"
    and "fileDiagnostics (names es cfg) cfg p fa = fileDiagnostics (names es' cfg) cfg p fa"
  by (simp_all add: fileEntries_def fileDiagnostics_def resolve_local [OF assms])

lemma resolvedSet_cong:
  assumes "wellFormed es" "wellFormed es'" "set es = set es'"
  shows "resolvedSet (names es cfg) cfg files = resolvedSet (names es' cfg) cfg files"
proof -
  have *: "fileEntries (names es cfg) cfg = fileEntries (names es' cfg) cfg"
    "fileDiagnostics (names es cfg) cfg = fileDiagnostics (names es' cfg) cfg"
    using resolve_local_file [OF assms(1,2) sameName_refl [OF assms(3)]] by (auto intro!: ext)
  show ?thesis unfolding resolvedSet_def * ..
qed

text \<open>A binding is to an indexed file of the wanted type and name.\<close>

lemma filterByType_set:
  assumes "wellFormed es"
  shows "c \<in> set (filterByType (names es cfg n) t) \<longleftrightarrow>
    (\<exists>fa. map_of es (cdPath c) = Some fa \<and> objectName (cdPath c) = n \<and> faObjectType fa = t \<and> c = candidate cfg (cdPath c, fa))"
  using names_mem [OF assms, of c cfg n] by (auto simp: filterByType_def) (metis candidate_sel(4) snd_conv)+

lemma resolveViaChain_some:
  "resolveViaChain cs chain = Some c \<Longrightarrow>
     \<exists>i<length chain. c \<in> set cs \<and> cdLibrary c = chain ! i \<and> (\<forall>j<i. \<forall>d\<in>set cs. cdLibrary d \<noteq> chain ! j)"
proof (induction chain)
  case (Cons l ls)
  show ?case
  proof (cases "find (\<lambda>c. cdLibrary c = l) cs")
    case None
    then obtain i where "i < length ls" "c \<in> set cs" "cdLibrary c = ls ! i" "\<forall>j<i. \<forall>d\<in>set cs. cdLibrary d \<noteq> ls ! j"
      using Cons by auto
    with None show ?thesis
      by (intro exI [of _ "Suc i"]) (auto simp: find_None_iff less_Suc_eq_0_disj)
  next
    case (Some d)
    with Cons.prems show ?thesis by (intro exI [of _ 0]) (auto dest: find_SomeD)
  qed
qed simp

lemma resolveViaChain_none:
  "resolveViaChain cs chain = None \<longleftrightarrow> (\<forall>c\<in>set cs. cdLibrary c \<notin> set chain)"
  by (induction chain) (auto simp: find_None_iff split: option.splits dest: find_SomeD)

lemma filterByType_sorted:
  assumes "wellFormed es"
  shows "sorted (map cdPath (filterByType (names es cfg n) t))" "distinct (map cdPath (filterByType (names es cfg n) t))"
  using names_sorted [OF assms] names_paths_distinct [OF assms]
  by (simp_all add: filterByType_def sorted_filter distinct_map_filter)

end

section \<open>Which file an edge is bound to\<close>

text \<open>The files a name may be bound to: those of the name and the type.\<close>

definition bindable :: "(string \<times> FileAnalysis) list \<Rightarrow> string \<Rightarrow> ObjectType \<Rightarrow> string \<Rightarrow> bool" where
  "bindable es n t p \<longleftrightarrow> (\<exists>fa. map_of es p = Some fa \<and> objectName p = toUpper n \<and> faObjectType fa = t)"

lemma find_first:
  "sorted (map f xs) \<Longrightarrow> find P xs = Some x \<Longrightarrow> y \<in> set xs \<Longrightarrow> P y \<Longrightarrow> f x \<le> (f y :: 'b :: linorder)"
  by (induction xs) (auto split: if_splits dest: find_SomeD)

lemma resolveViaChain_first:
  "sorted (map cdPath cs) \<Longrightarrow> resolveViaChain cs chain = Some c \<Longrightarrow> d \<in> set cs \<Longrightarrow>
     cdLibrary d = cdLibrary c \<Longrightarrow> cdPath c \<le> cdPath d"
proof (induction chain)
  case (Cons l ls)
  show ?case
  proof (cases "find (\<lambda>c. cdLibrary c = l) cs")
    case (Some b)
    with Cons.prems show ?thesis using find_first [OF Cons.prems(1) Some, of d] find_SomeD [OF Some] by auto
  qed (use Cons in auto)
qed simp

context name_index
begin

lemma bindable_candidates:
  assumes "wellFormed es"
  shows "bindable es n t p \<longleftrightarrow>
    (\<exists>c\<in>set (filterByType (names es cfg (toUpper n)) t). cdPath c = p \<and> cdLibrary c = objectLibrary p cfg \<and> cdType c = t)"
  unfolding bindable_def Bex_def filterByType_set [OF assms] by (force intro: exI [of _ "candidate cfg (p, _)"])

lemma chain_binding:
  assumes "wellFormed es"
  shows "case resolveViaChain (filterByType (names es cfg (toUpper n)) t) chain of
     Some c \<Rightarrow> bindable es n t (cdPath c) \<and> cdType c = t \<and>
       (\<exists>i<length chain. objectLibrary (cdPath c) cfg = chain ! i \<and>
          (\<forall>q. bindable es n t q \<longrightarrow> (\<forall>j<i. objectLibrary q cfg \<noteq> chain ! j) \<and>
                (objectLibrary q cfg = chain ! i \<longrightarrow> cdPath c \<le> q)))
   | None \<Rightarrow> (\<forall>q. bindable es n t q \<longrightarrow> objectLibrary q cfg \<notin> set chain)"
proof -
  let ?cs = "filterByType (names es cfg (toUpper n)) t"
  show ?thesis
  proof (cases "resolveViaChain ?cs chain")
    case None
    then have "\<forall>c\<in>set ?cs. cdLibrary c \<notin> set chain" by (simp add: resolveViaChain_none)
    with None show ?thesis by (auto simp: bindable_candidates [OF assms, where cfg = cfg])
  next
    case (Some c)
    then obtain i where i: "i < length chain" "c \<in> set ?cs" "cdLibrary c = chain ! i"
      "\<forall>j<i. \<forall>d\<in>set ?cs. cdLibrary d \<noteq> chain ! j"
      using resolveViaChain_some by blast
    have c: "cdLibrary c = objectLibrary (cdPath c) cfg" "cdType c = t"
      using i(2) unfolding filterByType_set [OF assms] by (metis candidate_sel(3,4) fst_conv snd_conv)+
    have "cdPath c \<le> q" if "bindable es n t q" "objectLibrary q cfg = chain ! i" for q
      using that i(3) resolveViaChain_first [OF filterByType_sorted(1) [OF assms] Some]
      by (auto simp: bindable_candidates [OF assms, where cfg = cfg])
    moreover have "objectLibrary q cfg \<noteq> chain ! j" if "bindable es n t q" "j < i" for q j
      using that i(4) by (auto simp: bindable_candidates [OF assms, where cfg = cfg])
    ultimately show ?thesis
      using Some i(1,2,3) c bindable_candidates [OF assms, where cfg = cfg and n = n and t = t and p = "cdPath c"] by auto
  qed
qed

lemma flat_binding:
  assumes "wellFormed es"
  shows "set (map cdPath (filterByType (names es cfg (toUpper n)) t)) = {q. bindable es n t q}"
    and "c \<in> set (filterByType (names es cfg (toUpper n)) t) \<Longrightarrow> cdType c = t"
proof -
  show "set (map cdPath (filterByType (names es cfg (toUpper n)) t)) = {q. bindable es n t q}"
    using filterByType_set [OF assms] by (auto simp: bindable_candidates [OF assms, where cfg = cfg])
      (metis candidate_sel(3,4) fst_conv snd_conv image_eqI)+
  show "c \<in> set (filterByType (names es cfg (toUpper n)) t) \<Longrightarrow> cdType c = t"
    by (simp add: filterByType_def)
qed

end

text \<open>
  C8. The steplib chain. Where the referencing file has a library, an unqualified name is bound to
  the file of the wanted type in the earliest library of the chain that has one (the first by
  path if that library has several), and stays unbound exactly when no library of the chain has
  one. Nothing outside the chain is ever chosen and nothing is ambiguous.
\<close>

theorem resolveByName_chain:
  assumes "wellFormed (ixEntries idx)" "n \<noteq> []" "eeLibrary edge = []" "hasLibraryMap cfg" "chainOf file cfg \<noteq> []"
  shows "case resolveByName n t file edge (bucket (buildNameIndex idx cfg)) cfg of
     (Resolved p t', ds) \<Rightarrow> ds = [] \<and> t' = t \<and> bindable (ixEntries idx) n t p \<and>
       (\<exists>i<length (chainOf file cfg). objectLibrary p cfg = chainOf file cfg ! i \<and>
          (\<forall>q. bindable (ixEntries idx) n t q \<longrightarrow> (\<forall>j<i. objectLibrary q cfg \<noteq> chainOf file cfg ! j) \<and>
                (objectLibrary q cfg = chainOf file cfg ! i \<longrightarrow> p \<le> q)))
   | (Unresolved r, ds) \<Rightarrow> ds = [] \<and> r = ReasonNoTarget \<and>
       (\<forall>q. bindable (ixEntries idx) n t q \<longrightarrow> objectLibrary q cfg \<notin> set (chainOf file cfg))
   | (Ambiguous _, _) \<Rightarrow> False"
  using nameIndex.chain_binding [OF assms(1), where cfg = cfg and n = n and t = t and chain = "chainOf file cfg"] assms(2-)
  by (auto simp: resolveByName_def buildNameIndex_def Let_def split: option.splits)

text \<open>
  The flat namespace. Without a library map, or for a file outside every library, an
  unqualified name is bound when exactly one file has it, unbound without a diagnostic when none
  has, and otherwise ambiguous: the sorted list of all of them, with one warning at the call.
\<close>

theorem resolveByName_flat:
  assumes "wellFormed (ixEntries idx)" "n \<noteq> []" "eeLibrary edge = []" "\<not> hasLibraryMap cfg \<or> chainOf file cfg = []"
  shows "case resolveByName n t file edge (bucket (buildNameIndex idx cfg)) cfg of
     (Resolved p t', ds) \<Rightarrow> ds = [] \<and> t' = t \<and> {q. bindable (ixEntries idx) n t q} = {p}
   | (Unresolved r, ds) \<Rightarrow> ds = [] \<and> r = ReasonNoTarget \<and> {q. bindable (ixEntries idx) n t q} = {}
   | (Ambiguous ps, ds) \<Rightarrow> sorted ps \<and> distinct ps \<and> length ps \<ge> 2 \<and>
       set ps = {q. bindable (ixEntries idx) n t q} \<and>
       ds = [\<lparr>dgMessage = formatAmbiguityMessage n ps, dgSeverity = DiagnosticWarning,
              dgCode = DiagnosticCodeAmbiguity, dgRange = eeSource edge\<rparr>]"
proof -
  let ?cs = "filterByType (bucket (buildNameMapFrom (ixEntries idx) cfg) (toUpper n)) t"
  note fb = nameIndex.flat_binding [OF assms(1), where cfg = cfg and n = n and t = t]
  have r: "resolveByName n t file edge (bucket (buildNameIndex idx cfg)) cfg = resolveFlat n edge ?cs"
    using assms(2-) by (auto simp: resolveByName_def buildNameIndex_def Let_def)
  have d: "distinct (sort (map cdPath ?cs))"
    using nameIndex.filterByType_sorted(2) [OF assms(1)] by simp
  show ?thesis
  proof (cases ?cs)
    case Nil
    with fb r show ?thesis by (simp add: resolveFlat_def)
  next
    case (Cons c cs)
    show ?thesis
    proof (cases cs)
      case Nil
      with Cons fb r show ?thesis by (auto simp: resolveFlat_def)
    next
      case (Cons c' cs')
      with \<open>?cs = c # cs\<close> fb r d show ?thesis
        unfolding r resolveFlat_def by (simp add: Let_def del: sort_key_simps)
    qed
  qed
qed

section \<open>The order of traversal\<close>

lemma wellFormed_set: "wellFormed es \<Longrightarrow> set es = {(p, fa). map_of es p = Some fa}"
  by (auto simp: wellFormed_def)

lemma Resolve_same_files:
  assumes "wellFormed (ixEntries idx)" "wellFormed (ixEntries idx')"
    and "map_of (ixEntries idx) = map_of (ixEntries idx')"
  shows "Resolve idx cfg = Resolve idx' cfg"
proof -
  have "set (ixEntries idx) = set (ixEntries idx')"
    using assms by (simp add: wellFormed_set)
  with assms show ?thesis
    unfolding Resolve_resolvedSet [OF assms(1)] Resolve_resolvedSet [OF assms(2)] buildNameIndex_def
    by (simp add: nameIndex.resolvedSet_cong [OF assms(1,2)])
qed

text \<open>
  C38. Resolution does not depend on the order in which the map of files is traversed: two
  traversals of the same map give the same set of resolutions and the same diagnostics.
\<close>

theorem Resolve_order_independent:
  assumes "wellFormed (ixEntries idx)" "wellFormed (ixEntries idx')"
    and "map_of (ixEntries idx) = map_of (ixEntries idx')"
  shows "Resolve idx cfg = Resolve idx' cfg"
  using assms by (rule Resolve_same_files)

section \<open>Incremental resolution\<close>

definition unaffected :: "Index \<Rightarrow> Index \<Rightarrow> string list \<Rightarrow> bool" where
  "unaffected old idx changed \<longleftrightarrow>
     wellFormed (ixEntries old) \<and> wellFormed (ixEntries idx) \<and>
     (\<forall>p. p \<notin> set changed \<longrightarrow> Get p idx = Get p old) \<and>
     (\<forall>p. Get p old \<noteq> None \<longrightarrow> Get p idx \<noteq> None)"

lemma unaffected_sameName:
  assumes "unaffected old idx changed" "n \<notin> set (changedObjectNames idx changed)"
  shows "sameName (ixEntries old) (ixEntries idx) n"
proof -
  have w: "wellFormed (ixEntries old)" "wellFormed (ixEntries idx)" using assms(1) by (simp_all add: unaffected_def)
  have "map_of (ixEntries old) p = map_of (ixEntries idx) p" if "objectName p = n" for p
  proof (cases "p \<in> set changed")
    case True
    then have "Get p idx = None" using assms(2) that by (auto simp: changedObjectNames_def)
    moreover from this have "Get p old = None" using assms(1) by (auto simp: unaffected_def)
    ultimately show ?thesis by (simp add: Get_def)
  qed (use assms(1) in \<open>simp add: unaffected_def Get_def\<close>)
  then show ?thesis by (auto simp: sameName_def wellFormed_set [OF w(1)] wellFormed_set [OF w(2)])
qed

lemma foldl_skip:
  "foldl (\<lambda>rs p. case g p of None \<Rightarrow> rs | Some v \<Rightarrow> F rs (p, v)) rs ps
     = foldl F rs (List.map_filter (\<lambda>p. map_option (Pair p) (g p)) ps)"
  by (induction ps arbitrary: rs) (simp_all add: map_filter_simps split: option.splits)

lemma map_filter_pairs:
  "map fst (List.map_filter (\<lambda>p. map_option (Pair p) (g p)) ps) = filter (\<lambda>p. g p \<noteq> None) ps"
  "map_of (List.map_filter (\<lambda>p. map_option (Pair p) (g p)) ps) = g |` set ps"
  by (induction ps) (auto simp: map_filter_simps restrict_map_def fun_eq_iff split: option.splits)

lemma copied_spec:
  assumes "unaffected old idx changed" and A: "A = affectedFiles idx changed"
  shows "\<lparr>rsEntries = (\<lambda>(p, r). if p \<in> set A then None else rsEntries (Resolve old cfg) (p, r)),
          rsDiagnostics = (\<lambda>p. if p \<in> set A then None else rsDiagnostics (Resolve old cfg) p)\<rparr>
       = resolvedSet (bucket (buildNameIndex idx cfg)) cfg (map_of (ixEntries idx) |` (- set A))"
proof -
  have w: "wellFormed (ixEntries old)" "wellFormed (ixEntries idx)" using assms(1) by (simp_all add: unaffected_def)
  have same: "map_of (ixEntries old) p = map_of (ixEntries idx) p" if "p \<notin> set A" for p
    using that assms by (auto simp: affectedFiles_def Let_def unaffected_def Get_def)
  have res: "fileEntries (bucket (buildNameIndex old cfg)) cfg p fa = fileEntries (bucket (buildNameIndex idx cfg)) cfg p fa"
    "fileDiagnostics (bucket (buildNameIndex old cfg)) cfg p fa = fileDiagnostics (bucket (buildNameIndex idx cfg)) cfg p fa"
    if p: "p \<notin> set A" "map_of (ixEntries idx) p = Some fa" for p fa
  proof -
    have "(p, fa) \<in> set (ixEntries idx)" using p(2) by (rule map_of_SomeD)
    with p(1) A have "\<not> refersTo (changedObjectNames idx changed) fa"
      by (force simp: affectedFiles_def Let_def)
    then have "sameName (ixEntries old) (ixEntries idx) (toUpper (eeTargetName e))" if "e \<in> set (faEdges fa)" for e
      using that by (intro unaffected_sameName [OF assms(1)]) (auto simp: refersTo_def list_ex_iff)
    then show "fileEntries (bucket (buildNameIndex old cfg)) cfg p fa = fileEntries (bucket (buildNameIndex idx cfg)) cfg p fa"
      "fileDiagnostics (bucket (buildNameIndex old cfg)) cfg p fa = fileDiagnostics (bucket (buildNameIndex idx cfg)) cfg p fa"
      unfolding buildNameIndex_def using nameIndex.resolve_local_file [OF w] by blast+
  qed
  show ?thesis
    unfolding Resolve_resolvedSet [OF w(1)]
    by (auto simp: resolvedSet_def same res fun_eq_iff restrict_map_def split: option.splits)
qed

lemma ResolveInto_unaffected:
  assumes "unaffected old idx changed"
  shows "ResolveInto (Some (Resolve old cfg)) idx cfg changed = Resolve idx cfg"
proof (cases "changed = []")
  case True
  then have "map_of (ixEntries old) = map_of (ixEntries idx)"
    using assms by (auto simp: unaffected_def Get_def fun_eq_iff)
  then show ?thesis
    using True assms Resolve_same_files [of old idx cfg] by (simp add: ResolveInto_def unaffected_def)
next
  case False
  let ?A = "affectedFiles idx changed" and ?m = "map_of (ixEntries idx)"
  let ?es = "List.map_filter (\<lambda>p. map_option (Pair p) (?m p)) ?A"
  have w: "wellFormed (ixEntries idx)" using assms by (simp add: unaffected_def)
  have d: "distinct (map fst ?es)" by (simp add: map_filter_pairs affectedFiles_def Let_def)
  have "fst ` set ?es \<subseteq> set ?A"
    using arg_cong [OF map_filter_pairs(1) [of ?m ?A], of set] by auto
  then have disj: "dom (?m |` (- set ?A)) \<inter> fst ` set ?es = {}" by (auto split: if_splits)
  have "ResolveInto (Some (Resolve old cfg)) idx cfg changed
      = foldl (resolveFile (bucket (buildNameIndex idx cfg)) cfg)
          (resolvedSet (bucket (buildNameIndex idx cfg)) cfg (?m |` (- set ?A))) ?es"
    using False copied_spec [OF assms refl, of cfg]
    by (simp add: ResolveInto_def Let_def Get_def foldl_skip)
  also have "\<dots> = resolvedSet (bucket (buildNameIndex idx cfg)) cfg (?m |` (- set ?A) ++ map_of ?es)"
    by (rule foldl_resolveFile [OF d disj])
  also have "?m |` (- set ?A) ++ map_of ?es = ?m"
    by (auto simp: map_filter_pairs fun_eq_iff map_add_def restrict_map_def split: option.splits)
  finally show ?thesis by (simp add: Resolve_resolvedSet [OF w])
qed

text \<open>
  C4. Incremental resolution is complete: when only the listed files changed or were added and no
  file was removed, re-resolving the affected files gives exactly what resolving the whole
  workspace would.
\<close>

theorem ResolveInto_Resolve:
  assumes "unaffected old idx changed"
  shows "ResolveInto (Some (Resolve old cfg)) idx cfg changed = Resolve idx cfg"
  using assms by (rule ResolveInto_unaffected)

section \<open>No dangling bindings\<close>

definition boundIn :: "(string \<times> FileAnalysis) list \<Rightarrow> Resolution \<Rightarrow> bool" where
  "boundIn es res \<longleftrightarrow>
     (case res of
        Resolved p t \<Rightarrow> (\<exists>fa. map_of es p = Some fa \<and> faObjectType fa = t)
      | Ambiguous ps \<Rightarrow> set ps \<subseteq> fst ` set es
      | Unresolved _ \<Rightarrow> True)"

context name_index
begin

lemma candidate_bound:
  assumes "wellFormed es" "c \<in> set (filterByType (names es cfg n) t)"
  shows "boundIn es (Resolved (cdPath c) (cdType c))" "cdPath c \<in> fst ` set es"
proof -
  obtain fa where fa: "map_of es (cdPath c) = Some fa" "faObjectType fa = cdType c"
    using assms(2) unfolding filterByType_set [OF assms(1)] by (metis candidate_sel(4) snd_conv)
  then show "boundIn es (Resolved (cdPath c) (cdType c))" by (simp add: boundIn_def)
  show "cdPath c \<in> fst ` set es" using map_of_SomeD [OF fa(1)] by force
qed

lemma resolveByName_bound:
  assumes "wellFormed es"
  shows "boundIn es (fst (resolveByName n t file edge (names es cfg) cfg))"
proof -
  let ?cs = "filterByType (names es cfg (toUpper n)) t"
  note cb = candidate_bound [OF assms, of _ cfg "toUpper n" t]
  have "boundIn es (Ambiguous (sort (map cdPath ?cs)))" using cb(2) by (auto simp: boundIn_def)
  moreover have "boundIn es (Unresolved r)" for r by (simp add: boundIn_def)
  moreover have "c \<in> set ?cs" if "resolveViaChain ?cs ch = Some c" for ch c
    using resolveViaChain_some [OF that] by blast
  ultimately show ?thesis
    using cb(1) find_SomeD [of _ ?cs]
    by (auto simp: resolveByName_def Let_def resolveFlat_def split: option.splits list.splits)
qed

lemma resolveEdge_bound:
  assumes "wellFormed es" "map_of es file = Some fa"
  shows "boundIn es (fst (resolveEdge edge file (faObjectType fa) (names es cfg) cfg))"
proof -
  note rb = resolveByName_bound [OF assms(1), where cfg = cfg]
  have "boundIn es (Unresolved r)" for r by (simp add: boundIn_def)
  moreover have "boundIn es (Resolved file (faObjectType fa))" using assms(2) by (simp add: boundIn_def)
  moreover from rb calculation(1) have "boundIn es (fst (resolveDataAreaEdge n file edge (names es cfg) cfg))" for n
    by (simp add: resolveDataAreaEdge_def case_prod_unfold)
  ultimately show ?thesis
    using rb by (simp add: resolveEdge_def split: EdgeKind.splits)
qed

end

lemma Resolve_bound:
  assumes "wellFormed (ixEntries idx)" "rsEntries (Resolve idx cfg) (file, r) = Some res"
  shows "boundIn (ixEntries idx) res"
proof -
  obtain fa where fa: "map_of (ixEntries idx) file = Some fa"
    and fe: "fileEntries (bucket (buildNameIndex idx cfg)) cfg file fa r = Some res"
    using assms(2) by (auto simp: Resolve_resolvedSet [OF assms(1)] resolvedSet_def split: option.splits)
  then obtain edge where "res = fst (resolveEdge edge file (faObjectType fa) (bucket (buildNameIndex idx cfg)) cfg)"
    using map_of_SomeD [OF fe [unfolded fileEntries_def]] by (auto simp: edgeOutcomes_def case_prod_unfold)
  then show ?thesis
    using nameIndex.resolveEdge_bound [OF assms(1) fa] by (simp add: buildNameIndex_def)
qed

text \<open>
  C37. No dangling binding: whatever the workspace, a resolved edge is bound to a file of the index
  with the type that file has there, and an ambiguous one lists only files of the index.
\<close>

theorem Resolve_no_dangling:
  assumes "wellFormed (ixEntries idx)" "rsEntries (Resolve idx cfg) (file, r) = Some res"
  shows "boundIn (ixEntries idx) res"
  using assms by (rule Resolve_bound)

section \<open>Completion and resolution\<close>

lemma objectLibrary_noMap: "\<not> hasLibraryMap cfg \<Longrightarrow> objectLibrary f cfg = []"
  by (cases cfg) (auto simp: hasLibraryMap_def objectLibrary_def)

text \<open>
  Completion offers what resolution finds: the file an unqualified name is bound to is among
  the completions offered for that name and type in the same place.
\<close>

theorem completion_offers_binding:
  assumes "cacheInv idx" "eeLibrary edge = []"
    and "fst (resolveByName n t file edge (bucket (buildNameIndex idx (configOf cfg))) (configOf cfg)) = Resolved p t'"
  shows "p \<in> cdPath ` set (fst (NamesWithPrefix n t file cfg idx))"
proof -
  let ?c = "configOf cfg" and ?es = "ixEntries idx"
  have w: "wellFormed ?es" using assms(1) by (simp add: cacheInv_def)
  have "bindable ?es n t p \<and> reachable file ?c (objectLibrary p ?c)"
  proof (cases "hasLibraryMap ?c \<and> chainOf file ?c \<noteq> []")
    case True
    then show ?thesis
      using assms(2,3) nameIndex.chain_binding [OF w, where cfg = ?c and n = n and t = t and chain = "chainOf file ?c"]
      by (auto simp: resolveByName_def buildNameIndex_def Let_def reachable_def chainOf_def objectIdentity_def
          split: option.splits if_splits)
  next
    case False
    then have "buildSearchChain (objectLibrary file ?c) ?c = []"
      using objectLibrary_noMap [of ?c "file"] by (auto simp: chainOf_def objectIdentity_def buildSearchChain_def split: if_splits)
    moreover have "p \<in> set (map cdPath (filterByType (bucket (buildNameMapFrom ?es ?c) (toUpper n)) t))"
      using False assms(2,3)
      by (auto simp: resolveByName_def buildNameIndex_def Let_def resolveFlat_def split: if_splits list.splits)
    ultimately show ?thesis
      using nameIndex.flat_binding(1) [OF w, where cfg = ?c and n = n and t = t] by (auto simp: reachable_def)
  qed
  then obtain fa where "map_of ?es p = Some fa" "objectName p = toUpper n" "faObjectType fa = t"
    "reachable file ?c (objectLibrary p ?c)" by (auto simp: bindable_def)
  moreover from this have "(p, fa) \<in> set ?es" by (simp add: map_of_SomeD)
  ultimately have "candidate ?c (p, fa) \<in> set (fst (NamesWithPrefix n t file cfg idx))"
    using cacheInv_cached [OF assms(1), of cfg] prefixIn_exact [of ?es ?c n t "file"]
    by (auto simp: NamesWithPrefix_def case_prod_unfold hasPrefix_def)
  then show ?thesis by (metis candidate_sel(1) fst_conv image_eqI)
qed

section \<open>Witnesses\<close>

text \<open>Two libraries; a program of the first calls a subprogram that both hold.\<close>

definition sampleConfig :: Config where
  "sampleConfig = Defaults\<lparr>cfgResolution := \<lparr>Libraries =
     [\<lparr>libName = ''LIBA'', libPath = ''A'', Steplibs = [''LIBB'']\<rparr>,
      \<lparr>libName = ''LIBB'', libPath = ''B'', Steplibs = []\<rparr>]\<rparr>\<rparr>"

definition sampleEdge :: EdgeEntry where
  "sampleEdge =
     \<lparr>eeSource = Range (Position 1 1) (Position 1 15), eeTarget = zeroRange, eeKind = EdgeCalls,
      eeTargetName = ''SUB'', eeLibrary = []\<rparr>"

definition sampleMain :: FileAnalysis where
  "sampleMain = zeroFileAnalysis\<lparr>faObjectType := ObjectProgram, faEdges := [sampleEdge]\<rparr>"

definition sampleSub :: FileAnalysis where
  "sampleSub = zeroFileAnalysis\<lparr>faObjectType := ObjectSubprogram\<rparr>"

definition sampleOld :: Index where
  "sampleOld = Add ''B/SUB.NSN'' sampleSub (Add ''A/MAIN.NSP'' sampleMain emptyIndex)"

definition sampleNew :: Index where
  "sampleNew = Add ''A/SUB.NSN'' sampleSub sampleOld"

definition sampleTurned :: Index where
  "sampleTurned = sampleOld\<lparr>ixEntries := rev (ixEntries sampleOld)\<rparr>"

lemma sample_wellFormed:
  "wellFormed (ixEntries sampleOld)" "wellFormed (ixEntries sampleNew)" "wellFormed (ixEntries sampleTurned)"
  by code_simp+

lemma sample_inv: "cacheInv sampleOld"
  by (simp add: sampleOld_def)

theorem resolveByName_chain_witness:
  "case resolveByName ''sub'' ObjectSubprogram ''A/MAIN.NSP'' sampleEdge
        (bucket (buildNameIndex sampleOld (Some sampleConfig))) (Some sampleConfig) of
     (Resolved p t', ds) \<Rightarrow> ds = [] \<and> t' = ObjectSubprogram \<and> bindable (ixEntries sampleOld) ''sub'' ObjectSubprogram p \<and>
       (\<exists>i<length (chainOf ''A/MAIN.NSP'' (Some sampleConfig)).
          objectLibrary p (Some sampleConfig) = chainOf ''A/MAIN.NSP'' (Some sampleConfig) ! i \<and>
          (\<forall>q. bindable (ixEntries sampleOld) ''sub'' ObjectSubprogram q \<longrightarrow>
             (\<forall>j<i. objectLibrary q (Some sampleConfig) \<noteq> chainOf ''A/MAIN.NSP'' (Some sampleConfig) ! j) \<and>
             (objectLibrary q (Some sampleConfig) = chainOf ''A/MAIN.NSP'' (Some sampleConfig) ! i \<longrightarrow> p \<le> q)))
   | (Unresolved r, ds) \<Rightarrow> ds = [] \<and> r = ReasonNoTarget \<and>
       (\<forall>q. bindable (ixEntries sampleOld) ''sub'' ObjectSubprogram q \<longrightarrow>
          objectLibrary q (Some sampleConfig) \<notin> set (chainOf ''A/MAIN.NSP'' (Some sampleConfig)))
   | (Ambiguous _, _) \<Rightarrow> False"
proof (rule resolveByName_chain [OF sample_wellFormed(1)])
  show "eeLibrary sampleEdge = []" by code_simp
  show "hasLibraryMap (Some sampleConfig)" by code_simp
  show "chainOf ''A/MAIN.NSP'' (Some sampleConfig) \<noteq> []" by code_simp
qed simp

theorem resolveByName_flat_witness:
  "case resolveByName ''SUB'' ObjectSubprogram ''A/MAIN.NSP'' sampleEdge
        (bucket (buildNameIndex sampleNew None)) None of
     (Resolved p t', ds) \<Rightarrow> ds = [] \<and> t' = ObjectSubprogram \<and> {q. bindable (ixEntries sampleNew) ''SUB'' ObjectSubprogram q} = {p}
   | (Unresolved r, ds) \<Rightarrow> ds = [] \<and> r = ReasonNoTarget \<and> {q. bindable (ixEntries sampleNew) ''SUB'' ObjectSubprogram q} = {}
   | (Ambiguous ps, ds) \<Rightarrow> sorted ps \<and> distinct ps \<and> length ps \<ge> 2 \<and>
       set ps = {q. bindable (ixEntries sampleNew) ''SUB'' ObjectSubprogram q} \<and>
       ds = [\<lparr>dgMessage = formatAmbiguityMessage ''SUB'' ps, dgSeverity = DiagnosticWarning,
              dgCode = DiagnosticCodeAmbiguity, dgRange = eeSource sampleEdge\<rparr>]"
proof (rule resolveByName_flat [OF sample_wellFormed(2)])
  show "eeLibrary sampleEdge = []" by code_simp
  show "\<not> hasLibraryMap None \<or> chainOf ''A/MAIN.NSP'' None = []" by code_simp
qed simp

theorem Resolve_order_independent_witness:
  "Resolve sampleOld (Some sampleConfig) = Resolve sampleTurned (Some sampleConfig)"
proof (rule Resolve_order_independent [OF sample_wellFormed(1,3)])
  show "map_of (ixEntries sampleOld) = map_of (ixEntries sampleTurned)"
    using sample_wellFormed(1,3) by (simp add: wellFormed_def map_of_inject_set sampleTurned_def)
qed

theorem ResolveInto_Resolve_witness:
  "ResolveInto (Some (Resolve sampleOld (Some sampleConfig))) sampleNew (Some sampleConfig) [''A/SUB.NSN'']
     = Resolve sampleNew (Some sampleConfig)"
proof (rule ResolveInto_Resolve)
  show "unaffected sampleOld sampleNew [''A/SUB.NSN'']"
    using sample_wellFormed by (auto simp: unaffected_def Get_def sampleNew_def Add_def update_conv)
qed

lemma sample_resolution:
  "rsEntries (Resolve sampleNew (Some sampleConfig)) (''A/MAIN.NSP'', Range (Position 1 1) (Position 1 15))
     = Some (Resolved ''A/SUB.NSN'' ObjectSubprogram)"
  by code_simp

theorem Resolve_no_dangling_witness:
  "boundIn (ixEntries sampleNew) (Resolved ''A/SUB.NSN'' ObjectSubprogram)"
  by (rule Resolve_no_dangling [OF sample_wellFormed(2) sample_resolution])

theorem completion_offers_binding_witness:
  "''B/SUB.NSN'' \<in> cdPath ` set (fst (NamesWithPrefix ''SUB'' ObjectSubprogram ''A/MAIN.NSP'' (Some (1, sampleConfig)) sampleOld))"
proof (rule completion_offers_binding [OF sample_inv])
  show "eeLibrary sampleEdge = []" by code_simp
  show "fst (resolveByName ''SUB'' ObjectSubprogram ''A/MAIN.NSP'' sampleEdge
      (bucket (buildNameIndex sampleOld (configOf (Some (1, sampleConfig))))) (configOf (Some (1, sampleConfig))))
    = Resolved ''B/SUB.NSN'' ObjectSubprogram" by code_simp
qed

end
