(* ===== verification/FieldResolution_Facts.thy ===== *)
theory FieldResolution_Facts
  imports FieldResolution Resolution_Facts
begin

text \<open>
  The two searches for a field agree, and the object a field is looked up in is the one the
  corresponding edge is bound to.
\<close>

section \<open>The two searches\<close>

fun withRange :: "DataDefinition \<Rightarrow> bool" where
  "withRange (DataDefinition n l t ds k r nr cs rd v) \<longleftrightarrow> nr \<noteq> zeroRange \<and> list_all withRange cs"

lemma withRange_sel: "withRange d \<Longrightarrow> ddNameRange d \<noteq> zeroRange \<and> list_all withRange (ddChildren d)"
  by (cases d) simp

lemma firstSome_SomeD: "firstSome f xs = Some y \<Longrightarrow> \<exists>x\<in>set xs. f x = Some y"
  by (induction xs) (auto split: option.splits)

lemma find_defs_withRange:
  "list_all withRange defs \<Longrightarrow> findDefinitionByNameInDefs v defs = Some d \<Longrightarrow> ddNameRange d \<noteq> zeroRange"
proof (induction v defs arbitrary: d rule: findDefinitionByNameInDefs.induct)
  case (1 v defs)
  have kids: "list_all withRange (ddChildren x)" if "x \<in> set defs" for x
    using that 1(3) withRange_sel by (auto simp: list_all_iff)
  show ?case
  proof (cases "lastIndexByte (toUpper v) (CHR ''.'')")
    case None
    show ?thesis
    proof (cases "find (hasName (toUpper v)) defs")
      case (Some x)
      with None 1(4) have "d \<in> set defs" by (auto simp: findDefinitionByNameInDefs.simps [of v defs] dest: find_SomeD)
      with 1(3) withRange_sel show ?thesis by (auto simp: list_all_iff)
    next
      case none: None
      with None 1(4) obtain x where "x \<in> set defs" "ddChildren x \<noteq> []"
        "findDefinitionByNameInDefs v (ddChildren x) = Some d"
        by (auto simp: findDefinitionByNameInDefs.simps [of v defs] dest!: firstSome_SomeD split: if_splits)
      with 1(1) [OF refl None none] kids show ?thesis by blast
    qed
  next
    case (Some i)
    with 1(4) obtain x where "x \<in> set defs" "isGroupNamed (take i (toUpper v)) x"
      "findDefinitionByNameInDefs (drop (i + 1) (toUpper v)) (ddChildren x) = Some d"
      by (auto simp: findDefinitionByNameInDefs.simps [of v defs] Let_def dest!: firstSome_SomeD
          split: if_splits option.splits)
    with 1(2) [OF refl Some] kids show ?thesis by blast
  qed
qed

lemma firstSome_map:
  "(\<And>x. x \<in> set xs \<Longrightarrow> f x = map_option h (g x)) \<Longrightarrow> firstSome f xs = map_option h (firstSome g xs)"
  by (induction xs) (auto split: option.splits)

definition nameRangeOf :: "DataDefinition option \<Rightarrow> Range" where
  "nameRangeOf def = (case def of None \<Rightarrow> zeroRange | Some d \<Rightarrow> ddNameRange d)"

text \<open>
  The search for a field's position and the search for its definition agree: where every
  definition has a name range, the position found is the name range of the definition found.
\<close>

theorem findField_definition:
  assumes "list_all withRange defs"
  shows "findFieldInDefinitions v defs = nameRangeOf (findDefinitionByNameInDefs v defs)"
  using assms
proof (induction v defs rule: findDefinitionByNameInDefs.induct)
  case (1 v defs)
  have kids: "list_all withRange (ddChildren x)" if "x \<in> set defs" for x
    using that 1(3) withRange_sel by (auto simp: list_all_iff)
  show ?case
  proof (cases "lastIndexByte (toUpper v) (CHR ''.'')")
    case None
    let ?g = "\<lambda>def. if ddChildren def \<noteq> [] then findDefinitionByNameInDefs v (ddChildren def) else None"
    let ?f = "\<lambda>def. if ddChildren def \<noteq> []
      then let childRange = findFieldInDefinitions v (ddChildren def) in if childRange \<noteq> zeroRange then Some childRange else None
      else None"
    show ?thesis
    proof (cases "find (hasName (toUpper v)) defs")
      case none: None
      have "?f x = map_option ddNameRange (?g x)" if x: "x \<in> set defs" for x
        using 1(1) [OF refl None none x] kids [OF x] find_defs_withRange [OF kids [OF x], of v]
        by (auto simp: Let_def nameRangeOf_def split: option.splits)
      then have "firstSome ?f defs = map_option ddNameRange (firstSome ?g defs)" by (rule firstSome_map)
      with None none show ?thesis
        by (simp add: findFieldInDefinitions.simps [of v defs] findDefinitionByNameInDefs.simps [of v defs]
            nameRangeOf_def split: option.splits)
    qed (simp add: None findFieldInDefinitions.simps [of v defs] findDefinitionByNameInDefs.simps [of v defs] nameRangeOf_def)
  next
    case (Some i)
    let ?w = "drop (i + 1) (toUpper v)"
    let ?h = "\<lambda>find def. if isGroupNamed (take i (toUpper v)) def then Some (find ?w (ddChildren def)) else None"
    have "?h findFieldInDefinitions x = map_option nameRangeOf (?h findDefinitionByNameInDefs x)"
      if x: "x \<in> set defs" for x
      using 1(2) [OF refl Some x] kids [OF x] by simp
    then have "firstSome (?h findFieldInDefinitions) defs = map_option nameRangeOf (firstSome (?h findDefinitionByNameInDefs) defs)"
      by (rule firstSome_map)
    with Some show ?thesis
      by (simp add: findFieldInDefinitions.simps [of v defs] findDefinitionByNameInDefs.simps [of v defs]
          Let_def nameRangeOf_def [of None] split: option.splits)
  qed
qed

theorem findField_definition_witness:
  "findFieldInDefinitions ''g.b''
     [DataDefinition ''G'' 1 [] [] [] zeroRange (Range (Position 1 3) (Position 1 3))
        [DataDefinition ''B'' 2 ''A5'' [] [] zeroRange (Range (Position 2 3) (Position 2 3)) [] [] []] [] []]
   = nameRangeOf (findDefinitionByNameInDefs ''g.b''
     [DataDefinition ''G'' 1 [] [] [] zeroRange (Range (Position 1 3) (Position 1 3))
        [DataDefinition ''B'' 2 ''A5'' [] [] zeroRange (Range (Position 2 3) (Position 2 3)) [] [] []] [] []])"
  by (rule findField_definition) simp

section \<open>Edge and field go to the same object\<close>

lemma cached_step:
  assumes "cacheInv idx" "LookupByName n t cfg idx = (cs, idx')"
  shows "cacheInv idx'" "ixEntries idx' = ixEntries idx"
    "cs = lookupIn (buildNameMapFrom (ixEntries idx) (configOf cfg)) n t"
proof -
  let ?c = "cachedNameIndex cfg idx"
  have "cacheInv (snd ?c) \<and> ixEntries (snd ?c) = ixEntries idx"
  proof (cases "fastPath cfg idx")
    case None
    then show ?thesis
      using cacheInv_slow [OF assms(1), of cfg "fst ?c" "snd ?c"] by (simp add: cachedNameIndex_def)
  qed (use assms(1) in \<open>simp add: cachedNameIndex_def\<close>)
  moreover have "idx' = snd ?c" "cs = lookupIn (fst ?c) n t"
    using assms(2) by (simp_all add: LookupByName_def case_prod_unfold)
  ultimately show "cacheInv idx'" "ixEntries idx' = ixEntries idx"
    "cs = lookupIn (buildNameMapFrom (ixEntries idx) (configOf cfg)) n t"
    using cacheInv_cached [OF assms(1), of cfg] by simp_all
qed

lemma lookupIn_filter:
  "t \<noteq> ObjectNone \<Longrightarrow> lookupIn m n t = filterByType (bucket m (toUpper n)) t"
  by (simp add: lookupIn_def filterByType_def)

text \<open>The candidates a data area is chosen from: those of the first kind that has any at all.\<close>

lemma resolveDataAreaCandidate_eq:
  fixes idx :: Index and n path :: string and cfg :: ConfigRef
  assumes "cacheInv idx"
  defines "C \<equiv> \<lambda>t. filterByType (bucket (buildNameMapFrom (ixEntries idx) (configOf cfg)) (toUpper n)) t"
  shows "fst (resolveDataAreaCandidate n idx path cfg) = resolveCandidateViaChain
     (if C ObjectLocalDataArea \<noteq> [] then C ObjectLocalDataArea
      else if C ObjectParameterDataArea \<noteq> [] then C ObjectParameterDataArea else C ObjectGlobalDataArea) path (configOf cfg)"
proof -
  obtain cs1 i1 where 1: "LookupByName n ObjectLocalDataArea cfg idx = (cs1, i1)" by fastforce
  obtain cs2 i2 where 2: "LookupByName n ObjectParameterDataArea cfg i1 = (cs2, i2)" by fastforce
  obtain cs3 i3 where 3: "LookupByName n ObjectGlobalDataArea cfg i2 = (cs3, i3)" by fastforce
  obtain cs4 i4 where 4: "LookupByName n ObjectGlobalDataArea cfg i1 = (cs4, i4)" by fastforce
  note s1 = cached_step [OF assms(1) 1]
  note s2 = cached_step [OF s1(1) 2]
  note s3 = cached_step [OF s2(1) 3]
  show ?thesis
    using s1 s2 s3 1 2 3
    by (simp add: resolveDataAreaCandidate_def orLookup_def C_def lookupIn_filter)
qed

text \<open>
  C39. Navigation is consistent: when the field lookup of a \<open>USING\<close> clause selects a data area, the
  edge of that clause is bound to the same file, or is ambiguous and lists that file first.
\<close>

theorem dataArea_agrees:
  assumes "cacheInv idx" "n \<noteq> []" "eeLibrary edge = []"
    and "fst (resolveDataAreaCandidate n idx path cfg) = Some c"
  shows "case fst (resolveDataAreaEdge n path edge (bucket (buildNameIndex idx (configOf cfg))) (configOf cfg)) of
     Resolved p t \<Rightarrow> p = cdPath c \<and> t = cdType c
   | Ambiguous ps \<Rightarrow> hd ps = cdPath c
   | Unresolved _ \<Rightarrow> False"
proof -
  let ?cfg = "configOf cfg"
  have w: "wellFormed (ixEntries idx)" using assms(1) by (simp add: cacheInv_def)
  define C where "C t = filterByType (bucket (buildNameMapFrom (ixEntries idx) ?cfg) (toUpper n)) t" for t
  have empty: "resolveByName n t path edge (bucket (buildNameIndex idx ?cfg)) ?cfg = (Unresolved ReasonNoTarget, [])"
    if "C t = []" for t
  proof -
    have "resolveViaChain [] ch = None" for ch by (induction ch) auto
    then show ?thesis using that assms(2,3)
      by (simp add: resolveByName_def Let_def buildNameIndex_def C_def resolveFlat_def)
  qed
  have bound: "case fst (resolveByName n t path edge (bucket (buildNameIndex idx ?cfg)) ?cfg) of
     Resolved p t' \<Rightarrow> p = cdPath c \<and> t' = cdType c | Ambiguous ps \<Rightarrow> hd ps = cdPath c | Unresolved _ \<Rightarrow> False"
    if sel: "resolveCandidateViaChain (C t) path ?cfg = Some c" for t
  proof (cases "chainOf path ?cfg = []")
    case True
    then have c: "C t \<noteq> []" "c = hd (C t)" using sel by (auto simp: resolveCandidateViaChain_def chainOf_def split: if_splits)
    have "sort (map cdPath (C t)) = map cdPath (C t)"
      unfolding C_def by (rule sorted_sort_id) (rule nameIndex.filterByType_sorted(1) [OF w])
    with True c assms(2,3) show ?thesis
      by (cases "C t") (auto simp: resolveByName_def Let_def buildNameIndex_def C_def [symmetric] resolveFlat_def split: list.splits)
  next
    case False
    then have "hasLibraryMap ?cfg"
      using objectLibrary_noMap [of ?cfg path] by (auto simp: chainOf_def objectIdentity_def buildSearchChain_def split: if_splits)
    with False sel assms(2,3) show ?thesis
      by (auto simp: resolveByName_def Let_def buildNameIndex_def C_def resolveCandidateViaChain_def chainOf_def split: if_splits)
  qed
  from assms(4) have "resolveCandidateViaChain
     (if C ObjectLocalDataArea \<noteq> [] then C ObjectLocalDataArea
      else if C ObjectParameterDataArea \<noteq> [] then C ObjectParameterDataArea else C ObjectGlobalDataArea) path ?cfg = Some c"
    unfolding resolveDataAreaCandidate_eq [OF assms(1)] C_def .
  then show ?thesis
    using bound [of ObjectLocalDataArea] bound [of ObjectParameterDataArea] bound [of ObjectGlobalDataArea]
      empty [of ObjectLocalDataArea] empty [of ObjectParameterDataArea]
    by (auto simp: resolveDataAreaEdge_def split: if_splits Resolution.Resolution.splits)
qed

definition usingEdge :: EdgeEntry where
  "usingEdge = sampleEdge\<lparr>eeKind := EdgeUsesDataArea, eeTargetName := ''DATA''\<rparr>"

definition areaIndex :: Index where
  "areaIndex = Add ''A/DATA.NSA'' (zeroFileAnalysis\<lparr>faObjectType := ObjectParameterDataArea\<rparr>) sampleOld"

lemma areaIndex_inv: "cacheInv areaIndex"
  by (simp add: areaIndex_def sample_inv)

theorem dataArea_agrees_witness:
  "case fst (resolveDataAreaEdge ''DATA'' ''A/MAIN.NSP'' usingEdge
       (bucket (buildNameIndex areaIndex (configOf (Some (1, sampleConfig))))) (configOf (Some (1, sampleConfig)))) of
     Resolved p t \<Rightarrow> p = ''A/DATA.NSA'' \<and> t = ObjectParameterDataArea
   | Ambiguous ps \<Rightarrow> hd ps = ''A/DATA.NSA''
   | Unresolved _ \<Rightarrow> False"
proof -
  let ?c = "candidate (Some sampleConfig) (''A/DATA.NSA'', zeroFileAnalysis\<lparr>faObjectType := ObjectParameterDataArea\<rparr>)"
  have "eeLibrary usingEdge = []" by code_simp
  moreover have "fst (resolveDataAreaCandidate ''DATA'' areaIndex ''A/MAIN.NSP'' (Some (1, sampleConfig))) = Some ?c"
    by code_simp
  ultimately show ?thesis
    using dataArea_agrees [OF areaIndex_inv, of "''DATA''" usingEdge "''A/MAIN.NSP''" "Some (1, sampleConfig)" ?c]
    by (auto split: Resolution.Resolution.splits)
qed

text \<open>
  The converse fails: a local data area of the same name in a library the program cannot reach
  hides the reachable parameter data area from the field lookup, though the edge is bound to it.
\<close>

definition shadowedIndex :: Index where
  "shadowedIndex = Add ''C/DATA.NSL'' (zeroFileAnalysis\<lparr>faObjectType := ObjectLocalDataArea\<rparr>) areaIndex"

lemma shadowed_dataArea:
  "fst (resolveDataAreaEdge ''DATA'' ''A/MAIN.NSP'' usingEdge
       (bucket (buildNameIndex shadowedIndex (Some sampleConfig))) (Some sampleConfig))
     = Resolved ''A/DATA.NSA'' ObjectParameterDataArea"
  "fst (resolveDataAreaCandidate ''DATA'' shadowedIndex ''A/MAIN.NSP'' (Some (1, sampleConfig))) = None"
  by code_simp+

end
