(* ===== verification/Cache.thy ===== *)
theory Cache
  imports Index
begin

text \<open>
  The cache on disk, \<open>cache.go\<close>. The JSON and gzip encoders and SHA-256 are arguments: a record of
  the four conversions \<open>encodeCache\<close> and \<open>decodeCache\<close> chain, and a function from contents to hashes
  in hexadecimal. \<open>disk\<close> gives the content of a file by its path below the root, or nothing when it
  cannot be read; the code reads files several times during a build, and the model takes the disk not
  to change meanwhile. Logging is left out.
\<close>

section \<open>The format\<close>

definition cacheFormatVersion :: string where "cacheFormatVersion = ''0.10.0''"

record cacheEntry =
  ceObjectType :: ObjectType
  ceSymbols :: "SymbolEntry list"
  ceEdges :: "EdgeEntry list"
  ceDataAccess :: "DataAccessEntry list"
  ceDefinitions :: "DataDefinition list"
  ceWorkFiles :: "WorkFile list"
  ceHostVarRefs :: "HostVarRef list"
  ceDataAreaRefs :: "DataAreaRef list"
  ceStructure :: "Symbol option"
  ceContentHash :: string

record CacheFile =
  cfVersion :: string
  cfEntries :: "(string \<times> cacheEntry) list"

definition toEntry :: "FileAnalysis \<Rightarrow> string \<Rightarrow> cacheEntry" where
  "toEntry fa hash =
     \<lparr>ceObjectType = faObjectType fa, ceSymbols = faSymbols fa, ceEdges = faEdges fa,
      ceDataAccess = faDataAccess fa, ceDefinitions = faDefinitions fa, ceWorkFiles = faWorkFiles fa,
      ceHostVarRefs = faHostVarRefs fa, ceDataAreaRefs = faDataAreaRefs fa,
      ceStructure = faStructure fa, ceContentHash = hash\<rparr>"

definition fromEntry :: "cacheEntry \<Rightarrow> FileAnalysis" where
  "fromEntry entry =
     \<lparr>faObjectType = ceObjectType entry, faDiagnostics = [], faSymbols = ceSymbols entry,
      faEdges = ceEdges entry, faDataAccess = ceDataAccess entry,
      faDefinitions = ceDefinitions entry, faWorkFiles = ceWorkFiles entry,
      faHostVarRefs = ceHostVarRefs entry, faStructure = ceStructure entry,
      faDataAreaRefs = ceDataAreaRefs entry\<rparr>"

section \<open>Encoding\<close>

record Codec =
  marshal :: "CacheFile \<Rightarrow> string option"
  unmarshal :: "string \<Rightarrow> CacheFile option"
  gzip :: "string \<Rightarrow> string option"
  gunzip :: "string \<Rightarrow> string option"

definition encodeCache :: "Codec \<Rightarrow> CacheFile \<Rightarrow> string option" where
  "encodeCache codec cache =
     (case marshal codec cache of
        None \<Rightarrow> None
      | Some jsonBytes \<Rightarrow> gzip codec jsonBytes)"

definition gzipMagic :: "string \<Rightarrow> bool" where
  "gzipMagic d \<longleftrightarrow> length d \<ge> 2 \<and> d ! 0 = CHR 0x1F \<and> d ! 1 = CHR 0x8B"

definition decodeCache :: "Codec \<Rightarrow> string \<Rightarrow> CacheFile option" where
  "decodeCache codec d =
     (if gzipMagic d
      then (case gunzip codec d of None \<Rightarrow> None | Some jsonBytes \<Rightarrow> unmarshal codec jsonBytes)
      else unmarshal codec d)"

section \<open>Saving and loading\<close>

text \<open>
  \<open>saveIndex\<close> and \<open>Save\<close> build the same entries; the first reads \<open>root/relPath\<close> and the second the key
  itself, which is the choice of \<open>disk\<close> and \<open>readFile\<close> here. Writing gives the content of the file after it.
\<close>

definition contentHash :: "(string \<Rightarrow> string) \<Rightarrow> (string \<Rightarrow> string option) \<Rightarrow> string \<Rightarrow> string" where
  "contentHash sha disk relPath =
     (case disk relPath of None \<Rightarrow> sha relPath | Some content \<Rightarrow> sha content)"

definition saveEntry ::
  "(string \<Rightarrow> string) \<Rightarrow> (string \<Rightarrow> string option) \<Rightarrow> string \<times> FileAnalysis \<Rightarrow> string \<times> cacheEntry" where
  "saveEntry sha disk file =
     (case file of (relPath, fa) \<Rightarrow> (relPath, toEntry fa (contentHash sha disk relPath)))"

definition saveIndex ::
  "Codec \<Rightarrow> (string \<Rightarrow> string) \<Rightarrow> (string \<Rightarrow> string option) \<Rightarrow> Index \<Rightarrow> string option" where
  "saveIndex codec sha disk idx =
     encodeCache codec
       \<lparr>cfVersion = cacheFormatVersion, cfEntries = map (saveEntry sha disk) (ixEntries idx)\<rparr>"

datatype SaveResult = EncodeFailed | WriteFailed | Saved string

definition Save ::
  "Codec \<Rightarrow> (string \<Rightarrow> string) \<Rightarrow> (string \<Rightarrow> string option) \<Rightarrow> (string \<Rightarrow> string option) \<Rightarrow> Index \<Rightarrow> SaveResult" where
  "Save codec sha readFile writeFile idx =
     (let entries = map (\<lambda>(filePath, fa). (filePath, toEntry fa
            (case readFile filePath of None \<Rightarrow> sha filePath | Some content \<Rightarrow> sha content))) (ixEntries idx)
      in case encodeCache codec \<lparr>cfVersion = cacheFormatVersion, cfEntries = entries\<rparr> of
           None \<Rightarrow> EncodeFailed
         | Some d \<Rightarrow> (case writeFile d of None \<Rightarrow> WriteFailed | Some content \<Rightarrow> Saved content))"

text \<open>
  \<open>Load\<close>: an error when the file is missing or cannot be decoded, every key of the file when the
  version is another one, else the index and the keys whose hash has changed.
\<close>

datatype LoadResult =
    LoadFailed
  | VersionMismatch "string list"
  | Loaded Index "string list"

definition loadStep ::
  "(string \<Rightarrow> string option) \<Rightarrow> Index \<times> string list \<Rightarrow> string \<times> cacheEntry \<Rightarrow> Index \<times> string list" where
  "loadStep currentHashes acc entry =
     (case acc of (idx, stale) \<Rightarrow> case entry of (path, e) \<Rightarrow>
        let key = NormalizeKey path
        in (Add key (fromEntry e) idx,
            case currentHashes key of
              None \<Rightarrow> stale
            | Some currentHash \<Rightarrow> if currentHash \<noteq> ceContentHash e then stale @ [key] else stale))"

definition Load :: "Codec \<Rightarrow> string option \<Rightarrow> (string \<Rightarrow> string option) \<Rightarrow> LoadResult" where
  "Load codec file currentHashes =
     (case file of
        None \<Rightarrow> LoadFailed
      | Some d \<Rightarrow>
          (case decodeCache codec d of
             None \<Rightarrow> LoadFailed
           | Some cache \<Rightarrow>
               if cfVersion cache \<noteq> cacheFormatVersion
               then VersionMismatch (map (\<lambda>(path, _). NormalizeKey path) (cfEntries cache))
               else case foldl (loadStep currentHashes) (emptyIndex, []) (cfEntries cache) of
                      (idx, stale) \<Rightarrow> Loaded idx stale))"

end
