(* ===== verification/Build.thy ===== *)
theory Build
  imports Cache
begin

text \<open>
  \<open>BuildWithCache\<close> of \<open>index.go\<close>: the walk of the workspace, the scan that analyses what the cache does
  not know, the line-width sweep, and the write of the cache. \<open>filepath.WalkDir\<close> runs over a tree
  of names; a directory whose listing fails has no children. Paths are below the root, where the
  root itself is a dot, as \<open>filepath.Rel\<close> gives them. The analyzer is an argument (the interface
  \<open>analysis.Analyzer\<close>); it may fail or panic. \<open>cancelled i\<close> says whether the context is cancelled when
  the i-th file is reached.
\<close>

section \<open>The walk\<close>

datatype DirTree = FileNode string | DirNode string "DirTree list option"

fun nodeName :: "DirTree \<Rightarrow> string" where
  "nodeName (FileNode name) = name"
| "nodeName (DirNode name _) = name"

definition relJoin :: "string \<Rightarrow> string \<Rightarrow> string" where
  "relJoin dir name = (if dir = ''.'' then name else dir @ ''/'' @ name)"

definition indexedExtension :: "Config \<Rightarrow> string \<Rightarrow> bool" where
  "indexedExtension cfg path \<longleftrightarrow>
     list_ex (\<lambda>e. e \<noteq> [] \<and> hd e = CHR ''.'' \<and> toUpper e = toUpper (pathExt path))
       (Extensions (cfgWorkspace cfg))"

text \<open>A listing error ends the walk with an error; an excluded directory is not listed.\<close>

fun walk :: "Config \<Rightarrow> string \<Rightarrow> DirTree \<Rightarrow> string list option" where
  "walk cfg relPath (FileNode name) = Some (if indexedExtension cfg relPath then [relPath] else [])"
| "walk cfg relPath (DirNode name children) =
     (if IsExcluded cfg (NormalizeKey relPath) then Some []
      else case children of
             None \<Rightarrow> None
           | Some nodes \<Rightarrow>
               foldr (\<lambda>r acc. case r of None \<Rightarrow> None | Some fs \<Rightarrow> map_option (append fs) acc)
                 (map (\<lambda>node. walk cfg (relJoin relPath (nodeName node)) node) nodes) (Some []))"

definition collectFiles :: "Config \<Rightarrow> DirTree \<Rightarrow> string list option" where
  "collectFiles cfg root = map_option sort (walk cfg ''.'' root)"

section \<open>The scan\<close>

definition hashFiles ::
  "(string \<Rightarrow> string) \<Rightarrow> (string \<Rightarrow> string option) \<Rightarrow> string list \<Rightarrow> (string \<Rightarrow> string option)" where
  "hashFiles sha disk files =
     foldl (\<lambda>m f. case disk f of None \<Rightarrow> m | Some content \<Rightarrow> m(NormalizeKey f \<mapsto> sha content)) Map.empty files"

definition loadOrEmpty :: "LoadResult \<Rightarrow> Index \<times> string list" where
  "loadOrEmpty r =
     (case r of
        LoadFailed \<Rightarrow> (emptyIndex, [])
      | VersionMismatch _ \<Rightarrow> (emptyIndex, [])
      | Loaded idx stale \<Rightarrow> (idx, stale))"

datatype Outcome = Analyzed FileAnalysis | AnalyzerError | AnalyzerPanic

definition unknownAnalysis :: FileAnalysis where
  "unknownAnalysis = zeroFileAnalysis\<lparr>faObjectType := ObjectUnknown\<rparr>"

definition analyzeWithRecovery :: "Outcome \<Rightarrow> FileAnalysis" where
  "analyzeWithRecovery outcome = (case outcome of Analyzed fa \<Rightarrow> fa | _ \<Rightarrow> unknownAnalysis)"

record Scan =
  scIndex :: Index
  scStaleCount :: nat
  scAnalyzedAny :: bool

definition scanFile ::
  "Config \<Rightarrow> (string \<Rightarrow> string option) \<Rightarrow> (string \<Rightarrow> string \<Rightarrow> Outcome) \<Rightarrow> string list \<Rightarrow> string \<Rightarrow> Scan \<Rightarrow> Scan" where
  "scanFile cfg disk az staleFiles filePath s =
     (let relPath = NormalizeKey filePath;
          stale = relPath \<in> set staleFiles
      in if \<not> stale \<and> Get relPath (scIndex s) \<noteq> None then s
      else case disk filePath of
             None \<Rightarrow> s\<lparr>scIndex := addSkip relPath SkipUnreadable (scIndex s)\<rparr>
           | Some content \<Rightarrow>
               if int (length content) > MaxFileSize (cfgWorkspace cfg)
               then s\<lparr>scIndex := addSkip relPath SkipTooLarge (scIndex s)\<rparr>
               else let outcome = az filePath content;
                        idx = (if outcome = AnalyzerPanic
                               then addSkip relPath SkipAnalyzerPanic (scIndex s) else scIndex s)
                    in \<lparr>scIndex = PutContent relPath content
                                    (Add relPath (analyzeWithRecovery outcome) idx),
                        scStaleCount = (if stale then scStaleCount s + 1 else scStaleCount s),
                        scAnalyzedAny = True\<rparr>)"

fun scanLoop ::
  "(nat \<Rightarrow> bool) \<Rightarrow> Config \<Rightarrow> (string \<Rightarrow> string option) \<Rightarrow> (string \<Rightarrow> string \<Rightarrow> Outcome) \<Rightarrow> string list
    \<Rightarrow> nat \<Rightarrow> string list \<Rightarrow> Scan \<Rightarrow> Scan option" where
  "scanLoop cancelled cfg disk az staleFiles i [] s = Some s"
| "scanLoop cancelled cfg disk az staleFiles i (f # fs) s =
     (if cancelled i then None
      else scanLoop cancelled cfg disk az staleFiles (i + 1) fs (scanFile cfg disk az staleFiles f s))"

definition ensureStep :: "(string \<Rightarrow> string option) \<Rightarrow> Index \<Rightarrow> string \<Rightarrow> Index" where
  "ensureStep disk idx filePath =
     (let relPath = NormalizeKey filePath in
      if Get relPath idx = None then idx
      else if hasLineWidths relPath idx then idx
      else case disk filePath of None \<Rightarrow> idx | Some content \<Rightarrow> PutContent relPath content idx)"

definition ensureLineWidths :: "(string \<Rightarrow> string option) \<Rightarrow> string list \<Rightarrow> Index \<Rightarrow> Index" where
  "ensureLineWidths disk files idx = foldl (ensureStep disk) idx files"

section \<open>The build\<close>

datatype BuildError = WalkError | BuildCancelled nat

record Built =
  btIndex :: Index
  btStaleCount :: nat
  btTotalFiles :: nat
  btCache :: "string option"

text \<open>
  The cache file is \<open>cache\<close> before the build, nothing when there is none; \<open>writeFile d\<close> is what it holds
  after \<open>d\<close> was written to it, other than \<open>d\<close> when the write fails. An empty cache path is a build
  without a cache.
\<close>

definition BuildWithCache ::
  "(nat \<Rightarrow> bool) \<Rightarrow> Codec \<Rightarrow> (string \<Rightarrow> string) \<Rightarrow> Config \<Rightarrow> (string \<Rightarrow> string option) \<Rightarrow> DirTree
    \<Rightarrow> (string \<Rightarrow> string \<Rightarrow> Outcome) \<Rightarrow> string \<Rightarrow> (string \<Rightarrow> string option) option \<Rightarrow> string option
    \<Rightarrow> (string \<Rightarrow> string option) \<Rightarrow> BuildError + Built" where
  "BuildWithCache cancelled codec sha cfg disk root az cachePath hashes cache writeFile =
     (case collectFiles cfg root of
        None \<Rightarrow> Inl WalkError
      | Some files \<Rightarrow>
          let currentHashes = (case hashes of
                  Some given \<Rightarrow> given
                | None \<Rightarrow> if cachePath \<noteq> [] then hashFiles sha disk files else Map.empty);
              (idx, staleFiles) = (if cachePath \<noteq> [] then loadOrEmpty (Load codec cache currentHashes)
                                   else (emptyIndex, []))
          in case scanLoop cancelled cfg disk az staleFiles 0 files
                    \<lparr>scIndex = idx, scStaleCount = 0, scAnalyzedAny = False\<rparr> of
               None \<Rightarrow> Inl (BuildCancelled (length files))
             | Some s \<Rightarrow>
                 let built = ensureLineWidths disk files (scIndex s);
                     newCache = (if cachePath \<noteq> [] \<and> (scAnalyzedAny s \<or> cache = None)
                                 then (case saveIndex codec sha disk built of
                                         Some d \<Rightarrow> writeFile d | None \<Rightarrow> cache)
                                 else cache)
                 in Inr \<lparr>btIndex = built, btStaleCount = scStaleCount s,
                         btTotalFiles = length files, btCache = newCache\<rparr>)"

definition Build ::
  "(nat \<Rightarrow> bool) \<Rightarrow> Codec \<Rightarrow> (string \<Rightarrow> string) \<Rightarrow> Config \<Rightarrow> (string \<Rightarrow> string option) \<Rightarrow> DirTree
    \<Rightarrow> (string \<Rightarrow> string \<Rightarrow> Outcome) \<Rightarrow> BuildError + Index" where
  "Build cancelled codec sha cfg disk root az =
     map_sum id btIndex (BuildWithCache cancelled codec sha cfg disk root az [] None None Some)"

end
