(* ===== verification/Build_Facts.thy ===== *)
theory Build_Facts
  imports Build Index_Facts
begin

text \<open>
  Facts about builds and the cache: the encoding of the cache round-trips, a cold build analyses
  exactly the files it can read, a warm build on an unchanged disk analyses nothing, and over any
  history of builds the cache never makes a build return the analysis of an older content.
\<close>

section \<open>The encoding\<close>

text \<open>
  \<open>encoding/json\<close> writes strings as UTF-8: a byte that is not part of a valid encoding comes back as
  U+FFFD. \<open>cacheUTF8\<close> says that a cache file holds no such string.
\<close>

function validUTF8 :: "string \<Rightarrow> bool" where
  "validUTF8 [] = True"
| "validUTF8 (c # s) =
     (case decodeRune (c # s) of (r, w) \<Rightarrow> \<not> (r = runeError \<and> w = 1) \<and> validUTF8 (drop (w - 1) s))"
  by pat_completeness auto
termination by (relation "measure length") auto

lemma validUTF8_ascii: "list_all (\<lambda>c. byteVal c < 0x80) s \<Longrightarrow> validUTF8 s"
  by (induction s) (simp_all add: decodeRune_ascii byteVal_def)

primrec symbolUTF8 :: "Symbol \<Rightarrow> bool" where
  "symbolUTF8 (Symbol kind name r sel children ty level dims redefines view) \<longleftrightarrow>
     list_all validUTF8 [name, ty, redefines, view] \<and> list_all id (map symbolUTF8 children)"

primrec definitionUTF8 :: "DataDefinition \<Rightarrow> bool" where
  "definitionUTF8 (DataDefinition name level ty dims sec r nr children redefines view) \<longleftrightarrow>
     list_all validUTF8 [name, ty, sec, redefines, view] \<and> list_all id (map definitionUTF8 children)"

text \<open>The strings of an analysis that are saved; those of its diagnostics are not.\<close>

definition analysisUTF8 :: "FileAnalysis \<Rightarrow> bool" where
  "analysisUTF8 fa \<longleftrightarrow>
     list_all (\<lambda>s. validUTF8 (seName s)) (faSymbols fa) \<and>
     list_all (\<lambda>e. validUTF8 (eeTargetName e) \<and> validUTF8 (eeLibrary e)) (faEdges fa) \<and>
     list_all (\<lambda>d. validUTF8 (daName d)) (faDataAccess fa) \<and> list_all definitionUTF8 (faDefinitions fa) \<and>
     list_all (\<lambda>w. validUTF8 (wfName w)) (faWorkFiles fa) \<and> list_all (\<lambda>v. validUTF8 (hvName v)) (faHostVarRefs fa) \<and>
     list_all (\<lambda>a. validUTF8 (darName a) \<and> validUTF8 (darSectionKind a)) (faDataAreaRefs fa) \<and>
     (case faStructure fa of None \<Rightarrow> True | Some s \<Rightarrow> symbolUTF8 s)"

definition entryUTF8 :: "cacheEntry \<Rightarrow> bool" where
  "entryUTF8 e \<longleftrightarrow> analysisUTF8 (fromEntry e) \<and> validUTF8 (ceContentHash e)"

definition cacheUTF8 :: "CacheFile \<Rightarrow> bool" where
  "cacheUTF8 c \<longleftrightarrow> validUTF8 (cfVersion c) \<and> (\<forall>(p, e) \<in> set (cfEntries c). validUTF8 p \<and> entryUTF8 e)"

text \<open>
  What the code relies on: what \<open>encoding/json\<close> has written of valid UTF-8 it reads back, the entries of
  the map in an order of its own; \<open>compress/gzip\<close> undoes itself, and its stream begins with its
  magic number.
\<close>

definition lawfulCodec :: "Codec \<Rightarrow> bool" where
  "lawfulCodec codec \<longleftrightarrow>
     (\<forall>c d. marshal codec c = Some d \<longrightarrow> cacheUTF8 c \<longrightarrow> wellFormed (cfEntries c) \<longrightarrow>
        (\<exists>es. unmarshal codec d = Some (c\<lparr>cfEntries := es\<rparr>) \<and> mset es = mset (cfEntries c))) \<and>
     (\<forall>d z. gzip codec d = Some z \<longrightarrow> gzipMagic z \<and> gunzip codec z = Some d)"

lemma decode_encode:
  assumes "lawfulCodec codec" "encodeCache codec cache = Some d" "cacheUTF8 cache" "wellFormed (cfEntries cache)"
  obtains es where "decodeCache codec d = Some (cache\<lparr>cfEntries := es\<rparr>)" "mset es = mset (cfEntries cache)"
proof -
  obtain json where j: "marshal codec cache = Some json" "gzip codec json = Some d"
    using assms(2) by (auto simp: encodeCache_def split: option.splits)
  obtain es where "unmarshal codec json = Some (cache\<lparr>cfEntries := es\<rparr>)" "mset es = mset (cfEntries cache)"
    using assms(1,3,4) j(1) unfolding lawfulCodec_def by blast
  moreover have "gzipMagic d" "gunzip codec d = Some json" using assms(1) j(2) by (simp_all add: lawfulCodec_def)
  ultimately show ?thesis using that by (simp add: decodeCache_def)
qed

text \<open>The order of the entries does not matter.\<close>

lemma reordered:
  assumes "mset es' = mset es" "wellFormed es"
  shows "wellFormed es'" "set es' = set es" "map_of es' = map_of es"
proof -
  show s: "set es' = set es" using assms(1) by (rule mset_eq_setD)
  have "mset (map fst es') = mset (map fst es)" using assms(1) by (simp add: mset_map)
  from mset_eq_imp_distinct_iff [OF this] show wf: "wellFormed es'" using assms(2) by (simp add: wellFormed_def)
  show "map_of es' = map_of es" using map_of_inject_set wf assms(2) s by (auto simp: wellFormed_def)
qed

definition analysisView :: "FileAnalysis \<Rightarrow> FileAnalysis" where
  "analysisView fa = fa\<lparr>faDiagnostics := []\<rparr>"

lemma fromEntry_toEntry [simp]: "fromEntry (toEntry fa h) = analysisView fa"
  by (simp add: fromEntry_def toEntry_def analysisView_def)

lemma toEntry_hash [simp]: "ceContentHash (toEntry fa h) = h"
  by (simp add: toEntry_def)

lemma analysisView_UTF8 [simp]: "analysisUTF8 (analysisView fa) = analysisUTF8 fa"
  by (simp add: analysisView_def analysisUTF8_def)

lemma toEntry_UTF8 [simp]: "entryUTF8 (toEntry fa h) \<longleftrightarrow> analysisUTF8 fa \<and> validUTF8 h"
  by (simp add: entryUTF8_def)

lemma version_UTF8: "validUTF8 cacheFormatVersion"
  by (rule validUTF8_ascii) (simp add: cacheFormatVersion_def byteVal_def)

lemma analysisView_idem [simp]: "analysisView (analysisView fa) = analysisView fa"
  by (simp add: analysisView_def)

section \<open>Reading the index\<close>

lemma Get_ops [simp]:
  "Get p emptyIndex = None"
  "Get p (Add q fa idx) = (if p = q then Some fa else Get p idx)"
  "Get p (PutContent q c idx) = Get p idx"
  "Get p (addSkip q r idx) = Get p idx"
  by (auto simp: Get_def Add_def PutContent_def addSkip_def emptyIndex_def update_conv)

lemma entries_ops [simp]:
  "wellFormed (ixEntries emptyIndex)"
  "wellFormed (ixEntries idx) \<Longrightarrow> wellFormed (ixEntries (Add q fa idx))"
  "ixEntries (PutContent q c idx) = ixEntries idx"
  "ixEntries (addSkip q r idx) = ixEntries idx"
  by (auto simp: Add_def PutContent_def addSkip_def emptyIndex_def wellFormed_def distinct_update)

section \<open>The scan\<close>

definition small :: "Config \<Rightarrow> string \<Rightarrow> bool" where
  "small cfg content \<longleftrightarrow> int (length content) \<le> MaxFileSize (cfgWorkspace cfg)"

definition indexable :: "Config \<Rightarrow> (string \<Rightarrow> string option) \<Rightarrow> string \<Rightarrow> bool" where
  "indexable cfg disk p \<longleftrightarrow> (case disk p of None \<Rightarrow> False | Some content \<Rightarrow> small cfg content)"

text \<open>Paths in the form of the index, as they are on systems with slashes.\<close>

definition slashed :: "string \<Rightarrow> bool" where
  "slashed p \<longleftrightarrow> NormalizeKey p = p"

definition analysisOf :: "(string \<Rightarrow> string \<Rightarrow> Outcome) \<Rightarrow> (string \<Rightarrow> string option) \<Rightarrow> string \<Rightarrow> FileAnalysis" where
  "analysisOf az disk p = analyzeWithRecovery (az p (the (disk p)))"

lemma Get_scanFile:
  assumes "slashed f"
  shows "Get q (scIndex (scanFile cfg disk az stale f s)) =
     (if f = q \<and> (q \<in> set stale \<or> Get q (scIndex s) = None) \<and> indexable cfg disk q
      then Some (analysisOf az disk q) else Get q (scIndex s))"
  using assms
  by (auto simp: scanFile_def Let_def slashed_def indexable_def small_def analysisOf_def split: option.splits)

lemma wellFormed_scanFile:
  "wellFormed (ixEntries (scIndex s)) \<Longrightarrow> wellFormed (ixEntries (scIndex (scanFile cfg disk az stale f s)))"
  by (auto simp: scanFile_def Let_def split: option.splits)

lemma Get_scanLoop:
  assumes "scanLoop cancelled cfg disk az stale i files s = Some t" and "list_all slashed files"
  shows "Get q (scIndex t) =
     (if q \<in> set files \<and> (q \<in> set stale \<or> Get q (scIndex s) = None) \<and> indexable cfg disk q
      then Some (analysisOf az disk q) else Get q (scIndex s))"
  using assms
  by (induction files arbitrary: i s) (auto simp: Get_scanFile split: if_splits)

lemma wellFormed_scanLoop:
  "scanLoop cancelled cfg disk az stale i files s = Some t \<Longrightarrow> wellFormed (ixEntries (scIndex s)) \<Longrightarrow>
     wellFormed (ixEntries (scIndex t))"
  by (induction files arbitrary: i s) (auto intro: wellFormed_scanFile split: if_splits)

lemma scanLoop_returns: "(\<And>i. \<not> cancelled i) \<Longrightarrow> scanLoop cancelled cfg disk az stale i files s \<noteq> None"
  by (induction files arbitrary: i s) auto

lemma ensureLineWidths_entries [simp]: "ixEntries (ensureLineWidths disk files idx) = ixEntries idx"
proof -
  have "ixEntries (ensureStep disk i f) = ixEntries i" for i f
    by (auto simp: ensureStep_def Let_def split: option.splits)
  then have "ixEntries (foldl (ensureStep disk) i fs) = ixEntries i" for i fs
    by (induction fs arbitrary: i) auto
  then show ?thesis by (simp add: ensureLineWidths_def)
qed

lemma Get_ensureLineWidths [simp]: "Get p (ensureLineWidths disk files idx) = Get p idx"
  by (simp add: Get_def)

section \<open>Loading\<close>

definition changed :: "(string \<times> cacheEntry) list \<Rightarrow> (string \<Rightarrow> string option) \<Rightarrow> string \<Rightarrow> bool" where
  "changed es hashes p \<longleftrightarrow> (\<exists>e h. map_of es p = Some e \<and> hashes p = Some h \<and> h \<noteq> ceContentHash e)"

lemma foldl_loadStep:
  assumes "wellFormed es" and "list_all (\<lambda>e. slashed (fst e)) es"
    and "foldl (loadStep hashes) (idx, st) es = (idx', st')"
  shows "Get p idx' = (case map_of es p of Some e \<Rightarrow> Some (fromEntry e) | None \<Rightarrow> Get p idx)
      \<and> (p \<in> set st' \<longleftrightarrow> p \<in> set st \<or> changed es hashes p)
      \<and> (wellFormed (ixEntries idx) \<longrightarrow> wellFormed (ixEntries idx'))"
  using assms
proof (induction es arbitrary: idx st)
  case (Cons x es)
  obtain q e where x: "x = (q, e)" by (cases x)
  have q: "NormalizeKey q = q" and fresh: "map_of es q = None"
    using Cons.prems x by (auto simp: slashed_def wellFormed_def map_of_eq_None_iff)
  define st1 where "st1 = (case hashes q of None \<Rightarrow> st
      | Some h \<Rightarrow> if h \<noteq> ceContentHash e then st @ [q] else st)"
  have "loadStep hashes (idx, st) x = (Add q (fromEntry e) idx, st1)"
    by (simp add: loadStep_def Let_def st1_def x q split: option.splits)
  with Cons.prems have step: "foldl (loadStep hashes) (Add q (fromEntry e) idx, st1) es = (idx', st')"
    by simp
  have "wellFormed es" "list_all (\<lambda>e. slashed (fst e)) es"
    using Cons.prems by (auto simp: wellFormed_def)
  note IH = Cons.IH [OF this step]
  have "p \<in> set st1 \<longleftrightarrow> p \<in> set st \<or> p = q \<and> changed (x # es) hashes p"
    by (auto simp: st1_def x changed_def split: option.splits)
  then show ?case using IH x fresh by (auto simp: changed_def split: option.splits)
qed (simp add: changed_def)

lemma hashFiles_slashed:
  "list_all slashed files \<Longrightarrow>
     hashFiles sha disk files p = (if p \<in> set files then map_option sha (disk p) else None)"
proof -
  have "list_all slashed fs \<Longrightarrow>
      foldl (\<lambda>m f. case disk f of None \<Rightarrow> m | Some content \<Rightarrow> m(NormalizeKey f \<mapsto> sha content)) m fs p
        = (if p \<in> set fs \<and> disk p \<noteq> None then map_option sha (disk p) else m p)" for m fs
    by (induction fs arbitrary: m) (auto simp: slashed_def split: option.splits)
  then show "list_all slashed files \<Longrightarrow> ?thesis" by (simp add: hashFiles_def)
qed


lemma map_of_saveEntry:
  "map_of (map (saveEntry sha disk) es) p = map_option (\<lambda>fa. toEntry fa (contentHash sha disk p)) (map_of es p)"
  by (induction es) (auto simp: saveEntry_def)

section \<open>A history of builds\<close>

text \<open>
  \<open>texts\<close> are the contents and paths that ever occur; the hash is free of collisions on them. A
  cache is honest when its strings are valid UTF-8 and each entry is the analysis of a content with the
  entry's hash, or carries the placeholder hash of a file that could not be read.
\<close>

definition honestEntry ::
  "(string \<Rightarrow> string) \<Rightarrow> (string \<Rightarrow> string \<Rightarrow> Outcome) \<Rightarrow> string set \<Rightarrow> string \<Rightarrow> cacheEntry \<Rightarrow> bool" where
  "honestEntry sha az texts p e \<longleftrightarrow>
     p \<in> texts \<and> validUTF8 p \<and> entryUTF8 e \<and> (ceContentHash e = sha p \<or>
      (\<exists>c\<in>texts. ceContentHash e = sha c \<and> fromEntry e = analysisView (analyzeWithRecovery (az p c))))"

definition honest ::
  "Codec \<Rightarrow> (string \<Rightarrow> string) \<Rightarrow> (string \<Rightarrow> string \<Rightarrow> Outcome) \<Rightarrow> string set \<Rightarrow> string option \<Rightarrow> bool" where
  "honest codec sha az texts cache \<longleftrightarrow>
     (\<forall>d f. cache = Some d \<longrightarrow> decodeCache codec d = Some f \<longrightarrow> cfVersion f = cacheFormatVersion \<longrightarrow>
        wellFormed (cfEntries f) \<and>
        (\<forall>(p, e)\<in>set (cfEntries f). slashed p \<and> honestEntry sha az texts p e))"

lemma honest_undecodable: "decodeCache codec d = None \<Longrightarrow> honest codec sha az texts (Some d)"
  by (simp add: honest_def)

text \<open>A disk whose contents are among the texts, where no file consists of its own path and paths are valid UTF-8.\<close>

definition plainDisk :: "(string \<Rightarrow> string option) \<Rightarrow> string set \<Rightarrow> string list \<Rightarrow> bool" where
  "plainDisk disk texts files \<longleftrightarrow>
     list_all slashed files \<and> list_all validUTF8 files \<and> set files \<subseteq> texts \<and> (\<forall>p c. disk p = Some c \<longrightarrow> c \<in> texts \<and> c \<noteq> p)"

text \<open>Hashes are hexadecimal, and the analyses of the texts hold no invalid UTF-8.\<close>

definition cleanAnalyses :: "(string \<Rightarrow> string) \<Rightarrow> (string \<Rightarrow> string \<Rightarrow> Outcome) \<Rightarrow> string set \<Rightarrow> bool" where
  "cleanAnalyses sha az texts \<longleftrightarrow>
     (\<forall>t \<in> texts. validUTF8 (sha t)) \<and> (\<forall>p \<in> texts. \<forall>c \<in> texts. analysisUTF8 (analyzeWithRecovery (az p c)))"

lemma honestEntry_current:
  assumes "honestEntry sha az texts p e" and "inj_on sha texts"
    and "disk p = Some c" "c \<in> texts" "c \<noteq> p" "ceContentHash e = sha c"
  shows "fromEntry e = analysisView (analysisOf az disk p)"
  using assms by (auto simp: honestEntry_def analysisOf_def inj_on_def)

definition startOf :: "Codec \<Rightarrow> string option \<Rightarrow> (string \<Rightarrow> string option) \<Rightarrow> Index \<times> string list" where
  "startOf codec cache hashes = loadOrEmpty (Load codec cache hashes)"

lemma startOf_cases:
  assumes "honest codec sha az texts cache" and "startOf codec cache hashes = (idx, stale)"
  obtains es where "wellFormed es"
    and "\<And>p e. map_of es p = Some e \<Longrightarrow> slashed p \<and> honestEntry sha az texts p e"
    and "\<And>p. Get p idx = map_option fromEntry (map_of es p)"
    and "\<And>p. p \<in> set stale \<longleftrightarrow> changed es hashes p"
    and "wellFormed (ixEntries idx)"
proof (cases "\<exists>d f. cache = Some d \<and> decodeCache codec d = Some f \<and> cfVersion f = cacheFormatVersion")
  case True
  then obtain d f where f: "cache = Some d" "decodeCache codec d = Some f" "cfVersion f = cacheFormatVersion"
    by blast
  then have h: "wellFormed (cfEntries f)" "\<forall>(p, e)\<in>set (cfEntries f). slashed p \<and> honestEntry sha az texts p e"
    using assms(1) by (auto simp: honest_def)
  then have s: "list_all (\<lambda>e. slashed (fst e)) (cfEntries f)" by (auto simp: list_all_iff)
  have "foldl (loadStep hashes) (emptyIndex, []) (cfEntries f) = (idx, stale)"
    using assms(2) f by (auto simp: startOf_def Load_def loadOrEmpty_def split: prod.splits)
  note load = foldl_loadStep [OF h(1) s this]
  show ?thesis
  proof (rule that [of "cfEntries f"])
    show "slashed p \<and> honestEntry sha az texts p e" if "map_of (cfEntries f) p = Some e" for p e
      using h(2) map_of_SomeD [OF that] by blast
    show "Get p idx = map_option fromEntry (map_of (cfEntries f) p)" for p
      using load [of p] by (auto split: option.splits)
  qed (use load h in auto)
next
  case False
  then have "idx = emptyIndex \<and> stale = []"
    using assms(2) by (auto simp: startOf_def Load_def loadOrEmpty_def split: option.splits prod.splits)
  then show ?thesis by (intro that [of "[]"]) (auto simp: wellFormed_def emptyIndex_def Get_def changed_def)
qed

text \<open>What a build with a cache of its own hashes does.\<close>

lemma BuildWithCache_steps:
  assumes "BuildWithCache cancelled codec sha cfg disk root az cachePath None cache writeFile = Inr b"
    and "cachePath \<noteq> []"
  obtains files idx stale s where "collectFiles cfg root = Some files"
    and "startOf codec cache (hashFiles sha disk files) = (idx, stale)"
    and "scanLoop cancelled cfg disk az stale 0 files
           \<lparr>scIndex = idx, scStaleCount = 0, scAnalyzedAny = False\<rparr> = Some s"
    and "btIndex b = ensureLineWidths disk files (scIndex s)"
    and "btStaleCount b = scStaleCount s"
    and "btCache b = (if scAnalyzedAny s \<or> cache = None
           then case saveIndex codec sha disk (btIndex b) of Some d \<Rightarrow> writeFile d | None \<Rightarrow> cache
           else cache)"
  using assms
  by (auto simp: BuildWithCache_def startOf_def Let_def split: option.splits prod.splits if_splits)


lemma build_current:
  assumes "honest codec sha az texts cache" and "inj_on sha texts" and "cachePath \<noteq> []"
    and "BuildWithCache cancelled codec sha cfg disk root az cachePath None cache writeFile = Inr b"
    and "collectFiles cfg root = Some files" and "plainDisk disk texts files"
    and "p \<in> set files" and "indexable cfg disk p"
  shows "map_option analysisView (Get p (btIndex b)) = Some (analysisView (analysisOf az disk p))"
proof -
  obtain idx stale s where st: "startOf codec cache (hashFiles sha disk files) = (idx, stale)"
    and run: "scanLoop cancelled cfg disk az stale 0 files
           \<lparr>scIndex = idx, scStaleCount = 0, scAnalyzedAny = False\<rparr> = Some s"
    and b: "btIndex b = ensureLineWidths disk files (scIndex s)"
    using BuildWithCache_steps [OF assms(4,3)] assms(5) by (metis option.inject)
  from assms(1) st obtain es where es: "\<And>p e. map_of es p = Some e \<Longrightarrow> slashed p \<and> honestEntry sha az texts p e"
      "\<And>p. Get p idx = map_option fromEntry (map_of es p)"
      "\<And>p. p \<in> set stale \<longleftrightarrow> changed es (hashFiles sha disk files) p"
    by (rule startOf_cases) blast
  have slash: "list_all slashed files" using assms(6) by (simp add: plainDisk_def)
  obtain c where c: "disk p = Some c" "c \<in> texts" "c \<noteq> p"
    using assms(6,8) by (auto simp: plainDisk_def indexable_def split: option.splits)
  have kept: "fromEntry e = analysisView (analysisOf az disk p)"
    if "map_of es p = Some e" and "p \<notin> set stale" for e
    using that c assms(7) hashFiles_slashed [OF slash, of sha disk p]
    by (intro honestEntry_current [where disk = disk and c = c, OF conjunct2 [OF es(1) [OF that(1)]] assms(2) c])
      (auto simp: es(3) changed_def)
  show ?thesis
    using Get_scanLoop [OF run slash, of p] assms(7,8) kept by (auto simp: b es(2))
qed

text \<open>
  A build leaves the disk settled when every file the index knows is gone or was in reach of the
  scan; the write leaves the file as it was, holding the data, or unreadable.
\<close>

definition settled :: "Config \<Rightarrow> (string \<Rightarrow> string option) \<Rightarrow> string list \<Rightarrow> Index \<Rightarrow> bool" where
  "settled cfg disk files idx \<longleftrightarrow>
     (\<forall>p. Get p idx \<noteq> None \<longrightarrow> disk p = None \<or> p \<in> set files \<and> indexable cfg disk p)"

definition writes :: "Codec \<Rightarrow> string option \<Rightarrow> (string \<Rightarrow> string option) \<Rightarrow> bool" where
  "writes codec cache writeFile \<longleftrightarrow>
     (\<forall>d. writeFile d = Some d \<or> writeFile d = cache \<or>
          (\<exists>x. writeFile d = Some x \<and> decodeCache codec x = None))"

text \<open>What is saved of honest analyses is honest.\<close>

lemma saved_honest:
  assumes "lawfulCodec codec" "wellFormed (ixEntries idx)"
    and "\<And>p fa. Get p idx = Some fa \<Longrightarrow> slashed p \<and> honestEntry sha az texts p (toEntry fa (contentHash sha disk p))"
    and "saveIndex codec sha disk idx = Some d"
  shows "honest codec sha az texts (Some d)"
proof -
  have "slashed p \<and> honestEntry sha az texts p (toEntry fa (contentHash sha disk p))" if "(p, fa) \<in> set (ixEntries idx)" for p fa
    using assms(3) [of p fa] that assms(2) by (simp add: Get_def wellFormed_def)
  then have entries: "\<forall>(p, e) \<in> set (map (saveEntry sha disk) (ixEntries idx)). slashed p \<and> honestEntry sha az texts p e"
    by (auto simp: saveEntry_def)
  let ?saved = "\<lparr>cfVersion = cacheFormatVersion, cfEntries = map (saveEntry sha disk) (ixEntries idx)\<rparr>"
  have "cacheUTF8 ?saved" using entries version_UTF8 by (auto simp: cacheUTF8_def honestEntry_def)
  moreover have wf: "wellFormed (cfEntries ?saved)"
    using assms(2) by (simp add: wellFormed_def saveEntry_def comp_def case_prod_beta)
  ultimately obtain es where "decodeCache codec d = Some (?saved\<lparr>cfEntries := es\<rparr>)" "mset es = mset (cfEntries ?saved)"
    using decode_encode [OF assms(1) assms(4) [unfolded saveIndex_def]] by blast
  then show ?thesis
    using reordered [OF _ wf, of es] entries by (simp add: honest_def)
qed

lemma build_honest:
  assumes "lawfulCodec codec" and "honest codec sha az texts cache" and "inj_on sha texts"
    and "cachePath \<noteq> []"
    and "BuildWithCache cancelled codec sha cfg disk root az cachePath None cache writeFile = Inr b"
    and "collectFiles cfg root = Some files" and "plainDisk disk texts files"
    and "settled cfg disk files (btIndex b)" and "writes codec cache writeFile" and "cleanAnalyses sha az texts"
  shows "honest codec sha az texts (btCache b)"
proof -
  obtain idx stale s where st: "startOf codec cache (hashFiles sha disk files) = (idx, stale)"
    and run: "scanLoop cancelled cfg disk az stale 0 files
           \<lparr>scIndex = idx, scStaleCount = 0, scAnalyzedAny = False\<rparr> = Some s"
    and b: "btIndex b = ensureLineWidths disk files (scIndex s)"
    and new: "btCache b = (if scAnalyzedAny s \<or> cache = None
           then case saveIndex codec sha disk (btIndex b) of Some d \<Rightarrow> writeFile d | None \<Rightarrow> cache
           else cache)"
    using BuildWithCache_steps [OF assms(5,4)] assms(6) by (metis option.inject)
  have slash: "list_all slashed files" using assms(7) by (simp add: plainDisk_def)
  from assms(2) st obtain es where es: "\<And>p e. map_of es p = Some e \<Longrightarrow> slashed p \<and> honestEntry sha az texts p e"
      "\<And>p. Get p idx = map_option fromEntry (map_of es p)"
      and wf: "wellFormed (ixEntries idx)"
    by (rule startOf_cases) blast
  have wf': "wellFormed (ixEntries (btIndex b))"
    using wellFormed_scanLoop [OF run] wf by (simp add: b)
  have keys: "slashed p \<and> p \<in> texts \<and> validUTF8 p" if "Get p (btIndex b) \<noteq> None" for p
    using that Get_scanLoop [OF run slash, of p] es(1) assms(7) slash
    by (auto simp: b es(2) plainDisk_def list_all_iff honestEntry_def split: if_splits)
  have entry: "honestEntry sha az texts p (toEntry fa (contentHash sha disk p))"
    if fa: "Get p (btIndex b) = Some fa" for p fa
  proof (cases "disk p")
    case None
    then obtain e where "map_of es p = Some e" "fa = fromEntry e"
      using fa Get_scanLoop [OF run slash, of p] by (auto simp: b es(2) indexable_def)
    then have "analysisUTF8 fa" using es(1) by (auto simp: honestEntry_def entryUTF8_def)
    then show ?thesis
      using keys [of p] fa None assms(10) by (simp add: honestEntry_def contentHash_def cleanAnalyses_def)
  next
    case (Some c)
    then have "p \<in> set files" "indexable cfg disk p"
      using assms(8) fa by (auto simp: settled_def)
    then have "analysisView fa = analysisView (analysisOf az disk p)"
      using build_current [OF assms(2,3,4,5,6,7), of p] fa by simp
    moreover have c: "c \<in> texts" using assms(7) Some by (auto simp: plainDisk_def)
    moreover have "analysisUTF8 fa \<and> validUTF8 (sha c)"
    proof -
      have "analysisUTF8 (analysisView fa)"
        using calculation keys [of p] fa Some assms(10) by (simp add: analysisOf_def cleanAnalyses_def)
      then show ?thesis using c assms(10) by (simp add: cleanAnalyses_def)
    qed
    ultimately show ?thesis
      using keys [of p] fa Some by (auto simp: honestEntry_def contentHash_def analysisOf_def)
  qed
  have saved: "honest codec sha az texts (Some d)" if "saveIndex codec sha disk (btIndex b) = Some d" for d
    using saved_honest [OF assms(1) wf' _ that] keys entry by fastforce
  have "honest codec sha az texts (writeFile d)" if "saveIndex codec sha disk (btIndex b) = Some d" for d
  proof -
    consider "writeFile d = Some d" | "writeFile d = cache" | x where "writeFile d = Some x" "decodeCache codec x = None"
      using assms(9) unfolding writes_def by blast
    then show ?thesis using saved [OF that] assms(2) by cases (simp_all add: honest_undecodable)
  qed
  then show ?thesis using new assms(2) by (auto split: option.splits)
qed

inductive cacheHistory ::
  "Codec \<Rightarrow> (string \<Rightarrow> string) \<Rightarrow> (string \<Rightarrow> string \<Rightarrow> Outcome) \<Rightarrow> string set \<Rightarrow> string option \<Rightarrow> bool"
  for codec sha az texts where
    noCache: "cacheHistory codec sha az texts None"
  | build: "cacheHistory codec sha az texts cache \<Longrightarrow> cachePath \<noteq> [] \<Longrightarrow>
      BuildWithCache cancelled codec sha cfg disk root az cachePath None cache writeFile = Inr b \<Longrightarrow>
      collectFiles cfg root = Some files \<Longrightarrow> plainDisk disk texts files \<Longrightarrow>
      settled cfg disk files (btIndex b) \<Longrightarrow> writes codec cache writeFile \<Longrightarrow>
      cacheHistory codec sha az texts (btCache b)"

lemma cacheHistory_honest:
  assumes "cacheHistory codec sha az texts cache" and "lawfulCodec codec" and "inj_on sha texts" and "cleanAnalyses sha az texts"
  shows "honest codec sha az texts cache"
  using assms
proof (induction rule: cacheHistory.induct)
  case noCache
  then show ?case by (simp add: honest_def)
next
  case build
  then show ?case using build_honest by blast
qed

text \<open>
  C5. After builds over a changing disk, each of which left no file of the index on the disk but out of
  reach of the scan (a build that did is the finding on \<open>index.go\<close>), a build serves for each file it can read
  the analysis of the content the file has now, apart from its diagnostics. Names are valid UTF-8 throughout.
\<close>

theorem warm_build_current:
  assumes "cacheHistory codec sha az texts cache" and "lawfulCodec codec" and "inj_on sha texts"
    and "cleanAnalyses sha az texts" and "cachePath \<noteq> []"
    and "BuildWithCache cancelled codec sha cfg disk root az cachePath None cache writeFile = Inr b"
    and "collectFiles cfg root = Some files" and "plainDisk disk texts files"
    and "p \<in> set files" and "indexable cfg disk p"
  shows "map_option analysisView (Get p (btIndex b)) = Some (analysisView (analysisOf az disk p))"
  using build_current [OF cacheHistory_honest [OF assms(1-4)] assms(3,5-10)] .


section \<open>Cold and warm builds\<close>

definition skipOf :: "Config \<Rightarrow> (string \<Rightarrow> string option) \<Rightarrow> (string \<Rightarrow> string \<Rightarrow> Outcome) \<Rightarrow> string \<Rightarrow> SkipRecord list" where
  "skipOf cfg disk az p =
     (case disk p of
        None \<Rightarrow> [\<lparr>srPath = p, srReason = SkipUnreadable\<rparr>]
      | Some content \<Rightarrow>
          if \<not> small cfg content then [\<lparr>srPath = p, srReason = SkipTooLarge\<rparr>]
          else if az p content = AnalyzerPanic then [\<lparr>srPath = p, srReason = SkipAnalyzerPanic\<rparr>] else [])"

lemma skips_ops [simp]:
  "ixSkips (Add q fa idx) = ixSkips idx" "ixSkips (PutContent q c idx) = ixSkips idx"
  "ixSkips (addSkip q r idx) = ixSkips idx @ [\<lparr>srPath = q, srReason = r\<rparr>]" "ixSkips emptyIndex = []"
  by (simp_all add: Add_def PutContent_def addSkip_def emptyIndex_def)

lemma skips_ensureLineWidths [simp]: "ixSkips (ensureLineWidths disk files idx) = ixSkips idx"
proof -
  have "ixSkips (ensureStep disk i f) = ixSkips i" for i f
    by (auto simp: ensureStep_def Let_def split: option.splits)
  then have "ixSkips (foldl (ensureStep disk) i fs) = ixSkips i" for i fs
    by (induction fs arbitrary: i) auto
  then show ?thesis by (simp add: ensureLineWidths_def)
qed

lemma skips_scanLoop:
  assumes "scanLoop cancelled cfg disk az [] i files s = Some t" and "list_all slashed files" and "distinct files"
    and "\<And>f. f \<in> set files \<Longrightarrow> Get f (scIndex s) = None"
  shows "ixSkips (scIndex t) = ixSkips (scIndex s) @ concat (map (skipOf cfg disk az) files)"
  using assms
proof (induction files arbitrary: i s)
  case (Cons f fs)
  let ?s = "scanFile cfg disk az [] f s"
  have "ixSkips (scIndex ?s) = ixSkips (scIndex s) @ skipOf cfg disk az f"
    using Cons.prems by (auto simp: scanFile_def Let_def slashed_def skipOf_def small_def split: option.splits)
  moreover have "Get g (scIndex ?s) = None" if "g \<in> set fs" for g
    using Cons.prems that by (auto simp: Get_scanFile)
  ultimately show ?case using Cons by (auto split: if_splits)
qed simp

text \<open>
  C19. A build without a cache that is not cancelled succeeds, indexes exactly the files it can read
  and that are not too large, with their analysis, and records why it skipped the others.
\<close>

theorem cold_build_exact:
  assumes "collectFiles cfg root = Some files" and "list_all slashed files" and "distinct files"
    and "\<And>i. \<not> cancelled i"
  shows "\<exists>idx. Build cancelled codec sha cfg disk root az = Inr idx \<and>
           (\<forall>p. Get p idx = (if p \<in> set files \<and> indexable cfg disk p then Some (analysisOf az disk p) else None)) \<and>
           Skips idx = concat (map (skipOf cfg disk az) files)"
proof -
  define s where "s = \<lparr>scIndex = emptyIndex, scStaleCount = 0, scAnalyzedAny = False\<rparr>"
  have "scanLoop cancelled cfg disk az [] 0 files s \<noteq> None"
    using assms(4) by (rule scanLoop_returns)
  then obtain t where t: "scanLoop cancelled cfg disk az [] 0 files s = Some t" by blast
  have "Build cancelled codec sha cfg disk root az = Inr (ensureLineWidths disk files (scIndex t))"
    using t assms(1) by (simp add: Build_def BuildWithCache_def s_def)
  moreover have "Get p (scIndex t) =
      (if p \<in> set files \<and> indexable cfg disk p then Some (analysisOf az disk p) else None)" for p
    using Get_scanLoop [OF t assms(2)] by (simp add: s_def)
  moreover have "ixSkips (scIndex t) = concat (map (skipOf cfg disk az) files)"
    using skips_scanLoop [OF t assms(2,3)] by (simp add: s_def)
  ultimately show ?thesis by (simp add: Skips_def)
qed

lemma scanLoop_quiet:
  assumes "list_all slashed files" and "\<And>i. \<not> cancelled i"
    and "\<And>f. f \<in> set files \<Longrightarrow> f \<notin> set stale \<and> (Get f (scIndex s) \<noteq> None \<or> \<not> indexable cfg disk f)"
  shows "\<exists>t. scanLoop cancelled cfg disk az stale i files s = Some t \<and> scAnalyzedAny t = scAnalyzedAny s \<and>
           scStaleCount t = scStaleCount s \<and> ixEntries (scIndex t) = ixEntries (scIndex s)"
  using assms
proof (induction files arbitrary: i s)
  case (Cons f fs)
  let ?s = "scanFile cfg disk az stale f s"
  have same: "scAnalyzedAny ?s = scAnalyzedAny s" "scStaleCount ?s = scStaleCount s"
      "ixEntries (scIndex ?s) = ixEntries (scIndex s)"
    using Cons.prems(1) Cons.prems(3) [of f]
    by (auto simp: scanFile_def Let_def slashed_def indexable_def small_def split: option.splits)
  have "\<exists>t. scanLoop cancelled cfg disk az stale (i + 1) fs ?s = Some t \<and> scAnalyzedAny t = scAnalyzedAny ?s \<and>
           scStaleCount t = scStaleCount ?s \<and> ixEntries (scIndex t) = ixEntries (scIndex ?s)"
    using Cons.prems by (intro Cons.IH) (auto simp: Get_def same)
  moreover have "\<not> cancelled i" by (rule Cons.prems(2))
  ultimately show ?case using same by simp
qed simp

text \<open>
  What was saved loads as the analyses it had, in whatever order the entries come back, and a key is
  stale exactly when its content has now another hash.
\<close>

definition savedUTF8 :: "(string \<Rightarrow> string) \<Rightarrow> (string \<Rightarrow> string option) \<Rightarrow> Index \<Rightarrow> bool" where
  "savedUTF8 sha disk idx \<longleftrightarrow>
     (\<forall>(p, fa) \<in> set (ixEntries idx). validUTF8 p \<and> analysisUTF8 fa \<and> validUTF8 (contentHash sha disk p))"

lemma decode_saved:
  assumes "lawfulCodec codec" "wellFormed (ixEntries idx)" "savedUTF8 sha disk idx" "saveIndex codec sha disk idx = Some d"
  obtains es where "decodeCache codec d = Some \<lparr>cfVersion = cacheFormatVersion, cfEntries = es\<rparr>"
    "mset es = mset (map (saveEntry sha disk) (ixEntries idx))"
proof -
  let ?saved = "\<lparr>cfVersion = cacheFormatVersion, cfEntries = map (saveEntry sha disk) (ixEntries idx)\<rparr>"
  have "cacheUTF8 ?saved" using assms(3) version_UTF8 by (auto simp: cacheUTF8_def savedUTF8_def saveEntry_def)
  moreover have "wellFormed (cfEntries ?saved)"
    using assms(2) by (simp add: wellFormed_def saveEntry_def comp_def case_prod_beta)
  ultimately obtain es where "decodeCache codec d = Some (?saved\<lparr>cfEntries := es\<rparr>)" "mset es = mset (cfEntries ?saved)"
    using decode_encode [OF assms(1) assms(4) [unfolded saveIndex_def]] by blast
  then show ?thesis using that by simp
qed

lemma load_saved:
  assumes "wellFormed (ixEntries idx)" "list_all slashed (map fst (ixEntries idx))"
    and "mset es = mset (map (saveEntry sha disk) (ixEntries idx))"
  shows "\<exists>idx' stale. foldl (loadStep hashes) (emptyIndex, []) es = (idx', stale) \<and>
    (\<forall>p. Get p idx' = map_option analysisView (Get p idx)) \<and>
    (\<forall>p. p \<in> set stale \<longleftrightarrow> Get p idx \<noteq> None \<and> (\<exists>h. hashes p = Some h \<and> h \<noteq> contentHash sha disk p))"
proof -
  have "wellFormed (map (saveEntry sha disk) (ixEntries idx))"
    using assms(1) by (simp add: wellFormed_def saveEntry_def comp_def case_prod_beta)
  note same = reordered [OF assms(3) this]
  have es_wf: "wellFormed es" by (rule same(1))
  have saved: "map_of es p = map_option (\<lambda>fa. toEntry fa (contentHash sha disk p)) (Get p idx)" for p
    by (simp add: same(3) Get_def map_of_saveEntry)
  have es_slashed: "list_all (\<lambda>e. slashed (fst e)) es"
    using assms(2) same(2) by (auto simp: list_all_iff saveEntry_def case_prod_beta)
  obtain idx' stale where load: "foldl (loadStep hashes) (emptyIndex, []) es = (idx', stale)"
    by (cases "foldl (loadStep hashes) (emptyIndex, []) es")
  note l = foldl_loadStep [OF es_wf es_slashed load]
  have "Get p idx' = map_option analysisView (Get p idx)" for p
    using l [of p] by (simp add: saved option.map_comp comp_def split: option.splits)
  moreover have "p \<in> set stale \<longleftrightarrow> Get p idx \<noteq> None \<and> (\<exists>h. hashes p = Some h \<and> h \<noteq> contentHash sha disk p)" for p
    using l [of p] by (auto simp: changed_def saved toEntry_def)
  ultimately show ?thesis using load by auto
qed

lemma Save_Load:
  assumes "lawfulCodec codec" "wellFormed (ixEntries idx)" "list_all slashed (map fst (ixEntries idx))"
    and "savedUTF8 sha readFile idx" and "Save codec sha readFile Some idx = Saved content"
  shows "\<exists>idx' stale. Load codec (Some content) hashes = Loaded idx' stale \<and>
    (\<forall>p. Get p idx' = map_option analysisView (Get p idx)) \<and>
    (\<forall>p. p \<in> set stale \<longleftrightarrow> Get p idx \<noteq> None \<and> (\<exists>h. hashes p = Some h \<and> h \<noteq> contentHash sha readFile p))"
proof -
  have "saveIndex codec sha readFile idx = Some content"
    using assms(5)
    by (simp add: Save_def Let_def saveIndex_def saveEntry_def [abs_def] contentHash_def split: option.splits)
  then obtain es where "decodeCache codec content = Some \<lparr>cfVersion = cacheFormatVersion, cfEntries = es\<rparr>"
    "mset es = mset (map (saveEntry sha readFile) (ixEntries idx))"
    using decode_saved [OF assms(1,2,4)] by blast
  then show ?thesis
    using load_saved [OF assms(2,3), of es sha readFile hashes] by (auto simp: Load_def)
qed

text \<open>Nothing a build has saved is stale on the same disk.\<close>

lemma reload_saved:
  assumes "wellFormed (ixEntries idx)" "list_all slashed files"
    and got: "\<And>p. Get p idx = (if p \<in> set files \<and> indexable cfg disk p then Some (analysisOf az disk p) else None)"
    and es: "mset es = mset (map (saveEntry sha disk) (ixEntries idx))"
  shows "\<exists>idx'. foldl (loadStep (hashFiles sha disk files)) (emptyIndex, []) es = (idx', []) \<and>
    (\<forall>p. Get p idx' = map_option analysisView (Get p idx))"
proof -
  have "list_all slashed (map fst (ixEntries idx))"
    using got assms(1,2) by (force simp: list_all_iff Get_def wellFormed_def split: if_splits)
  from load_saved [OF assms(1) this es, of "hashFiles sha disk files"] obtain idx' stale where
    load: "foldl (loadStep (hashFiles sha disk files)) (emptyIndex, []) es = (idx', stale)"
      "\<And>p. Get p idx' = map_option analysisView (Get p idx)"
    and stale: "\<And>p. p \<in> set stale \<longleftrightarrow>
      Get p idx \<noteq> None \<and> (\<exists>h. hashFiles sha disk files p = Some h \<and> h \<noteq> contentHash sha disk p)"
    by blast
  have "p \<notin> set stale" for p
    using stale [of p] got [of p] hashFiles_slashed [OF assms(2), of sha disk p]
    by (auto simp: contentHash_def indexable_def split: if_splits option.splits)
  then have "stale = []" by (cases stale) auto
  with load show ?thesis by auto
qed

text \<open>
  C35. A second build on an unchanged disk never calls the analyzer: whatever the analyzer would
  answer, it serves the analyses of the first build apart from their diagnostics, which the cache does
  not hold, counts no stale file and leaves the cache; as long as what was saved is valid UTF-8.
\<close>

theorem warm_start_no_analysis:
  assumes "lawfulCodec codec" and "cachePath \<noteq> []" and "\<And>i. \<not> cancelled i"
    and "collectFiles cfg root = Some files" and "list_all slashed files"
    and "BuildWithCache cancelled codec sha cfg disk root az cachePath None None Some = Inr b"
    and "btCache b \<noteq> None" and "savedUTF8 sha disk (btIndex b)"
  shows "\<exists>b'. BuildWithCache cancelled codec sha cfg disk root az' cachePath None (btCache b) Some = Inr b' \<and>
           btStaleCount b' = 0 \<and> btCache b' = btCache b \<and>
           (\<forall>p. Get p (btIndex b') = map_option analysisView (Get p (btIndex b)))"
proof -
  have start: "startOf codec None (hashFiles sha disk files) = (emptyIndex, [])"
    by (simp add: startOf_def Load_def loadOrEmpty_def)
  obtain s where run: "scanLoop cancelled cfg disk az [] 0 files
           \<lparr>scIndex = emptyIndex, scStaleCount = 0, scAnalyzedAny = False\<rparr> = Some s"
    and b: "btIndex b = ensureLineWidths disk files (scIndex s)"
    and cache: "btCache b = (case saveIndex codec sha disk (btIndex b) of Some d \<Rightarrow> Some d | None \<Rightarrow> None)"
    using BuildWithCache_steps [OF assms(6,2)] assms(4) start by (metis option.inject prod.inject)
  obtain d where d: "btCache b = Some d" using assms(7) by blast
  have got: "Get p (btIndex b) = (if p \<in> set files \<and> indexable cfg disk p then Some (analysisOf az disk p) else None)" for p
    using Get_scanLoop [OF run assms(5)] by (simp add: b)
  have wf: "wellFormed (ixEntries (btIndex b))"
    using wellFormed_scanLoop [OF run] by (simp add: b)
  have "saveIndex codec sha disk (btIndex b) = Some d" using cache d by (simp split: option.splits)
  then obtain es where dec: "decodeCache codec d = Some \<lparr>cfVersion = cacheFormatVersion, cfEntries = es\<rparr>"
    and es: "mset es = mset (map (saveEntry sha disk) (ixEntries (btIndex b)))"
    using decode_saved [OF assms(1) wf assms(8)] by blast
  from reload_saved [OF wf assms(5) got es] obtain idx where
    load: "foldl (loadStep (hashFiles sha disk files)) (emptyIndex, []) es = (idx, [])"
    and idx: "\<And>p. Get p idx = map_option analysisView (Get p (btIndex b))"
    by blast
  let ?s = "\<lparr>scIndex = idx, scStaleCount = 0, scAnalyzedAny = False\<rparr>"
  have "\<exists>t. scanLoop cancelled cfg disk az' [] 0 files ?s = Some t \<and> scAnalyzedAny t = scAnalyzedAny ?s \<and>
      scStaleCount t = scStaleCount ?s \<and> ixEntries (scIndex t) = ixEntries (scIndex ?s)"
    by (rule scanLoop_quiet) (use assms(3,5) in \<open>auto simp: idx got\<close>)
  then obtain t where t: "scanLoop cancelled cfg disk az' [] 0 files ?s = Some t"
      "\<not> scAnalyzedAny t" "scStaleCount t = 0" "ixEntries (scIndex t) = ixEntries idx"
    by auto
  show ?thesis
    using t dec load d assms(2,4) idx
    by (simp add: BuildWithCache_def Load_def loadOrEmpty_def Get_def)
qed


section \<open>Examples\<close>

definition sampleTree :: DirTree where
  "sampleTree = DirNode ''ws'' (Some [FileNode ''A.NSN'', FileNode ''README'', DirNode ''backup'' None])"

definition sampleDisk :: "string \<Rightarrow> string \<Rightarrow> string option" where
  "sampleDisk content = (\<lambda>p. if p = ''A.NSN'' then Some content else None)"

definition sampleAnalyzer :: "string \<Rightarrow> string \<Rightarrow> Outcome" where
  "sampleAnalyzer p content =
     (if content = [] then AnalyzerPanic
      else Analyzed (zeroFileAnalysis\<lparr>faObjectType := (if content = ''END'' then ObjectSubprogram else ObjectProgram)\<rparr>))"

definition sampleCacheFile :: CacheFile where
  "sampleCacheFile = \<lparr>cfVersion = cacheFormatVersion,
     cfEntries = [(''A.NSN'', toEntry (zeroFileAnalysis\<lparr>faObjectType := ObjectSubprogram\<rparr>) ''END'')]\<rparr>"

definition sampleCodec :: Codec where
  "sampleCodec = \<lparr>marshal = (\<lambda>c. if c = sampleCacheFile then Some ''{}'' else None),
     unmarshal = (\<lambda>d. if d = ''{}'' then Some sampleCacheFile else None),
     gzip = (\<lambda>d. Some (CHR 0x1F # CHR 0x8B # d)), gunzip = (\<lambda>z. Some (drop 2 z))\<rparr>"

lemma sampleCodec_lawful: "lawfulCodec sampleCodec"
proof -
  have "\<exists>es. unmarshal sampleCodec d = Some (c\<lparr>cfEntries := es\<rparr>) \<and> mset es = mset (cfEntries c)"
    if "marshal sampleCodec c = Some d" for c d
    using that by (intro exI [of _ "cfEntries c"]) (auto simp: sampleCodec_def split: if_splits)
  then show ?thesis by (auto simp: lawfulCodec_def sampleCodec_def gzipMagic_def)
qed

definition sampleZip :: string where "sampleZip = CHR 0x1F # CHR 0x8B # ''{}''"

definition sampleBuilt :: Built where
  "sampleBuilt = \<lparr>btIndex = PutContent ''A.NSN'' ''END''
       (Add ''A.NSN'' (zeroFileAnalysis\<lparr>faObjectType := ObjectSubprogram\<rparr>) emptyIndex),
     btStaleCount = 0, btTotalFiles = 1, btCache = Some sampleZip\<rparr>"

lemma sample_files: "collectFiles Defaults sampleTree = Some [''A.NSN'']"
  by code_simp

lemma sample_build:
  "BuildWithCache (\<lambda>_. False) sampleCodec id Defaults (sampleDisk ''END'') sampleTree sampleAnalyzer
     ''cache'' None None Some = Inr sampleBuilt"
  by code_simp


lemma sample_settled: "settled Defaults (sampleDisk ''END'') [''A.NSN''] (btIndex sampleBuilt)"
proof -
  have "indexable Defaults (sampleDisk ''END'') ''A.NSN''" by code_simp
  then show ?thesis by (simp add: settled_def sampleBuilt_def)
qed

lemma sample_names: "validUTF8 ''A.NSN''" "validUTF8 ''END''" "validUTF8 ''CALL''"
  by (rule validUTF8_ascii, simp add: byteVal_def)+

lemma sample_plain:
  "c \<noteq> ''A.NSN'' \<Longrightarrow> c \<in> texts \<Longrightarrow> ''A.NSN'' \<in> texts \<Longrightarrow> plainDisk (sampleDisk c) texts [''A.NSN'']"
  using sample_names by (auto simp: plainDisk_def sampleDisk_def slashed_def NormalizeKey_def)

lemma sample_clean: "cleanAnalyses id sampleAnalyzer {''A.NSN'', ''END'', ''CALL''}"
  using sample_names
  by (simp add: cleanAnalyses_def sampleAnalyzer_def analyzeWithRecovery_def analysisUTF8_def zeroFileAnalysis_def)

lemma sample_saved: "savedUTF8 id (sampleDisk ''END'') (btIndex sampleBuilt)"
  using sample_names
  by (simp add: savedUTF8_def sampleBuilt_def Add_def PutContent_def emptyIndex_def contentHash_def sampleDisk_def
      analysisUTF8_def zeroFileAnalysis_def)

lemma sample_history:
  "cacheHistory sampleCodec id sampleAnalyzer {''A.NSN'', ''END'', ''CALL''} (btCache sampleBuilt)"
proof (rule cacheHistory.build)
  show "cacheHistory sampleCodec id sampleAnalyzer {''A.NSN'', ''END'', ''CALL''} None"
    by (rule cacheHistory.noCache)
qed (use sample_build sample_files sample_settled sample_plain in \<open>auto simp: writes_def\<close>)

theorem warm_build_current_witness:
  "\<exists>b. BuildWithCache (\<lambda>_. False) sampleCodec id Defaults (sampleDisk ''CALL'') sampleTree sampleAnalyzer
         ''cache'' None (btCache sampleBuilt) Some = Inr b \<and>
       map_option analysisView (Get ''A.NSN'' (btIndex b))
         = Some (analysisView (analysisOf sampleAnalyzer (sampleDisk ''CALL'') ''A.NSN''))"
proof -
  have "isl (BuildWithCache (\<lambda>_. False) sampleCodec id Defaults (sampleDisk ''CALL'') sampleTree
      sampleAnalyzer ''cache'' None (btCache sampleBuilt) Some) = False"
    by code_simp
  then obtain b where b: "BuildWithCache (\<lambda>_. False) sampleCodec id Defaults (sampleDisk ''CALL'')
      sampleTree sampleAnalyzer ''cache'' None (btCache sampleBuilt) Some = Inr b"
    by (metis isl_def sum.exhaust)
  have "indexable Defaults (sampleDisk ''CALL'') ''A.NSN''" by code_simp
  then show ?thesis
    using warm_build_current [OF sample_history sampleCodec_lawful _ sample_clean _ b sample_files sample_plain, of "''A.NSN''"] b
    by auto
qed

lemma sample_disk_distinct: "list_all slashed [''A.NSN'']" "distinct [''A.NSN'']"
  by (simp_all add: slashed_def NormalizeKey_def)

theorem cold_build_exact_witness:
  "\<exists>idx. Build (\<lambda>_. False) sampleCodec id Defaults (sampleDisk []) sampleTree sampleAnalyzer = Inr idx \<and>
     Skips idx = [\<lparr>srPath = ''A.NSN'', srReason = SkipAnalyzerPanic\<rparr>]"
proof -
  have "concat (map (skipOf Defaults (sampleDisk []) sampleAnalyzer) [''A.NSN''])
      = [\<lparr>srPath = ''A.NSN'', srReason = SkipAnalyzerPanic\<rparr>]"
    by code_simp
  then show ?thesis
    using cold_build_exact [OF sample_files sample_disk_distinct, of "\<lambda>_. False" sampleCodec id "sampleDisk []" sampleAnalyzer]
    by auto
qed

theorem warm_start_no_analysis_witness:
  "\<exists>b'. BuildWithCache (\<lambda>_. False) sampleCodec id Defaults (sampleDisk ''END'') sampleTree
          (\<lambda>_ _. AnalyzerPanic) ''cache'' None (btCache sampleBuilt) Some = Inr b' \<and> btStaleCount b' = 0"
proof -
  have "btCache sampleBuilt \<noteq> None" by (simp add: sampleBuilt_def)
  then show ?thesis
    using warm_start_no_analysis [OF sampleCodec_lawful _ _ sample_files sample_disk_distinct(1) sample_build _ sample_saved,
      of "\<lambda>_ _. AnalyzerPanic"] by auto
qed

text \<open>
  A file that was cached and has outgrown the size limit is skipped, but its old analysis stays; a
  build that analyses another file saves it under the hash of the new content, and from then on it
  counts as current and is not even reported as skipped.
\<close>

definition tinyConfig :: Config where
  "tinyConfig = Defaults\<lparr>cfgWorkspace := (cfgWorkspace Defaults)\<lparr>MaxFileSize := 3\<rparr>\<rparr>"

lemma outgrown_file_kept:
  "case BuildWithCache (\<lambda>_. False) sampleCodec id tinyConfig (sampleDisk ''CALL'') sampleTree sampleAnalyzer
     ''cache'' None (Some sampleZip) Some of
     Inl _ \<Rightarrow> False
   | Inr b \<Rightarrow> Skips (btIndex b) = [\<lparr>srPath = ''A.NSN'', srReason = SkipTooLarge\<rparr>] \<and>
       map_option faObjectType (Get ''A.NSN'' (btIndex b)) = Some ObjectSubprogram \<and>
       saveEntry id (sampleDisk ''CALL'') (''A.NSN'', the (Get ''A.NSN'' (btIndex b)))
         = (''A.NSN'', toEntry (zeroFileAnalysis\<lparr>faObjectType := ObjectSubprogram\<rparr>) ''CALL'')"
  by code_simp

end
