(* ===== verification/Dispatch.thy ===== *)
theory Dispatch
  imports Format Runes
begin

text \<open>
  The request side of \<open>Run\<close> in \<open>server.go\<close>: the lifecycle, the gates in front of the providers, the
  capabilities \<open>handleInitialize\<close> negotiates, and the root discovery of \<open>root.go\<close>. JSON decoding and
  encoding and the providers themselves are arguments: a \<open>Backend\<close> says, for a method and its
  parameters, whether they decode and what the provider does. A provider that panics is recovered.
\<close>

section \<open>The lifecycle\<close>

datatype Lifecycle = statePreInit | stateInitialized | stateShutdown

datatype ErrorCode = ServerNotInitialized | InvalidRequest | InvalidParams | InternalError | MethodNotFound

datatype Response = ResultResponse string string | ErrorResponse string ErrorCode string

fun responseID :: "Response \<Rightarrow> string" where
  "responseID (ResultResponse i _) = i"
| "responseID (ErrorResponse i _ _) = i"

text \<open>
  \<open>MarshalFailed part msg\<close>: encoding the provider's value failed with \<open>msg\<close>, and the encoder returned
  \<open>part\<close> beside the error.
\<close>

datatype ProviderResult =
    ProviderNil
  | ProviderJSON string
  | MarshalFailed "string option" string
  | ProviderFailed string
  | ProviderPanic string

record Call =
  callID :: string
  callMethod :: string
  callParams :: string

record Backend =
  decodeError :: "string \<Rightarrow> string \<Rightarrow> string option"
  uriMissing :: "string \<Rightarrow> bool"
  provide :: "string \<Rightarrow> string \<Rightarrow> ProviderResult"
  negotiate :: "string \<Rightarrow> string + string"
  bootstrapPanic :: "string \<Rightarrow> string option"

text \<open>What each provider method answers when the provider returns nothing.\<close>

definition emptyResult :: "string \<Rightarrow> string option" where
  "emptyResult method =
     (if method \<in> set [''textDocument/definition'', ''textDocument/declaration'', ''textDocument/typeDefinition'',
           ''textDocument/references'', ''textDocument/documentSymbol'', ''textDocument/hover'',
           ''textDocument/codeLens'', ''textDocument/documentLink'', ''textDocument/signatureHelp'',
           ''textDocument/diagnostic'', ''workspace/diagnostic'']
      then Some ''null''
      else if method \<in> set [''workspace/symbol'', ''textDocument/completion'', ''textDocument/documentHighlight'',
           ''textDocument/prepareCallHierarchy'', ''callHierarchy/incomingCalls'', ''callHierarchy/outgoingCalls'']
      then Some ''[]''
      else if method \<in> set [''textDocument/semanticTokens/full'', ''textDocument/semanticTokens/range'']
      then Some (''{'' @ [CHR 0x22] @ ''data'' @ [CHR 0x22] @ '':[]}'')
      else None)"

section \<open>Requests\<close>

text \<open>A branch of the dispatch: the state after it, the errors it sent, and the result to send.\<close>

type_synonym Branch = "Lifecycle \<times> (ErrorCode \<times> string) list \<times> string option"

definition panicMessage :: "string \<Rightarrow> string" where
  "panicMessage r = ''panic in request dispatch: '' @ r"

definition providerCall :: "Backend \<Rightarrow> Lifecycle \<Rightarrow> Call \<Rightarrow> string \<Rightarrow> Branch" where
  "providerCall b state c sentinel =
     (if state \<noteq> stateInitialized then (state, [(ServerNotInitialized, ''server not initialized'')], None)
      else case decodeError b (callMethod c) (callParams c) of
        Some e \<Rightarrow> (state, [(InvalidParams, e)], None)
      | None \<Rightarrow>
          if callMethod c = ''textDocument/diagnostic'' \<and> uriMissing b (callParams c)
          then (state, [(InvalidParams, ''textDocument.uri is required'')], None)
          else case provide b (callMethod c) (callParams c) of
                 ProviderNil \<Rightarrow> (state, [], Some sentinel)
               | ProviderJSON json \<Rightarrow> (state, [], Some json)
               | MarshalFailed part e \<Rightarrow> (state, [(InternalError, e)], part)
               | ProviderFailed e \<Rightarrow> (state, [(InternalError, e)], None)
               | ProviderPanic r \<Rightarrow> (state, [(InternalError, panicMessage r)], None))"

text \<open>The state stays before initialization until the notification \<open>initialized\<close>.\<close>

definition initializeCall :: "Backend \<Rightarrow> Lifecycle \<Rightarrow> Call \<Rightarrow> Branch" where
  "initializeCall b state c =
     (if state \<noteq> statePreInit then (state, [(InvalidRequest, ''already initialized'')], None)
      else case decodeError b ''initialize'' (callParams c) of
        Some e \<Rightarrow> (state, [(InvalidParams, e)], None)
      | None \<Rightarrow>
          (case negotiate b (callParams c) of
             Inl e \<Rightarrow> (state, [(InternalError, e)], None)
           | Inr json \<Rightarrow>
               (case bootstrapPanic b (callParams c) of
                  None \<Rightarrow> (state, [], Some json)
                | Some r \<Rightarrow> (state, [(InternalError, panicMessage r)], Some json))))"

definition shutdownCall :: "Lifecycle \<Rightarrow> Branch" where
  "shutdownCall state =
     (if state \<noteq> stateInitialized then (state, [(InvalidRequest, ''shutdown before initialization'')], None)
      else (stateShutdown, [], Some ''null''))"

definition dispatchCall :: "Backend \<Rightarrow> Lifecycle \<Rightarrow> Call \<Rightarrow> Branch" where
  "dispatchCall b state c =
     (if callMethod c = ''initialize'' then initializeCall b state c
      else if callMethod c = ''shutdown'' then shutdownCall state
      else if callMethod c = ''test/panic''
      then (state, [(InternalError, panicMessage ''test panic for FR-43'')], None)
      else case emptyResult (callMethod c) of
             Some sentinel \<Rightarrow> providerCall b state c sentinel
           | None \<Rightarrow> (state, [(MethodNotFound, ''method not found: '' @ callMethod c)], None))"

definition serveCall :: "Backend \<Rightarrow> Lifecycle \<Rightarrow> Call \<Rightarrow> Lifecycle \<times> Response list" where
  "serveCall b state c =
     (if state = statePreInit \<and> callMethod c \<noteq> ''initialize''
      then (state, [ErrorResponse (callID c) ServerNotInitialized ''server not initialized''])
      else case dispatchCall b state c of
             (state', errors, respResult) \<Rightarrow>
               (state', map (\<lambda>(code, msg). ErrorResponse (callID c) code msg) errors @
                        (case respResult of None \<Rightarrow> [] | Some r \<Rightarrow> [ResultResponse (callID c) r])))"

section \<open>Notifications of the lifecycle\<close>

definition initializedNotification :: "Lifecycle \<Rightarrow> Lifecycle" where
  "initializedNotification state = (if state = statePreInit then stateInitialized else state)"

text \<open>\<open>exit\<close> ends the server; true when it was shut down before.\<close>

definition exitNotification :: "Lifecycle \<Rightarrow> bool" where
  "exitNotification state \<longleftrightarrow> state = stateShutdown"

section \<open>Capabilities\<close>

text \<open>The optional parts of the client's capabilities the server reads.\<close>

record ClientCapabilities =
  ccPositionEncodings :: "string list option"
  ccWatchedFilesDynamic :: "bool option"
  ccWorkDoneProgress :: "bool option"
  ccDiagnostic :: bool
  ccRefreshSupport :: "bool option"

record Negotiation =
  ngUTF8 :: bool
  ngWatchedFilesReg :: bool
  ngWorkDoneProgress :: bool
  ngPullDiagnostics :: bool
  ngDiagnosticRefresh :: bool
  ngInitialTrace :: string

definition handleInitialize :: "ClientCapabilities \<Rightarrow> string \<Rightarrow> Negotiation" where
  "handleInitialize cc trace =
     \<lparr>ngUTF8 = (case ccPositionEncodings cc of None \<Rightarrow> False | Some es \<Rightarrow> ''utf-8'' \<in> set es),
      ngWatchedFilesReg = (ccWatchedFilesDynamic cc = Some True),
      ngWorkDoneProgress = (ccWorkDoneProgress cc = Some True),
      ngPullDiagnostics = ccDiagnostic cc,
      ngDiagnosticRefresh = (ccRefreshSupport cc = Some True),
      ngInitialTrace = (if trace = [] then ''off'' else trace)\<rparr>"

text \<open>Diagnostics are pushed only to clients that do not pull, refreshes go only to those that do.\<close>

definition pushesDiagnostics :: "Negotiation \<Rightarrow> bool" where
  "pushesDiagnostics n \<longleftrightarrow> \<not> ngPullDiagnostics n"

definition sendsRefresh :: "Negotiation \<Rightarrow> bool" where
  "sendsRefresh n \<longleftrightarrow> ngPullDiagnostics n \<and> ngDiagnosticRefresh n"

section \<open>Trace levels\<close>

definition isKnownTraceValue :: "string \<Rightarrow> bool" where
  "isKnownTraceValue v \<longleftrightarrow> v \<in> set [''off'', ''messages'', ''verbose'']"

definition traceValueToLevel :: "string \<Rightarrow> int" where
  "traceValueToLevel v = (if v = ''messages'' then 1 else if v = ''verbose'' then 2 else 0)"

definition levelToTraceValue :: "int \<Rightarrow> string" where
  "levelToTraceValue level =
     (if level = 1 then ''messages'' else if level = 2 then ''verbose'' else ''off'')"

definition maxTraceVerboseBytes :: nat where "maxTraceVerboseBytes = 2048"

definition runeStart :: "char \<Rightarrow> bool" where
  "runeStart c \<longleftrightarrow> \<not> (0x80 \<le> byteVal c \<and> byteVal c < 0xC0)"

fun truncBack :: "string \<Rightarrow> nat \<Rightarrow> nat" where
  "truncBack raw 0 = 0"
| "truncBack raw (Suc n) = (if \<not> runeStart (raw ! Suc n) then truncBack raw n else Suc n)"

definition traceSummary :: "string \<Rightarrow> string" where
  "traceSummary raw =
     (if length raw \<le> maxTraceVerboseBytes then raw
      else let truncAt = truncBack raw maxTraceVerboseBytes;
               elided = length raw - truncAt
           in take truncAt raw @ [CHR 0xE2, CHR 0x80, CHR 0xA6] @ '' ('' @ itoa (int elided) @ '' bytes elided)'')"

section \<open>Root discovery\<close>

text \<open>What a URI is as a file, from the library: \<open>isFile\<close> and \<open>fsPath\<close>.\<close>

record InitializeParams =
  ipWorkspaceFolders :: "string list option"
  ipRootURI :: "string option"

definition usablePath :: "(string \<Rightarrow> bool) \<Rightarrow> (string \<Rightarrow> string) \<Rightarrow> string \<Rightarrow> string option" where
  "usablePath isFile fsPath u =
     (if isFile u \<and> trimSpace (fsPath u) \<noteq> [] then Some (trimSpace (fsPath u)) else None)"

definition firstFolder :: "InitializeParams \<Rightarrow> string option" where
  "firstFolder params =
     (case ipWorkspaceFolders params of Some (f # _) \<Rightarrow> Some f | _ \<Rightarrow> None)"

definition resolveRootStart ::
  "(string \<Rightarrow> bool) \<Rightarrow> (string \<Rightarrow> string) \<Rightarrow> InitializeParams \<Rightarrow> string \<Rightarrow> string" where
  "resolveRootStart isFile fsPath params cwdFallback =
     (case Option.bind (firstFolder params) (usablePath isFile fsPath) of
        Some p \<Rightarrow> p
      | None \<Rightarrow>
          (case Option.bind (ipRootURI params) (usablePath isFile fsPath) of
             Some p \<Rightarrow> p | None \<Rightarrow> cwdFallback))"

definition clientRootPaths :: "(string \<Rightarrow> bool) \<Rightarrow> (string \<Rightarrow> string) \<Rightarrow> InitializeParams \<Rightarrow> string list" where
  "clientRootPaths isFile fsPath params =
     List.map_filter (usablePath isFile fsPath)
       (case ipWorkspaceFolders params of None \<Rightarrow> [] | Some folders \<Rightarrow> folders) @
     (case Option.bind (ipRootURI params) (usablePath isFile fsPath) of None \<Rightarrow> [] | Some p \<Rightarrow> [p])"

record rootProbe =
  rpClientPaths :: "string list"
  rpCwdFallback :: string
  rpSentinelFound :: bool
  rpResolvedRoot :: string

definition triedPathsPhrase :: "rootProbe \<Rightarrow> string" where
  "triedPathsPhrase p =
     joinStrings
       (map (\<lambda>cp. ''client='' @ quoteGo (trimSpace cp)) (filter (\<lambda>cp. trimSpace cp \<noteq> []) (rpClientPaths p)) @
        [''cwd='' @ quoteGo (rpCwdFallback p)]) '', ''"

definition noRootEstablished :: "rootProbe \<Rightarrow> bool" where
  "noRootEstablished p \<longleftrightarrow> \<not> list_ex (\<lambda>cp. trimSpace cp \<noteq> []) (rpClientPaths p) \<and> \<not> rpSentinelFound p"

definition noUsableRootMessage :: "rootProbe \<Rightarrow> nat \<Rightarrow> string option" where
  "noUsableRootMessage p indexFileCount =
     (if \<not> noRootEstablished p \<and> indexFileCount \<noteq> 0 then None
      else if noRootEstablished p
      then Some (''natural-lsp: could not establish workspace root '' @ [CHR 0xE2, CHR 0x80, CHR 0x94] @
             '' no workspaceFolders/rootUri was sent and no .natural-lsp.toml sentinel was found on the cwd walk-up. Paths tried: ''
             @ triedPathsPhrase p @ ''. Open a folder or add a .natural-lsp.toml to enable indexing.'')
      else Some (''natural-lsp: workspace root '' @ quoteGo (rpResolvedRoot p) @
             '' has no indexable Natural files (index is empty). Paths tried: '' @ triedPathsPhrase p @
             ''. Check the workspace root and the [workspace] extensions/exclude settings.''))"

end
