(* ===== verification/Cursor.thy ===== *)
theory Cursor
  imports Model Prelude
begin

text \<open>
  What the cursor is on, \<open>cursor.go\<close>, and the searches of \<open>definition.go\<close> for declarations. Every search
  keeps the smallest range so far that contains the cursor; the span of a kept range is read from it
  again where the code stores it. A pointer into a list is the element; the uses of variables the
  analyzer extracts from the text are an argument.
\<close>

section \<open>Ranges\<close>

definition rangeContains :: "Range \<Rightarrow> Position \<Rightarrow> bool" where
  "rangeContains r p \<longleftrightarrow>
     \<not> (Line p < Line (Start r) \<or> (Line p = Line (Start r) \<and> Column p < Column (Start r))) \<and>
     \<not> (Line p > Line (End r) \<or> (Line p = Line (End r) \<and> Column p > Column (End r)))"

definition rangeSpanSize :: "Range \<Rightarrow> int \<times> int" where
  "rangeSpanSize r = (Line (End r) - Line (Start r), Column (End r) - Column (Start r))"

definition isSmallerSpan :: "int \<times> int \<Rightarrow> int \<times> int \<Rightarrow> bool" where
  "isSmallerSpan s t \<longleftrightarrow> (if fst s \<noteq> fst t then fst s < fst t else snd s < snd t)"

section \<open>Uses\<close>

definition closer :: "('a \<Rightarrow> Range) \<Rightarrow> Position \<Rightarrow> 'a option \<Rightarrow> 'a \<Rightarrow> 'a option" where
  "closer rng pos best x =
     (if rangeContains (rng x) pos \<and>
         (case best of None \<Rightarrow> True
          | Some b \<Rightarrow> isSmallerSpan (rangeSpanSize (rng x)) (rangeSpanSize (rng b)))
      then Some x else best)"

definition smallest :: "('a \<Rightarrow> Range) \<Rightarrow> Position \<Rightarrow> 'a option \<Rightarrow> 'a list \<Rightarrow> 'a option" where
  "smallest rng pos best xs = foldl (closer rng pos) best xs"

definition hostVariable :: "HostVarRef \<Rightarrow> VariableRef" where
  "hostVariable hv = \<lparr>vrName = hvName hv, vrRange = hvRange hv\<rparr>"

datatype CursorTarget =
    CursorEdge EdgeEntry
  | CursorAccess DataAccessEntry
  | CursorVariable VariableRef
  | CursorNothing

definition findCursorTarget :: "FileAnalysis \<Rightarrow> Position \<Rightarrow> VariableRef list \<Rightarrow> CursorTarget" where
  "findCursorTarget fa pos varRefs =
     (let smallestEdge = smallest eeSource pos None (faEdges fa);
          smallestAccess = smallest daNameRange pos None (faDataAccess fa);
          smallestVar = smallest vrRange pos (smallest vrRange pos None varRefs)
                          (map hostVariable (faHostVarRefs fa))
      in case smallestEdge of
           Some e \<Rightarrow> CursorEdge e
         | None \<Rightarrow>
             (case smallestAccess of
                Some a \<Rightarrow> CursorAccess a
              | None \<Rightarrow> (case smallestVar of Some v \<Rightarrow> CursorVariable v | None \<Rightarrow> CursorNothing)))"

section \<open>Declarations\<close>

text \<open>The walk of the symbol tree keeps the best symbol with the view it was found in.\<close>

function declWalk ::
  "Position \<Rightarrow> Symbol option \<Rightarrow> (Symbol \<times> Symbol option) option \<Rightarrow> Symbol \<Rightarrow> (Symbol \<times> Symbol option) option" where
  "declWalk pos view best node =
     (let newView = (if symViewOfDDM node \<noteq> [] then Some node else view)
      in foldl (\<lambda>b child. declWalk pos newView b child)
           (closer (\<lambda>(s, _). symSelectionRange s) pos best (node, newView)) (symChildren node))"
  by pat_completeness auto
termination by (relation "measure (\<lambda>(_, _, _, s). size s)") (auto intro: size_symChild)

declare declWalk.simps [simp del]

function findDefinitionByName :: "string \<Rightarrow> DataDefinition list \<Rightarrow> DataDefinition option" where
  "findDefinitionByName name [] = None"
| "findDefinitionByName name (d # ds) =
     (if ddName d = name then Some d
      else case findDefinitionByName name (ddChildren d) of
             Some found \<Rightarrow> Some found
           | None \<Rightarrow> findDefinitionByName name ds)"
  by pat_completeness auto
termination
  by (relation "measure (\<lambda>(_, ds). size_list size ds)") (auto simp: size_ddChildren_less)

record DeclarationTarget =
  dtNameRange :: Range
  dtDefinition :: "DataDefinition option"
  dtSymbol :: Symbol
  dtOwningView :: "Symbol option"

definition findDeclarationTarget :: "FileAnalysis \<Rightarrow> Position \<Rightarrow> DeclarationTarget option" where
  "findDeclarationTarget fa pos =
     (case (case faStructure fa of None \<Rightarrow> None | Some root \<Rightarrow> declWalk pos None None root) of
        None \<Rightarrow> None
      | Some (node, view) \<Rightarrow>
          Some \<lparr>dtNameRange = symSelectionRange node,
                dtDefinition = (if symName node \<noteq> [] then findDefinitionByName (symName node) (faDefinitions fa) else None),
                dtSymbol = node, dtOwningView = view\<rparr>)"

text \<open>\<open>findDeclaration\<close> calls back for each match: the list of matches in that order.\<close>

definition equalFold :: "string \<Rightarrow> string \<Rightarrow> bool" where
  "equalFold s t \<longleftrightarrow> toUpper s = toUpper t"

function findDeclaration :: "string \<Rightarrow> string \<Rightarrow> DataDefinition list \<Rightarrow> DataDefinition list" where
  "findDeclaration varName groupName [] = []"
| "findDeclaration varName groupName (decl # defs) =
     (if groupName \<noteq> []
      then (if equalFold (ddName decl) groupName \<and> ddLevel decl = 1
            then findDeclaration varName [] (ddChildren decl) else [])
      else (if equalFold (ddName decl) varName then [decl] else [])
           @ findDeclaration varName groupName (ddChildren decl))
     @ findDeclaration varName groupName defs"
  by pat_completeness auto
termination
  by (relation "measure (\<lambda>(_, _, ds). size_list size ds)") (auto simp: size_ddChildren_less)

function declarationAt :: "Position \<Rightarrow> DataDefinition list \<Rightarrow> DataDefinition option" where
  "declarationAt pos [] = None"
| "declarationAt pos (decl # defs) =
     (if rangeContains (ddNameRange decl) pos then Some decl
      else case declarationAt pos (ddChildren decl) of
             Some found \<Rightarrow> Some found
           | None \<Rightarrow> declarationAt pos defs)"
  by pat_completeness auto
termination
  by (relation "measure (\<lambda>(_, ds). size_list size ds)") (auto simp: size_ddChildren_less)

section \<open>The qualifier of a reference\<close>

definition isIdentifierByte :: "char \<Rightarrow> bool" where
  "isIdentifierByte b \<longleftrightarrow> isUpperByte b \<or> isLowerByte b \<or> isDigitByte b \<or>
     b \<in> set [CHR ''-'', CHR ''#'', CHR ''&'', CHR ''@'', CHR ''+'', CHR ''_'']"

text \<open>
  The bytes before the reference are read backwards: the model reverses that part of the line. The
  code's index may be the position of the byte before the reference or lie outside the line.
\<close>

definition qualifierBeforeRef :: "string \<Rightarrow> Range \<Rightarrow> string" where
  "qualifierBeforeRef content leafRange =
     (let lines = splitByte LF content;
          lineIdx = Line (Start leafRange) - 1
      in if lineIdx < 0 \<or> lineIdx \<ge> int (length lines) then []
         else let line = trimSuffix (lines ! nat lineIdx) [CR];
                  i = Column (Start leafRange) - 2
              in if i < 0 \<or> i \<ge> int (length line) then []
                 else case dropWhile (\<lambda>c. c = SPACE \<or> c = TAB) (rev (take (nat i + 1) line)) of
                        [] \<Rightarrow> []
                      | c # before \<Rightarrow>
                          if c \<noteq> CHR ''.'' then []
                          else toUpper (rev (takeWhile isIdentifierByte
                                 (dropWhile (\<lambda>c. c = SPACE \<or> c = TAB) before))))"

end
