(* ===== verification/Store.thy ===== *)
theory Store
  imports Build
begin

text \<open>
  The open documents, \<open>store.go\<close>, and the per-file analysis with its degradation rules,
  \<open>degradation.go\<close>. A URI is a string; its path comes from a library and is an argument, \<open>fsPath\<close>.
  \<open>filepath.Rel\<close> is modelled on clean paths with slashes. An analysis function may panic, which is
  \<open>None\<close>; a store without one keeps documents unanalysed.
\<close>

section \<open>Paths below the root\<close>

fun dropCommon :: "string list \<Rightarrow> string list \<Rightarrow> string list \<times> string list" where
  "dropCommon (b # bs) (t # ts) = (if b = t then dropCommon bs ts else (b # bs, t # ts))"
| "dropCommon bs ts = (bs, ts)"

definition pathElements :: "string \<Rightarrow> string list" where
  "pathElements p = filter (\<lambda>s. s \<noteq> []) (splitByte (CHR ''/'') p)"

definition isAbs :: "string \<Rightarrow> bool" where
  "isAbs p \<longleftrightarrow> hasPrefix p ''/''"

definition filepathRel :: "string \<Rightarrow> string \<Rightarrow> string option" where
  "filepathRel base target =
     (if isAbs base \<noteq> isAbs target then None
      else case dropCommon (pathElements base) (pathElements target) of (bs, ts) \<Rightarrow>
             let r = replicate (length bs) ''..'' @ ts
             in Some (if r = [] then ''.'' else joinStrings r ''/''))"

section \<open>Analysis of one file\<close>

record FileProcessResult =
  fpRelPath :: string
  fpObjectType :: ObjectType
  fpSkipReason :: "SkipReason option"
  fpFileAnalysis :: FileAnalysis

definition analyzeFile :: "Outcome \<Rightarrow> FileProcessResult \<Rightarrow> FileProcessResult" where
  "analyzeFile outcome result =
     (case outcome of
        Analyzed fa \<Rightarrow> result\<lparr>fpObjectType := faObjectType fa, fpFileAnalysis := fa\<rparr>
      | _ \<Rightarrow> result)"

definition recognizedExtension :: "Config \<Rightarrow> string \<Rightarrow> bool" where
  "recognizedExtension cfg relPath \<longleftrightarrow>
     toUpper (pathExt relPath) \<in> set (map toUpper (Extensions (cfgWorkspace cfg)))"

text \<open>A limit of zero means no limit here.\<close>

definition analyzeOne :: "Config \<Rightarrow> (string \<Rightarrow> string \<Rightarrow> Outcome) \<Rightarrow> string \<Rightarrow> string \<Rightarrow> FileProcessResult" where
  "analyzeOne cfg az relPath content =
     (let result = \<lparr>fpRelPath = relPath, fpObjectType = ObjectUnknown, fpSkipReason = None,
                    fpFileAnalysis = zeroFileAnalysis\<rparr>
      in if MaxFileSize (cfgWorkspace cfg) > 0 \<and> int (length content) > MaxFileSize (cfgWorkspace cfg)
         then result\<lparr>fpSkipReason := Some SkipTooLarge\<rparr>
         else if IsExcluded cfg relPath then result\<lparr>fpSkipReason := Some SkipExcluded\<rparr>
         else if \<not> recognizedExtension cfg relPath then result
         else analyzeFile (az relPath content) result)"

definition ProcessFiles ::
  "Config \<Rightarrow> (string \<Rightarrow> string \<Rightarrow> Outcome) \<Rightarrow> string list \<Rightarrow> (string \<Rightarrow> string option) \<Rightarrow> FileProcessResult list" where
  "ProcessFiles cfg az paths contents =
     map (\<lambda>relPath. analyzeOne cfg az relPath (case contents relPath of None \<Rightarrow> [] | Some c \<Rightarrow> c)) paths"

section \<open>The store\<close>

record Document =
  docURI :: string
  docVersion :: int
  docContent :: string
  docAnalysis :: FileAnalysis

type_synonym AnalyzeFunc = "string \<Rightarrow> string \<Rightarrow> FileAnalysis option"

record Store =
  stDocs :: "(string \<times> Document) list"
  stRoot :: string
  stAnalyze :: "AnalyzeFunc option"

definition newStore :: "string \<Rightarrow> AnalyzeFunc option \<Rightarrow> Store" where
  "newStore root analyze = \<lparr>stDocs = [], stRoot = root, stAnalyze = analyze\<rparr>"

definition storeGet :: "Store \<Rightarrow> string \<Rightarrow> Document option" where
  "storeGet s u = map_of (stDocs s) u"

definition OpenDocuments :: "Store \<Rightarrow> Document list" where
  "OpenDocuments s = map snd (stDocs s)"

definition deriveRelPath :: "(string \<Rightarrow> string) \<Rightarrow> string \<Rightarrow> string \<Rightarrow> string" where
  "deriveRelPath fsPath u root =
     (let absPath = fsPath u in
      if root = [] then absPath
      else case filepathRel root absPath of None \<Rightarrow> absPath | Some relPath \<Rightarrow> NormalizeKey relPath)"

definition callAnalyzeWithRecovery :: "FileAnalysis option \<Rightarrow> FileAnalysis" where
  "callAnalyzeWithRecovery r = (case r of None \<Rightarrow> zeroFileAnalysis | Some fa \<Rightarrow> fa)"

definition storeAnalysis :: "(string \<Rightarrow> string) \<Rightarrow> Store \<Rightarrow> string \<Rightarrow> string \<Rightarrow> FileAnalysis" where
  "storeAnalysis fsPath s u content =
     (case stAnalyze s of
        None \<Rightarrow> zeroFileAnalysis
      | Some analyze \<Rightarrow> callAnalyzeWithRecovery (analyze (deriveRelPath fsPath u (stRoot s)) content))"

definition storeOpen :: "(string \<Rightarrow> string) \<Rightarrow> string \<Rightarrow> int \<Rightarrow> string \<Rightarrow> Store \<Rightarrow> Store" where
  "storeOpen fsPath u version content s =
     s\<lparr>stDocs := AList.update u
         \<lparr>docURI = u, docVersion = version, docContent = content,
          docAnalysis = storeAnalysis fsPath s u content\<rparr> (stDocs s)\<rparr>"

definition storeUpdate :: "(string \<Rightarrow> string) \<Rightarrow> string \<Rightarrow> int \<Rightarrow> string \<Rightarrow> Store \<Rightarrow> Store" where
  "storeUpdate fsPath u version content s =
     (case storeGet s u of
        None \<Rightarrow> s
      | Some doc \<Rightarrow>
          s\<lparr>stDocs := AList.update u
              (doc\<lparr>docVersion := version, docContent := content,
                   docAnalysis := storeAnalysis fsPath s u content\<rparr>) (stDocs s)\<rparr>)"

definition storeClose :: "string \<Rightarrow> Store \<Rightarrow> Store" where
  "storeClose u s = s\<lparr>stDocs := AList.delete u (stDocs s)\<rparr>"

end
