(* ===== verification/Session.thy ===== *)
theory Session
  imports Store Resolution
begin

text \<open>
  The state the server's handlers share, \<open>handlerContext\<close> of \<open>server.go\<close>, and what changes it: the
  notifications about documents and files, and the background build. The dispatch loop runs one
  notification at a time; the build runs beside it and touches the state in three places, which are
  three steps here: it publishes the index and its resolution, it takes a snapshot of the open
  documents, and it merges the snapshot. Decoding of messages, logging, diagnostics and progress
  notifications are not part of this state.
\<close>

record HandlerContext =
  hcRoot :: string
  hcCfg :: Config
  hcStore :: "Store option"
  hcIdx :: "Index option"
  hcRes :: "ResolutionSet option"

section \<open>Changes to one file\<close>

text \<open>A content of \<open>None\<close> is a deletion; the analyzer sees it as an empty file.\<close>

definition contentBytes :: "string option \<Rightarrow> string" where
  "contentBytes content = (case content of None \<Rightarrow> [] | Some c \<Rightarrow> c)"

definition applyDocumentChange ::
  "(string \<Rightarrow> string \<Rightarrow> Outcome) \<Rightarrow> string \<Rightarrow> string option \<Rightarrow> HandlerContext \<Rightarrow> HandlerContext" where
  "applyDocumentChange az relPath content h =
     (let result = analyzeOne (hcCfg h) az relPath (contentBytes content) in
      case hcIdx h of
        None \<Rightarrow> h
      | Some idx \<Rightarrow>
          let added = Add relPath (fpFileAnalysis result) idx;
              idx' = (case content of None \<Rightarrow> added | Some c \<Rightarrow> PutContent relPath c added)
          in h\<lparr>hcIdx := Some idx', hcRes := Some (ResolveInto (hcRes h) idx' (Some (hcCfg h)) [relPath])\<rparr>)"

section \<open>Notifications\<close>

definition onStore :: "(Store \<Rightarrow> Store) \<Rightarrow> HandlerContext \<Rightarrow> HandlerContext" where
  "onStore f h = h\<lparr>hcStore := map_option f (hcStore h)\<rparr>"

definition didOpen :: "(string \<Rightarrow> string) \<Rightarrow> string \<Rightarrow> int \<Rightarrow> string \<Rightarrow> HandlerContext \<Rightarrow> HandlerContext" where
  "didOpen fsPath u version content h = onStore (storeOpen fsPath u version content) h"

datatype ContentChange = WholeDocument string | PartialChange

definition changeStep ::
  "(string \<Rightarrow> string) \<Rightarrow> (string \<Rightarrow> string \<Rightarrow> Outcome) \<Rightarrow> string \<Rightarrow> int \<Rightarrow> HandlerContext \<Rightarrow> ContentChange \<Rightarrow> HandlerContext" where
  "changeStep fsPath az u version h change =
     (case change of
        PartialChange \<Rightarrow> h
      | WholeDocument content \<Rightarrow>
          let h1 = onStore (storeUpdate fsPath u version content) h
          in case filepathRel (hcRoot h) (fsPath u) of
               None \<Rightarrow> h1
             | Some relPath \<Rightarrow> applyDocumentChange az (NormalizeKey relPath) (Some content) h1)"

definition didChange ::
  "(string \<Rightarrow> string) \<Rightarrow> (string \<Rightarrow> string \<Rightarrow> Outcome) \<Rightarrow> string \<Rightarrow> int \<Rightarrow> ContentChange list
    \<Rightarrow> HandlerContext \<Rightarrow> HandlerContext" where
  "didChange fsPath az u version changes h = foldl (changeStep fsPath az u version) h changes"

definition didClose :: "string \<Rightarrow> HandlerContext \<Rightarrow> HandlerContext" where
  "didClose u h = onStore (storeClose u) h"

text \<open>A change of a file on disk: its URI, whether it was deleted, and what reading it gives.\<close>

record FileEvent =
  feURI :: string
  feDeleted :: bool
  feContent :: "string option"

definition watchedStep ::
  "(string \<Rightarrow> string) \<Rightarrow> (string \<Rightarrow> string \<Rightarrow> Outcome) \<Rightarrow> HandlerContext \<Rightarrow> FileEvent \<Rightarrow> HandlerContext" where
  "watchedStep fsPath az h event =
     (case filepathRel (hcRoot h) (fsPath (feURI event)) of
        None \<Rightarrow> h
      | Some r \<Rightarrow>
          let relPath = NormalizeKey r
          in if feDeleted event then applyDocumentChange az relPath None h
             else case feContent event of
                    None \<Rightarrow> h
                  | Some content \<Rightarrow> applyDocumentChange az relPath (Some content) h)"

definition didChangeWatchedFiles ::
  "(string \<Rightarrow> string) \<Rightarrow> (string \<Rightarrow> string \<Rightarrow> Outcome) \<Rightarrow> FileEvent list \<Rightarrow> HandlerContext \<Rightarrow> HandlerContext" where
  "didChangeWatchedFiles fsPath az events h = foldl (watchedStep fsPath az) h events"

section \<open>The background build\<close>

definition buildIndex :: "Config \<Rightarrow> BuildError + Built \<Rightarrow> (Index \<times> ResolutionSet) option" where
  "buildIndex cfg outcome =
     (case outcome of
        Inl _ \<Rightarrow> None
      | Inr b \<Rightarrow> Some (btIndex b, Resolve (btIndex b) (Some cfg)))"

definition publishIndex :: "(Index \<times> ResolutionSet) option \<Rightarrow> HandlerContext \<Rightarrow> HandlerContext" where
  "publishIndex built h = h\<lparr>hcIdx := map_option fst built, hcRes := map_option snd built\<rparr>"

text \<open>\<open>replayOpenBuffers\<close>: the snapshot is taken before the lock, the merge under it.\<close>

record ReplayEntry =
  reRelPath :: string
  reAnalysis :: FileAnalysis
  reContent :: string

definition replayEntry :: "(string \<Rightarrow> string) \<Rightarrow> string \<Rightarrow> Document \<Rightarrow> ReplayEntry option" where
  "replayEntry fsPath root doc =
     map_option (\<lambda>r. \<lparr>reRelPath = NormalizeKey r, reAnalysis = docAnalysis doc, reContent = docContent doc\<rparr>)
       (filepathRel root (fsPath (docURI doc)))"

definition replaySnapshot :: "(string \<Rightarrow> string) \<Rightarrow> HandlerContext \<Rightarrow> ReplayEntry list" where
  "replaySnapshot fsPath h =
     (case hcStore h of
        None \<Rightarrow> []
      | Some s \<Rightarrow> List.map_filter (replayEntry fsPath (hcRoot h)) (OpenDocuments s))"

definition mergeEntry :: "Index \<Rightarrow> ReplayEntry \<Rightarrow> Index" where
  "mergeEntry idx e = PutContent (reRelPath e) (reContent e) (Add (reRelPath e) (reAnalysis e) idx)"

definition replayMerge :: "ReplayEntry list \<Rightarrow> HandlerContext \<Rightarrow> HandlerContext" where
  "replayMerge entries h =
     (if entries = [] then h
      else case hcIdx h of
             None \<Rightarrow> h
           | Some idx \<Rightarrow>
               let idx' = foldl mergeEntry idx entries
               in h\<lparr>hcIdx := Some idx',
                    hcRes := Some (ResolveInto (hcRes h) idx' (Some (hcCfg h)) (map reRelPath entries))\<rparr>)"

end
