(* ===== verification/Definition.thy ===== *)
theory Definition
  imports Cursor Session FieldResolution
begin

text \<open>
  Go to definition: \<open>definition.go\<close>, \<open>declaration.go\<close> and \<open>type_definition.go\<close>. The URI library and the
  file system are a record of functions. A provider that finds nothing returns no location, which the
  code writes as nil. Looking names up fills the name cache of the index, so the providers return the
  handlers' state as well. \<open>refs\<close> are the uses of variables in a text, \<open>utf16\<close> is the negotiated encoding.
\<close>

record Location =
  locURI :: string
  locRange :: ProtocolRange

record Host =
  hoFsPath :: "string \<Rightarrow> string"
  hoUriFile :: "string \<Rightarrow> string"
  hoReadFile :: "string \<Rightarrow> string option"

definition location :: "Host \<Rightarrow> string \<Rightarrow> Range \<Rightarrow> string \<Rightarrow> bool \<Rightarrow> Location" where
  "location ho absPath r content utf16 =
     \<lparr>locURI = hoUriFile ho absPath, locRange = toProtocolRange r content utf16\<rparr>"

definition uriToRelPath :: "Host \<Rightarrow> string \<Rightarrow> string \<Rightarrow> (string \<times> string) option" where
  "uriToRelPath ho root u =
     (let absPath = hoFsPath ho u in map_option (\<lambda>r. (absPath, NormalizeKey r)) (filepathRel root absPath))"

text \<open>An open document, else the indexed file with its content on disk.\<close>

definition sourceOf :: "Host \<Rightarrow> HandlerContext \<Rightarrow> string \<Rightarrow> string \<Rightarrow> string \<Rightarrow> (FileAnalysis \<times> string) option" where
  "sourceOf ho h u absPath relPath =
     (case Option.bind (hcStore h) (\<lambda>s. storeGet s u) of
        Some doc \<Rightarrow> Some (docAnalysis doc, docContent doc)
      | None \<Rightarrow>
          (case Option.bind (hcIdx h) (Get relPath) of
             None \<Rightarrow> None
           | Some fa \<Rightarrow> map_option (Pair fa) (hoReadFile ho absPath)))"

definition definitionLocation :: "Host \<Rightarrow> string \<Rightarrow> string \<Rightarrow> FileAnalysis \<Rightarrow> string \<Rightarrow> bool \<Rightarrow> Location" where
  "definitionLocation ho root relPath fa content utf16 =
     location ho (filepathJoin root relPath)
       (case faStructure fa of
          Some s \<Rightarrow> symSelectionRange s
        | None \<Rightarrow> Range (Position 1 1) (Position 1 1)) content utf16"

section \<open>Variables\<close>

definition declarationRange :: "DataDefinition \<Rightarrow> Range" where
  "declarationRange decl =
     (if Line (Start (ddNameRange decl)) = 0 \<and> Line (End (ddNameRange decl)) = 0 then ddRange decl else ddNameRange decl)"

definition resolveVariableDefinition ::
  "Host \<Rightarrow> VariableRef \<Rightarrow> FileAnalysis \<Rightarrow> string \<Rightarrow> string \<Rightarrow> bool \<Rightarrow> Location list" where
  "resolveVariableDefinition ho varRef fa content absPath utf16 =
     map (\<lambda>decl. location ho absPath (declarationRange decl) content utf16)
       (filter (\<lambda>decl. Line (Start (declarationRange decl)) > 0)
         (findDeclaration (vrName varRef) (qualifierBeforeRef content (vrRange varRef)) (faDefinitions fa)))"

text \<open>
  The first data area of the USING clauses that has the field, with the field's range, its path and
  its text; an area that cannot be read is passed over.
\<close>

fun crossFileField ::
  "Host \<Rightarrow> string \<Rightarrow> string \<Rightarrow> (Range \<Rightarrow> bool) \<Rightarrow> string \<Rightarrow> ConfigRef \<Rightarrow> DataAreaRef list \<Rightarrow> Index
    \<Rightarrow> (Range \<times> string \<times> string) option \<times> Index" where
  "crossFileField ho root varName found referencingPath cfg [] idx = (None, idx)"
| "crossFileField ho root varName found referencingPath cfg (ref # refs) idx =
     (case ResolveDataAreaFieldLocation varName ref idx referencingPath cfg of
        ((fieldRange, dataAreaPath), idx') \<Rightarrow>
          if found fieldRange \<and> dataAreaPath \<noteq> []
          then (case hoReadFile ho (filepathJoin root dataAreaPath) of
                  Some content \<Rightarrow> (Some (fieldRange, filepathJoin root dataAreaPath, content), idx')
                | None \<Rightarrow> crossFileField ho root varName found referencingPath cfg refs idx')
          else crossFileField ho root varName found referencingPath cfg refs idx')"

definition resolveVariableDefinitionCrossFile ::
  "Host \<Rightarrow> VariableRef \<Rightarrow> FileAnalysis \<Rightarrow> string \<Rightarrow> Index \<Rightarrow> string \<Rightarrow> bool \<Rightarrow> ConfigRef \<Rightarrow> Location list \<times> Index" where
  "resolveVariableDefinitionCrossFile ho varRef fa relPath idx root utf16 cfg =
     (case crossFileField ho root (vrName varRef) (\<lambda>r. Line (Start r) > 0 \<or> Line (End r) > 0) relPath cfg
             (faDataAreaRefs fa) idx of
        (None, idx') \<Rightarrow> ([], idx')
      | (Some (r, absPath, content), idx') \<Rightarrow> ([location ho absPath r content utf16], idx'))"

section \<open>DDMs and views\<close>

definition provideDDMDefinition ::
  "Host \<Rightarrow> string \<Rightarrow> string \<Rightarrow> DataAccessEntry \<Rightarrow> Index \<Rightarrow> ConfigRef \<Rightarrow> bool \<Rightarrow> Location option \<times> Index" where
  "provideDDMDefinition ho root referencingRelPath dataAccess idx cfg utf16 =
     (if daName dataAccess = [] then (None, idx)
      else case ResolveDDMPath (daName dataAccess) idx referencingRelPath cfg of
             (targetPath, idx') \<Rightarrow>
               if targetPath = [] then (None, idx')
               else (case Get targetPath idx' of
                       None \<Rightarrow> (None, idx')
                     | Some ddmFA \<Rightarrow>
                         (map_option (\<lambda>content. definitionLocation ho root targetPath ddmFA content utf16)
                            (hoReadFile ho (filepathJoin root targetPath)), idx')))"

definition ddmFieldLocation ::
  "Host \<Rightarrow> HandlerContext \<Rightarrow> string \<Rightarrow> string \<Rightarrow> string \<Rightarrow> bool \<Rightarrow> Location list \<times> HandlerContext" where
  "ddmFieldLocation ho h fieldName ddmName relPath utf16 =
     (case hcIdx h of
        None \<Rightarrow> ([], h)
      | Some idx \<Rightarrow>
          (case ResolveDDMFieldLocation fieldName ddmName idx relPath (Some (0, hcCfg h)) of
             ((ddmFieldRange, ddmPath), idx') \<Rightarrow>
               ((if ddmFieldRange = zeroRange \<or> ddmPath = [] then []
                 else case hoReadFile ho (filepathJoin (hcRoot h) ddmPath) of
                        None \<Rightarrow> []
                      | Some content \<Rightarrow> [location ho (filepathJoin (hcRoot h) ddmPath) ddmFieldRange content utf16]),
                h\<lparr>hcIdx := Some idx'\<rparr>)))"

definition inView :: "DeclarationTarget \<Rightarrow> string option" where
  "inView t = (case dtOwningView t of
     None \<Rightarrow> None
   | Some v \<Rightarrow> if symViewOfDDM v \<noteq> [] then Some (symViewOfDDM v) else None)"

text \<open>The name of a view and a redefinition inside it lead to their own line, as it is on disk.\<close>

definition provideDefinitionForViewField ::
  "Host \<Rightarrow> HandlerContext \<Rightarrow> DeclarationTarget \<Rightarrow> string \<Rightarrow> string \<Rightarrow> bool \<Rightarrow> Location list \<times> HandlerContext" where
  "provideDefinitionForViewField ho h t absPath relPath utf16 =
     (let node = dtSymbol t;
          ownLine = (case hoReadFile ho absPath of
              None \<Rightarrow> [] | Some content \<Rightarrow> [location ho absPath (symSelectionRange node) content utf16])
      in if symViewOfDDM node \<noteq> [] \<and> symKind node = SymbolDataField then (ownLine, h)
         else case inView t of
                None \<Rightarrow> ([], h)
              | Some ddmName \<Rightarrow>
                  if symRedefines node \<noteq> [] then (ownLine, h)
                  else ddmFieldLocation ho h (symName node) ddmName relPath utf16)"

definition provideTypeDefinition ::
  "Host \<Rightarrow> HandlerContext \<Rightarrow> string \<Rightarrow> ProtocolPosition \<Rightarrow> bool \<Rightarrow> Location list \<times> HandlerContext" where
  "provideTypeDefinition ho h u pos utf16 =
     (case uriToRelPath ho (hcRoot h) u of
        None \<Rightarrow> ([], h)
      | Some (absPath, relPath) \<Rightarrow>
          (case sourceOf ho h u absPath relPath of
             None \<Rightarrow> ([], h)
           | Some (fa, content) \<Rightarrow>
               (case findDeclarationTarget fa (fromProtocolPosition pos content utf16) of
                  None \<Rightarrow> ([], h)
                | Some t \<Rightarrow>
                    (case inView t of
                       None \<Rightarrow> ([], h)
                     | Some ddmName \<Rightarrow> ddmFieldLocation ho h (symName (dtSymbol t)) ddmName relPath utf16))))"

section \<open>Calls\<close>

definition inlineSubroutine :: "FileAnalysis \<Rightarrow> string \<Rightarrow> Symbol option" where
  "inlineSubroutine fa targetName =
     (case faStructure fa of
        None \<Rightarrow> None
      | Some root \<Rightarrow> find (\<lambda>c. symKind c = SymbolSubroutine \<and> equalFold (symName c) targetName) (symChildren root))"

definition resolvedLocation :: "Host \<Rightarrow> HandlerContext \<Rightarrow> Index \<Rightarrow> string \<Rightarrow> EdgeEntry \<Rightarrow> string \<Rightarrow> bool \<Rightarrow> Location option" where
  "resolvedLocation ho h idx relPath edge target utf16 =
     (case Get target idx of
        None \<Rightarrow> None
      | Some targetFA \<Rightarrow>
          (case hoReadFile ho (filepathJoin (hcRoot h) target) of
             None \<Rightarrow> None
           | Some content \<Rightarrow>
               Some (case (if equalFold (NormalizeKey target) relPath
                           then inlineSubroutine targetFA (eeTargetName edge) else None) of
                       Some child \<Rightarrow>
                         location ho (filepathJoin (hcRoot h) target) (symSelectionRange child) content utf16
                     | None \<Rightarrow> definitionLocation ho (hcRoot h) target targetFA content utf16)))"

definition candidateLocation :: "Host \<Rightarrow> HandlerContext \<Rightarrow> Index \<Rightarrow> bool \<Rightarrow> string \<Rightarrow> Location option" where
  "candidateLocation ho h idx utf16 path =
     (case Get path idx of
        None \<Rightarrow> None
      | Some fa \<Rightarrow>
          map_option (\<lambda>content. definitionLocation ho (hcRoot h) path fa content utf16)
            (hoReadFile ho (filepathJoin (hcRoot h) path)))"

definition edgeDefinition :: "Host \<Rightarrow> HandlerContext \<Rightarrow> string \<Rightarrow> EdgeEntry \<Rightarrow> bool \<Rightarrow> Location list" where
  "edgeDefinition ho h relPath edge utf16 =
     (case (hcIdx h, resGet (hcRes h) relPath (eeSource edge)) of
        (Some idx, Some (Resolved path _)) \<Rightarrow>
          (case resolvedLocation ho h idx relPath edge path utf16 of None \<Rightarrow> [] | Some l \<Rightarrow> [l])
      | (Some idx, Some (Ambiguous candidates)) \<Rightarrow> List.map_filter (candidateLocation ho h idx utf16) candidates
      | _ \<Rightarrow> [])"

section \<open>The provider\<close>

definition variableDefinition ::
  "Host \<Rightarrow> HandlerContext \<Rightarrow> VariableRef \<Rightarrow> FileAnalysis \<Rightarrow> string \<Rightarrow> string \<Rightarrow> string \<Rightarrow> bool
    \<Rightarrow> Location list \<times> HandlerContext" where
  "variableDefinition ho h varRef fa content absPath relPath utf16 =
     (let locations = resolveVariableDefinition ho varRef fa content absPath utf16 in
      if locations \<noteq> [] then (locations, h)
      else case hcIdx h of
             None \<Rightarrow> ([], h)
           | Some idx \<Rightarrow>
               (case resolveVariableDefinitionCrossFile ho varRef fa relPath idx (hcRoot h) utf16
                       (Some (0, hcCfg h)) of
                  (locs, idx') \<Rightarrow> (locs, h\<lparr>hcIdx := Some idx'\<rparr>)))"

definition accessDefinition ::
  "Host \<Rightarrow> HandlerContext \<Rightarrow> DataAccessEntry \<Rightarrow> string \<Rightarrow> bool \<Rightarrow> Location list \<times> HandlerContext" where
  "accessDefinition ho h dataAccess relPath utf16 =
     (case hcIdx h of
        None \<Rightarrow> ([], h)
      | Some idx \<Rightarrow>
          (case provideDDMDefinition ho (hcRoot h) relPath dataAccess idx (Some (0, hcCfg h)) utf16 of
             (loc, idx') \<Rightarrow> ((case loc of None \<Rightarrow> [] | Some l \<Rightarrow> [l]), h\<lparr>hcIdx := Some idx'\<rparr>)))"

definition declarationDefinition :: "Host \<Rightarrow> FileAnalysis \<Rightarrow> Position \<Rightarrow> string \<Rightarrow> string \<Rightarrow> bool \<Rightarrow> Location option" where
  "declarationDefinition ho fa pos content absPath utf16 =
     map_option (\<lambda>decl. location ho absPath (ddNameRange decl) content utf16) (declarationAt pos (faDefinitions fa))"

definition provideDefinition ::
  "Host \<Rightarrow> (string \<Rightarrow> VariableRef list) \<Rightarrow> HandlerContext \<Rightarrow> string \<Rightarrow> ProtocolPosition \<Rightarrow> bool
    \<Rightarrow> Location list \<times> HandlerContext" where
  "provideDefinition ho refs h u pos utf16 =
     (case uriToRelPath ho (hcRoot h) u of
        None \<Rightarrow> ([], h)
      | Some (absPath, relPath) \<Rightarrow>
          (case sourceOf ho h u absPath relPath of
             None \<Rightarrow> ([], h)
           | Some (fa, content) \<Rightarrow>
               let cursorPos = fromProtocolPosition pos content utf16;
                   declTarget = findDeclarationTarget fa cursorPos
               in if Option.bind declTarget inView \<noteq> None
                  then provideDefinitionForViewField ho h (the declTarget) absPath relPath utf16
                  else let edge = findCursorTarget fa cursorPos (refs content) in
                       case edge of
                         CursorAccess a \<Rightarrow> accessDefinition ho h a relPath utf16
                       | CursorVariable v \<Rightarrow> variableDefinition ho h v fa content absPath relPath utf16
                       | _ \<Rightarrow>
                           (case declarationDefinition ho fa cursorPos content absPath utf16 of
                              Some l \<Rightarrow> ([l], h)
                            | None \<Rightarrow>
                                (case edge of
                                   CursorEdge e \<Rightarrow> (edgeDefinition ho h relPath e utf16, h)
                                 | _ \<Rightarrow> ([], h)))))"

definition provideDeclaration ::
  "Host \<Rightarrow> (string \<Rightarrow> VariableRef list) \<Rightarrow> HandlerContext \<Rightarrow> string \<Rightarrow> ProtocolPosition \<Rightarrow> bool
    \<Rightarrow> Location list \<times> HandlerContext" where
  "provideDeclaration ho refs h u pos utf16 = provideDefinition ho refs h u pos utf16"

end
