(* ===== verification/References.thy ===== *)
theory References
  imports Definition "HOL-Library.Product_Lexorder"
begin

text \<open>
  Find references and document highlights: \<open>references.go\<close> and \<open>document_highlight.go\<close>. The code sorts
  with an unstable sort by URI and start; locations that are equal there may come in any order, and
  the model's sort keeps them as they were found.
\<close>

definition startKey :: "ProtocolRange \<Rightarrow> uint32 \<times> uint32" where
  "startKey r = (ppLine (prStart r), ppCharacter (prStart r))"

definition locationKey :: "Location \<Rightarrow> string \<times> uint32 \<times> uint32" where
  "locationKey l = (locURI l, startKey (locRange l))"

section \<open>The sweep over the workspace\<close>

definition edgeMatchesTarget :: "Resolution \<Rightarrow> string \<Rightarrow> ObjectType \<Rightarrow> bool" where
  "edgeMatchesTarget resolution targetPath targetType \<longleftrightarrow>
     (case resolution of
        Resolved p t \<Rightarrow> NormalizeKey p = NormalizeKey targetPath \<and> \<not> (targetType \<noteq> ObjectNone \<and> t \<noteq> targetType)
      | _ \<Rightarrow> False)"

definition indexedLocation :: "Host \<Rightarrow> Index \<Rightarrow> string \<Rightarrow> bool \<Rightarrow> string \<Rightarrow> Range \<Rightarrow> Location" where
  "indexedLocation ho idx root utf16 path r =
     \<lparr>locURI = hoUriFile ho (filepathJoin root path), locRange = indexProtocolRange idx path r utf16\<rparr>"

definition matchingEdges ::
  "ResolutionSet \<Rightarrow> string \<Rightarrow> ObjectType \<Rightarrow> string \<times> FileAnalysis \<Rightarrow> (string \<times> Range) list" where
  "matchingEdges res targetPath targetType file =
     (case file of (filePath, fa) \<Rightarrow>
        map (\<lambda>edge. (filePath, eeSource edge))
          (filter (\<lambda>edge. case resGet (Some res) filePath (eeSource edge) of
                     None \<Rightarrow> False | Some r \<Rightarrow> edgeMatchesTarget r targetPath targetType) (faEdges fa)))"

definition matchingAccesses :: "string \<Rightarrow> ObjectType \<Rightarrow> string \<times> FileAnalysis \<Rightarrow> (string \<times> Range) list" where
  "matchingAccesses targetName targetType file =
     (case file of (filePath, fa) \<Rightarrow>
        if targetType = ObjectDDM
        then map (\<lambda>a. (filePath, daNameRange a)) (filter (\<lambda>a. equalFold (daName a) targetName) (faDataAccess fa))
        else [])"

definition declarationSite :: "Index \<Rightarrow> string \<Rightarrow> (string \<times> Range) list" where
  "declarationSite idx targetPath =
     (case Option.bind (Get targetPath idx) faStructure of
        None \<Rightarrow> [] | Some s \<Rightarrow> [(targetPath, symSelectionRange s)])"

definition referenceSites ::
  "Host \<Rightarrow> Index \<Rightarrow> ResolutionSet \<Rightarrow> string \<Rightarrow> string \<Rightarrow> string \<Rightarrow> ObjectType \<Rightarrow> bool \<Rightarrow> bool \<Rightarrow> Location list" where
  "referenceSites ho idx res root targetPath targetName targetType includeDeclaration utf16 =
     sort_key locationKey
       (map (\<lambda>(path, r). indexedLocation ho idx root utf16 path r)
         (concat (map (\<lambda>file. matchingEdges res targetPath targetType file @ matchingAccesses targetName targetType file)
                    (ixEntries idx)) @
          (if includeDeclaration then declarationSite idx targetPath else [])))"

section \<open>Variables\<close>

definition findVariableReferencesInFile ::
  "Host \<Rightarrow> VariableRef \<Rightarrow> FileAnalysis \<Rightarrow> VariableRef list \<Rightarrow> string \<Rightarrow> string \<Rightarrow> bool \<Rightarrow> bool \<Rightarrow> Location list" where
  "findVariableReferencesInFile ho varRef fa allVarRefs content absPath includeDeclaration utf16 =
     (if hasPrefix (vrName varRef) ''*'' \<or> hasPrefix (vrName varRef) ''&'' then []
      else case findDeclaration (vrName varRef) [] (faDefinitions fa) of
             [] \<Rightarrow> []
           | targetDecl # _ \<Rightarrow>
               sort_key (\<lambda>l. startKey (locRange l))
                 (map (\<lambda>ref. location ho absPath (vrRange ref) content utf16)
                    (filter (\<lambda>ref. equalFold (vrName ref) (ddName targetDecl)) allVarRefs) @
                  (if includeDeclaration \<and> Line (Start (declarationRange targetDecl)) > 0
                   then [location ho absPath (declarationRange targetDecl) content utf16] else [])))"

definition findVariableReferencesAcrossFiles ::
  "Host \<Rightarrow> VariableRef \<Rightarrow> FileAnalysis \<Rightarrow> string \<Rightarrow> Index \<Rightarrow> string \<Rightarrow> VariableRef list \<Rightarrow> string \<Rightarrow> bool \<Rightarrow> ConfigRef
    \<Rightarrow> Location list \<times> Index" where
  "findVariableReferencesAcrossFiles ho varRef fa relPath idx root allVarRefs content utf16 cfg =
     (case crossFileField ho root (vrName varRef) (\<lambda>r. \<not> (Line (Start r) = 0 \<and> Line (End r) = 0)) relPath cfg
             (faDataAreaRefs fa) idx of
        (None, idx') \<Rightarrow> ([], idx')
      | (Some (declRange, areaPath, areaContent), idx') \<Rightarrow>
          (sort_key locationKey
             (location ho areaPath declRange areaContent utf16 #
              map (\<lambda>ref. location ho (filepathJoin root relPath) (vrRange ref) content utf16)
                (filter (\<lambda>ref. equalFold (vrName ref) (vrName varRef)) allVarRefs)), idx'))"

definition variableReferences ::
  "Host \<Rightarrow> HandlerContext \<Rightarrow> VariableRef \<Rightarrow> FileAnalysis \<Rightarrow> VariableRef list \<Rightarrow> string \<Rightarrow> string \<Rightarrow> string \<Rightarrow> bool
    \<Rightarrow> bool \<Rightarrow> Location list \<times> HandlerContext" where
  "variableReferences ho h varRef fa allVarRefs content absPath relPath includeDeclaration utf16 =
     (let locations = findVariableReferencesInFile ho varRef fa allVarRefs content absPath includeDeclaration utf16 in
      if locations \<noteq> [] then (locations, h)
      else case hcIdx h of
             None \<Rightarrow> ([], h)
           | Some idx \<Rightarrow>
               (case findVariableReferencesAcrossFiles ho varRef fa relPath idx (hcRoot h) allVarRefs content utf16
                       (Some (0, hcCfg h)) of
                  (locs, idx') \<Rightarrow> (locs, h\<lparr>hcIdx := Some idx'\<rparr>)))"

section \<open>The providers\<close>

definition targetReferences ::
  "Host \<Rightarrow> HandlerContext \<Rightarrow> CursorTarget \<Rightarrow> string \<Rightarrow> bool \<Rightarrow> bool \<Rightarrow> Location list \<times> HandlerContext" where
  "targetReferences ho h target relPath includeDeclaration utf16 =
     (case (hcIdx h, hcRes h) of
        (Some idx, Some res) \<Rightarrow>
          (case target of
             CursorEdge edge \<Rightarrow>
               ((case resGet (Some res) relPath (eeSource edge) of
                   Some (Resolved path t) \<Rightarrow>
                     referenceSites ho idx res (hcRoot h) path (eeTargetName edge) t includeDeclaration utf16
                 | _ \<Rightarrow> []), h)
           | CursorAccess a \<Rightarrow>
               (case ResolveDDMPath (daName a) idx relPath (Some (0, hcCfg h)) of
                  (targetPath, idx') \<Rightarrow>
                    (referenceSites ho idx' res (hcRoot h) targetPath (daName a) ObjectDDM includeDeclaration utf16,
                     h\<lparr>hcIdx := Some idx'\<rparr>))
           | _ \<Rightarrow> ([], h))
      | _ \<Rightarrow> ([], h))"

definition declaredVariable :: "DataDefinition \<Rightarrow> VariableRef" where
  "declaredVariable decl = \<lparr>vrName = ddName decl, vrRange = ddNameRange decl\<rparr>"

definition provideReferences ::
  "Host \<Rightarrow> (string \<Rightarrow> VariableRef list) \<Rightarrow> HandlerContext \<Rightarrow> string \<Rightarrow> ProtocolPosition \<Rightarrow> bool \<Rightarrow> bool
    \<Rightarrow> Location list \<times> HandlerContext" where
  "provideReferences ho refs h u pos includeDeclaration utf16 =
     (case uriToRelPath ho (hcRoot h) u of
        None \<Rightarrow> ([], h)
      | Some (absPath, relPath) \<Rightarrow>
          (case sourceOf ho h u absPath relPath of
             None \<Rightarrow> ([], h)
           | Some (fa, content) \<Rightarrow>
               let cursorPos = fromProtocolPosition pos content utf16;
                   allVarRefs = refs content;
                   target = findCursorTarget fa cursorPos allVarRefs
               in case target of
                    CursorVariable v \<Rightarrow>
                      variableReferences ho h v fa allVarRefs content absPath relPath includeDeclaration utf16
                  | _ \<Rightarrow>
                      (case declarationAt cursorPos (faDefinitions fa) of
                         Some decl \<Rightarrow> variableReferences ho h (declaredVariable decl) fa allVarRefs content absPath
                                        relPath includeDeclaration utf16
                       | None \<Rightarrow> targetReferences ho h target relPath includeDeclaration utf16)))"

text \<open>Highlights are the references in the file itself; there is only one kind.\<close>

definition locationsToHighlights :: "Location list \<Rightarrow> ProtocolRange list" where
  "locationsToHighlights locations = sort_key startKey (map locRange locations)"

definition provideDocumentHighlight ::
  "Host \<Rightarrow> (string \<Rightarrow> VariableRef list) \<Rightarrow> HandlerContext \<Rightarrow> string \<Rightarrow> ProtocolPosition \<Rightarrow> bool \<Rightarrow> ProtocolRange list" where
  "provideDocumentHighlight ho refs h u pos utf16 =
     (case uriToRelPath ho (hcRoot h) u of
        None \<Rightarrow> []
      | Some (absPath, relPath) \<Rightarrow>
          (case sourceOf ho h u absPath relPath of
             None \<Rightarrow> []
           | Some (fa, content) \<Rightarrow>
               let cursorPos = fromProtocolPosition pos content utf16;
                   allVarRefs = refs content;
                   target = findCursorTarget fa cursorPos allVarRefs;
                   highlights = (\<lambda>v. locationsToHighlights
                       (findVariableReferencesInFile ho v fa allVarRefs content absPath True utf16))
               in case target of
                    CursorVariable v \<Rightarrow> highlights v
                  | _ \<Rightarrow>
                      (case declarationAt cursorPos (faDefinitions fa) of
                         Some decl \<Rightarrow> highlights (declaredVariable decl)
                       | None \<Rightarrow>
                           (case (target, hcIdx h, hcRes h) of
                              (CursorEdge edge, Some idx, Some res) \<Rightarrow>
                                (case resGet (Some res) relPath (eeSource edge) of
                                   Some (Resolved path t) \<Rightarrow>
                                     map locRange (filter (\<lambda>l. locURI l = hoUriFile ho absPath)
                                       (referenceSites ho idx res (hcRoot h) path (eeTargetName edge) t True utf16))
                                 | _ \<Rightarrow> [])
                            | _ \<Rightarrow> []))))"

end
