(* ===== verification/Outline.thy ===== *)
theory Outline
  imports References Build
begin

text \<open>
  Outlines: the outline of a document (\<open>document_symbols.go\<close>) and the search for symbols of the workspace
  (\<open>workspace_symbols.go\<close>), with the rendering of dimensions they share with hover (\<open>hover.go\<close>).
\<close>

section \<open>Details of a field\<close>

definition formatDimension :: "ArrayDimension \<Rightarrow> string" where
  "formatDimension d = itoa (Lower d) @ '':'' @ (if UpperUnbounded d then ''*'' else itoa (Upper d))"

definition formatDimensions :: "ArrayDimension list \<Rightarrow> string" where
  "formatDimensions dims =
     (if dims = [] then [] else ''('' @ joinStrings (map formatDimension dims) '','' @ '')'')"

datatype ProtocolSymbolKind =
    SymbolKindModule | SymbolKindFunction | SymbolKindObject | SymbolKindNamespace | SymbolKindField
  | SymbolKindStruct | SymbolKindClass

fun modelSymbolKindToProtocol :: "SymbolKind \<Rightarrow> ProtocolSymbolKind" where
  "modelSymbolKindToProtocol SymbolObject = SymbolKindModule"
| "modelSymbolKindToProtocol SymbolSubroutine = SymbolKindFunction"
| "modelSymbolKindToProtocol SymbolMap = SymbolKindObject"
| "modelSymbolKindToProtocol SymbolDataSection = SymbolKindNamespace"
| "modelSymbolKindToProtocol SymbolDataField = SymbolKindField"
| "modelSymbolKindToProtocol SymbolDDMReference = SymbolKindStruct"
| "modelSymbolKindToProtocol _ = SymbolKindObject"

text \<open>A type with its dimensions and the name of what it redefines.\<close>

definition composeDetail :: "string \<Rightarrow> Symbol \<Rightarrow> string" where
  "composeDetail typ node =
     typ
     @ (let dimStr = formatDimensions (symDimensions node) in if dimStr \<noteq> [] then '' '' @ dimStr else [])
     @ (if symRedefines node \<noteq> [] then '' REDEFINE '' @ symRedefines node else [])"

definition symbolDetail :: "Symbol \<Rightarrow> string option" where
  "symbolDetail node =
     (if symKind node \<noteq> SymbolDataField then None
      else if symViewOfDDM node \<noteq> [] then Some (''VIEW OF '' @ symViewOfDDM node)
      else if symType node = [] then None
      else Some (composeDetail (symType node) node))"

text \<open>\<open>view\<close> is the DDM of the enclosing view, if there is one.\<close>

definition symbolDetailWithTypeResolution ::
  "Symbol \<Rightarrow> string option \<Rightarrow> Index \<Rightarrow> string \<Rightarrow> ConfigRef \<Rightarrow> string option \<times> Index" where
  "symbolDetailWithTypeResolution node view idx referencingPath cfg =
     (if symKind node \<noteq> SymbolDataField then (None, idx)
      else if symViewOfDDM node \<noteq> [] then (Some (''VIEW OF '' @ symViewOfDDM node), idx)
      else case view of
             Some ddmName \<Rightarrow>
               if symType node = []
               then (case ResolveDDMFieldType (symName node) ddmName idx referencingPath cfg of
                       (inheritedType, idx') \<Rightarrow>
                         (if inheritedType \<noteq> [] then Some (composeDetail inheritedType node) else None, idx'))
               else (Some (composeDetail (symType node) node), idx)
           | None \<Rightarrow> (if symType node = [] then None else Some (composeDetail (symType node) node), idx))"

section \<open>The outline of a document\<close>

datatype DocumentSymbol =
  DocumentSymbol (dsName: string) (dsKind: ProtocolSymbolKind) (dsRange: ProtocolRange)
    (dsSelectionRange: ProtocolRange) (dsChildren: "DocumentSymbol list") (dsDetail: "string option")

function symbolToDocumentSymbol :: "string \<Rightarrow> bool \<Rightarrow> Symbol \<Rightarrow> DocumentSymbol" where
  "symbolToDocumentSymbol content utf16 node =
     DocumentSymbol (symName node) (modelSymbolKindToProtocol (symKind node))
       (toProtocolRange (symRange node) content utf16) (toProtocolRange (symSelectionRange node) content utf16)
       (map (symbolToDocumentSymbol content utf16) (symChildren node)) (symbolDetail node)"
  by pat_completeness auto
termination by (relation "measure (\<lambda>(_, _, s). size s)") (auto intro: size_symChild)

declare symbolToDocumentSymbol.simps [simp del]

lemma size_symChildren [simp]: "Suc (2 * size_list size (symChildren s)) < 2 * size s"
  by (cases s) simp

text \<open>The children are converted first, then the detail is computed; both may fill the name cache.\<close>

function symbolToDocumentSymbolRecursive ::
    "string \<Rightarrow> bool \<Rightarrow> string \<Rightarrow> ConfigRef \<Rightarrow> string option \<Rightarrow> Symbol \<Rightarrow> Index \<Rightarrow> DocumentSymbol \<times> Index"
and symbolsToDocumentSymbolsRecursive ::
    "string \<Rightarrow> bool \<Rightarrow> string \<Rightarrow> ConfigRef \<Rightarrow> string option \<Rightarrow> Symbol list \<Rightarrow> Index \<Rightarrow> DocumentSymbol list \<times> Index"
where
  "symbolToDocumentSymbolRecursive content utf16 path cfg view node idx =
     (let newView = (if symViewOfDDM node \<noteq> [] then Some (symViewOfDDM node) else view)
      in case symbolsToDocumentSymbolsRecursive content utf16 path cfg newView (symChildren node) idx of
           (children, idx1) \<Rightarrow>
             (case symbolDetailWithTypeResolution node newView idx1 path cfg of
                (detail, idx2) \<Rightarrow>
                  (DocumentSymbol (symName node) (modelSymbolKindToProtocol (symKind node))
                     (toProtocolRange (symRange node) content utf16)
                     (toProtocolRange (symSelectionRange node) content utf16) children detail, idx2)))"
| "symbolsToDocumentSymbolsRecursive content utf16 path cfg view [] idx = ([], idx)"
| "symbolsToDocumentSymbolsRecursive content utf16 path cfg view (node # nodes) idx =
     (case symbolToDocumentSymbolRecursive content utf16 path cfg view node idx of
        (d, idx1) \<Rightarrow>
          (case symbolsToDocumentSymbolsRecursive content utf16 path cfg view nodes idx1 of
             (ds, idx2) \<Rightarrow> (d # ds, idx2)))"
  by pat_completeness auto
termination
  by (relation "measure (\<lambda>x. case x of Inl (_, _, _, _, _, s, _) \<Rightarrow> 2 * size s
                            | Inr (_, _, _, _, _, ss, _) \<Rightarrow> 2 * size_list size ss + 1)")
     (auto simp: less_Suc_eq_le)

declare symbolToDocumentSymbolRecursive.simps [simp del]

text \<open>The request panics when there is no document store.\<close>

datatype OutlineResult = Outline "DocumentSymbol list" | NilStorePanic

definition indexedOutline :: "Host \<Rightarrow> HandlerContext \<Rightarrow> string \<Rightarrow> bool \<Rightarrow> DocumentSymbol list \<times> HandlerContext" where
  "indexedOutline ho h u utf16 =
     (case (hcIdx h, uriToRelPath ho (hcRoot h) u) of
        (Some idx, Some (absPath, relPath)) \<Rightarrow>
          (case Option.bind (Get relPath idx) faStructure of
             None \<Rightarrow> ([], h)
           | Some root \<Rightarrow>
               (case hoReadFile ho absPath of
                  None \<Rightarrow> ([], h)
                | Some content \<Rightarrow>
                    (case symbolToDocumentSymbolRecursive content utf16 relPath (Some (0, hcCfg h)) None root idx of
                       (d, idx') \<Rightarrow> ([d], h\<lparr>hcIdx := Some idx'\<rparr>))))
      | _ \<Rightarrow> ([], h))"

definition provideDocumentSymbols :: "Host \<Rightarrow> HandlerContext \<Rightarrow> string \<Rightarrow> bool \<Rightarrow> OutlineResult \<times> HandlerContext" where
  "provideDocumentSymbols ho h u utf16 =
     (case hcStore h of
        None \<Rightarrow> (NilStorePanic, h)
      | Some s \<Rightarrow>
          (case storeGet s u of
             Some doc \<Rightarrow>
               (case faStructure (docAnalysis doc) of
                  Some root \<Rightarrow> (Outline [symbolToDocumentSymbol (docContent doc) utf16 root], h)
                | None \<Rightarrow> (case indexedOutline ho h u utf16 of (ds, h') \<Rightarrow> (Outline ds, h')))
           | None \<Rightarrow> (case indexedOutline ho h u utf16 of (ds, h') \<Rightarrow> (Outline ds, h'))))"

section \<open>Symbols of the workspace\<close>

record SymbolInformation =
  siName :: string
  siKind :: ProtocolSymbolKind
  siLocation :: Location

definition queryMatches :: "string \<Rightarrow> string \<Rightarrow> bool" where
  "queryMatches query name \<longleftrightarrow> query = [] \<or> contains (toUpper name) (toUpper query)"

definition fileSymbols :: "Host \<Rightarrow> HandlerContext \<Rightarrow> Index \<Rightarrow> bool \<Rightarrow> string \<Rightarrow> string \<times> FileAnalysis \<Rightarrow> SymbolInformation list" where
  "fileSymbols ho h idx utf16 query file =
     (case file of (relPath, fa) \<Rightarrow>
        (case faStructure fa of
           None \<Rightarrow> []
         | Some root \<Rightarrow>
             let info = (\<lambda>kind s. \<lparr>siName = symName s, siKind = kind,
                    siLocation = indexedLocation ho idx (hcRoot h) utf16 relPath (symSelectionRange s)\<rparr>)
             in (if queryMatches query (symName root) then [info SymbolKindModule root] else [])
                @ map (info SymbolKindFunction)
                    (filter (\<lambda>c. symKind c = SymbolSubroutine \<and> queryMatches query (symName c)) (symChildren root))))"

definition provideWorkspaceSymbols :: "Host \<Rightarrow> HandlerContext \<Rightarrow> string \<Rightarrow> bool \<Rightarrow> SymbolInformation list" where
  "provideWorkspaceSymbols ho h query utf16 =
     (case hcIdx h of
        None \<Rightarrow> []
      | Some idx \<Rightarrow>
          sort_key (\<lambda>s. (toLower (siName s), locURI (siLocation s)))
            (concat (map (fileSymbols ho h idx utf16 query) (ixEntries idx))))"

end
