(* ===== verification/Hover.thy ===== *)
theory Hover
  imports Outline
begin

text \<open>
  Hover cards, \<open>hover.go\<close>: the text of the cards and the provider. The card of a call needs its
  resolution; the card of a data access the DDM of that name.
\<close>

section \<open>Cards\<close>

text \<open>The long dash of the messages, in UTF-8.\<close>

definition emDash :: string where
  "emDash = [CHR 0xE2, CHR 0x80, CHR 0x94]"

definition objectTypeLabel :: "ObjectType \<Rightarrow> string" where
  "objectTypeLabel ot =
     (case ot of
        ObjectProgram \<Rightarrow> ''program'' | ObjectSubprogram \<Rightarrow> ''subprogram''
      | ObjectExternalSubroutine \<Rightarrow> ''external subroutine'' | ObjectCopycode \<Rightarrow> ''copycode''
      | ObjectMap \<Rightarrow> ''map'' | ObjectLocalDataArea \<Rightarrow> ''local data area''
      | ObjectGlobalDataArea \<Rightarrow> ''global data area'' | ObjectParameterDataArea \<Rightarrow> ''parameter data area''
      | ObjectHelproutine \<Rightarrow> ''helproutine'' | ObjectDDM \<Rightarrow> ''ddm'' | ObjectClass \<Rightarrow> ''class''
      | ObjectFunction \<Rightarrow> ''function'' | ObjectDialog \<Rightarrow> ''dialog'' | ObjectAdapter \<Rightarrow> ''adapter''
      | ObjectText \<Rightarrow> ''text'' | _ \<Rightarrow> ''unknown'')"

definition buildModuleHover :: "string \<Rightarrow> ObjectType \<Rightarrow> string \<Rightarrow> nat \<Rightarrow> nat \<Rightarrow> string" where
  "buildModuleHover targetName targetType targetPath inboundCount outboundCount =
     joinStrings
       [''**'' @ targetName @ ''** ('' @ objectTypeLabel targetType @ '')'', targetPath,
        ''Inbound calls: '' @ itoa (int inboundCount), ''Outbound dependencies: '' @ itoa (int outboundCount)] [LF]"

definition buildUnresolvedHover :: string where
  "buildUnresolvedHover = ''Unresolved reference '' @ emDash @ '' target could not be located.''"

definition buildAmbiguousHover :: string where
  "buildAmbiguousHover = ''Ambiguous reference '' @ emDash @ '' matches multiple objects.''"

definition buildDynamicHover :: string where
  "buildDynamicHover = ''Dynamic call target '' @ emDash @ '' resolved at runtime.''"

definition renderParamType :: "DataDefinition \<Rightarrow> string" where
  "renderParamType def =
     (if ddType def = [] then []
      else let dimStr = formatDimensions (ddDimensions def)
           in if dimStr = [] then ddType def else ddType def @ '' '' @ dimStr)"

function buildParamLines :: "DataDefinition list \<Rightarrow> nat \<Rightarrow> string list" where
  "buildParamLines [] indent = []"
| "buildParamLines (def # defs) indent =
     (let prefix = concat (replicate indent ''  '')
      in (if ddType def = []
          then (prefix @ ddName def) # buildParamLines (ddChildren def) (indent + 1)
          else [prefix @ ddName def, prefix @ renderParamType def])
         @ buildParamLines defs indent)"
  by pat_completeness auto
termination
  by (relation "measure (\<lambda>(ds, _). size_list size ds)") (auto simp: size_ddChildren_less)

definition parameterDefinitions :: "DataDefinition list \<Rightarrow> DataDefinition list" where
  "parameterDefinitions defs = filter (\<lambda>def. ddSectionKind def = ''parameter'') defs"

definition buildSubroutineHover :: "string \<Rightarrow> DataDefinition list \<Rightarrow> string" where
  "buildSubroutineHover name params =
     (let paramDefs = parameterDefinitions params
      in joinStrings ((''**'' @ name @ ''** (subroutine)'') #
           (if paramDefs = [] then [''No declared parameters''] else buildParamLines paramDefs 0)) [LF])"

record paramItem =
  piName :: string
  piTypeStr :: string

function visitParams :: "DataDefinition list \<Rightarrow> paramItem list" where
  "visitParams [] = []"
| "visitParams (def # defs) =
     (if ddType def = []
      then \<lparr>piName = ddName def, piTypeStr = []\<rparr> # visitParams (ddChildren def)
      else [\<lparr>piName = ddName def, piTypeStr = renderParamType def\<rparr>])
     @ visitParams defs"
  by pat_completeness auto
termination
  by (relation "measure (\<lambda>ds. size_list size ds)") (auto simp: size_ddChildren_less)

definition parameterInterface :: "DataDefinition list \<Rightarrow> paramItem list" where
  "parameterInterface defs = visitParams (parameterDefinitions defs)"

definition countOutboundDependencies :: "FileAnalysis \<Rightarrow> nat" where
  "countOutboundDependencies fa =
     length (filter (\<lambda>e. eeKind e \<in> set [EdgeCalls, EdgeCallsDynamic, EdgePerforms, EdgeIncludes]) (faEdges fa))"

definition buildDDMHover :: "string \<Rightarrow> FileAnalysis option \<Rightarrow> string" where
  "buildDDMHover viewName ddmFA =
     (if viewName = [] then []
      else joinStrings ((''**'' @ viewName @ ''**'') #
        (case ddmFA of
           None \<Rightarrow> [''Field details unavailable from source.'']
         | Some fa \<Rightarrow>
             if faDefinitions fa = [] then [''Field details unavailable from source.'']
             else buildParamLines (faDefinitions fa) 0)) [LF])"

section \<open>The provider\<close>

record HoverCard =
  hoverValue :: string
  hoverRange :: ProtocolRange

text \<open>The type of a field for its card: from its own line, or from the DDM of its view.\<close>

definition fieldType :: "DeclarationTarget \<Rightarrow> Index \<Rightarrow> string \<Rightarrow> ConfigRef \<Rightarrow> string \<times> Index" where
  "fieldType t idx referencingPath cfg =
     (case inView t of
        Some ddmName \<Rightarrow>
          if symType (dtSymbol t) = [] then ResolveDDMFieldType (symName (dtSymbol t)) ddmName idx referencingPath cfg
          else (symType (dtSymbol t), idx)
      | None \<Rightarrow> (symType (dtSymbol t), idx))"

definition provideHoverForViewField :: "DeclarationTarget \<Rightarrow> Index \<Rightarrow> string \<Rightarrow> ConfigRef \<Rightarrow> string \<times> Index" where
  "provideHoverForViewField t idx referencingPath cfg =
     (let node = dtSymbol t in
      if symKind node \<noteq> SymbolDataField then ([], idx)
      else if symViewOfDDM node \<noteq> []
      then (''**VIEW OF '' @ symName node @ ''**'' @ [LF, LF] @ ''View over DDM: `'' @ symViewOfDDM node @ ''`'', idx)
      else case fieldType t idx referencingPath cfg of
             (typeToShow, idx') \<Rightarrow>
               if typeToShow = [] then ([], idx')
               else let dimStr = formatDimensions (symDimensions node);
                        detail = typeToShow @ (if dimStr \<noteq> [] then '' '' @ dimStr else [])
                                 @ (if symRedefines node \<noteq> [] then '', REDEFINE '' @ symRedefines node else [])
                    in (''**'' @ symName node @ ''**'' @ [LF, LF] @ ''Type: `'' @ detail @ ''`'', idx'))"

text \<open>The text of the card of a call; \<open>None\<close> when the target has left the index.\<close>

definition edgeCard ::
  "Host \<Rightarrow> Index \<Rightarrow> ResolutionSet \<Rightarrow> string \<Rightarrow> string \<Rightarrow> FileAnalysis \<Rightarrow> EdgeEntry \<Rightarrow> Resolution \<Rightarrow> bool \<Rightarrow> string option"
where
  "edgeCard ho idx res root relPath sourceFA edge resolution utf16 =
     (case resolution of
        Resolved path typ \<Rightarrow>
          (case Get path idx of
             None \<Rightarrow> None
           | Some targetFA \<Rightarrow>
               Some (if equalFold (NormalizeKey path) relPath \<and>
                        inlineSubroutine sourceFA (toUpper (eeTargetName edge)) \<noteq> None
                     then buildSubroutineHover (eeTargetName edge) (faDefinitions sourceFA)
                     else if eeKind edge = EdgePerforms
                     then buildSubroutineHover (eeTargetName edge) (faDefinitions targetFA)
                     else buildModuleHover (eeTargetName edge) typ path
                            (length (referenceSites ho idx res root path (eeTargetName edge) typ False utf16))
                            (countOutboundDependencies targetFA)))
      | Unresolved ReasonDynamic \<Rightarrow> Some buildDynamicHover
      | Ambiguous _ \<Rightarrow> Some buildAmbiguousHover
      | Unresolved ReasonNoTarget \<Rightarrow> Some buildUnresolvedHover)"

definition accessCard :: "DataAccessEntry \<Rightarrow> Index \<Rightarrow> ConfigRef \<Rightarrow> string \<times> Index" where
  "accessCard a idx cfg =
     (if daName a = [] then ([], idx)
      else case LookupByName (daName a) ObjectDDM cfg idx of
             (candidates, idx') \<Rightarrow>
               (buildDDMHover (daName a)
                  (case candidates of [] \<Rightarrow> None | c # _ \<Rightarrow> Get (cdPath c) idx'), idx'))"

definition hoverCard :: "string \<Rightarrow> Range \<Rightarrow> string \<Rightarrow> bool \<Rightarrow> HoverCard option" where
  "hoverCard value r content utf16 =
     (if value = [] then None else Some \<lparr>hoverValue = value, hoverRange = toProtocolRange r content utf16\<rparr>)"

definition hoverAt ::
  "Host \<Rightarrow> (string \<Rightarrow> VariableRef list) \<Rightarrow> HandlerContext \<Rightarrow> Index \<Rightarrow> ResolutionSet \<Rightarrow> string \<Rightarrow> FileAnalysis \<Rightarrow> string
    \<Rightarrow> ProtocolPosition \<Rightarrow> bool \<Rightarrow> HoverCard option \<times> Index" where
  "hoverAt ho refs h idx res relPath sourceFA content pos utf16 =
     (let cursorPos = fromProtocolPosition pos content utf16; cfg = Some (0, hcCfg h) in
      case findCursorTarget sourceFA cursorPos (refs content) of
        CursorEdge edge \<Rightarrow>
          (case resGet (Some res) relPath (eeSource edge) of
             None \<Rightarrow> (None, idx)
           | Some resolution \<Rightarrow>
               (case edgeCard ho idx res (hcRoot h) relPath sourceFA edge resolution utf16 of
                  None \<Rightarrow> (None, idx) | Some value \<Rightarrow> (hoverCard value (eeSource edge) content utf16, idx)))
      | CursorAccess a \<Rightarrow>
          (case accessCard a idx cfg of (value, idx') \<Rightarrow> (hoverCard value (daNameRange a) content utf16, idx'))
      | _ \<Rightarrow>
          (case findDeclarationTarget sourceFA cursorPos of
             None \<Rightarrow> (None, idx)
           | Some t \<Rightarrow>
               (case provideHoverForViewField t idx relPath cfg of
                  (value, idx') \<Rightarrow> (hoverCard value (dtNameRange t) content utf16, idx'))))"

definition provideHover ::
  "Host \<Rightarrow> (string \<Rightarrow> VariableRef list) \<Rightarrow> HandlerContext \<Rightarrow> string \<Rightarrow> ProtocolPosition \<Rightarrow> bool
    \<Rightarrow> HoverCard option \<times> HandlerContext" where
  "provideHover ho refs h u pos utf16 =
     (case (hcIdx h, hcRes h, uriToRelPath ho (hcRoot h) u) of
        (Some idx, Some res, Some (absPath, relPath)) \<Rightarrow>
          (case (Get relPath idx, hoReadFile ho absPath) of
             (Some sourceFA, Some content) \<Rightarrow>
               (case hoverAt ho refs h idx res relPath sourceFA content pos utf16 of
                  (c, idx') \<Rightarrow> (c, h\<lparr>hcIdx := Some idx'\<rparr>))
           | _ \<Rightarrow> (None, h))
      | _ \<Rightarrow> (None, h))"

end
