(* ===== verification/Completion.thy ===== *)
theory Completion
  imports Hover Runes
begin

text \<open>
  Completion (\<open>completion.go\<close>) and signature help (\<open>signature_help.go\<close>). Both look at the words of the line
  before the cursor, which \<open>tokenizeLine\<close> splits at white space, character by character.
\<close>

section \<open>Words of a line\<close>

text \<open>\<open>unicode.IsSpace\<close> on a code point, and the UTF-8 encoding \<open>WriteRune\<close> appends.\<close>

definition isSpaceRune :: "nat \<Rightarrow> bool" where
  "isSpaceRune r \<longleftrightarrow> 9 \<le> r \<and> r \<le> 13 \<or> 0x2000 \<le> r \<and> r \<le> 0x200A \<or>
     r \<in> set [0x20, 0x85, 0xA0, 0x1680, 0x2028, 0x2029, 0x202F, 0x205F, 0x3000]"

definition encodeRune :: "nat \<Rightarrow> string" where
  "encodeRune r =
     map char_of
       (if r < 0x80 then [r]
        else if r < 0x800 then [0xC0 + r div 64, 0x80 + r mod 64]
        else if r < 0x10000 then [0xE0 + r div 4096, 0x80 + r div 64 mod 64, 0x80 + r mod 64]
        else [0xF0 + r div 262144, 0x80 + r div 4096 mod 64, 0x80 + r div 64 mod 64, 0x80 + r mod 64])"

text \<open>The word at the end of the line is only taken when its last character starts at the last byte.\<close>

fun tokenizeLoop :: "nat \<Rightarrow> string list \<Rightarrow> string \<Rightarrow> (nat \<times> nat) list \<Rightarrow> string list" where
  "tokenizeLoop n tokens current [] = tokens"
| "tokenizeLoop n tokens current ((i, ch) # rest) =
     (let (tokens1, current1) =
            (if isSpaceRune ch
             then (if length current > 0 then (tokens @ [current], []) else (tokens, current))
             else (tokens, current @ encodeRune ch))
      in tokenizeLoop n (if i + 1 = n \<and> length current1 > 0 then tokens1 @ [current1] else tokens1) current1 rest)"

definition tokenizeLine :: "string \<Rightarrow> string list" where
  "tokenizeLine prefix = tokenizeLoop (length prefix) [] [] (runes prefix)"

definition endsWithSpace :: "string \<Rightarrow> bool" where
  "endsWithSpace prefix \<longleftrightarrow> prefix \<noteq> [] \<and> isSpaceRune (byteVal (last prefix))"

definition clampCursor :: "string \<Rightarrow> int \<Rightarrow> nat" where
  "clampCursor line cursorByteCol =
     (if cursorByteCol < 0 then 0 else if cursorByteCol > int (length line) then length line else nat cursorByteCol)"

section \<open>What to complete\<close>

datatype completionKindType =
    ctxNoneType | ctxSubroutineType | ctxProgramType | ctxCopycodeType | ctxDDMFieldType

record completionKind =
  ckKind :: completionKindType
  ckObjType :: ObjectType
  ckDDMName :: string

definition ctxNone :: completionKind where
  "ctxNone = \<lparr>ckKind = ctxNoneType, ckObjType = ObjectUnknown, ckDDMName = []\<rparr>"
definition ctxProgram :: completionKind where
  "ctxProgram = \<lparr>ckKind = ctxProgramType, ckObjType = ObjectProgram, ckDDMName = []\<rparr>"
definition ctxCopycode :: completionKind where
  "ctxCopycode = \<lparr>ckKind = ctxCopycodeType, ckObjType = ObjectCopycode, ckDDMName = []\<rparr>"
definition newSubroutineContext :: "ObjectType \<Rightarrow> completionKind" where
  "newSubroutineContext objType = \<lparr>ckKind = ctxSubroutineType, ckObjType = objType, ckDDMName = []\<rparr>"
definition newDDMFieldContext :: "string \<Rightarrow> completionKind" where
  "newDDMFieldContext ddmName = \<lparr>ckKind = ctxDDMFieldType, ckObjType = ObjectUnknown, ckDDMName = ddmName\<rparr>"

definition extractPartialPrefix :: "string \<Rightarrow> string" where
  "extractPartialPrefix token = toUpper (if hasPrefix token [QUOTE] then tl token else token)"

definition isDataAccessVerb :: "string \<Rightarrow> bool" where
  "isDataAccessVerb keyword \<longleftrightarrow>
     keyword \<in> set [''READ'', ''FIND'', ''GET'', ''STORE'', ''UPDATE'', ''DELETE'']"

definition classifyKeyword :: "string \<Rightarrow> string list \<Rightarrow> completionKind option" where
  "classifyKeyword firstKeyword tokens =
     (if firstKeyword = ''CALLNAT'' then Some (newSubroutineContext ObjectSubprogram)
      else if firstKeyword = ''FETCH'' \<or> firstKeyword = ''RUN'' then Some ctxProgram
      else if firstKeyword = ''INCLUDE'' then Some ctxCopycode
      else if firstKeyword = ''PERFORM'' then Some (newSubroutineContext ObjectExternalSubroutine)
      else if isDataAccessVerb firstKeyword
      then Some (newDDMFieldContext
             (case tokens of _ # t # _ \<Rightarrow> (let d = toUpper t in if hasPrefix d [QUOTE] then tl d else d) | _ \<Rightarrow> []))
      else None)"

definition detectCompletionContext :: "string \<Rightarrow> int \<Rightarrow> completionKind \<times> string" where
  "detectCompletionContext line cursorByteCol =
     (let prefix = take (clampCursor line cursorByteCol) line;
          tokens = tokenizeLine prefix
      in case tokens of
           [] \<Rightarrow> (ctxNone, [])
         | first # others \<Rightarrow>
             (let partialPrefix = (if others = [] \<or> endsWithSpace prefix then [] else extractPartialPrefix (last tokens))
              in if others = [] \<and> length prefix = length first then (ctxNone, [])
                 else case classifyKeyword (toUpper first) tokens of
                        None \<Rightarrow> (ctxNone, []) | Some k \<Rightarrow> (k, partialPrefix)))"

section \<open>Completion items\<close>

datatype CompletionItemKind =
    CompletionItemKindModule | CompletionItemKindFile | CompletionItemKindReference
  | CompletionItemKindFunction | CompletionItemKindStruct | CompletionItemKindText | CompletionItemKindField

record CompletionItem =
  ciLabel :: string
  ciKind :: CompletionItemKind
  ciDetail :: "string option"
  ciSortText :: "string option"

definition objectTypeToCompletionKind :: "ObjectType \<Rightarrow> CompletionItemKind" where
  "objectTypeToCompletionKind ot =
     (case ot of
        ObjectSubprogram \<Rightarrow> CompletionItemKindModule | ObjectProgram \<Rightarrow> CompletionItemKindFile
      | ObjectCopycode \<Rightarrow> CompletionItemKindReference | ObjectExternalSubroutine \<Rightarrow> CompletionItemKindFunction
      | ObjectDDM \<Rightarrow> CompletionItemKindStruct | _ \<Rightarrow> CompletionItemKindText)"

definition isDynamicPrefix :: "string \<Rightarrow> bool" where
  "isDynamicPrefix prefix \<longleftrightarrow> prefix \<noteq> [] \<and> hd prefix \<in> set [CHR ''#'', CHR ''&'', CHR ''+'']"

definition provideModuleCompletion ::
  "Index option \<Rightarrow> ConfigRef \<Rightarrow> string \<Rightarrow> string \<Rightarrow> ObjectType \<Rightarrow> CompletionItem list \<times> Index option" where
  "provideModuleCompletion idx cfg relPath prefix objType =
     (case idx of
        None \<Rightarrow> ([], None)
      | Some idx \<Rightarrow>
          (case NamesWithPrefix prefix objType relPath cfg idx of
             (candidates, idx') \<Rightarrow>
               (map (\<lambda>c. \<lparr>ciLabel = cdName c, ciKind = objectTypeToCompletionKind (cdType c),
                          ciDetail = Some (objectTypeLabel (cdType c)), ciSortText = None\<rparr>) candidates,
                Some idx')))"

function collectFieldCompletions :: "DataDefinition list \<Rightarrow> string \<Rightarrow> CompletionItem list" where
  "collectFieldCompletions [] fieldPrefixUpper = []"
| "collectFieldCompletions (def # defs) fieldPrefixUpper =
     (if fieldPrefixUpper = [] \<or> contains (toUpper (ddName def)) fieldPrefixUpper
      then [\<lparr>ciLabel = ddName def, ciKind = CompletionItemKindField, ciDetail = Some (ddType def), ciSortText = None\<rparr>]
      else [])
     @ collectFieldCompletions (ddChildren def) fieldPrefixUpper @ collectFieldCompletions defs fieldPrefixUpper"
  by pat_completeness auto
termination
  by (relation "measure (\<lambda>(ds, _). size_list size ds)") (auto simp: size_ddChildren_less)

definition provideDDMFieldCompletion ::
  "Index option \<Rightarrow> ConfigRef \<Rightarrow> string \<Rightarrow> string \<Rightarrow> CompletionItem list \<times> Index option" where
  "provideDDMFieldCompletion idx cfg ddmName fieldPrefix =
     (case idx of
        None \<Rightarrow> ([], None)
      | Some idx \<Rightarrow>
          if ddmName = [] then ([], Some idx)
          else (case LookupByName ddmName ObjectDDM cfg idx of
                  (candidates, idx') \<Rightarrow>
                    (case candidates of
                       [c] \<Rightarrow> (case Get (cdPath c) idx' of
                                 None \<Rightarrow> []
                               | Some ddm \<Rightarrow> collectFieldCompletions (faDefinitions ddm) (toUpper fieldPrefix))
                     | _ \<Rightarrow> [], Some idx')))"

text \<open>The subroutines of the caller's own file come first, in the client's order as well.\<close>

definition inlineItems :: "FileAnalysis option \<Rightarrow> string \<Rightarrow> CompletionItem list" where
  "inlineItems callerAnalysis prefix =
     (case Option.bind callerAnalysis faStructure of
        None \<Rightarrow> []
      | Some root \<Rightarrow>
          map (\<lambda>child. \<lparr>ciLabel = symName child, ciKind = CompletionItemKindFunction, ciDetail = None,
                        ciSortText = Some (''0'' @ toUpper (symName child))\<rparr>)
            (filter (\<lambda>child. symKind child = SymbolSubroutine \<and> hasPrefix (toUpper (symName child)) (toUpper prefix))
               (symChildren root)))"

definition performItems ::
  "HandlerContext \<Rightarrow> string \<Rightarrow> string \<Rightarrow> string \<Rightarrow> CompletionItem list \<times> Index option" where
  "performItems h u relPath prefix =
     (if isDynamicPrefix prefix then ([], hcIdx h)
      else let callerAnalysis =
                 (case Option.bind (hcStore h) (\<lambda>s. storeGet s u) of
                    Some doc \<Rightarrow> Some (docAnalysis doc)
                  | None \<Rightarrow> Option.bind (hcIdx h) (Get relPath))
           in case provideModuleCompletion (hcIdx h) (Some (0, hcCfg h)) relPath prefix ObjectExternalSubroutine of
                (externalItems, idx') \<Rightarrow>
                  (inlineItems callerAnalysis prefix @
                   map (\<lambda>item. item\<lparr>ciSortText := Some (''1'' @ toUpper (ciLabel item))\<rparr>) externalItems, idx'))"

definition completionText :: "Host \<Rightarrow> HandlerContext \<Rightarrow> string \<Rightarrow> string option" where
  "completionText ho h u =
     (let content = (case Option.bind (hcStore h) (\<lambda>s. storeGet s u) of Some doc \<Rightarrow> docContent doc | None \<Rightarrow> [])
      in if content \<noteq> [] then Some content
         else case (hcIdx h, uriToRelPath ho (hcRoot h) u) of
                (Some _, Some (absPath, _)) \<Rightarrow> hoReadFile ho absPath
              | _ \<Rightarrow> None)"

definition completionItems ::
  "Host \<Rightarrow> HandlerContext \<Rightarrow> string \<Rightarrow> completionKind \<Rightarrow> string \<Rightarrow> CompletionItem list \<times> Index option" where
  "completionItems ho h u kind prefix =
     (case ckKind kind of
        ctxNoneType \<Rightarrow> ([], hcIdx h)
      | ctxDDMFieldType \<Rightarrow> provideDDMFieldCompletion (hcIdx h) (Some (0, hcCfg h)) (ckDDMName kind) prefix
      | _ \<Rightarrow>
          (case uriToRelPath ho (hcRoot h) u of
             None \<Rightarrow> ([], hcIdx h)
           | Some (_, relPath) \<Rightarrow>
               if ckKind kind = ctxSubroutineType \<and> ckObjType kind = ObjectExternalSubroutine
               then performItems h u relPath prefix
               else provideModuleCompletion (hcIdx h) (Some (0, hcCfg h)) relPath prefix (ckObjType kind)))"

definition provideCompletion ::
  "Host \<Rightarrow> HandlerContext \<Rightarrow> string \<Rightarrow> ProtocolPosition \<Rightarrow> bool \<Rightarrow> CompletionItem list \<times> HandlerContext" where
  "provideCompletion ho h u pos utf16 =
     (case completionText ho h u of
        None \<Rightarrow> ([], h)
      | Some content \<Rightarrow>
          let modelPos = fromProtocolPosition pos content utf16;
              line = lineAt content (Line modelPos - 1)
          in case detectCompletionContext line (int (clampCursor line (Column modelPos - 1))) of
               (kind, prefix) \<Rightarrow>
                 (case completionItems ho h u kind prefix of (items, idx') \<Rightarrow> (items, h\<lparr>hcIdx := idx'\<rparr>)))"

section \<open>Signature help\<close>

datatype sigContextKind = sigNone | sigCallnat | sigPerform

definition detectSignatureContext :: "string \<Rightarrow> int \<Rightarrow> sigContextKind \<times> nat" where
  "detectSignatureContext line cursorByteCol =
     (if cursorByteCol > int (length line) + 1 then (sigNone, 0)
      else let prefix = take (clampCursor line cursorByteCol) line in
      case tokenizeLine prefix of
        [] \<Rightarrow> (sigNone, 0)
      | first # others \<Rightarrow>
          (let kind = (if toUpper first = ''CALLNAT'' then sigCallnat
                       else if toUpper first = ''PERFORM'' then sigPerform else sigNone);
               argTokenCount = length others - 1
           in if kind = sigNone then (sigNone, 0)
              else if others = [] \<and> length prefix = length first then (sigNone, 0)
              else (kind, if endsWithSpace prefix then argTokenCount else argTokenCount - 1)))"

record SignatureInformation =
  sgLabel :: string
  sgParameters :: "string list"
  sgActiveParameter :: "uint32 option"

definition buildSignatureInformation :: "string \<Rightarrow> DataDefinition list \<Rightarrow> SignatureInformation" where
  "buildSignatureInformation name defs =
     (let params = parameterInterface defs
      in \<lparr>sgLabel = (if params = [] then name else name @ '' ('' @ joinStrings (map piName params) '', '' @ '')''),
          sgParameters = map (\<lambda>p. if piTypeStr p = [] then piName p else piName p @ '' '' @ piTypeStr p) params,
          sgActiveParameter = None\<rparr>)"

definition setActiveParameter :: "SignatureInformation \<Rightarrow> nat \<Rightarrow> SignatureInformation" where
  "setActiveParameter sig argIndex =
     (if sgParameters sig = [] then sig
      else sig\<lparr>sgActiveParameter := Some (of_nat
             (if argIndex \<ge> length (sgParameters sig) then length (sgParameters sig) - 1 else argIndex))\<rparr>)"

definition enclosingCallEdge :: "FileAnalysis \<Rightarrow> int \<Rightarrow> EdgeKind list \<Rightarrow> EdgeEntry option" where
  "enclosingCallEdge fa lineZero kinds =
     find (\<lambda>edge. Line (Start (eeSource edge)) = lineZero + 1 \<and> eeKind edge \<in> set kinds) (faEdges fa)"

definition resolvedTarget :: "Index \<Rightarrow> ResolutionSet \<Rightarrow> string \<Rightarrow> EdgeEntry \<Rightarrow> FileAnalysis option" where
  "resolvedTarget idx res relPath edge =
     (case resGet (Some res) relPath (eeSource edge) of
        Some (Resolved path _) \<Rightarrow> Get path idx
      | _ \<Rightarrow> None)"

definition signatureAt ::
  "Index \<Rightarrow> ResolutionSet \<Rightarrow> string \<Rightarrow> FileAnalysis \<Rightarrow> sigContextKind \<Rightarrow> int \<Rightarrow> (string \<times> DataDefinition list) option"
where
  "signatureAt idx res relPath sourceFA sigKind lineZero =
     (case sigKind of
        sigNone \<Rightarrow> None
      | sigCallnat \<Rightarrow>
          (case enclosingCallEdge sourceFA lineZero [EdgeCalls, EdgeCallsDynamic] of
             None \<Rightarrow> None
           | Some edge \<Rightarrow>
               map_option (\<lambda>fa. (eeTargetName edge, faDefinitions fa)) (resolvedTarget idx res relPath edge))
      | sigPerform \<Rightarrow>
          (case enclosingCallEdge sourceFA lineZero [EdgePerforms] of
             None \<Rightarrow> None
           | Some edge \<Rightarrow>
               if inlineSubroutine sourceFA (toUpper (eeTargetName edge)) \<noteq> None
               then Some (eeTargetName edge, faDefinitions sourceFA)
               else map_option (\<lambda>fa. (eeTargetName edge, faDefinitions fa)) (resolvedTarget idx res relPath edge)))"

definition provideSignatureHelp ::
  "Host \<Rightarrow> HandlerContext \<Rightarrow> string \<Rightarrow> ProtocolPosition \<Rightarrow> bool \<Rightarrow> SignatureInformation option" where
  "provideSignatureHelp ho h u pos utf16 =
     (case (hcIdx h, hcRes h, uriToRelPath ho (hcRoot h) u) of
        (Some idx, Some res, Some (absPath, relPath)) \<Rightarrow>
          (case sourceOf ho h u absPath relPath of
             None \<Rightarrow> None
           | Some (sourceFA, content) \<Rightarrow>
               let cursorPos = fromProtocolPosition pos content utf16;
                   line = lineAt content (Line cursorPos - 1)
               in case detectSignatureContext line (int (clampCursor line (Column cursorPos - 1))) of
                    (sigKind, argIndex) \<Rightarrow>
                      map_option (\<lambda>(name, defs). setActiveParameter (buildSignatureInformation name defs) argIndex)
                        (signatureAt idx res relPath sourceFA sigKind (Line cursorPos - 1)))
      | _ \<Rightarrow> None)"

end
