(* ===== verification/CallHierarchy.thy ===== *)
theory CallHierarchy
  imports Outline
begin

text \<open>
  The call hierarchy, \<open>call_hierarchy.go\<close>. An item carries the identity of its symbol in its data, which
  the client sends back; data that is empty or does not decode is no identity. The calls of a map by
  caller or callee are in a list, which the code sorts before it is read.
\<close>

section \<open>Items\<close>

record callHierarchyItemData =
  idPath :: string
  idName :: string
  idKind :: SymbolKind

record CallHierarchyItem =
  chName :: string
  chKind :: ProtocolSymbolKind
  chURI :: string
  chRange :: ProtocolRange
  chSelectionRange :: ProtocolRange
  chData :: "callHierarchyItemData option"

definition buildCallHierarchyItem :: "Host \<Rightarrow> string \<Rightarrow> string \<Rightarrow> string \<Rightarrow> Symbol \<Rightarrow> bool \<Rightarrow> CallHierarchyItem" where
  "buildCallHierarchyItem ho root relPath content node utf16 =
     \<lparr>chName = symName node, chKind = modelSymbolKindToProtocol (symKind node),
      chURI = hoUriFile ho (filepathJoin root relPath),
      chRange = toProtocolRange (symRange node) content utf16,
      chSelectionRange = toProtocolRange (symSelectionRange node) content utf16,
      chData = Some \<lparr>idPath = relPath, idName = symName node, idKind = symKind node\<rparr>\<rparr>"

definition findSymbolInChildren :: "Symbol list \<Rightarrow> string \<Rightarrow> SymbolKind \<Rightarrow> Symbol option" where
  "findSymbolInChildren children name kind = find (\<lambda>c. symKind c = kind \<and> equalFold (symName c) name) children"

text \<open>The symbol the data of an item names, else the one at its selection range in the file of its URI.\<close>

definition symbolOfData :: "Index \<Rightarrow> callHierarchyItemData \<Rightarrow> (string \<times> FileAnalysis \<times> Symbol) option" where
  "symbolOfData idx d =
     (case Get (idPath d) idx of
        None \<Rightarrow> None
      | Some fa \<Rightarrow>
          (case faStructure fa of
             None \<Rightarrow> None
           | Some root \<Rightarrow>
               if equalFold (symName root) (idName d) \<and> symKind root = idKind d then Some (idPath d, fa, root)
               else map_option (\<lambda>s. (idPath d, fa, s))
                      (findSymbolInChildren (symChildren root) (idName d) (idKind d))))"

definition symbolOfRange ::
  "Host \<Rightarrow> Index \<Rightarrow> string \<Rightarrow> CallHierarchyItem \<Rightarrow> bool \<Rightarrow> (string \<times> FileAnalysis \<times> Symbol) option" where
  "symbolOfRange ho idx root item utf16 =
     (case uriToRelPath ho root (chURI item) of
        None \<Rightarrow> None
      | Some (absPath, relPath) \<Rightarrow>
          (case Get relPath idx of
             None \<Rightarrow> None
           | Some fa \<Rightarrow>
               (case faStructure fa of
                  None \<Rightarrow> None
                | Some node \<Rightarrow>
                    (case hoReadFile ho absPath of
                       None \<Rightarrow> Some (relPath, fa, node)
                     | Some content \<Rightarrow>
                         map_option (\<lambda>s. (relPath, fa, s))
                           (find (\<lambda>s. toProtocolRange (symSelectionRange s) content utf16 = chSelectionRange item)
                              (node # symChildren node))))))"

definition resolveItemIdentity ::
  "Host \<Rightarrow> Index \<Rightarrow> string \<Rightarrow> CallHierarchyItem \<Rightarrow> bool \<Rightarrow> (string \<times> FileAnalysis \<times> Symbol) option" where
  "resolveItemIdentity ho idx root item utf16 =
     (case Option.bind (chData item) (symbolOfData idx) of
        Some found \<Rightarrow> Some found
      | None \<Rightarrow> symbolOfRange ho idx root item utf16)"

section \<open>Preparing\<close>

definition cursorInRange :: "Range \<Rightarrow> Position \<Rightarrow> bool" where
  "cursorInRange r pos \<longleftrightarrow>
     \<not> (Line pos < Line (Start r) \<or> (Line pos = Line (Start r) \<and> Column pos < Column (Start r))) \<and>
     \<not> (Line pos > Line (End r) \<or> (Line pos = Line (End r) \<and> Column pos > Column (End r)))"

definition isEmptyRange :: "Range \<Rightarrow> bool" where
  "isEmptyRange r \<longleftrightarrow> Start r = End r"

definition isCallableEdgeKind :: "EdgeKind \<Rightarrow> bool" where
  "isCallableEdgeKind kind \<longleftrightarrow>
     kind \<in> set [EdgeCalls, EdgeCallsDynamic, EdgePerforms, EdgeNavigatesTo, EdgeNavigatesToDynamic]"

definition adjustCallHierarchyItemKind :: "CallHierarchyItem \<Rightarrow> ObjectType \<Rightarrow> CallHierarchyItem" where
  "adjustCallHierarchyItemKind item objType =
     (if objType \<in> set [ObjectSubprogram, ObjectExternalSubroutine, ObjectHelproutine, ObjectFunction]
      then item\<lparr>chKind := SymbolKindFunction\<rparr>
      else if objType \<in> set [ObjectClass, ObjectDialog, ObjectAdapter] then item\<lparr>chKind := SymbolKindClass\<rparr>
      else item)"

definition subroutineOf :: "FileAnalysis \<Rightarrow> string \<Rightarrow> Symbol option" where
  "subroutineOf fa name =
     (case faStructure fa of
        None \<Rightarrow> None
      | Some root \<Rightarrow> findSymbolInChildren (symChildren root) name SymbolSubroutine)"

text \<open>An indexed file with a structure that can be read, and the item of its root.\<close>

definition rootItem :: "Host \<Rightarrow> HandlerContext \<Rightarrow> Index \<Rightarrow> bool \<Rightarrow> string \<Rightarrow> CallHierarchyItem option" where
  "rootItem ho h idx utf16 path =
     (case Get path idx of
        None \<Rightarrow> None
      | Some fa \<Rightarrow>
          (case (faStructure fa, hoReadFile ho (filepathJoin (hcRoot h) path)) of
             (Some node, Some content) \<Rightarrow> Some (buildCallHierarchyItem ho (hcRoot h) path content node utf16)
           | _ \<Rightarrow> None))"

definition resolvedItems ::
  "Host \<Rightarrow> HandlerContext \<Rightarrow> Index \<Rightarrow> string \<Rightarrow> EdgeEntry \<Rightarrow> string \<Rightarrow> bool \<Rightarrow> CallHierarchyItem list" where
  "resolvedItems ho h idx relPath edge target utf16 =
     (case Get target idx of
        None \<Rightarrow> []
      | Some targetFA \<Rightarrow>
          (case hoReadFile ho (filepathJoin (hcRoot h) target) of
             None \<Rightarrow> []
           | Some content \<Rightarrow>
               (case (if equalFold (NormalizeKey target) relPath
                      then subroutineOf targetFA (toUpper (eeTargetName edge)) else None) of
                  Some child \<Rightarrow> [buildCallHierarchyItem ho (hcRoot h) relPath content child utf16]
                | None \<Rightarrow>
                    (case faStructure targetFA of
                       None \<Rightarrow> []
                     | Some node \<Rightarrow> [buildCallHierarchyItem ho (hcRoot h) target content node utf16]))))"

definition candidateItem :: "Host \<Rightarrow> HandlerContext \<Rightarrow> Index \<Rightarrow> bool \<Rightarrow> string \<Rightarrow> CallHierarchyItem option" where
  "candidateItem ho h idx utf16 path =
     (case (Get path idx, rootItem ho h idx utf16 path) of
        (Some fa, Some item) \<Rightarrow> Some (adjustCallHierarchyItemKind item (faObjectType fa))
      | _ \<Rightarrow> None)"

definition callSiteItems ::
  "Host \<Rightarrow> HandlerContext \<Rightarrow> Index \<Rightarrow> ResolutionSet \<Rightarrow> string \<Rightarrow> EdgeEntry \<Rightarrow> bool \<Rightarrow> CallHierarchyItem list" where
  "callSiteItems ho h idx res relPath edge utf16 =
     (case resGet (Some res) relPath (eeSource edge) of
        Some (Resolved path _) \<Rightarrow> resolvedItems ho h idx relPath edge path utf16
      | Some (Ambiguous candidates) \<Rightarrow> List.map_filter (candidateItem ho h idx utf16) candidates
      | _ \<Rightarrow> [])"

definition definitionItems ::
  "Host \<Rightarrow> HandlerContext \<Rightarrow> string \<Rightarrow> FileAnalysis \<Rightarrow> string \<Rightarrow> Position \<Rightarrow> bool \<Rightarrow> CallHierarchyItem list" where
  "definitionItems ho h relPath fa content pos utf16 =
     (case faStructure fa of
        None \<Rightarrow> []
      | Some node \<Rightarrow>
          let named = (\<lambda>s. \<not> isEmptyRange (symSelectionRange s) \<and> cursorInRange (symSelectionRange s) pos)
          in if named node then [buildCallHierarchyItem ho (hcRoot h) relPath content node utf16]
             else case find (\<lambda>c. symKind c = SymbolSubroutine \<and> (named c \<or> cursorInRange (symRange c) pos))
                         (symChildren node) of
                    None \<Rightarrow> []
                  | Some child \<Rightarrow> [buildCallHierarchyItem ho (hcRoot h) relPath content child utf16])"

definition providePrepareCallHierarchy ::
  "Host \<Rightarrow> (string \<Rightarrow> VariableRef list) \<Rightarrow> HandlerContext \<Rightarrow> string \<Rightarrow> ProtocolPosition \<Rightarrow> bool
    \<Rightarrow> CallHierarchyItem list" where
  "providePrepareCallHierarchy ho refs h u pos utf16 =
     (case (hcIdx h, hcRes h, uriToRelPath ho (hcRoot h) u) of
        (Some idx, Some res, Some (absPath, relPath)) \<Rightarrow>
          (case sourceOf ho h u absPath relPath of
             None \<Rightarrow> []
           | Some (sourceFA, content) \<Rightarrow>
               let cursorPos = fromProtocolPosition pos content utf16;
                   atDefinition = definitionItems ho h relPath sourceFA content cursorPos utf16
               in case findCursorTarget sourceFA cursorPos (refs content) of
                    CursorEdge edge \<Rightarrow>
                      if isCallableEdgeKind (eeKind edge) then callSiteItems ho h idx res relPath edge utf16
                      else atDefinition
                  | _ \<Rightarrow> atDefinition)
      | _ \<Rightarrow> [])"

section \<open>Incoming calls\<close>

text \<open>The code passes the name of the target too, and does not use it.\<close>

definition incomingCallSites ::
  "Index \<Rightarrow> ResolutionSet \<Rightarrow> string \<Rightarrow> ObjectType \<Rightarrow> string \<Rightarrow> (string \<times> Range list) list" where
  "incomingCallSites idx res targetPath targetType targetName =
     filter (\<lambda>(_, ranges). ranges \<noteq> [])
       (map (\<lambda>file. (fst file, map snd (matchingEdges res targetPath targetType file))) (ixEntries idx))"

record CallHierarchyCall =
  ccItem :: CallHierarchyItem
  ccFromRanges :: "ProtocolRange list"

definition fromRanges :: "Range list \<Rightarrow> string \<Rightarrow> bool \<Rightarrow> ProtocolRange list" where
  "fromRanges ranges content utf16 = sort_key startKey (map (\<lambda>r. toProtocolRange r content utf16) ranges)"

definition incomingCall ::
  "Host \<Rightarrow> HandlerContext \<Rightarrow> Index \<Rightarrow> bool \<Rightarrow> string \<times> Range list \<Rightarrow> CallHierarchyCall option" where
  "incomingCall ho h idx utf16 entry =
     (case entry of (callerPath, ranges) \<Rightarrow>
        (case (rootItem ho h idx utf16 callerPath, hoReadFile ho (filepathJoin (hcRoot h) callerPath)) of
           (Some item, Some content) \<Rightarrow> Some \<lparr>ccItem = item, ccFromRanges = fromRanges ranges content utf16\<rparr>
         | _ \<Rightarrow> None))"

definition provideIncomingCalls :: "Host \<Rightarrow> HandlerContext \<Rightarrow> CallHierarchyItem \<Rightarrow> bool \<Rightarrow> CallHierarchyCall list" where
  "provideIncomingCalls ho h item utf16 =
     (case (hcIdx h, hcRes h) of
        (Some idx, Some res) \<Rightarrow>
          (case resolveItemIdentity ho idx (hcRoot h) item utf16 of
             None \<Rightarrow> []
           | Some (targetPath, targetFA, targetSym) \<Rightarrow>
               List.map_filter (incomingCall ho h idx utf16)
                 (sort_key fst (incomingCallSites idx res targetPath (faObjectType targetFA) (toUpper (symName targetSym)))))
      | _ \<Rightarrow> [])"

section \<open>Outgoing calls\<close>

text \<open>The key a call is grouped under: the path of the callee, or the path and the name of a subroutine.\<close>

definition calleeKey :: "ResolutionSet \<Rightarrow> string \<Rightarrow> FileAnalysis \<Rightarrow> EdgeEntry \<Rightarrow> string option" where
  "calleeKey res sourcePath sourceFA edge =
     (if eeKind edge \<notin> set [EdgeCalls, EdgeNavigatesTo, EdgePerforms] then None
      else case resGet (Some res) sourcePath (eeSource edge) of
             Some (Resolved path _) \<Rightarrow>
               if eeKind edge = EdgePerforms \<and> equalFold (NormalizeKey path) sourcePath
               then (let targetName = toUpper (eeTargetName edge)
                     in if subroutineOf sourceFA targetName = None then None
                        else Some (sourcePath @ ''|'' @ targetName))
               else Some (NormalizeKey path)
           | _ \<Rightarrow> None)"

definition outgoingCallSites :: "ResolutionSet \<Rightarrow> string \<Rightarrow> FileAnalysis \<Rightarrow> (string \<times> Range list) list" where
  "outgoingCallSites res sourcePath sourceFA =
     (let keyed = List.map_filter (\<lambda>e. map_option (\<lambda>k. (k, eeSource e)) (calleeKey res sourcePath sourceFA e))
                    (faEdges sourceFA)
      in map (\<lambda>key. (key, map snd (filter (\<lambda>(k, _). k = key) keyed))) (firsts (map fst keyed)))"

text \<open>A key with a bar is a subroutine of the source; its name is what follows the first bar.\<close>

definition outgoingCall ::
  "Host \<Rightarrow> HandlerContext \<Rightarrow> Index \<Rightarrow> string \<Rightarrow> FileAnalysis \<Rightarrow> string \<Rightarrow> bool \<Rightarrow> string \<times> Range list
    \<Rightarrow> CallHierarchyCall option" where
  "outgoingCall ho h idx sourcePath sourceFA content utf16 entry =
     (case entry of (key, ranges) \<Rightarrow>
        map_option (\<lambda>item. \<lparr>ccItem = item, ccFromRanges = fromRanges ranges content utf16\<rparr>)
          (if CHR ''|'' \<in> set key
           then map_option (\<lambda>node. buildCallHierarchyItem ho (hcRoot h) sourcePath content node utf16)
                  (subroutineOf sourceFA (tl (dropWhile (\<lambda>c. c \<noteq> CHR ''|'') key)))
           else rootItem ho h idx utf16 key))"

definition provideOutgoingCalls :: "Host \<Rightarrow> HandlerContext \<Rightarrow> CallHierarchyItem \<Rightarrow> bool \<Rightarrow> CallHierarchyCall list" where
  "provideOutgoingCalls ho h item utf16 =
     (case (hcIdx h, hcRes h) of
        (Some idx, Some res) \<Rightarrow>
          (case resolveItemIdentity ho idx (hcRoot h) item utf16 of
             None \<Rightarrow> []
           | Some (sourcePath, sourceFA, _) \<Rightarrow>
               (case hoReadFile ho (filepathJoin (hcRoot h) sourcePath) of
                  None \<Rightarrow> []
                | Some content \<Rightarrow>
                    sort_key (\<lambda>call. chURI (ccItem call))
                      (List.map_filter (outgoingCall ho h idx sourcePath sourceFA content utf16)
                        (sort_key fst (outgoingCallSites res sourcePath sourceFA)))))
      | _ \<Rightarrow> [])"

end
