(* ===== verification/Lenses.thy ===== *)
theory Lenses
  imports Outline
begin

text \<open>
  Code lenses, \<open>code_lens.go\<close>, and document links, \<open>document_links.go\<close>. The arguments of a lens's command
  are kept as the values the code encodes.
\<close>

section \<open>Lenses\<close>

record CodeLens =
  clRange :: ProtocolRange
  clTitle :: string
  clURI :: string
  clPosition :: ProtocolPosition
  clLocations :: "Location list"

definition showReferences :: "ProtocolRange \<Rightarrow> string \<Rightarrow> string \<Rightarrow> Location list \<Rightarrow> CodeLens" where
  "showReferences lensRange title u locations =
     \<lparr>clRange = lensRange, clTitle = title, clURI = u, clPosition = prStart lensRange, clLocations = locations\<rparr>"

definition buildCallCountLens ::
  "Host \<Rightarrow> Index \<Rightarrow> ResolutionSet \<Rightarrow> string \<Rightarrow> string \<Rightarrow> string \<Rightarrow> ObjectType \<Rightarrow> Range \<Rightarrow> string \<Rightarrow> string
    \<Rightarrow> bool \<Rightarrow> CodeLens" where
  "buildCallCountLens ho idx res root targetPath targetName targetType sel uriOfDoc content utf16 =
     (let locations = referenceSites ho idx res root targetPath targetName targetType False utf16;
          count = length locations
      in showReferences (toProtocolRange sel content utf16)
           (if count = 1 then ''1 reference'' else itoa (int count) @ '' references'') uriOfDoc locations)"

text \<open>
  The names written, by their upper case, with the spelling of the first of each; then the site of the
  first of each, which is taken out of the map so that it is not taken again.
\<close>

definition namedWrite :: "DataAccessEntry \<Rightarrow> bool" where
  "namedWrite a \<longleftrightarrow> daKind a = EdgeWrites \<and> daName a \<noteq> []"

fun seenNames :: "(string \<times> string) list \<Rightarrow> DataAccessEntry list \<Rightarrow> (string \<times> string) list" where
  "seenNames seen [] = seen"
| "seenNames seen (a # as) =
     (if \<not> namedWrite a \<or> map_of seen (toUpper (daName a)) \<noteq> None then seenNames seen as
      else seenNames (seen @ [(toUpper (daName a), daName a)]) as)"

fun writeSites :: "string \<Rightarrow> string \<Rightarrow> bool \<Rightarrow> (string \<times> string) list \<Rightarrow> DataAccessEntry list \<Rightarrow> Location list" where
  "writeSites u content utf16 seen [] = []"
| "writeSites u content utf16 seen (a # as) =
     (let upper = toUpper (daName a) in
      if \<not> namedWrite a \<or> map_of seen upper = None then writeSites u content utf16 seen as
      else \<lparr>locURI = u, locRange = toProtocolRange (daNameRange a) content utf16\<rparr>
           # writeSites u content utf16 (filter (\<lambda>(k, _). k \<noteq> upper) seen) as)"

definition buildWriteSummaryLens :: "DataAccessEntry list \<Rightarrow> Symbol \<Rightarrow> string \<Rightarrow> string \<Rightarrow> bool \<Rightarrow> CodeLens option" where
  "buildWriteSummaryLens dataAccess root documentURI content utf16 =
     (let seenMap = seenNames [] dataAccess in
      if seenMap = [] then None
      else Some (showReferences (toProtocolRange (symSelectionRange root) content utf16)
             (''Writes: '' @ joinStrings (sort (map snd seenMap)) '', '') documentURI
             (writeSites documentURI content utf16 seenMap dataAccess)))"

definition buildCodeLenses ::
  "Host \<Rightarrow> HandlerContext \<Rightarrow> FileAnalysis \<Rightarrow> string \<Rightarrow> string \<Rightarrow> string \<Rightarrow> bool \<Rightarrow> CodeLens list" where
  "buildCodeLenses ho h fa content uriOfDoc relPath utf16 =
     (case faStructure fa of
        None \<Rightarrow> []
      | Some root \<Rightarrow>
          (case (hcIdx h, hcRes h) of
             (Some idx, Some res) \<Rightarrow>
               if relPath \<noteq> []
               then [buildCallCountLens ho idx res (hcRoot h) relPath (symName root) (faObjectType fa)
                       (symSelectionRange root) uriOfDoc content utf16]
               else []
           | _ \<Rightarrow> [])
          @ (case buildWriteSummaryLens (faDataAccess fa) root uriOfDoc content utf16 of None \<Rightarrow> [] | Some l \<Rightarrow> [l]))"

definition indexedLenses :: "Host \<Rightarrow> HandlerContext \<Rightarrow> string \<Rightarrow> string \<Rightarrow> string \<Rightarrow> bool \<Rightarrow> CodeLens list" where
  "indexedLenses ho h u absPath relPath utf16 =
     (case Option.bind (hcIdx h) (Get relPath) of
        None \<Rightarrow> []
      | Some fa \<Rightarrow>
          (case (faStructure fa, hoReadFile ho absPath) of
             (Some _, Some content) \<Rightarrow> buildCodeLenses ho h fa content u relPath utf16
           | _ \<Rightarrow> []))"

definition provideCodeLens :: "Host \<Rightarrow> HandlerContext \<Rightarrow> string \<Rightarrow> bool \<Rightarrow> CodeLens list" where
  "provideCodeLens ho h u utf16 =
     (if \<not> EnableCodeLens (cfgAnalysis (hcCfg h)) then []
      else case uriToRelPath ho (hcRoot h) u of
             None \<Rightarrow> []
           | Some (absPath, relPath) \<Rightarrow>
               (case Option.bind (hcStore h) (\<lambda>s. storeGet s u) of
                  Some doc \<Rightarrow>
                    if faStructure (docAnalysis doc) \<noteq> None
                    then buildCodeLenses ho h (docAnalysis doc) (docContent doc) u relPath utf16
                    else indexedLenses ho h u absPath relPath utf16
                | None \<Rightarrow> indexedLenses ho h u absPath relPath utf16))"

section \<open>Links\<close>

record DocumentLink =
  dlRange :: ProtocolRange
  dlTarget :: string

definition documentLink :: "Host \<Rightarrow> ResolutionSet \<Rightarrow> string \<Rightarrow> string \<Rightarrow> string \<Rightarrow> bool \<Rightarrow> EdgeEntry \<Rightarrow> DocumentLink option" where
  "documentLink ho res relPath root content utf16 edge =
     (case resGet (Some res) relPath (eeSource edge) of
        Some (Resolved path _) \<Rightarrow>
          if NormalizeKey path = relPath then None
          else Some \<lparr>dlRange = toProtocolRange (eeSource edge) content utf16,
                     dlTarget = hoUriFile ho (filepathJoin root path)\<rparr>
      | _ \<Rightarrow> None)"

definition buildDocumentLinks ::
  "Host \<Rightarrow> FileAnalysis \<Rightarrow> ResolutionSet \<Rightarrow> string \<Rightarrow> string \<Rightarrow> string \<Rightarrow> bool \<Rightarrow> DocumentLink list" where
  "buildDocumentLinks ho fa res relPath root content utf16 =
     sort_key (\<lambda>l. startKey (dlRange l)) (List.map_filter (documentLink ho res relPath root content utf16) (faEdges fa))"

text \<open>
  The root is absolute already where the code makes it so. An open document
  always has content there, the empty one included.
\<close>

definition provideDocumentLink :: "Host \<Rightarrow> HandlerContext \<Rightarrow> string \<Rightarrow> bool \<Rightarrow> DocumentLink list" where
  "provideDocumentLink ho h u utf16 =
     (case (uriToRelPath ho (hcRoot h) u, hcRes h) of
        (Some (absPath, relPath), Some res) \<Rightarrow>
          (case sourceOf ho h u absPath relPath of
             None \<Rightarrow> []
           | Some (fa, content) \<Rightarrow> buildDocumentLinks ho fa res relPath (hcRoot h) content utf16)
      | _ \<Rightarrow> [])"

end
