(* ===== verification/Diagnostics.thy ===== *)
theory Diagnostics
  imports Definition
begin

text \<open>
  Diagnostics for the client: \<open>diagnostics.go\<close>, the push path after a change, and \<open>pull_diagnostics.go\<close>,
  the two requests of the pull model. Both merge the analyzer's diagnostics with those of the
  resolution. Writing to the stream is the value a function returns.
\<close>

section \<open>Conversion\<close>

datatype ProtocolSeverity =
    DiagnosticSeverityError | DiagnosticSeverityWarning | DiagnosticSeverityInformation

fun severityToProtocol :: "DiagnosticSeverity \<Rightarrow> ProtocolSeverity" where
  "severityToProtocol DiagnosticError = DiagnosticSeverityError"
| "severityToProtocol DiagnosticWarning = DiagnosticSeverityWarning"
| "severityToProtocol DiagnosticInfo = DiagnosticSeverityInformation"

definition diagnosticSource :: string where
  "diagnosticSource = ''natural-lsp''"

record ProtocolDiagnostic =
  pdRange :: ProtocolRange
  pdSeverity :: ProtocolSeverity
  pdCode :: "DiagnosticCode option"
  pdMessage :: string
  pdSource :: string

definition toProtocolDiagnostic :: "Diagnostic \<Rightarrow> string \<Rightarrow> bool \<Rightarrow> ProtocolDiagnostic" where
  "toProtocolDiagnostic d content utf16 =
     \<lparr>pdRange = toProtocolRange (dgRange d) content utf16, pdSeverity = severityToProtocol (dgSeverity d),
      pdCode = (if dgCode d \<noteq> DiagnosticCodeNone then Some (dgCode d) else None),
      pdMessage = dgMessage d, pdSource = diagnosticSource\<rparr>"

definition toProtocolDiagnosticFromConverter ::
  "Diagnostic \<Rightarrow> (Range \<Rightarrow> bool \<Rightarrow> ProtocolRange) \<Rightarrow> bool \<Rightarrow> ProtocolDiagnostic" where
  "toProtocolDiagnosticFromConverter d toRange utf16 =
     \<lparr>pdRange = toRange (dgRange d) utf16, pdSeverity = severityToProtocol (dgSeverity d),
      pdCode = (if dgCode d \<noteq> DiagnosticCodeNone then Some (dgCode d) else None),
      pdMessage = dgMessage d, pdSource = diagnosticSource\<rparr>"

section \<open>Aggregation\<close>

definition diagnosticKey :: "Diagnostic \<Rightarrow> string \<times> DiagnosticSeverity \<times> DiagnosticCode \<times> Range" where
  "diagnosticKey d = (dgMessage d, dgSeverity d, dgCode d, dgRange d)"

definition dedupStep ::
  "(string \<times> DiagnosticSeverity \<times> DiagnosticCode \<times> Range) list \<times> Diagnostic list \<Rightarrow> Diagnostic \<Rightarrow>
   (string \<times> DiagnosticSeverity \<times> DiagnosticCode \<times> Range) list \<times> Diagnostic list" where
  "dedupStep acc diag =
     (case acc of (seen, result) \<Rightarrow>
        (if diagnosticKey diag \<in> set seen then (seen, result)
         else (diagnosticKey diag # seen, result @ [diag])))"

definition aggregateDiagnostics :: "FileAnalysis \<Rightarrow> Diagnostic list \<Rightarrow> Diagnostic list" where
  "aggregateDiagnostics fa resDiags =
     (let combined = faDiagnostics fa @ resDiags
      in if combined = [] then []
         else snd (foldl dedupStep ([], []) (sortBySource dgRange combined)))"

definition convertDiagnostics :: "Diagnostic list \<Rightarrow> string \<Rightarrow> bool \<Rightarrow> ProtocolDiagnostic list" where
  "convertDiagnostics agg content utf16 = map (\<lambda>d. toProtocolDiagnostic d content utf16) agg"

section \<open>The push path\<close>

text \<open>
  What is published for a document: diagnostics and the version of an open document, a 32-bit number.
  The push path asks the index for the file without looking whether there is an index.
\<close>

datatype Publication =
    Published "ProtocolDiagnostic list" "uint32 option"
  | NilIndexPanic

definition publishFileDiagnostics :: "Host \<Rightarrow> HandlerContext \<Rightarrow> string \<Rightarrow> bool \<Rightarrow> Publication" where
  "publishFileDiagnostics ho h u utf16 =
     (case Option.bind (hcStore h) (\<lambda>s. storeGet s u) of
        Some doc \<Rightarrow>
          let relPath = NormalizeKey (case filepathRel (hcRoot h) (hoFsPath ho u) of None \<Rightarrow> [] | Some r \<Rightarrow> r);
              resDiags = DiagnosticsFor (hcRes h) relPath;
              agg = aggregateDiagnostics (docAnalysis doc) resDiags
          in Published (convertDiagnostics agg (docContent doc) utf16) (Some (of_int (docVersion doc)))
      | None \<Rightarrow>
          (case uriToRelPath ho (hcRoot h) u of
             None \<Rightarrow> Published [] None
           | Some (absPath, relPath) \<Rightarrow>
               if isAbs relPath \<or> hasPrefix relPath ''..'' then Published [] None
               else case hcIdx h of
                 None \<Rightarrow> NilIndexPanic
               | Some idx \<Rightarrow>
                   (case Get relPath idx of
                      None \<Rightarrow> Published [] None
                    | Some fa \<Rightarrow>
                        (case hoReadFile ho absPath of
                           None \<Rightarrow> Published [] None
                         | Some content \<Rightarrow>
                             let resDiags = DiagnosticsFor (hcRes h) relPath;
                                 agg = aggregateDiagnostics fa resDiags
                             in Published (convertDiagnostics agg content utf16) None))))"

section \<open>The pull model\<close>

text \<open>A full report is its list of items.\<close>

definition provideDocumentDiagnostic :: "Host \<Rightarrow> HandlerContext \<Rightarrow> string \<Rightarrow> bool \<Rightarrow> ProtocolDiagnostic list" where
  "provideDocumentDiagnostic ho h u utf16 =
     (case Option.bind (hcStore h) (\<lambda>s. storeGet s u) of
        Some doc \<Rightarrow>
          let relPath = NormalizeKey (case filepathRel (hcRoot h) (hoFsPath ho u) of None \<Rightarrow> [] | Some r \<Rightarrow> r);
              resDiags = DiagnosticsFor (hcRes h) relPath;
              agg = aggregateDiagnostics (docAnalysis doc) resDiags
          in convertDiagnostics agg (docContent doc) utf16
      | None \<Rightarrow>
          (case uriToRelPath ho (hcRoot h) u of
             None \<Rightarrow> []
           | Some (absPath, relPath) \<Rightarrow>
               if isAbs relPath \<or> hasPrefix relPath ''..'' then []
               else case hcIdx h of
                 None \<Rightarrow> []
               | Some idx \<Rightarrow>
                   (case Get relPath idx of
                      None \<Rightarrow> []
                    | Some fa \<Rightarrow>
                        (case hoReadFile ho absPath of
                           None \<Rightarrow> []
                         | Some content \<Rightarrow>
                             let resDiags = DiagnosticsFor (hcRes h) relPath;
                                 agg = aggregateDiagnostics fa resDiags
                             in convertDiagnostics agg content utf16))))"

definition fileReport ::
  "Host \<Rightarrow> HandlerContext \<Rightarrow> Index \<Rightarrow> bool \<Rightarrow> string \<times> FileAnalysis \<Rightarrow> (string \<times> ProtocolDiagnostic list) option" where
  "fileReport ho h idx utf16 file =
     (case file of (relPath, fa) \<Rightarrow>
        let agg = aggregateDiagnostics fa (DiagnosticsFor (hcRes h) relPath)
        in if agg = [] then None
           else Some (hoUriFile ho (filepathJoin (hcRoot h) relPath),
                  map (\<lambda>d. toProtocolDiagnosticFromConverter d (indexProtocolRange idx relPath) utf16) agg))"

definition provideWorkspaceDiagnostic ::
  "Host \<Rightarrow> HandlerContext \<Rightarrow> bool \<Rightarrow> (string \<times> ProtocolDiagnostic list) list" where
  "provideWorkspaceDiagnostic ho h utf16 =
     (case hcIdx h of
        None \<Rightarrow> []
      | Some idx \<Rightarrow> sort_key fst (List.map_filter (fileReport ho h idx utf16) (ixEntries idx)))"

end
