(* ===== verification/SemanticTokens.thy ===== *)
theory SemanticTokens
  imports Analyzer LineWidth
begin

unbundle bit_operations_syntax

text \<open>
  Classification of tokens for highlighting: \<open>semantictokens.go\<close> and \<open>model/semantictoken.go\<close>. The
  content is lexed once and parsed once; five phases classify spans of it, and the merge keeps one
  token per start position. The parser always returns a tree, so the branches for a missing one are
  left out. Modifiers are bits of a 32-bit word.
\<close>

section \<open>Semantic tokens\<close>

datatype SemanticTokenType =
    SemanticTokenTypeKeyword | SemanticTokenTypeComment | SemanticTokenTypeString
  | SemanticTokenTypeNumber | SemanticTokenTypeOperator | SemanticTokenTypeVariable
  | SemanticTokenTypeParameter | SemanticTokenTypeFunction | SemanticTokenTypeType
  | SemanticTokenTypeProperty

definition SemanticTokenModifierDeclaration :: uint32 where "SemanticTokenModifierDeclaration = 1"
definition SemanticTokenModifierDefinition :: uint32 where "SemanticTokenModifierDefinition = 2"
definition SemanticTokenModifierReadonly :: uint32 where "SemanticTokenModifierReadonly = 4"
definition SemanticTokenModifierModification :: uint32 where "SemanticTokenModifierModification = 8"
definition SemanticTokenModifierDefaultLibrary :: uint32 where "SemanticTokenModifierDefaultLibrary = 16"

record SemanticToken =
  smRange :: Range
  smType :: SemanticTokenType
  smModifiers :: uint32

definition semanticToken :: "Range \<Rightarrow> SemanticTokenType \<Rightarrow> uint32 \<Rightarrow> SemanticToken" where
  "semanticToken r t m = \<lparr>smRange = r, smType = t, smModifiers = m\<rparr>"

function lexAllLoop :: "Token list \<Rightarrow> Lexer \<Rightarrow> Token list" where
  "lexAllLoop tokens l =
     (case NextToken l of (tok, l') \<Rightarrow>
        if tkType tok = TokenEOF then tokens else lexAllLoop (tokens @ [tok]) l')"
  by pat_completeness auto
termination
  by (relation "measure (\<lambda>(_, l). remaining l)") (auto dest!: NextToken_moves split: prod.splits)

declare lexAllLoop.simps [simp del]

definition lexAllForSemanticTokensDefault :: "string \<Rightarrow> Token list" where
  "lexAllForSemanticTokensDefault content = lexAllLoop [] (NewLexer content)"

section \<open>The range of a token\<close>

text \<open>The position after a carriage return and a line feed that follows it.\<close>

definition afterCR :: "string \<Rightarrow> nat \<Rightarrow> nat" where
  "afterCR bs p = (if p + 1 < length bs \<and> bs ! (p + 1) = LF then p + 2 else p + 1)"

function lineStartsLoop :: "string \<Rightarrow> nat \<Rightarrow> nat list \<Rightarrow> nat list" where
  "lineStartsLoop bs p lineStarts =
     (if p < length bs
      then (if bs ! p = CR then lineStartsLoop bs (afterCR bs p) (lineStarts @ [afterCR bs p])
            else if bs ! p = LF then lineStartsLoop bs (p + 1) (lineStarts @ [p + 1])
            else lineStartsLoop bs (p + 1) lineStarts)
      else lineStarts)"
  by pat_completeness auto
termination by (relation "measure (\<lambda>(bs, p, _). length bs - p)") (auto simp: afterCR_def)

declare lineStartsLoop.simps [simp del]

definition buildLineStarts :: "string \<Rightarrow> nat list" where
  "buildLineStarts bs = lineStartsLoop bs 0 [0]"

text \<open>The walk from a position with its line and column until the token's line and column.\<close>

function seekToken :: "string \<Rightarrow> int \<Rightarrow> int \<Rightarrow> nat \<Rightarrow> int \<Rightarrow> int \<Rightarrow> nat" where
  "seekToken bs startLine startCol p line colInLine =
     (if p < length bs
      then (if line = startLine \<and> colInLine = startCol then p
            else if bs ! p = CR then seekToken bs startLine startCol (afterCR bs p) (line + 1) 1
            else if bs ! p = LF then seekToken bs startLine startCol (p + 1) (line + 1) 1
            else seekToken bs startLine startCol (p + 1) line (colInLine + 1))
      else p)"
  by pat_completeness auto
termination by (relation "measure (\<lambda>(bs, _, _, p, _, _). length bs - p)") (auto simp: afterCR_def)

declare seekToken.simps [simp del]

definition tokenStart :: "string \<Rightarrow> nat list \<Rightarrow> Token \<Rightarrow> nat" where
  "tokenStart bs lineStarts tok =
     (if tkLine tok \<ge> 1 \<and> tkLine tok - 1 < int (length lineStarts)
      then seekToken bs (tkLine tok) (tkColumn tok) (lineStarts ! nat (tkLine tok - 1)) (tkLine tok) 1
      else seekToken bs (tkLine tok) (tkColumn tok) (length bs) (tkLine tok) 1)"

text \<open>The last byte: the end of the line for a comment, the closing quote for a string, else by width.\<close>

definition tokenEnd :: "string \<Rightarrow> nat \<Rightarrow> Token \<Rightarrow> nat" where
  "tokenEnd bs start tok =
     (case tkType tok of
        TokenComment \<Rightarrow>
          (let stop = start + length (takeWhile (\<lambda>c. \<not> (c = LF \<or> c = CR)) (drop start bs))
           in if stop > start then stop - 1 else stop)
      | TokenLiteralString \<Rightarrow>
          (if start < length bs \<and> bs ! start = QUOTE
           then start + 1 + length (takeWhile (\<lambda>c. c \<noteq> QUOTE) (drop (start + 1) bs)) else start)
      | _ \<Rightarrow>
          (let width = (if length (tkLiteral tok) = 0 then 1 else length (tkLiteral tok));
               last = (if start + width - 1 \<ge> length bs then length bs - 1 else start + width - 1)
           in if last < start then start else last))"

function scanTo :: "string \<Rightarrow> nat \<Rightarrow> nat \<Rightarrow> int \<Rightarrow> int \<Rightarrow> Position" where
  "scanTo bs stop p line col =
     (if p < stop \<and> p < length bs
      then (if bs ! p = CR then scanTo bs stop (afterCR bs p) (line + 1) 1
            else if bs ! p = LF then scanTo bs stop (p + 1) (line + 1) 1
            else scanTo bs stop (p + 1) line (col + 1))
      else Position line col)"
  by pat_completeness auto
termination by (relation "measure (\<lambda>(bs, _, p, _, _). length bs - p)") (auto simp: afterCR_def)

declare scanTo.simps [simp del]

definition computeTokenRange :: "string \<Rightarrow> nat list \<Rightarrow> Token \<Rightarrow> Range" where
  "computeTokenRange bs lineStarts tok =
     (let start = tokenStart bs lineStarts tok
      in Range (Position (tkLine tok) (tkColumn tok))
           (scanTo bs (tokenEnd bs start tok) start (tkLine tok) (tkColumn tok)))"

section \<open>Phase A: lexical classes\<close>

fun lexicalType :: "TokenType \<Rightarrow> SemanticTokenType option" where
  "lexicalType TokenKeyword = Some SemanticTokenTypeKeyword"
| "lexicalType TokenComment = Some SemanticTokenTypeComment"
| "lexicalType TokenLiteralString = Some SemanticTokenTypeString"
| "lexicalType TokenLiteralNumeric = Some SemanticTokenTypeNumber"
| "lexicalType TokenOperator = Some SemanticTokenTypeOperator"
| "lexicalType _ = None"

definition semanticTokensPhaseA :: "Token list \<Rightarrow> string \<Rightarrow> nat list \<Rightarrow> SemanticToken list" where
  "semanticTokensPhaseA lexTokens content lineStarts =
     List.map_filter
       (\<lambda>tok. map_option (\<lambda>t. semanticToken (computeTokenRange content lineStarts tok) t 0) (lexicalType (tkType tok)))
       lexTokens"

section \<open>Phase B: variables and parameters\<close>

text \<open>The first definition of each name in document order, with the section kind of its group.\<close>

definition withSection :: "string \<Rightarrow> DataDefinition \<Rightarrow> DataDefinition" where
  "withSection kind d =
     DataDefinition (ddName d) (ddLevel d) (ddType d) (ddDimensions d) kind (ddRange d) (ddNameRange d)
       (ddChildren d) (ddRedefines d) (ddViewOfDDM d)"

function lookupWalk ::
  "string \<Rightarrow> DataDefinition list \<Rightarrow> (string \<rightharpoonup> DataDefinition) \<Rightarrow> (string \<rightharpoonup> DataDefinition)" where
  "lookupWalk inherited [] lookup = lookup"
| "lookupWalk inherited (d # items) lookup =
     (let effective = (if ddSectionKind d = [] then inherited else ddSectionKind d);
          lookup1 = (if ddName d \<noteq> [] \<and> lookup (ddName d) = None
                     then lookup(ddName d \<mapsto> withSection effective d) else lookup)
      in lookupWalk inherited items (lookupWalk effective (ddChildren d) lookup1))"
  by pat_completeness auto
termination
  by (relation "measure (\<lambda>(_, ds, _). size_list size ds)") (auto simp: size_ddChildren_less)

declare lookupWalk.simps(2) [simp del]

definition buildVarLookup :: "DataDefinition list \<Rightarrow> (string \<rightharpoonup> DataDefinition)" where
  "buildVarLookup defs = lookupWalk [] defs Map.empty"

definition identifierToken ::
  "(string \<rightharpoonup> DataDefinition) \<Rightarrow> string \<Rightarrow> nat list \<Rightarrow> Token \<Rightarrow> SemanticToken option" where
  "identifierToken varLookup content lineStarts tok =
     (if tkType tok \<noteq> TokenIdentifier then None
      else if tkLiteral tok \<noteq> [] \<and> (hd (tkLiteral tok) = CHR ''*'' \<or> hd (tkLiteral tok) = CHR ''&'') then None
      else case varLookup (tkLiteral tok) of
             None \<Rightarrow> None
           | Some def \<Rightarrow>
               let r = computeTokenRange content lineStarts tok
               in Some (semanticToken r
                    (if ddSectionKind def = ''parameter'' then SemanticTokenTypeParameter else SemanticTokenTypeVariable)
                    (if Line (Start r) = Line (Start (ddNameRange def)) \<and> Column (Start r) = Column (Start (ddNameRange def))
                     then SemanticTokenModifierDeclaration else 0)))"

definition semanticTokensPhaseBIdentifiers :: "Program \<Rightarrow> Token list \<Rightarrow> string \<Rightarrow> nat list \<Rightarrow> SemanticToken list" where
  "semanticTokensPhaseBIdentifiers ast lexTokens content lineStarts =
     (let definitions = extractDefinitions ast
      in if definitions = [] then []
         else List.map_filter (identifierToken (buildVarLookup definitions) content lineStarts) lexTokens)"

section \<open>Phase B: calls\<close>

definition semanticTokensPhaseBCalls :: "Program \<Rightarrow> SemanticToken list" where
  "semanticTokensPhaseBCalls ast =
     map (\<lambda>e. semanticToken (eeTarget e) SemanticTokenTypeFunction 0)
       (filter (\<lambda>e. (eeKind e = EdgeCalls \<or> eeKind e = EdgeNavigatesTo) \<and> Line (Start (eeTarget e)) > 0) (extractEdges ast))
     @ map (\<lambda>p. semanticToken (TargetRange p) SemanticTokenTypeFunction 0)
       (filter (\<lambda>p. Target p \<noteq> [] \<and> Line (Start (TargetRange p)) > 0) (Performs ast))
     @ map (\<lambda>s. semanticToken (SubroutineNameRange s) SemanticTokenTypeFunction SemanticTokenModifierDefinition)
       (filter (\<lambda>s. SubroutineName s \<noteq> [] \<and> Line (Start (SubroutineNameRange s)) > 0) (Subroutines ast))"

section \<open>Phase B: views and DDMs\<close>

definition isIdentifierChar :: "char \<Rightarrow> bool" where
  "isIdentifierChar ch \<longleftrightarrow> isLowerByte ch \<or> isUpperByte ch \<or> isDigitByte ch \<or>
     ch \<in> set [CHR ''-'', CHR ''_'', CHR ''#'', CHR ''&'', CHR ''@'', CHR ''+'']"

function seekLine :: "string \<Rightarrow> int \<Rightarrow> nat \<Rightarrow> int \<Rightarrow> nat" where
  "seekLine bs line p currentLine =
     (if p < length bs \<and> currentLine < line
      then (if bs ! p = CR then seekLine bs line (afterCR bs p) (currentLine + 1)
            else if bs ! p = LF then seekLine bs line (p + 1) (currentLine + 1)
            else seekLine bs line (p + 1) currentLine)
      else p)"
  by pat_completeness auto
termination by (relation "measure (\<lambda>(bs, _, p, _). length bs - p)") (auto simp: afterCR_def)

declare seekLine.simps [simp del]

text \<open>The name as a whole word of the line at index \<open>i\<close>.\<close>

definition wordAt :: "string \<Rightarrow> string \<Rightarrow> nat \<Rightarrow> bool" where
  "wordAt lineText name i \<longleftrightarrow>
     i + length name \<le> length lineText \<and> Prelude.slice i (i + length name) lineText = name \<and>
     (i = 0 \<or> \<not> isIdentifierChar (lineText ! (i - 1))) \<and>
     (i + length name \<ge> length lineText \<or> \<not> isIdentifierChar (lineText ! (i + length name)))"

definition extractViewOfDDMRange :: "string \<Rightarrow> Range \<Rightarrow> string \<Rightarrow> Range" where
  "extractViewOfDDMRange bs viewNameRange viewOfDDM =
     (if viewOfDDM = [] then zeroRange
      else let line = Line (Start viewNameRange);
               lineText = takeWhile (\<lambda>c. \<not> (c = LF \<or> c = CR)) (drop (seekLine bs line 0 1) bs);
               searchFrom = Column (End viewNameRange) - 1
           in case find (wordAt lineText viewOfDDM) [nat searchFrom ..< length lineText + 1 - length viewOfDDM] of
                None \<Rightarrow> zeroRange
              | Some ddmPos \<Rightarrow>
                  Range (Position line (int ddmPos + 1)) (Position line (int ddmPos + int (length viewOfDDM))))"

definition viewTokens :: "string \<Rightarrow> DataDefinition \<Rightarrow> SemanticToken list" where
  "viewTokens content def =
     (if ddViewOfDDM def = [] then []
      else let ddmNameRange = extractViewOfDDMRange content (ddNameRange def) (ddViewOfDDM def)
           in (if Line (Start (ddNameRange def)) > 0 then [semanticToken (ddNameRange def) SemanticTokenTypeType 0] else [])
            @ (if Line (Start ddmNameRange) > 0 then [semanticToken ddmNameRange SemanticTokenTypeType 0] else []))"

definition accessToken :: "DataAccessEntry \<Rightarrow> SemanticToken" where
  "accessToken da =
     semanticToken (daNameRange da) SemanticTokenTypeType
       (if daKind da = EdgeWrites then SemanticTokenModifierModification else 0)"

text \<open>\<open>classifyViewFieldsRecursive\<close> calls back for each field of a view: the list of these fields.\<close>

function classifyViewFieldsRecursive :: "DataDefinition list \<Rightarrow> DataDefinition list" where
  "classifyViewFieldsRecursive [] = []"
| "classifyViewFieldsRecursive (def # defs) =
     (if ddViewOfDDM def \<noteq> [] then filter (\<lambda>child. Line (Start (ddNameRange child)) > 0) (ddChildren def) else [])
     @ classifyViewFieldsRecursive (ddChildren def) @ classifyViewFieldsRecursive defs"
  by pat_completeness auto
termination
  by (relation "measure (\<lambda>ds. size_list size ds)") (auto simp: size_ddChildren_less)

definition semanticTokensPhaseBDDMView :: "Program \<Rightarrow> string \<Rightarrow> SemanticToken list" where
  "semanticTokensPhaseBDDMView ast content =
     (let definitions = extractDefinitions ast
      in concat (map (viewTokens content) definitions)
         @ map accessToken (filter (\<lambda>da. daName da \<noteq> []) (extractDataAccess ast))
         @ map (\<lambda>def. semanticToken (ddNameRange def) SemanticTokenTypeProperty 0)
             (classifyViewFieldsRecursive definitions))"

section \<open>Phase B: system variables and write targets\<close>

definition systemVariableAt :: "Token \<Rightarrow> Token \<Rightarrow> bool" where
  "systemVariableAt curTok nextTok \<longleftrightarrow>
     tkType curTok = TokenOperator \<and> tkLiteral curTok = ''*'' \<and> tkType nextTok = TokenIdentifier \<and>
     tkLine curTok = tkLine nextTok \<and> tkColumn nextTok = tkColumn curTok + 1"

definition systemVariable :: "Token list \<Rightarrow> nat \<Rightarrow> SemanticToken option" where
  "systemVariable toks i =
     (let curTok = toks ! i; nextTok = toks ! (i + 1)
      in if systemVariableAt curTok nextTok
         then Some (semanticToken
                (Range (Position (tkLine curTok) (tkColumn curTok))
                   (Position (tkLine nextTok) (tkColumn nextTok + int (length (tkLiteral nextTok)) - 1)))
                SemanticTokenTypeVariable
                (SemanticTokenModifierReadonly OR SemanticTokenModifierDefaultLibrary))
         else None)"

text \<open>The backward scan for \<open>COMPUTE\<close> stays on the line of the target.\<close>

definition computeBefore :: "Token list \<Rightarrow> nat \<Rightarrow> bool" where
  "computeBefore toks i \<longleftrightarrow>
     list_ex (\<lambda>t. tkType t = TokenKeyword \<and> tkLiteral t = ''COMPUTE'')
       (takeWhile (\<lambda>t. tkLine t = tkLine (toks ! i)) (rev (take i toks)))"

definition nextOperator :: "Token list \<Rightarrow> nat \<Rightarrow> string \<Rightarrow> bool" where
  "nextOperator toks i op \<longleftrightarrow>
     i + 1 < length toks \<and> tkType (toks ! (i + 1)) = TokenOperator \<and> tkLiteral (toks ! (i + 1)) = op"

definition writeTarget ::
  "(string \<rightharpoonup> DataDefinition) \<Rightarrow> string \<Rightarrow> nat list \<Rightarrow> Token list \<Rightarrow> nat \<Rightarrow> SemanticToken option" where
  "writeTarget varLookup content lineStarts toks i =
     (let tok = toks ! i;
          hit = Some (semanticToken (computeTokenRange content lineStarts tok)
                   SemanticTokenTypeVariable SemanticTokenModifierModification)
      in if tkType tok \<noteq> TokenIdentifier then None
         else if i > 0 \<and> tkType (toks ! (i - 1)) = TokenOperator \<and> tkLiteral (toks ! (i - 1)) = ''*'' \<and>
                 tkLine tok = tkLine (toks ! (i - 1)) \<and> tkColumn tok = tkColumn (toks ! (i - 1)) + 1 then None
         else if varLookup (tkLiteral tok) = None then None
         else if nextOperator toks i '':='' then hit
         else if i > 0 \<and> tkType (toks ! (i - 1)) = TokenKeyword \<and> tkLiteral (toks ! (i - 1)) = ''TO'' then hit
         else if nextOperator toks i ''='' \<and> computeBefore toks i then hit
         else None)"

definition semanticTokensPhaseBSystemVarsAndWrites ::
  "Program \<Rightarrow> Token list \<Rightarrow> string \<Rightarrow> nat list \<Rightarrow> SemanticToken list" where
  "semanticTokensPhaseBSystemVarsAndWrites ast lexTokens content lineStarts =
     List.map_filter (systemVariable lexTokens) [0..<length lexTokens - 1]
     @ List.map_filter (writeTarget (buildVarLookup (extractDefinitions ast)) content lineStarts lexTokens)
         [0..<length lexTokens]"

section \<open>The merge\<close>

fun precedence :: "SemanticTokenType \<Rightarrow> nat" where
  "precedence SemanticTokenTypeFunction = 5"
| "precedence SemanticTokenTypeType = 4"
| "precedence SemanticTokenTypeProperty = 3"
| "precedence SemanticTokenTypeParameter = 2"
| "precedence SemanticTokenTypeVariable = 2"
| "precedence _ = 1"

definition mergeToken ::
  "(Position \<rightharpoonup> SemanticToken) \<Rightarrow> SemanticToken \<Rightarrow> (Position \<rightharpoonup> SemanticToken)" where
  "mergeToken tokenMap tok =
     (let key = Start (smRange tok)
      in case tokenMap key of
           None \<Rightarrow> tokenMap(key \<mapsto> tok)
         | Some existing \<Rightarrow>
             if precedence (smType tok) > precedence (smType existing) then tokenMap(key \<mapsto> tok)
             else if precedence (smType tok) = precedence (smType existing)
             then tokenMap(key \<mapsto> existing\<lparr>smModifiers := smModifiers existing OR smModifiers tok\<rparr>)
             else tokenMap)"

definition readonlyVarStarts :: "SemanticToken list \<Rightarrow> Position list" where
  "readonlyVarStarts allTokens =
     map (\<lambda>tok. Start (smRange tok))
       (filter (\<lambda>tok. smType tok = SemanticTokenTypeVariable \<and>
                  (smModifiers tok AND SemanticTokenModifierReadonly) \<noteq> 0) allTokens)"

text \<open>An operator whose end touches a read-only variable on its line is dropped.\<close>

definition suppressed :: "Position list \<Rightarrow> SemanticToken \<Rightarrow> bool" where
  "suppressed readonlyStarts tok \<longleftrightarrow>
     smType tok = SemanticTokenTypeOperator \<and>
     Position (Line (Start (smRange tok))) (Column (End (smRange tok)) + 1) \<in> set readonlyStarts"

definition pickToken ::
  "(Position \<rightharpoonup> SemanticToken) \<Rightarrow> Position list \<Rightarrow> Position list \<times> SemanticToken list \<Rightarrow> SemanticToken \<Rightarrow>
   Position list \<times> SemanticToken list" where
  "pickToken tokenMap readonlyStarts acc tok =
     (case acc of (seen, out) \<Rightarrow>
        let key = Start (smRange tok)
        in case tokenMap key of
             None \<Rightarrow> (seen, out)
           | Some selectedTok \<Rightarrow>
               (if key \<in> set seen \<or> suppressed readonlyStarts selectedTok then (seen, out)
                else (key # seen, out @ [selectedTok])))"

definition mergeTokens :: "SemanticToken list \<Rightarrow> SemanticToken list" where
  "mergeTokens tokens =
     (let allTokens = sortBySource smRange tokens;
          tokenMap = foldl mergeToken Map.empty allTokens
      in snd (foldl (pickToken tokenMap (readonlyVarStarts allTokens)) ([], []) allTokens))"

definition classifiedTokens :: "string \<Rightarrow> SemanticToken list" where
  "classifiedTokens content =
     (let lexTokens = lexAllForSemanticTokensDefault content;
          ast = parseSource content;
          lineStarts = buildLineStarts content
      in semanticTokensPhaseA lexTokens content lineStarts
         @ semanticTokensPhaseBIdentifiers ast lexTokens content lineStarts
         @ semanticTokensPhaseBCalls ast
         @ semanticTokensPhaseBDDMView ast content
         @ semanticTokensPhaseBSystemVarsAndWrites ast lexTokens content lineStarts)"

definition SemanticTokens :: "string \<Rightarrow> SemanticToken list" where
  "SemanticTokens content = mergeTokens (classifiedTokens content)"

end
