(* ===== verification/TokenWire.thy ===== *)
theory TokenWire
  imports SemanticTokens Definition "HOL-Library.Product_Lexorder"
begin

text \<open>
  Semantic tokens on the wire, \<open>server/semantic_tokens.go\<close>: tokens are split into entries of one line,
  the entries are sorted, and each is written as five 32-bit numbers relative to the entry before. The
  two providers take the text from the open document or the disk.
\<close>

section \<open>Entries\<close>

definition semanticTokenTypesLegend :: "SemanticTokenType list" where
  "semanticTokenTypesLegend =
     [SemanticTokenTypeKeyword, SemanticTokenTypeComment, SemanticTokenTypeString, SemanticTokenTypeNumber,
      SemanticTokenTypeOperator, SemanticTokenTypeVariable, SemanticTokenTypeParameter,
      SemanticTokenTypeFunction, SemanticTokenTypeType, SemanticTokenTypeProperty]"

definition typeIndex :: "SemanticTokenType \<Rightarrow> uint32" where
  "typeIndex t = of_nat (length (takeWhile (\<lambda>u. u \<noteq> t) semanticTokenTypesLegend))"

record tokenEntry =
  line0 :: int
  startChar :: uint32
  entryLength :: uint32
  entryType :: uint32
  entryModifiers :: uint32

definition singleLineLength :: "string \<Rightarrow> int \<Rightarrow> int \<Rightarrow> bool \<Rightarrow> uint32" where
  "singleLineLength lineText startByteOffset endByteOffset utf16 =
     (if \<not> utf16
      then (if endByteOffset < startByteOffset then 0 else of_int (endByteOffset - startByteOffset))
      else let end1 = (if endByteOffset > int (length lineText) then int (length lineText) else endByteOffset);
               spanEnd = (if end1 < startByteOffset then startByteOffset else end1);
               units = int (utf16Units (Prelude.slice (nat startByteOffset) (nat spanEnd) lineText));
               outOfBounds = endByteOffset - spanEnd
           in of_int (if outOfBounds > 0 then units + outOfBounds else units))"

definition singleLineEntry :: "string \<Rightarrow> bool \<Rightarrow> SemanticToken \<Rightarrow> tokenEntry" where
  "singleLineEntry content utf16 tok =
     (let startLine = Line (Start (smRange tok)) - 1;
          lineText = lineAt content startLine;
          start1 = (if Column (Start (smRange tok)) - 1 < 0 then 0 else Column (Start (smRange tok)) - 1);
          startByteOffset = (if start1 > int (length lineText) then int (length lineText) else start1)
      in \<lparr>line0 = startLine, startChar = byteOffsetToCharacter lineText startByteOffset utf16,
          entryLength = singleLineLength lineText startByteOffset (Column (End (smRange tok))) utf16,
          entryType = typeIndex (smType tok), entryModifiers = smModifiers tok\<rparr>)"

text \<open>The part of a token on one of its lines, between two byte offsets.\<close>

definition partEntry :: "string \<Rightarrow> bool \<Rightarrow> SemanticToken \<Rightarrow> int \<Rightarrow> (string \<Rightarrow> int) \<Rightarrow> (string \<Rightarrow> int) \<Rightarrow> tokenEntry" where
  "partEntry content utf16 tok line from to =
     (let lineText = lineAt content line;
          start = byteOffsetToCharacter lineText (from lineText) utf16
      in \<lparr>line0 = line, startChar = start,
          entryLength = byteOffsetToCharacter lineText (to lineText) utf16 - start,
          entryType = typeIndex (smType tok), entryModifiers = smModifiers tok\<rparr>)"

definition encodeToken :: "string \<Rightarrow> bool \<Rightarrow> SemanticToken \<Rightarrow> tokenEntry list" where
  "encodeToken content utf16 tok =
     (let startLine = Line (Start (smRange tok)) - 1;
          endLine = Line (End (smRange tok)) - 1
      in if startLine = endLine then [singleLineEntry content utf16 tok]
         else [partEntry content utf16 tok startLine (\<lambda>_. Column (Start (smRange tok)) - 1) (\<lambda>l. int (length l))]
              @ map (\<lambda>midLine. partEntry content utf16 tok midLine (\<lambda>_. 0) (\<lambda>l. int (length l)))
                  [startLine + 1..endLine - 1]
              @ [partEntry content utf16 tok endLine (\<lambda>_. 0) (\<lambda>_. Column (End (smRange tok)))])"

section \<open>The stream\<close>

definition entryKey :: "tokenEntry \<Rightarrow> int \<times> uint32" where
  "entryKey e = (line0 e, startChar e)"

text \<open>
  The two nested loops compare the entry at \<open>i\<close> with each later entry and exchange them when the later
  one is less: \<open>exchangePass\<close> is the inner loop, with the entry at \<open>i\<close> apart.
\<close>

fun exchangePass :: "tokenEntry \<Rightarrow> tokenEntry list \<Rightarrow> tokenEntry \<times> tokenEntry list" where
  "exchangePass x [] = (x, [])"
| "exchangePass x (y # ys) =
     (if line0 y < line0 x \<or> (line0 y = line0 x \<and> startChar y < startChar x)
      then (case exchangePass y ys of (z, zs) \<Rightarrow> (z, x # zs))
      else (case exchangePass x ys of (z, zs) \<Rightarrow> (z, y # zs)))"

lemma exchangePass_length: "length (snd (exchangePass x ys)) = length ys"
  by (induction x ys rule: exchangePass.induct) (auto split: prod.splits)

function exchangeSort :: "tokenEntry list \<Rightarrow> tokenEntry list" where
  "exchangeSort [] = []"
| "exchangeSort (x # xs) = (case exchangePass x xs of (y, ys) \<Rightarrow> y # exchangeSort ys)"
  by pat_completeness auto
termination
  by (relation "measure length") (simp_all, metis exchangePass_length lessI snd_conv)

fun encodeDeltas :: "int \<Rightarrow> uint32 \<Rightarrow> tokenEntry list \<Rightarrow> uint32 list" where
  "encodeDeltas prevLine prevStartChar [] = []"
| "encodeDeltas prevLine prevStartChar (e # es) =
     [of_int (line0 e - prevLine),
      if line0 e = prevLine then startChar e - prevStartChar else startChar e,
      entryLength e, entryType e, entryModifiers e]
     @ encodeDeltas (line0 e) (startChar e) es"

definition tokenEntries :: "SemanticToken list \<Rightarrow> string \<Rightarrow> bool \<Rightarrow> tokenEntry list" where
  "tokenEntries tokens content utf16 = exchangeSort (concat (map (encodeToken content utf16) tokens))"

definition encodeSemanticTokens :: "SemanticToken list \<Rightarrow> string \<Rightarrow> bool \<Rightarrow> uint32 list" where
  "encodeSemanticTokens tokens content utf16 =
     (if tokens = [] then [] else encodeDeltas 0 0 (tokenEntries tokens content utf16))"

section \<open>The providers\<close>

text \<open>The text of the open document, unless that is empty, else the text on disk.\<close>

definition tokenSource :: "Host \<Rightarrow> HandlerContext \<Rightarrow> string \<Rightarrow> string option" where
  "tokenSource ho h u =
     (let content = (case Option.bind (hcStore h) (\<lambda>s. storeGet s u) of Some doc \<Rightarrow> docContent doc | None \<Rightarrow> [])
      in case uriToRelPath ho (hcRoot h) u of
           None \<Rightarrow> None
         | Some (absPath, _) \<Rightarrow> if length content = 0 then hoReadFile ho absPath else Some content)"

definition provideSemanticTokensFull :: "Host \<Rightarrow> HandlerContext \<Rightarrow> string \<Rightarrow> bool \<Rightarrow> uint32 list" where
  "provideSemanticTokensFull ho h u utf16 =
     (case tokenSource ho h u of
        None \<Rightarrow> []
      | Some content \<Rightarrow> encodeSemanticTokens (SemanticTokens content) content utf16)"

definition intersectsRange :: "Range \<Rightarrow> SemanticToken \<Rightarrow> bool" where
  "intersectsRange requested tok \<longleftrightarrow>
     \<not> (Line (End (smRange tok)) < Line (Start requested) \<or>
        (Line (End (smRange tok)) = Line (Start requested) \<and> Column (End (smRange tok)) < Column (Start requested))) \<and>
     \<not> (Line (Start (smRange tok)) > Line (End requested) \<or>
        (Line (Start (smRange tok)) = Line (End requested) \<and> Column (Start (smRange tok)) > Column (End requested)))"

definition provideSemanticTokensRange ::
  "Host \<Rightarrow> HandlerContext \<Rightarrow> string \<Rightarrow> ProtocolRange \<Rightarrow> bool \<Rightarrow> uint32 list" where
  "provideSemanticTokensRange ho h u r utf16 =
     (case tokenSource ho h u of
        None \<Rightarrow> []
      | Some content \<Rightarrow>
          let requested = Range (fromProtocolPosition (prStart r) content utf16) (fromProtocolPosition (prEnd r) content utf16)
          in encodeSemanticTokens (filter (intersectsRange requested) (SemanticTokens content)) content utf16)"

end
