(* ===== verification/Handlers.thy ===== *)
theory Handlers
  imports Dispatch Completion CallHierarchy Lenses Diagnostics TokenWire
begin

text \<open>
  The branches of the request dispatch in \<open>server.go\<close>: each decodes its parameters, calls its provider
  and encodes the answer. The JSON library and the host are arguments. The gate on the lifecycle, the
  answer for a missing value and the recovery from a panic are those of \<open>Dispatch\<close>: here the backend
  it takes is built from the branches. An empty list a provider returns is nil in the code wherever the
  two are written differently.
\<close>

datatype Reply =
    LocationsReply "Location list"
  | SymbolsReply "SymbolInformation list"
  | OutlineReply "DocumentSymbol list"
  | HoverReply HoverCard
  | LensesReply "CodeLens list"
  | LinksReply "DocumentLink list"
  | CompletionReply "CompletionItem list"
  | SignatureReply SignatureInformation
  | HighlightsReply "ProtocolRange list"
  | ItemsReply "CallHierarchyItem list"
  | CallsReply "CallHierarchyCall list"
  | TokensReply "uint32 list"
  | ReportReply "ProtocolDiagnostic list"
  | WorkspaceReply "(string \<times> ProtocolDiagnostic list) list"

text \<open>
  The JSON library: decoding says what is wrong or gives the parameters, encoding fails with a message
  beside what it returned. A method name selects the type of the parameters. Of those of the workspace
  report only the token is read, in the main loop.
\<close>

record Wire =
  wiPosition :: "string \<Rightarrow> string \<Rightarrow> string + string \<times> ProtocolPosition"
  wiReference :: "string \<Rightarrow> string + string \<times> ProtocolPosition \<times> bool"
  wiQuery :: "string \<Rightarrow> string + string"
  wiDocument :: "string \<Rightarrow> string \<Rightarrow> string + string"
  wiRange :: "string \<Rightarrow> string + string \<times> ProtocolRange"
  wiItem :: "string \<Rightarrow> string \<Rightarrow> string + CallHierarchyItem"
  wiWorkspace :: "string \<Rightarrow> string + string option"
  wiMarshal :: "Reply \<Rightarrow> string option \<times> string + string"

record Server =
  svHost :: Host
  svRefs :: "string \<Rightarrow> VariableRef list"
  svUtf16 :: bool
  svWire :: Wire

section \<open>One branch\<close>

datatype CaseResult =
    Undecodable string
  | NoURI
  | Answered ProviderResult

definition handled ::
  "string \<Rightarrow> string + 'p \<Rightarrow> ('p \<Rightarrow> ProviderResult \<times> HandlerContext) \<Rightarrow> HandlerContext \<Rightarrow> CaseResult \<times> HandlerContext" where
  "handled what decoded provider h =
     (case decoded of
        Inl e \<Rightarrow> (Undecodable (''invalid '' @ what @ '' params: '' @ e), h)
      | Inr p \<Rightarrow> (case provider p of (r, h') \<Rightarrow> (Answered r, h')))"

definition encoded :: "Server \<Rightarrow> string \<Rightarrow> Reply \<Rightarrow> ProviderResult" where
  "encoded sv noun r =
     (case wiMarshal (svWire sv) r of
        Inl (part, e) \<Rightarrow> MarshalFailed part (''failed to marshal '' @ noun @ '': '' @ e)
      | Inr json \<Rightarrow> ProviderJSON json)"

definition listResult :: "Server \<Rightarrow> string \<Rightarrow> ('a list \<Rightarrow> Reply) \<Rightarrow> 'a list \<Rightarrow> ProviderResult" where
  "listResult sv noun reply xs = (if xs = [] then ProviderNil else encoded sv noun (reply xs))"

definition optionResult :: "Server \<Rightarrow> string \<Rightarrow> ('a \<Rightarrow> Reply) \<Rightarrow> 'a option \<Rightarrow> ProviderResult" where
  "optionResult sv noun reply x = (case x of None \<Rightarrow> ProviderNil | Some v \<Rightarrow> encoded sv noun (reply v))"

section \<open>Navigation\<close>

definition definitionRequest :: "Server \<Rightarrow> string \<Rightarrow> HandlerContext \<Rightarrow> CaseResult \<times> HandlerContext" where
  "definitionRequest sv params h =
     handled ''definition'' (wiPosition (svWire sv) ''textDocument/definition'' params)
       (\<lambda>(u, pos). case provideDefinition (svHost sv) (svRefs sv) h u pos (svUtf16 sv) of
          (locations, h') \<Rightarrow> (listResult sv ''locations'' LocationsReply locations, h')) h"

definition declarationRequest :: "Server \<Rightarrow> string \<Rightarrow> HandlerContext \<Rightarrow> CaseResult \<times> HandlerContext" where
  "declarationRequest sv params h =
     handled ''declaration'' (wiPosition (svWire sv) ''textDocument/declaration'' params)
       (\<lambda>(u, pos). case provideDeclaration (svHost sv) (svRefs sv) h u pos (svUtf16 sv) of
          (locations, h') \<Rightarrow> (listResult sv ''locations'' LocationsReply locations, h')) h"

definition typeDefinitionRequest :: "Server \<Rightarrow> string \<Rightarrow> HandlerContext \<Rightarrow> CaseResult \<times> HandlerContext" where
  "typeDefinitionRequest sv params h =
     handled ''typeDefinition'' (wiPosition (svWire sv) ''textDocument/typeDefinition'' params)
       (\<lambda>(u, pos). case provideTypeDefinition (svHost sv) h u pos (svUtf16 sv) of
          (locations, h') \<Rightarrow> (listResult sv ''locations'' LocationsReply locations, h')) h"

definition referencesRequest :: "Server \<Rightarrow> string \<Rightarrow> HandlerContext \<Rightarrow> CaseResult \<times> HandlerContext" where
  "referencesRequest sv params h =
     handled ''references'' (wiReference (svWire sv) params)
       (\<lambda>(u, pos, incl). case provideReferences (svHost sv) (svRefs sv) h u pos incl (svUtf16 sv) of
          (locations, h') \<Rightarrow> (listResult sv ''locations'' LocationsReply locations, h')) h"

definition highlightRequest :: "Server \<Rightarrow> string \<Rightarrow> HandlerContext \<Rightarrow> CaseResult \<times> HandlerContext" where
  "highlightRequest sv params h =
     handled ''document highlight'' (wiPosition (svWire sv) ''textDocument/documentHighlight'' params)
       (\<lambda>(u, pos). (listResult sv ''document highlights'' HighlightsReply
          (provideDocumentHighlight (svHost sv) (svRefs sv) h u pos (svUtf16 sv)), h)) h"

section \<open>Outlines and hover\<close>

definition workspaceSymbolRequest :: "Server \<Rightarrow> string \<Rightarrow> HandlerContext \<Rightarrow> CaseResult \<times> HandlerContext" where
  "workspaceSymbolRequest sv params h =
     handled ''workspace symbol'' (wiQuery (svWire sv) params)
       (\<lambda>query. (listResult sv ''symbols'' SymbolsReply
          (provideWorkspaceSymbols (svHost sv) h query (svUtf16 sv)), h)) h"

definition documentSymbolRequest :: "Server \<Rightarrow> string \<Rightarrow> HandlerContext \<Rightarrow> CaseResult \<times> HandlerContext" where
  "documentSymbolRequest sv params h =
     handled ''document symbol'' (wiDocument (svWire sv) ''textDocument/documentSymbol'' params)
       (\<lambda>u. case provideDocumentSymbols (svHost sv) h u (svUtf16 sv) of
          (Outline docSymbols, h') \<Rightarrow> (listResult sv ''document symbols'' OutlineReply docSymbols, h')
        | (NilStorePanic, h') \<Rightarrow>
            (ProviderPanic ''runtime error: invalid memory address or nil pointer dereference'', h')) h"

definition hoverRequest :: "Server \<Rightarrow> string \<Rightarrow> HandlerContext \<Rightarrow> CaseResult \<times> HandlerContext" where
  "hoverRequest sv params h =
     handled ''hover'' (wiPosition (svWire sv) ''textDocument/hover'' params)
       (\<lambda>(u, pos). case provideHover (svHost sv) (svRefs sv) h u pos (svUtf16 sv) of
          (shown, h') \<Rightarrow> (optionResult sv ''hover'' HoverReply shown, h')) h"

definition codeLensRequest :: "Server \<Rightarrow> string \<Rightarrow> HandlerContext \<Rightarrow> CaseResult \<times> HandlerContext" where
  "codeLensRequest sv params h =
     handled ''code lens'' (wiDocument (svWire sv) ''textDocument/codeLens'' params)
       (\<lambda>u. (listResult sv ''code lenses'' LensesReply (provideCodeLens (svHost sv) h u (svUtf16 sv)), h)) h"

definition documentLinkRequest :: "Server \<Rightarrow> string \<Rightarrow> HandlerContext \<Rightarrow> CaseResult \<times> HandlerContext" where
  "documentLinkRequest sv params h =
     handled ''document link'' (wiDocument (svWire sv) ''textDocument/documentLink'' params)
       (\<lambda>u. (listResult sv ''document links'' LinksReply (provideDocumentLink (svHost sv) h u (svUtf16 sv)), h)) h"

section \<open>Typing\<close>

definition completionRequest :: "Server \<Rightarrow> string \<Rightarrow> HandlerContext \<Rightarrow> CaseResult \<times> HandlerContext" where
  "completionRequest sv params h =
     handled ''completion'' (wiPosition (svWire sv) ''textDocument/completion'' params)
       (\<lambda>(u, pos). case provideCompletion (svHost sv) h u pos (svUtf16 sv) of
          (items, h') \<Rightarrow> (encoded sv ''completion items'' (CompletionReply items), h')) h"

definition signatureHelpRequest :: "Server \<Rightarrow> string \<Rightarrow> HandlerContext \<Rightarrow> CaseResult \<times> HandlerContext" where
  "signatureHelpRequest sv params h =
     handled ''signature help'' (wiPosition (svWire sv) ''textDocument/signatureHelp'' params)
       (\<lambda>(u, pos). (case optionResult sv ''signature help'' SignatureReply
            (provideSignatureHelp (svHost sv) h u pos (svUtf16 sv)) of
          MarshalFailed _ e \<Rightarrow> MarshalFailed None e | r \<Rightarrow> r, h)) h"

section \<open>The call hierarchy\<close>

definition prepareRequest :: "Server \<Rightarrow> string \<Rightarrow> HandlerContext \<Rightarrow> CaseResult \<times> HandlerContext" where
  "prepareRequest sv params h =
     handled ''prepare call hierarchy'' (wiPosition (svWire sv) ''textDocument/prepareCallHierarchy'' params)
       (\<lambda>(u, pos). (listResult sv ''prepare items'' ItemsReply
          (providePrepareCallHierarchy (svHost sv) (svRefs sv) h u pos (svUtf16 sv)), h)) h"

definition incomingRequest :: "Server \<Rightarrow> string \<Rightarrow> HandlerContext \<Rightarrow> CaseResult \<times> HandlerContext" where
  "incomingRequest sv params h =
     handled ''incoming calls'' (wiItem (svWire sv) ''callHierarchy/incomingCalls'' params)
       (\<lambda>item. (listResult sv ''incoming calls'' CallsReply (provideIncomingCalls (svHost sv) h item (svUtf16 sv)), h)) h"

definition outgoingRequest :: "Server \<Rightarrow> string \<Rightarrow> HandlerContext \<Rightarrow> CaseResult \<times> HandlerContext" where
  "outgoingRequest sv params h =
     handled ''outgoing calls'' (wiItem (svWire sv) ''callHierarchy/outgoingCalls'' params)
       (\<lambda>item. (listResult sv ''outgoing calls'' CallsReply (provideOutgoingCalls (svHost sv) h item (svUtf16 sv)), h)) h"

section \<open>Tokens and diagnostics\<close>

definition tokensFullRequest :: "Server \<Rightarrow> string \<Rightarrow> HandlerContext \<Rightarrow> CaseResult \<times> HandlerContext" where
  "tokensFullRequest sv params h =
     handled ''semantic tokens'' (wiDocument (svWire sv) ''textDocument/semanticTokens/full'' params)
       (\<lambda>u. (encoded sv ''semantic tokens'' (TokensReply (provideSemanticTokensFull (svHost sv) h u (svUtf16 sv))), h)) h"

definition tokensRangeRequest :: "Server \<Rightarrow> string \<Rightarrow> HandlerContext \<Rightarrow> CaseResult \<times> HandlerContext" where
  "tokensRangeRequest sv params h =
     handled ''semantic tokens range'' (wiRange (svWire sv) params)
       (\<lambda>(u, r). (encoded sv ''semantic tokens'' (TokensReply (provideSemanticTokensRange (svHost sv) h u r (svUtf16 sv))), h)) h"

definition diagnosticRequest :: "Server \<Rightarrow> string \<Rightarrow> HandlerContext \<Rightarrow> CaseResult \<times> HandlerContext" where
  "diagnosticRequest sv params h =
     (case wiDocument (svWire sv) ''textDocument/diagnostic'' params of
        Inr [] \<Rightarrow> (NoURI, h)
      | decoded \<Rightarrow>
          handled ''diagnostic'' decoded
            (\<lambda>u. (encoded sv ''diagnostic report'' (ReportReply (provideDocumentDiagnostic (svHost sv) h u (svUtf16 sv))), h)) h)"

text \<open>
  The progress this branch sends around the provider, when the token it decodes asks for it, is
  \<open>workspaceDiagnosticProgress\<close> of \<open>Notices\<close>; the main loop sends it.
\<close>

definition workspaceDiagnosticRequest :: "Server \<Rightarrow> string \<Rightarrow> HandlerContext \<Rightarrow> CaseResult \<times> HandlerContext" where
  "workspaceDiagnosticRequest sv params h =
     handled ''workspace diagnostic'' (wiWorkspace (svWire sv) params)
       (\<lambda>_. (encoded sv ''workspace diagnostic report''
          (WorkspaceReply (provideWorkspaceDiagnostic (svHost sv) h (svUtf16 sv))), h)) h"

section \<open>The dispatch\<close>

definition branches :: "(string \<times> (Server \<Rightarrow> string \<Rightarrow> HandlerContext \<Rightarrow> CaseResult \<times> HandlerContext)) list" where
  "branches =
     [(''textDocument/definition'', definitionRequest), (''textDocument/declaration'', declarationRequest),
      (''textDocument/typeDefinition'', typeDefinitionRequest), (''textDocument/references'', referencesRequest),
      (''workspace/symbol'', workspaceSymbolRequest), (''textDocument/documentSymbol'', documentSymbolRequest),
      (''textDocument/hover'', hoverRequest), (''textDocument/codeLens'', codeLensRequest),
      (''textDocument/documentLink'', documentLinkRequest), (''textDocument/completion'', completionRequest),
      (''textDocument/signatureHelp'', signatureHelpRequest),
      (''textDocument/documentHighlight'', highlightRequest),
      (''textDocument/prepareCallHierarchy'', prepareRequest),
      (''callHierarchy/incomingCalls'', incomingRequest), (''callHierarchy/outgoingCalls'', outgoingRequest),
      (''textDocument/semanticTokens/full'', tokensFullRequest),
      (''textDocument/semanticTokens/range'', tokensRangeRequest),
      (''textDocument/diagnostic'', diagnosticRequest), (''workspace/diagnostic'', workspaceDiagnosticRequest)]"

definition requestCase :: "Server \<Rightarrow> string \<Rightarrow> string \<Rightarrow> HandlerContext \<Rightarrow> CaseResult \<times> HandlerContext" where
  "requestCase sv method params h =
     (case map_of branches method of
        None \<Rightarrow> (Answered ProviderNil, h)
      | Some branch \<Rightarrow> branch sv params h)"

text \<open>The backend of the dispatch; what it does for \<open>initialize\<close> is an argument.\<close>

definition serverBackend :: "Server \<Rightarrow> Backend \<Rightarrow> HandlerContext \<Rightarrow> Backend" where
  "serverBackend sv start h = start\<lparr>
     decodeError := (\<lambda>method params. if method = ''initialize'' then decodeError start method params
                       else case fst (requestCase sv method params h) of Undecodable e \<Rightarrow> Some e | _ \<Rightarrow> None),
     uriMissing := (\<lambda>params. fst (diagnosticRequest sv params h) = NoURI),
     provide := (\<lambda>method params. case fst (requestCase sv method params h) of Answered r \<Rightarrow> r | _ \<Rightarrow> ProviderNil)\<rparr>"

text \<open>A provider runs only after initialization; what it leaves in the shared state stays.\<close>

definition serveRequest ::
  "Server \<Rightarrow> Backend \<Rightarrow> Lifecycle \<times> HandlerContext \<Rightarrow> Call \<Rightarrow> (Lifecycle \<times> HandlerContext) \<times> Response list" where
  "serveRequest sv start s c =
     (case s of (state, h) \<Rightarrow>
        (case serveCall (serverBackend sv start h) state c of
           (state', responses) \<Rightarrow>
             ((state', if state = stateInitialized then snd (requestCase sv (callMethod c) (callParams c) h) else h),
              responses)))"

end
