(* ===== verification/Reading.thy ===== *)
theory Reading
  imports Completion FieldResolution_Facts Session
begin

text \<open>
  What a request may change. Lookups by name fill a cache inside the index, so the providers return a
  state; the contract of this theory says that the state they return answers every later request as
  the one they were given. The contract is a locale over the relation between two states, with
  an instance for the index and one for the context of the handlers.
\<close>

section \<open>The contract\<close>

definition agree :: "('s \<Rightarrow> 's \<Rightarrow> bool) \<Rightarrow> 's \<Rightarrow> 'x \<times> 's \<Rightarrow> 'x \<times> 's \<Rightarrow> bool" where
  "agree same s a b \<longleftrightarrow> fst a = fst b \<and> same s (snd a) \<and> same s (snd b)"

definition readsOnly :: "('s \<Rightarrow> 's \<Rightarrow> bool) \<Rightarrow> ('s \<Rightarrow> 'x \<times> 's) \<Rightarrow> bool" where
  "readsOnly same f \<longleftrightarrow> (\<forall>s t. same s t \<longrightarrow> agree same s (f s) (f t))"

fun serially :: "('s \<Rightarrow> 'x \<times> 's) list \<Rightarrow> 's \<Rightarrow> 'x list \<times> 's" where
  "serially [] s = ([], s)"
| "serially (f # fs) s = (case f s of (x, s') \<Rightarrow> (case serially fs s' of (xs, s'') \<Rightarrow> (x # xs, s'')))"

locale reading =
  fixes same :: "'s \<Rightarrow> 's \<Rightarrow> bool"
  assumes same_sym: "same s t \<Longrightarrow> same t s"
    and same_trans: "same s t \<Longrightarrow> same t u \<Longrightarrow> same s u"
begin

lemma same_refl:
  assumes "same s t" shows "same s s"
  by (rule same_trans [OF assms same_sym [OF assms]])

lemma readsI:
  assumes "\<And>s a b. same s a \<Longrightarrow> same s b \<Longrightarrow> agree same s (f a) (f b)" shows "readsOnly same f"
  unfolding readsOnly_def
proof (intro allI impI)
  fix s t assume st: "same s t"
  show "agree same s (f s) (f t)" by (rule assms [OF same_refl [OF st] st])
qed

lemma call:
  assumes f: "readsOnly same f" and a: "same s a" and b: "same s b" shows "agree same s (f a) (f b)"
proof -
  have "same a b" using same_sym [OF a] b by (rule same_trans)
  with f have "agree same a (f a) (f b)" by (simp add: readsOnly_def)
  then show ?thesis using same_trans [OF a] by (simp add: agree_def)
qed

lemma answer: "same s a \<Longrightarrow> same s b \<Longrightarrow> agree same s (x, a) (x, b)"
  by (simp add: agree_def)

lemma bind:
  assumes "agree same s a b" "\<And>x t u. same s t \<Longrightarrow> same s u \<Longrightarrow> agree same s (f x t) (g x u)"
  shows "agree same s (case a of (x, t) \<Rightarrow> f x t) (case b of (x, u) \<Rightarrow> g x u)"
  using assms(1) assms(2) [of "snd a" "snd b" "fst a"] by (simp add: agree_def case_prod_beta)

lemma silent: "readsOnly same f \<Longrightarrow> same s a \<Longrightarrow> same s (snd (f a))"
  using call [of f s a a] by (simp add: agree_def)

text \<open>Any number of reads before it leave the answer of a read as it was.\<close>

lemma later:
  assumes "\<forall>f\<in>set fs. readsOnly same f" "same s s"
  shows "same s (snd (serially fs s)) \<and> fst (serially fs s) = map (\<lambda>f. fst (f s)) fs"
proof -
  have "same s t \<Longrightarrow> same s (snd (serially fs t)) \<and> fst (serially fs t) = map (\<lambda>f. fst (f s)) fs" for t
    using assms(1)
  proof (induction fs arbitrary: t)
    case (Cons f fs)
    have "agree same s (f s) (f t)" using Cons.prems same_refl by (auto intro: call)
    then have "fst (f t) = fst (f s)" "same s (snd (f t))" by (simp_all add: agree_def)
    with Cons.IH [of "snd (f t)"] Cons.prems(2) show ?case by (simp add: case_prod_beta)
  qed simp
  with assms(2) show ?thesis by simp
qed

end

section \<open>The index\<close>

text \<open>The same index with another content of the name cache.\<close>

definition recache :: "NameIndex option \<Rightarrow> ConfigRef \<Rightarrow> Index \<Rightarrow> Index" where
  "recache names cfg idx = idx\<lparr>ixNameIndex := names, ixNameIndexCfg := cfg\<rparr>"

definition sameFiles :: "Index \<Rightarrow> Index \<Rightarrow> bool" where
  "sameFiles i j \<longleftrightarrow> cacheInv i \<and> cacheInv j \<and> (\<exists>n c. j = recache n c i)"

lemma recache_sel [simp]:
  "ixEntries (recache n c idx) = ixEntries idx" "ixLineWidths (recache n c idx) = ixLineWidths idx"
  "ixSkips (recache n c idx) = ixSkips idx" "Get path (recache n c idx) = Get path idx"
  "lineWidthsFor path (recache n c idx) = lineWidthsFor path idx"
  "indexProtocolRange (recache n c idx) = indexProtocolRange idx" "recache n c (recache m d idx) = recache n c idx"
  "recache (ixNameIndex idx) (ixNameIndexCfg idx) idx = idx"
  by (simp_all add: recache_def Get_def lineWidthsFor_def indexProtocolRange_def fun_eq_iff)

lemma sameFiles_recache [simp]: "sameFiles i (recache n c i) \<longleftrightarrow> cacheInv i \<and> cacheInv (recache n c i)"
  unfolding sameFiles_def by blast

lemma sameFilesE:
  assumes "sameFiles i j" obtains n c where "cacheInv i" "cacheInv (recache n c i)" "j = recache n c i"
  using assms by (auto simp: sameFiles_def)

interpretation files: reading sameFiles
proof
  show "sameFiles t s" if st: "sameFiles s t" for s t
  proof -
    obtain n c where c: "cacheInv s" "cacheInv t" "t = recache n c s" using st unfolding sameFiles_def by blast
    then have "s = recache (ixNameIndex s) (ixNameIndexCfg s) t" by simp
    with c show ?thesis unfolding sameFiles_def by blast
  qed
  show "sameFiles s u" if st: "sameFiles s t" "sameFiles t u" for s t u
  proof -
    obtain n c m d where "t = recache n c s" "u = recache m d t" using st unfolding sameFiles_def by blast
    then have "u = recache m d s" by simp
    with st show ?thesis unfolding sameFiles_def by blast
  qed
qed

lemma cachedNameIndex_sameFiles:
  assumes "cacheInv idx" shows "sameFiles idx (snd (cachedNameIndex cfg idx))"
proof -
  let ?built = "buildNameMapFrom (ixEntries idx) (configOf cfg)"
  have "cacheInv (recache (Some ?built) cfg idx)" using assms by (simp add: cacheInv_def recache_def)
  then have built: "sameFiles idx (recache (Some ?built) cfg idx)" using assms by simp
  have "sameFiles idx idx" using sameFiles_recache [of idx "ixNameIndex idx" "ixNameIndexCfg idx"] assms by simp
  with built show ?thesis
    by (simp add: cachedNameIndex_def slowPath_def recache_def Let_def split: option.split)
qed

lemma cachedNameIndex_reads: "readsOnly sameFiles (cachedNameIndex cfg)"
proof (rule files.readsI)
  fix s a b assume ab: "sameFiles s a" "sameFiles s b"
  have "fst (cachedNameIndex cfg t) = buildNameMapFrom (ixEntries s) (configOf cfg)"
    "sameFiles s (snd (cachedNameIndex cfg t))" if "sameFiles s t" for t
    using that cachedNameIndex_sameFiles [of t cfg]
    by (auto elim!: sameFilesE simp: cacheInv_cached intro: files.same_trans)
  with ab show "agree sameFiles s (cachedNameIndex cfg a) (cachedNameIndex cfg b)" by (simp add: agree_def)
qed


lemma LookupByName_reads: "readsOnly sameFiles (LookupByName name typ cfg)"
  by (rule files.readsI, unfold LookupByName_def)
     (rule files.bind [OF files.call [OF cachedNameIndex_reads]], assumption+, rule files.answer)

lemma NamesWithPrefix_reads: "readsOnly sameFiles (NamesWithPrefix prefix typ path cfg)"
  by (rule files.readsI, unfold NamesWithPrefix_def)
     (rule files.bind [OF files.call [OF cachedNameIndex_reads]], assumption+, rule files.answer)

lemma orLookup_agree:
  assumes "agree sameFiles s a b" shows "agree sameFiles s (orLookup name cfg t a) (orLookup name cfg t b)"
  unfolding orLookup_def
  by (rule files.bind [OF assms])
     (simp add: files.answer files.call [OF LookupByName_reads])

lemma resolveDataAreaCandidate_reads:
  "readsOnly sameFiles (\<lambda>idx. resolveDataAreaCandidate name idx path cfg)"
  by (rule files.readsI, unfold resolveDataAreaCandidate_def)
     (rule files.bind [OF orLookup_agree [OF orLookup_agree [OF files.call [OF LookupByName_reads]]]],
       assumption+, rule files.answer)

lemma ResolveDataAreaFieldLocation_reads:
  "readsOnly sameFiles (\<lambda>idx. ResolveDataAreaFieldLocation name ref idx path cfg)"
  by (rule files.readsI, unfold ResolveDataAreaFieldLocation_def)
     (rule files.bind [OF files.call [OF resolveDataAreaCandidate_reads]], assumption+,
       auto elim!: sameFilesE simp: agree_def split: option.split)

lemma ResolveDDMPath_reads: "readsOnly sameFiles (\<lambda>idx. ResolveDDMPath name idx path cfg)"
  by (rule files.readsI, unfold ResolveDDMPath_def)
     (rule files.bind [OF files.call [OF LookupByName_reads]], assumption+,
       auto simp: agree_def split: option.split)

lemma ResolveDDMFieldLocation_reads:
  "readsOnly sameFiles (\<lambda>idx. ResolveDDMFieldLocation name ddm idx path cfg)"
  by (rule files.readsI, unfold ResolveDDMFieldLocation_def)
     (rule files.bind [OF files.call [OF ResolveDDMPath_reads]], assumption+,
       auto elim!: sameFilesE simp: agree_def Let_def split: option.split)

lemma ResolveDDMFieldType_reads:
  "readsOnly sameFiles (\<lambda>idx. ResolveDDMFieldType name ddm idx path cfg)"
  by (rule files.readsI, unfold ResolveDDMFieldType_def)
     (rule files.bind [OF files.call [OF ResolveDDMPath_reads]], assumption+,
       auto elim!: sameFilesE simp: agree_def split: option.split)

lemma crossFileField_agree:
  "sameFiles s a \<Longrightarrow> sameFiles s b \<Longrightarrow>
     agree sameFiles s (crossFileField ho root name found path cfg refs a) (crossFileField ho root name found path cfg refs b)"
proof (induction refs arbitrary: a b)
  case (Cons ref refs)
  show ?case
    unfolding crossFileField.simps
    by (rule files.bind [OF files.call [OF ResolveDataAreaFieldLocation_reads Cons.prems]])
       (auto split: option.split intro: Cons.IH files.answer)
qed (simp add: files.answer)

lemmas crossFileField_reads = files.readsI [OF crossFileField_agree]

lemma resolveVariableDefinitionCrossFile_reads:
  "readsOnly sameFiles (\<lambda>idx. resolveVariableDefinitionCrossFile ho v fa path idx root utf16 cfg)"
  by (rule files.readsI, unfold resolveVariableDefinitionCrossFile_def)
     (rule files.bind [OF files.call [OF crossFileField_reads]], assumption+,
       auto simp: agree_def split: option.split)

lemma findVariableReferencesAcrossFiles_reads:
  "readsOnly sameFiles (\<lambda>idx. findVariableReferencesAcrossFiles ho v fa path idx root refs content utf16 cfg)"
  by (rule files.readsI, unfold findVariableReferencesAcrossFiles_def)
     (rule files.bind [OF files.call [OF crossFileField_reads]], assumption+,
       auto simp: agree_def split: option.split)

lemma provideDDMDefinition_reads:
  "readsOnly sameFiles (\<lambda>idx. provideDDMDefinition ho root path a idx cfg utf16)"
proof (rule files.readsI)
  fix s t u assume "sameFiles s t" "sameFiles s u"
  then show "agree sameFiles s (provideDDMDefinition ho root path a t cfg utf16)
      (provideDDMDefinition ho root path a u cfg utf16)"
    unfolding provideDDMDefinition_def
    by (cases "daName a = []")
       (simp_all add: files.answer,
        rule files.bind [OF files.call [OF ResolveDDMPath_reads]],
        auto elim!: sameFilesE simp: agree_def split: option.split)
qed

lemma symbolDetail_reads:
  "readsOnly sameFiles (\<lambda>idx. symbolDetailWithTypeResolution node view idx path cfg)"
proof (rule files.readsI)
  fix s t u assume "sameFiles s t" "sameFiles s u"
  then show "agree sameFiles s (symbolDetailWithTypeResolution node view t path cfg)
      (symbolDetailWithTypeResolution node view u path cfg)"
    unfolding symbolDetailWithTypeResolution_def
    by (auto split: option.split intro!: files.answer files.bind [OF files.call [OF ResolveDDMFieldType_reads]])
qed

text \<open>The outline of a list, when it is so for each of its nodes.\<close>

lemma outlines_agree:
  assumes "\<And>node a b. node \<in> set nodes \<Longrightarrow> sameFiles s a \<Longrightarrow> sameFiles s b \<Longrightarrow>
       agree sameFiles s (symbolToDocumentSymbolRecursive content utf16 path cfg view node a)
         (symbolToDocumentSymbolRecursive content utf16 path cfg view node b)"
    and "sameFiles s a" "sameFiles s b"
  shows "agree sameFiles s (symbolsToDocumentSymbolsRecursive content utf16 path cfg view nodes a)
      (symbolsToDocumentSymbolsRecursive content utf16 path cfg view nodes b)"
  using assms
proof (induction nodes arbitrary: a b)
  case (Cons node nodes)
  show ?case
    unfolding symbolsToDocumentSymbolsRecursive.simps
    by (rule files.bind, rule Cons.prems(1) [OF _ Cons.prems(2,3)], simp, rule files.bind, rule Cons.IH)
       (simp_all add: Cons.prems(1) files.answer)
qed (simp add: files.answer)

lemma outline_agree:
  "sameFiles s a \<Longrightarrow> sameFiles s b \<Longrightarrow>
     agree sameFiles s (symbolToDocumentSymbolRecursive content utf16 path cfg view node a)
       (symbolToDocumentSymbolRecursive content utf16 path cfg view node b)"
proof (induction node arbitrary: view a b rule: measure_induct_rule [where f = size])
  case (less node)
  show ?case
    unfolding symbolToDocumentSymbolRecursive.simps Let_def
    by (rule files.bind, rule outlines_agree, rule less.IH)
       (auto intro: size_symChild less.prems files.answer
         intro!: files.bind [OF files.call [OF symbolDetail_reads]])
qed

lemmas outline_reads = files.readsI [OF outline_agree]

lemma fieldType_reads: "readsOnly sameFiles (\<lambda>idx. fieldType t idx path cfg)"
proof (rule files.readsI)
  fix s a b assume "sameFiles s a" "sameFiles s b"
  then show "agree sameFiles s (fieldType t a path cfg) (fieldType t b path cfg)"
    unfolding fieldType_def
    by (auto split: option.split intro!: files.answer files.call [OF ResolveDDMFieldType_reads])
qed

lemma provideHoverForViewField_reads: "readsOnly sameFiles (\<lambda>idx. provideHoverForViewField t idx path cfg)"
proof (rule files.readsI)
  fix s a b assume "sameFiles s a" "sameFiles s b"
  then show "agree sameFiles s (provideHoverForViewField t a path cfg) (provideHoverForViewField t b path cfg)"
    unfolding provideHoverForViewField_def Let_def
    by (auto intro!: files.answer files.bind [OF files.call [OF fieldType_reads]])
qed

lemma accessCard_reads: "readsOnly sameFiles (\<lambda>idx. accessCard a idx cfg)"
proof (rule files.readsI)
  fix s t u assume "sameFiles s t" "sameFiles s u"
  then show "agree sameFiles s (accessCard a t cfg) (accessCard a u cfg)"
    unfolding accessCard_def
    by (cases "daName a = []")
       (simp_all add: files.answer,
        rule files.bind [OF files.call [OF LookupByName_reads]],
        auto elim!: sameFilesE simp: agree_def split: list.split)
qed

lemma referenceSites_recache [simp]: "referenceSites ho (recache n c idx) = referenceSites ho idx"
  by (simp add: fun_eq_iff referenceSites_def indexedLocation_def declarationSite_def)

lemma edgeCard_recache [simp]: "edgeCard ho (recache n c idx) = edgeCard ho idx"
  by (intro ext, unfold edgeCard_def recache_sel referenceSites_recache, rule refl)

lemma hoverAt_reads: "readsOnly sameFiles (\<lambda>idx. hoverAt ho refs h idx res path fa content pos utf16)"
proof (rule files.readsI)
  fix s a b assume "sameFiles s a" "sameFiles s b"
  then show "agree sameFiles s (hoverAt ho refs h a res path fa content pos utf16)
      (hoverAt ho refs h b res path fa content pos utf16)"
    unfolding hoverAt_def Let_def
    by (auto intro!: files.answer files.bind [OF files.call [OF accessCard_reads]]
        files.bind [OF files.call [OF provideHoverForViewField_reads]]
        elim!: sameFilesE split: CursorTarget.split option.split)
qed

section \<open>The context of the handlers\<close>

definition indexOK :: "HandlerContext \<Rightarrow> bool" where
  "indexOK h \<longleftrightarrow> (\<forall>idx. hcIdx h = Some idx \<longrightarrow> cacheInv idx)"

definition recached :: "NameIndex option \<Rightarrow> ConfigRef \<Rightarrow> HandlerContext \<Rightarrow> HandlerContext" where
  "recached n c h = h\<lparr>hcIdx := map_option (recache n c) (hcIdx h)\<rparr>"

definition sameContext :: "HandlerContext \<Rightarrow> HandlerContext \<Rightarrow> bool" where
  "sameContext h k \<longleftrightarrow> indexOK h \<and> indexOK k \<and> (\<exists>n c. k = recached n c h)"

lemma recached_sel [simp]:
  "hcRoot (recached n c h) = hcRoot h" "hcCfg (recached n c h) = hcCfg h" "hcStore (recached n c h) = hcStore h"
  "hcRes (recached n c h) = hcRes h" "hcIdx (recached n c h) = map_option (recache n c) (hcIdx h)"
  "recached n c (recached m d h) = recached n c h"
  "(recached n c h)\<lparr>hcIdx := x\<rparr> = h\<lparr>hcIdx := x\<rparr>"
  by (simp_all add: recached_def option.map_comp comp_def)

lemma recached_same: "\<exists>m d. recached m d (recached n c h) = h"
proof (cases "hcIdx h")
  case (Some idx)
  then have "recached (ixNameIndex idx) (ixNameIndexCfg idx) h = h" by (simp add: recached_def)
  then show ?thesis by auto
qed (simp add: recached_def)

interpretation contexts: reading sameContext
proof
  show "sameContext t s" if st: "sameContext s t" for s t
    using st recached_same unfolding sameContext_def by metis
  show "sameContext s u" if st: "sameContext s t" "sameContext t u" for s t u
    using st recached_sel(6) unfolding sameContext_def by metis
qed

lemma contextsI:
  assumes "\<And>s n c m d. indexOK s \<Longrightarrow> sameContext s (recached n c s) \<Longrightarrow> sameContext s (recached m d s) \<Longrightarrow>
     agree sameContext s (f (recached n c s)) (f (recached m d s))"
  shows "readsOnly sameContext f"
proof (rule contexts.readsI)
  fix s a b assume ab: "sameContext s a" "sameContext s b"
  then obtain n c m d where "a = recached n c s" "b = recached m d s" unfolding sameContext_def by blast
  with ab assms [of s n c m d] show "agree sameContext s (f a) (f b)" by (simp add: sameContext_def)
qed

lemma sameContext_index:
  assumes "hcIdx s = Some idx" "sameFiles idx i" shows "sameContext s (s\<lparr>hcIdx := Some i\<rparr>)"
proof -
  obtain n c where "cacheInv idx" "cacheInv i" "i = recache n c idx" using assms(2) unfolding sameFiles_def by blast
  with assms(1) show ?thesis by (auto simp: sameContext_def indexOK_def recached_def)
qed

text \<open>A lookup in the index of the context.\<close>

lemma on_index:
  assumes f: "readsOnly sameFiles f" and idx: "hcIdx s = Some idx"
    and same: "sameContext s (recached n c s)" "sameContext s (recached m d s)"
    and g: "\<And>x i j. sameFiles idx i \<Longrightarrow> sameFiles idx j \<Longrightarrow> sameContext s (s\<lparr>hcIdx := Some i\<rparr>) \<Longrightarrow>
       sameContext s (s\<lparr>hcIdx := Some j\<rparr>) \<Longrightarrow> agree sameContext s (g x i) (k x j)"
  shows "agree sameContext s (case f (recache n c idx) of (x, i) \<Rightarrow> g x i) (case f (recache m d idx) of (x, i) \<Rightarrow> k x i)"
proof -
  have "sameFiles idx (recache n c idx)" "sameFiles idx (recache m d idx)"
    using same idx by (simp_all add: sameContext_def indexOK_def)
  then have "agree sameFiles idx (f (recache n c idx)) (f (recache m d idx))" by (rule files.call [OF f])
  then show ?thesis
    using g [of "snd (f (recache n c idx))" "snd (f (recache m d idx))"] sameContext_index [OF idx]
    by (simp add: agree_def case_prod_beta)
qed

lemma case_map_option:
  "(case map_option f x of None \<Rightarrow> a | Some y \<Rightarrow> g y) = (case x of None \<Rightarrow> a | Some y \<Rightarrow> g (f y))"
  by (cases x) simp_all

lemma bind_recache [simp]: "Option.bind (map_option (recache n c) x) (Get path) = Option.bind x (Get path)"
  by (cases x) simp_all

lemma sourceOf_recached [simp]: "sourceOf ho (recached n c h) = sourceOf ho h"
  by (intro ext, unfold sourceOf_def recached_sel bind_recache, rule refl)

lemma ddmFieldLocation_reads: "readsOnly sameContext (\<lambda>h. ddmFieldLocation ho h name ddm path utf16)"
proof (rule contextsI)
  fix s n c m d assume same: "sameContext s (recached n c s)" "sameContext s (recached m d s)"
  show "agree sameContext s (ddmFieldLocation ho (recached n c s) name ddm path utf16)
      (ddmFieldLocation ho (recached m d s) name ddm path utf16)"
  proof (cases "hcIdx s")
    case None
    with same show ?thesis by (simp add: ddmFieldLocation_def contexts.answer)
  next
    case (Some idx)
    show ?thesis
      unfolding ddmFieldLocation_def recached_sel Some option.map option.case
      by (rule on_index [OF ResolveDDMFieldLocation_reads Some same]) (auto simp: agree_def split: prod.split)
  qed
qed

text \<open>The providers that only ask the index answer nothing without one.\<close>

lemma ask_index:
  assumes f: "readsOnly sameFiles f"
    and same: "sameContext s (recached n c s)" "sameContext s (recached m d s)"
  shows "agree sameContext s
      (case map_option (recache n c) (hcIdx s) of None \<Rightarrow> (y, recached n c s)
       | Some idx \<Rightarrow> (case f idx of (x, i) \<Rightarrow> (g x, s\<lparr>hcIdx := Some i\<rparr>)))
      (case map_option (recache m d) (hcIdx s) of None \<Rightarrow> (y, recached m d s)
       | Some idx \<Rightarrow> (case f idx of (x, i) \<Rightarrow> (g x, s\<lparr>hcIdx := Some i\<rparr>)))"
proof (cases "hcIdx s")
  case None
  with same show ?thesis by (simp add: contexts.answer)
next
  case (Some idx)
  show ?thesis
    unfolding Some option.map option.case by (rule on_index [OF f Some same]) (simp add: agree_def)
qed

lemma viewField_reads: "readsOnly sameContext (\<lambda>h. provideDefinitionForViewField ho h t absPath path utf16)"
  by (rule contextsI, unfold provideDefinitionForViewField_def Let_def)
     (auto intro!: contexts.answer contexts.call [OF ddmFieldLocation_reads] split: option.split)

lemma provideTypeDefinition_reads: "readsOnly sameContext (\<lambda>h. provideTypeDefinition ho h u pos utf16)"
  by (rule contextsI, unfold provideTypeDefinition_def recached_sel sourceOf_recached)
     (auto intro!: contexts.answer contexts.call [OF ddmFieldLocation_reads] split: option.split)

lemma variableDefinition_reads:
  "readsOnly sameContext (\<lambda>h. variableDefinition ho h v fa content absPath path utf16)"
proof (rule contextsI)
  fix s n c m d assume same: "sameContext s (recached n c s)" "sameContext s (recached m d s)"
  show "agree sameContext s (variableDefinition ho (recached n c s) v fa content absPath path utf16)
      (variableDefinition ho (recached m d s) v fa content absPath path utf16)"
  proof (cases "resolveVariableDefinition ho v fa content absPath utf16 = []")
    case True
    show ?thesis
      unfolding variableDefinition_def recached_sel True Let_def
      using ask_index [OF resolveVariableDefinitionCrossFile_reads same, of "[]" "\<lambda>x. x"] by simp
  qed (simp add: variableDefinition_def contexts.answer same)
qed

lemma accessDefinition_reads: "readsOnly sameContext (\<lambda>h. accessDefinition ho h a path utf16)"
  by (rule contextsI, unfold accessDefinition_def recached_sel)
     (rule ask_index [OF provideDDMDefinition_reads])

lemma resolvedLocation_recached [simp]:
  "resolvedLocation ho (recached n c h) (recache m d idx) = resolvedLocation ho h idx"
  by (intro ext, unfold resolvedLocation_def recached_sel recache_sel, rule refl)

lemma candidateLocation_recached [simp]:
  "candidateLocation ho (recached n c h) (recache m d idx) = candidateLocation ho h idx"
  by (intro ext, unfold candidateLocation_def recached_sel recache_sel, rule refl)

lemma edgeDefinition_recached [simp]: "edgeDefinition ho (recached n c h) = edgeDefinition ho h"
  by (intro ext)
     (cases "hcIdx h"; simp add: edgeDefinition_def cong: option.case_cong Resolution.case_cong)

lemma provideDefinition_reads: "readsOnly sameContext (\<lambda>h. provideDefinition ho refs h u pos utf16)"
  by (rule contextsI, unfold provideDefinition_def Let_def recached_sel sourceOf_recached edgeDefinition_recached)
     (auto intro!: contexts.answer contexts.call [OF viewField_reads] contexts.call [OF accessDefinition_reads]
        contexts.call [OF variableDefinition_reads] split: option.split CursorTarget.split)

lemma variableReferences_reads:
  "readsOnly sameContext (\<lambda>h. variableReferences ho h v fa allRefs content absPath path incl utf16)"
proof (rule contextsI)
  fix s n c m d assume same: "sameContext s (recached n c s)" "sameContext s (recached m d s)"
  show "agree sameContext s (variableReferences ho (recached n c s) v fa allRefs content absPath path incl utf16)
      (variableReferences ho (recached m d s) v fa allRefs content absPath path incl utf16)"
  proof (cases "findVariableReferencesInFile ho v fa allRefs content absPath incl utf16 = []")
    case True
    show ?thesis
      unfolding variableReferences_def recached_sel True Let_def
      using ask_index [OF findVariableReferencesAcrossFiles_reads same, of "[]" "\<lambda>x. x"] by simp
  qed (simp add: variableReferences_def contexts.answer same)
qed

lemma targetReferences_reads:
  "readsOnly sameContext (\<lambda>h. targetReferences ho h target path incl utf16)"
proof (rule contextsI)
  fix s n c m d assume same: "sameContext s (recached n c s)" "sameContext s (recached m d s)"
  show "agree sameContext s (targetReferences ho (recached n c s) target path incl utf16)
      (targetReferences ho (recached m d s) target path incl utf16)"
  proof (cases "\<exists>idx res a. hcIdx s = Some idx \<and> hcRes s = Some res \<and> target = CursorAccess a")
    case True
    then obtain idx res a where some: "hcIdx s = Some idx" "hcRes s = Some res" "target = CursorAccess a" by blast
    show ?thesis
      unfolding targetReferences_def recached_sel some option.map option.case prod.case CursorTarget.case
      by (rule on_index [OF ResolveDDMPath_reads some(1) same])
         (auto simp: agree_def sameFiles_def)
  next
    case False
    with same show ?thesis
      by (cases "hcIdx s"; cases "hcRes s"; cases target; simp add: targetReferences_def contexts.answer cong: option.case_cong Resolution.case_cong)
  qed
qed

lemma provideReferences_reads: "readsOnly sameContext (\<lambda>h. provideReferences ho refs h u pos incl utf16)"
  by (rule contextsI, unfold provideReferences_def Let_def recached_sel sourceOf_recached)
     (auto intro!: contexts.answer contexts.call [OF variableReferences_reads]
        contexts.call [OF targetReferences_reads] split: option.split CursorTarget.split)

text \<open>The providers for outlines, hover and completion.\<close>

lemma index_bind:
  assumes f: "readsOnly sameFiles f" and idx: "hcIdx s = Some idx"
    and same: "sameContext s (recached n c s)" "sameContext s (recached m d s)"
  shows "agree sameContext s (case f (recache n c idx) of (x, i) \<Rightarrow> (g x, s\<lparr>hcIdx := Some i\<rparr>))
      (case f (recache m d idx) of (x, i) \<Rightarrow> (g x, s\<lparr>hcIdx := Some i\<rparr>))"
  by (rule on_index [OF f idx same]) (simp add: agree_def)

lemma indexedOutline_reads: "readsOnly sameContext (\<lambda>h. indexedOutline ho h u utf16)"
proof (rule contextsI)
  fix s n c m d assume same: "sameContext s (recached n c s)" "sameContext s (recached m d s)"
  show "agree sameContext s (indexedOutline ho (recached n c s) u utf16) (indexedOutline ho (recached m d s) u utf16)"
  proof (cases "hcIdx s")
    case None
    with same show ?thesis by (simp add: indexedOutline_def contexts.answer)
  next
    case (Some idx)
    show ?thesis
      unfolding indexedOutline_def recached_sel Some option.map prod.case option.case recache_sel
      by (auto intro!: contexts.answer same index_bind [OF outline_reads Some same] split: option.split)
  qed
qed

lemma provideDocumentSymbols_reads: "readsOnly sameContext (\<lambda>h. provideDocumentSymbols ho h u utf16)"
  by (rule contextsI, unfold provideDocumentSymbols_def recached_sel)
     (auto intro!: contexts.answer contexts.bind [OF contexts.call [OF indexedOutline_reads]] split: option.split)

lemma provideHover_reads: "readsOnly sameContext (\<lambda>h. provideHover ho refs h u pos utf16)"
proof (rule contextsI)
  fix s n c m d assume same: "sameContext s (recached n c s)" "sameContext s (recached m d s)"
  show "agree sameContext s (provideHover ho refs (recached n c s) u pos utf16) (provideHover ho refs (recached m d s) u pos utf16)"
  proof (cases "hcIdx s")
    case None
    with same show ?thesis by (simp add: provideHover_def contexts.answer)
  next
    case (Some idx)
    have h: "hoverAt ho refs (recached n c s) = hoverAt ho refs s" for n c
      by (intro ext, unfold hoverAt_def recached_sel, rule refl)
    show ?thesis
      unfolding provideHover_def recached_sel Some option.map prod.case option.case recache_sel h
      by (auto intro!: contexts.answer same index_bind [OF hoverAt_reads Some same, of "\<lambda>x. x"] split: option.split)
  qed
qed

interpretation slots: reading "rel_option sameFiles"
proof
  show "rel_option sameFiles t s" if "rel_option sameFiles s t" for s t
    using that by (cases s; cases t) (auto intro: files.same_sym)
  show "rel_option sameFiles s u" if "rel_option sameFiles s t" "rel_option sameFiles t u" for s t u
    using that by (cases s; cases t; cases u) (auto intro: files.same_trans)
qed

lemma slotI:
  assumes none: "f None = (y, None)" and some: "\<And>idx. f (Some idx) = (case k idx of (x, i) \<Rightarrow> (x, Some i))"
    and k: "readsOnly sameFiles k"
  shows "readsOnly (rel_option sameFiles) f"
proof (rule slots.readsI)
  fix s a b assume ab: "rel_option sameFiles s a" "rel_option sameFiles s b"
  show "agree (rel_option sameFiles) s (f a) (f b)"
  proof (cases s)
    case None
    with ab show ?thesis by (simp add: none agree_def)
  next
    case (Some idx)
    with ab obtain i j where ij: "a = Some i" "b = Some j" "sameFiles idx i" "sameFiles idx j"
      by (auto simp: option_rel_Some1)
    from files.call [OF k ij(3,4)] show ?thesis by (simp add: ij Some some agree_def case_prod_beta)
  qed
qed

lemma readsOnly_map:
  "readsOnly sameFiles f \<Longrightarrow> readsOnly sameFiles (\<lambda>idx. case f idx of (x, i) \<Rightarrow> (g x, i))"
  by (auto simp: readsOnly_def agree_def case_prod_beta)

lemma provideModuleCompletion_reads:
  "readsOnly (rel_option sameFiles) (\<lambda>i. provideModuleCompletion i cfg path prefix typ)"
  by (rule slotI [OF _ _ readsOnly_map [OF NamesWithPrefix_reads]])
     (simp_all add: provideModuleCompletion_def case_prod_beta)

lemma provideDDMFieldCompletion_reads:
  "readsOnly (rel_option sameFiles) (\<lambda>i. provideDDMFieldCompletion i cfg ddm prefix)"
proof (cases "ddm = []")
  case True
  have "readsOnly sameFiles (\<lambda>idx. ([], idx))" by (rule files.readsI) (rule files.answer)
  then show ?thesis by (rule slotI [rotated 2]) (simp_all add: provideDDMFieldCompletion_def True)
next
  case False
  let ?items = "\<lambda>cs idx. case cs of [c] \<Rightarrow> (case Get (cdPath c) idx of None \<Rightarrow> []
      | Some fa \<Rightarrow> collectFieldCompletions (faDefinitions fa) (toUpper prefix)) | _ \<Rightarrow> []"
  have "readsOnly sameFiles (\<lambda>idx. case LookupByName ddm ObjectDDM cfg idx of (cs, i) \<Rightarrow> (?items cs i, i))"
    by (rule files.readsI, rule files.bind [OF files.call [OF LookupByName_reads]], assumption+)
       (auto elim!: sameFilesE simp: agree_def split: list.split)
  then show ?thesis
    by (rule slotI [rotated 2]) (simp_all add: provideDDMFieldCompletion_def False case_prod_beta)
qed

lemma context_slot: "sameContext s (recached n c s) \<Longrightarrow> rel_option sameFiles (hcIdx s) (map_option (recache n c) (hcIdx s))"
  by (cases "hcIdx s") (simp_all add: sameContext_def indexOK_def)

lemmas slot_answer = slots.answer [OF context_slot context_slot]
  and slot_modules = slots.call [OF provideModuleCompletion_reads context_slot context_slot]
  and slot_fields = slots.call [OF provideDDMFieldCompletion_reads context_slot context_slot]

lemma performItems_agree:
  assumes "sameContext s (recached n c s)" "sameContext s (recached m d s)"
  shows "agree (rel_option sameFiles) (hcIdx s) (performItems (recached n c s) u path prefix)
      (performItems (recached m d s) u path prefix)"
  unfolding performItems_def recached_sel bind_recache Let_def
  by (auto intro!: slot_answer slots.bind [OF slot_modules] assms intro: slots.answer)

lemma completionItems_agree:
  assumes "sameContext s (recached n c s)" "sameContext s (recached m d s)"
  shows "agree (rel_option sameFiles) (hcIdx s) (completionItems ho (recached n c s) u kind prefix)
      (completionItems ho (recached m d s) u kind prefix)"
  unfolding completionItems_def recached_sel
  by (cases "ckKind kind")
     (auto intro!: slot_answer slot_modules slot_fields performItems_agree assms split: option.split)

lemma sameContext_slot: "sameContext s t \<Longrightarrow> rel_option sameFiles (hcIdx s) i \<Longrightarrow> sameContext s (s\<lparr>hcIdx := i\<rparr>)"
proof (cases "hcIdx s")
  case None
  assume "sameContext s t" "rel_option sameFiles (hcIdx s) i"
  with None have "s\<lparr>hcIdx := i\<rparr> = s" "sameContext s s" by (auto intro: contexts.same_refl)
  then show ?thesis by simp
qed (auto simp: option_rel_Some1 intro: sameContext_index)

lemma completionText_recached: "completionText ho (recached n c h) = completionText ho h"
  by (intro ext, unfold completionText_def recached_sel prod.case case_map_option, rule refl)

lemma slot_bind:
  assumes "agree (rel_option sameFiles) (hcIdx s) a b" "sameContext s t"
  shows "agree sameContext s (case a of (x, i) \<Rightarrow> (x, s\<lparr>hcIdx := i\<rparr>)) (case b of (x, i) \<Rightarrow> (x, s\<lparr>hcIdx := i\<rparr>))"
  using assms sameContext_slot [OF assms(2)] by (simp add: agree_def case_prod_beta)

lemma agree_pair:
  "(\<And>x y. agree same s (f x y) (g x y)) \<Longrightarrow> agree same s (case p of (x, y) \<Rightarrow> f x y) (case p of (x, y) \<Rightarrow> g x y)"
  by (cases p) simp

lemma provideCompletion_reads: "readsOnly sameContext (\<lambda>h. provideCompletion ho h u pos utf16)"
  by (rule contextsI, unfold provideCompletion_def completionText_recached recached_sel Let_def)
     (auto intro!: contexts.answer agree_pair slot_bind [OF completionItems_agree] split: option.split)

end
