(* ===== verification/Requests.thy ===== *)
theory Requests
  imports Handlers Reading
begin

text \<open>
  Every branch of the request dispatch meets the contract of \<open>Reading\<close>: the branches that only look at
  the index give the same answer for every content of its name cache, and the others return a context
  that answers as the one they were given.
\<close>

section \<open>Providers that look only\<close>

lemma provideDocumentHighlight_recached [simp]:
  "provideDocumentHighlight ho refs (recached n c h) = provideDocumentHighlight ho refs h"
  by (intro ext, unfold provideDocumentHighlight_def recached_sel sourceOf_recached prod.case case_map_option
      referenceSites_recache, rule refl)

lemma indexedLocation_recache [simp]: "indexedLocation ho (recache n c idx) = indexedLocation ho idx"
  by (intro ext, unfold indexedLocation_def recache_sel, rule refl)

lemma fileSymbols_recached [simp]: "fileSymbols ho (recached n c h) (recache m d idx) = fileSymbols ho h idx"
  by (intro ext, unfold fileSymbols_def recached_sel indexedLocation_recache, rule refl)

lemma provideWorkspaceSymbols_recached [simp]:
  "provideWorkspaceSymbols ho (recached n c h) = provideWorkspaceSymbols ho h"
  by (intro ext, unfold provideWorkspaceSymbols_def recached_sel case_map_option recache_sel fileSymbols_recached, rule refl)

lemma buildCallCountLens_recache [simp]: "buildCallCountLens ho (recache n c idx) = buildCallCountLens ho idx"
  by (intro ext, unfold buildCallCountLens_def referenceSites_recache, rule refl)

lemma buildCodeLenses_recached [simp]: "buildCodeLenses ho (recached n c h) = buildCodeLenses ho h"
  by (intro ext, unfold buildCodeLenses_def recached_sel prod.case case_map_option buildCallCountLens_recache, rule refl)

lemma indexedLenses_recached [simp]: "indexedLenses ho (recached n c h) = indexedLenses ho h"
  by (intro ext, unfold indexedLenses_def recached_sel bind_recache buildCodeLenses_recached, rule refl)

lemma provideCodeLens_recached [simp]: "provideCodeLens ho (recached n c h) = provideCodeLens ho h"
  by (intro ext, unfold provideCodeLens_def recached_sel buildCodeLenses_recached indexedLenses_recached, rule refl)

lemma provideDocumentLink_recached [simp]: "provideDocumentLink ho (recached n c h) = provideDocumentLink ho h"
  by (intro ext, unfold provideDocumentLink_def recached_sel sourceOf_recached, rule refl)

lemma signatureAt_recache [simp]: "signatureAt (recache n c idx) = signatureAt idx"
  by (intro ext, unfold signatureAt_def resolvedTarget_def recache_sel, rule refl)

lemma provideSignatureHelp_recached [simp]: "provideSignatureHelp ho (recached n c h) = provideSignatureHelp ho h"
  by (intro ext, unfold provideSignatureHelp_def recached_sel sourceOf_recached prod.case case_map_option
      signatureAt_recache, rule refl)

text \<open>The call hierarchy.\<close>

lemma rootItem_recached [simp]: "rootItem ho (recached n c h) (recache m d idx) = rootItem ho h idx"
  by (intro ext, unfold rootItem_def recached_sel recache_sel, rule refl)

lemma callSiteItems_recached [simp]: "callSiteItems ho (recached n c h) (recache m d idx) = callSiteItems ho h idx"
  by (intro ext, unfold callSiteItems_def candidateItem_def [abs_def] resolvedItems_def recached_sel recache_sel
      rootItem_recached, rule refl)

lemma definitionItems_recached [simp]: "definitionItems ho (recached n c h) = definitionItems ho h"
  by (intro ext, unfold definitionItems_def recached_sel, rule refl)

lemma providePrepareCallHierarchy_recached [simp]:
  "providePrepareCallHierarchy ho refs (recached n c h) = providePrepareCallHierarchy ho refs h"
  by (intro ext, unfold providePrepareCallHierarchy_def recached_sel sourceOf_recached prod.case case_map_option
      callSiteItems_recached definitionItems_recached, rule refl)

lemma resolveItemIdentity_recache [simp]: "resolveItemIdentity ho (recache n c idx) = resolveItemIdentity ho idx"
  by (intro ext, unfold resolveItemIdentity_def symbolOfData_def [abs_def] symbolOfRange_def recache_sel, rule refl)

lemma provideIncomingCalls_recached [simp]: "provideIncomingCalls ho (recached n c h) = provideIncomingCalls ho h"
  by (intro ext, unfold provideIncomingCalls_def incomingCall_def [abs_def] incomingCallSites_def recached_sel recache_sel
      prod.case case_map_option resolveItemIdentity_recache rootItem_recached, rule refl)

lemma provideOutgoingCalls_recached [simp]: "provideOutgoingCalls ho (recached n c h) = provideOutgoingCalls ho h"
  by (intro ext, unfold provideOutgoingCalls_def outgoingCall_def [abs_def] recached_sel
      prod.case case_map_option resolveItemIdentity_recache rootItem_recached, rule refl)

text \<open>Tokens and diagnostics.\<close>

lemma tokenSource_recached [simp]: "tokenSource ho (recached n c h) = tokenSource ho h"
  by (intro ext, unfold tokenSource_def recached_sel, rule refl)

lemma semanticTokens_recached [simp]:
  "provideSemanticTokensFull ho (recached n c h) = provideSemanticTokensFull ho h"
  "provideSemanticTokensRange ho (recached n c h) = provideSemanticTokensRange ho h"
  by (intro ext, unfold provideSemanticTokensFull_def tokenSource_recached, rule refl)
     (intro ext, unfold provideSemanticTokensRange_def tokenSource_recached, rule refl)

lemma provideDocumentDiagnostic_recached [simp]:
  "provideDocumentDiagnostic ho (recached n c h) = provideDocumentDiagnostic ho h"
  by (intro ext, unfold provideDocumentDiagnostic_def recached_sel case_map_option recache_sel, rule refl)

lemma provideWorkspaceDiagnostic_recached [simp]:
  "provideWorkspaceDiagnostic ho (recached n c h) = provideWorkspaceDiagnostic ho h"
  by (intro ext, unfold provideWorkspaceDiagnostic_def fileReport_def [abs_def] recached_sel case_map_option recache_sel,
      rule refl)

section \<open>The branches\<close>

lemma pure_reads: "(\<And>n c h. g (recached n c h) = g h) \<Longrightarrow> readsOnly sameContext (\<lambda>h. (g h, h))"
  by (rule contextsI) (simp add: contexts.answer)

lemma map_reads:
  "readsOnly sameContext f \<Longrightarrow> readsOnly sameContext (\<lambda>h. case f h of (x, h') \<Rightarrow> (g x, h'))"
  by (auto simp: readsOnly_def agree_def case_prod_beta)

lemma handled_reads:
  assumes "\<And>p. readsOnly sameContext (provider p)"
  shows "readsOnly sameContext (\<lambda>h. handled what decoded (\<lambda>p. provider p h) h)"
  using assms
  by (cases decoded) (auto simp: handled_def readsOnly_def agree_def case_prod_beta intro: contexts.same_refl)

lemma pair_reads:
  "(\<And>x y. readsOnly sameContext (\<lambda>h. f x y h)) \<Longrightarrow> readsOnly sameContext (\<lambda>h. case p of (x, y) \<Rightarrow> f x y h)"
  by (cases p) simp

lemmas stateful_reads = handled_reads pair_reads map_reads provideDefinition_reads provideTypeDefinition_reads
  provideReferences_reads provideHover_reads provideCompletion_reads

lemma branch_reads:
  "readsOnly sameContext (definitionRequest sv params)" "readsOnly sameContext (declarationRequest sv params)"
  "readsOnly sameContext (typeDefinitionRequest sv params)" "readsOnly sameContext (referencesRequest sv params)"
  "readsOnly sameContext (hoverRequest sv params)" "readsOnly sameContext (completionRequest sv params)"
  unfolding definitionRequest_def [abs_def] declarationRequest_def [abs_def] typeDefinitionRequest_def [abs_def]
    referencesRequest_def [abs_def] hoverRequest_def [abs_def] completionRequest_def [abs_def] provideDeclaration_def
  by (intro stateful_reads)+

lemma looking_reads:
  "readsOnly sameContext (highlightRequest sv params)" "readsOnly sameContext (workspaceSymbolRequest sv params)"
  "readsOnly sameContext (codeLensRequest sv params)" "readsOnly sameContext (documentLinkRequest sv params)"
  "readsOnly sameContext (signatureHelpRequest sv params)" "readsOnly sameContext (prepareRequest sv params)"
  "readsOnly sameContext (incomingRequest sv params)" "readsOnly sameContext (outgoingRequest sv params)"
  "readsOnly sameContext (tokensFullRequest sv params)" "readsOnly sameContext (tokensRangeRequest sv params)"
  "readsOnly sameContext (workspaceDiagnosticRequest sv params)"
  unfolding highlightRequest_def [abs_def] workspaceSymbolRequest_def [abs_def] codeLensRequest_def [abs_def]
    documentLinkRequest_def [abs_def] signatureHelpRequest_def [abs_def] prepareRequest_def [abs_def]
    incomingRequest_def [abs_def] outgoingRequest_def [abs_def] tokensFullRequest_def [abs_def]
    tokensRangeRequest_def [abs_def] workspaceDiagnosticRequest_def [abs_def]
  by (intro handled_reads pair_reads pure_reads, simp)+

lemma documentSymbolRequest_reads: "readsOnly sameContext (documentSymbolRequest sv params)"
proof -
  have "readsOnly sameContext (\<lambda>h. case provideDocumentSymbols (svHost sv) h u (svUtf16 sv) of
      (Outline docSymbols, h') \<Rightarrow> (listResult sv ''document symbols'' OutlineReply docSymbols, h')
    | (NilStorePanic, h') \<Rightarrow> (ProviderPanic ''runtime error: invalid memory address or nil pointer dereference'', h'))" for u
    using provideDocumentSymbols_reads [of "svHost sv" u "svUtf16 sv"]
    by (auto simp: readsOnly_def agree_def case_prod_beta split: OutlineResult.split)
  then show ?thesis unfolding documentSymbolRequest_def [abs_def] by (rule handled_reads)
qed

lemma diagnosticRequest_reads: "readsOnly sameContext (diagnosticRequest sv params)"
proof -
  have sent: "readsOnly sameContext (\<lambda>h. handled ''diagnostic'' d
      (\<lambda>u. (encoded sv ''diagnostic report'' (ReportReply (provideDocumentDiagnostic (svHost sv) h u (svUtf16 sv))), h)) h)" for d
    by (intro handled_reads pure_reads) simp
  have none: "readsOnly sameContext (\<lambda>h. (NoURI, h))" by (rule pure_reads) simp
  consider e where "wiDocument (svWire sv) ''textDocument/diagnostic'' params = Inl e"
    | "wiDocument (svWire sv) ''textDocument/diagnostic'' params = Inr []" | u us where
    "wiDocument (svWire sv) ''textDocument/diagnostic'' params = Inr (u # us)"
    by (cases "wiDocument (svWire sv) ''textDocument/diagnostic'' params"; metis list.exhaust)
  then show ?thesis unfolding diagnosticRequest_def [abs_def] using sent none by cases simp_all
qed

text \<open>A request returns a context that answers as the one it was given.\<close>

lemma requestCase_reads: "readsOnly sameContext (requestCase sv method params)"
proof -
  have all: "list_all (\<lambda>b. readsOnly sameContext (snd b sv params)) branches"
    by (simp add: branches_def branch_reads looking_reads documentSymbolRequest_reads diagnosticRequest_reads)
  have "readsOnly sameContext (branch sv params)" if "map_of branches method = Some branch" for branch
    using map_of_SomeD [OF that] all by (force simp: list_all_iff)
  then show ?thesis
    unfolding requestCase_def [abs_def]
    by (cases "map_of branches method") (simp_all add: pure_reads)
qed

end
