(* ===== verification/Session_Facts.thy ===== *)
theory Session_Facts
  imports Requests Build_Facts Resolution_Facts
begin

text \<open>
  Facts about the shared state. In every interleaving of notifications and requests with the background build the
  published resolution is that of the published index, although it is only ever updated
  incrementally; an edit of an open document reaches the store and the index with the same analysis;
  and a replay that is not interrupted puts every open document into the index.
\<close>

section \<open>The index is always resolved\<close>

definition resolvedNow :: "HandlerContext \<Rightarrow> bool" where
  "resolvedNow h \<longleftrightarrow>
     (case hcIdx h of
        None \<Rightarrow> True
      | Some idx \<Rightarrow> cacheInv idx \<and> hcRes h = Some (Resolve idx (Some (hcCfg h))))"

lemma ResolveInto_step:
  assumes "cacheInv idx" and "cacheInv idx'"
    and "\<And>p. p \<notin> set ps \<Longrightarrow> Get p idx' = Get p idx"
    and "\<And>p. Get p idx \<noteq> None \<Longrightarrow> Get p idx' \<noteq> None"
  shows "ResolveInto (Some (Resolve idx cfg)) idx' cfg ps = Resolve idx' cfg"
  using assms by (intro ResolveInto_unaffected) (auto simp: unaffected_def cacheInv_def)

lemma applyDocumentChange_resolved:
  assumes "resolvedNow h"
  shows "resolvedNow (applyDocumentChange az relPath content h)"
  using assms
  by (cases "hcIdx h")
    (auto simp: resolvedNow_def applyDocumentChange_def Let_def intro!: ResolveInto_step split: option.splits)

lemma mergeEntries:
  "cacheInv idx \<Longrightarrow> cacheInv (foldl mergeEntry idx es)"
  "p \<notin> reRelPath ` set es \<Longrightarrow> Get p (foldl mergeEntry idx es) = Get p idx"
  "Get p idx \<noteq> None \<Longrightarrow> Get p (foldl mergeEntry idx es) \<noteq> None"
  by (induction es arbitrary: idx) (auto simp: mergeEntry_def)

lemma mergeEntries_Some: "Get p idx = Some fa \<Longrightarrow> \<exists>fa'. Get p (foldl mergeEntry idx es) = Some fa'"
  using mergeEntries(3) [of p idx es] by auto

lemma replayMerge_resolved: "resolvedNow h \<Longrightarrow> resolvedNow (replayMerge es h)"
  by (cases "hcIdx h")
    (auto simp: resolvedNow_def replayMerge_def Let_def mergeEntries mergeEntries_Some intro!: ResolveInto_step)

lemma onStore_resolved [simp]: "resolvedNow (onStore f h) = resolvedNow h"
  by (simp add: resolvedNow_def onStore_def split: option.splits)

lemma foldl_resolved:
  "(\<And>h x. resolvedNow h \<Longrightarrow> resolvedNow (f h x)) \<Longrightarrow> resolvedNow h \<Longrightarrow> resolvedNow (foldl f h xs)"
  by (induction xs arbitrary: h) auto

lemma events_resolved:
  assumes "resolvedNow h"
  shows "resolvedNow (didOpen fsPath u v c h)" "resolvedNow (didChange fsPath az u v changes h)"
    "resolvedNow (didClose u h)" "resolvedNow (didChangeWatchedFiles fsPath az events h)"
  using assms unfolding didChange_def didChangeWatchedFiles_def didOpen_def didClose_def
  by (auto intro!: foldl_resolved applyDocumentChange_resolved
      simp: changeStep_def watchedStep_def Let_def split: ContentChange.splits option.splits)

text \<open>A request leaves the context resolved, whatever it looks up.\<close>

lemma Resolve_recache [simp]: "Resolve (recache n c idx) = Resolve idx"
  by (intro ext) (simp add: Resolve_def buildNameIndex_def)

lemma resolvedNow_indexOK: "resolvedNow h \<Longrightarrow> indexOK h"
  by (simp add: resolvedNow_def indexOK_def split: option.splits)

lemma sameContext_resolved: "sameContext h k \<Longrightarrow> resolvedNow h \<Longrightarrow> resolvedNow k"
  by (cases "hcIdx h") (auto simp: sameContext_def resolvedNow_def indexOK_def)

lemma sameContext_refl: "indexOK h \<Longrightarrow> sameContext h h"
  using recached_same [of undefined undefined h] by (auto simp: sameContext_def) (metis recached_sel(6))

lemma requestCase_same: "indexOK h \<Longrightarrow> sameContext h (snd (requestCase sv method params h))"
  by (rule contexts.silent [OF requestCase_reads sameContext_refl])

lemma foldl_loadStep_cacheInv: "cacheInv (fst acc) \<Longrightarrow> cacheInv (fst (foldl (loadStep hashes) acc es))"
  by (induction es arbitrary: acc) (auto simp: loadStep_def Let_def split: prod.splits)

lemma Load_cacheInv: "cacheInv (fst (loadOrEmpty (Load codec cache hashes)))"
  using foldl_loadStep_cacheInv [of "(emptyIndex, [])"]
  by (auto simp: Load_def loadOrEmpty_def split: option.splits prod.splits) (metis fst_conv cacheInv_ops(1))

lemma cacheInv_scanFile: "cacheInv (scIndex s) \<Longrightarrow> cacheInv (scIndex (scanFile cfg disk az stale f s))"
  by (auto simp: scanFile_def Let_def split: option.splits)

lemma cacheInv_scanLoop:
  "scanLoop cancelled cfg disk az stale i files s = Some t \<Longrightarrow> cacheInv (scIndex s) \<Longrightarrow> cacheInv (scIndex t)"
  by (induction files arbitrary: i s) (auto intro: cacheInv_scanFile split: if_splits)

lemma cacheInv_ensureLineWidths: "cacheInv idx \<Longrightarrow> cacheInv (ensureLineWidths disk files idx)"
  unfolding ensureLineWidths_def
  by (induction files arbitrary: idx) (auto simp: ensureStep_def Let_def split: option.splits)

lemma BuildWithCache_cacheInv:
  "BuildWithCache cancelled codec sha cfg disk root az cachePath hashes cache writeFile = Inr b \<Longrightarrow> cacheInv (btIndex b)"
  using Load_cacheInv
  by (auto simp: BuildWithCache_def Let_def split: option.splits prod.splits if_splits
      dest!: cacheInv_scanLoop intro!: cacheInv_ensureLineWidths) (metis fst_conv)+

text \<open>
  A session: the handlers' state and the progress of the build. Notifications and requests may come
  between any two steps of the build.
\<close>

datatype BuildPhase = Building | Published | Snapshot "ReplayEntry list" | Finished

definition startContext :: "(string \<Rightarrow> string \<Rightarrow> Outcome) \<Rightarrow> string \<Rightarrow> Config \<Rightarrow> HandlerContext" where
  "startContext az root cfg =
     \<lparr>hcRoot = root, hcCfg = cfg,
      hcStore = Some (newStore root (Some (\<lambda>relPath content. Some (fpFileAnalysis (analyzeOne cfg az relPath content))))),
      hcIdx = None, hcRes = None\<rparr>"

inductive sessionReachable ::
  "(string \<Rightarrow> string) \<Rightarrow> (string \<Rightarrow> string \<Rightarrow> Outcome) \<Rightarrow> HandlerContext \<times> BuildPhase \<Rightarrow> bool"
  for fsPath az where
    start: "sessionReachable fsPath az (startContext az root cfg, Building)"
  | opened: "sessionReachable fsPath az (h, ph) \<Longrightarrow> sessionReachable fsPath az (didOpen fsPath u v c h, ph)"
  | edited: "sessionReachable fsPath az (h, ph) \<Longrightarrow>
      sessionReachable fsPath az (didChange fsPath az u v changes h, ph)"
  | closed: "sessionReachable fsPath az (h, ph) \<Longrightarrow> sessionReachable fsPath az (didClose u h, ph)"
  | watched: "sessionReachable fsPath az (h, ph) \<Longrightarrow>
      sessionReachable fsPath az (didChangeWatchedFiles fsPath az events h, ph)"
  | served: "sessionReachable fsPath az (h, ph) \<Longrightarrow>
      sessionReachable fsPath az (snd (requestCase sv method params h), ph)"
  | published: "sessionReachable fsPath az (h, Building) \<Longrightarrow>
      outcome = BuildWithCache cancelled codec sha (hcCfg h) disk tree az cachePath hashes cache writeFile \<Longrightarrow>
      sessionReachable fsPath az (publishIndex (buildIndex (hcCfg h) outcome) h, Published)"
  | snapshot: "sessionReachable fsPath az (h, Published) \<Longrightarrow>
      sessionReachable fsPath az (h, Snapshot (replaySnapshot fsPath h))"
  | merged: "sessionReachable fsPath az (h, Snapshot es) \<Longrightarrow>
      sessionReachable fsPath az (replayMerge es h, Finished)"

lemma reachable_resolved: "sessionReachable fsPath az s \<Longrightarrow> resolvedNow (fst s)"
proof (induction rule: sessionReachable.induct)
  case (start root cfg)
  then show ?case by (simp add: startContext_def resolvedNow_def)
next
  case (published h outcome cancelled codec sha disk tree cachePath hashes cache writeFile)
  have "cacheInv (btIndex b)" if "outcome = Inr b" for b
    using BuildWithCache_cacheInv published(2) that by blast
  then show ?case
    by (cases outcome) (simp_all add: resolvedNow_def publishIndex_def buildIndex_def)
next
  case (merged h es)
  then show ?case by (simp add: replayMerge_resolved)
next
  case (served h ph sv m p)
  then show ?case
    using sameContext_resolved [OF requestCase_same [of h sv m p]] by (simp add: resolvedNow_indexOK)
qed (simp_all add: events_resolved)

text \<open>
  C2. In every interleaving of document and file notifications and requests with the background build, the
  published resolution is the resolution of the whole published index, although every change after
  the build is resolved incrementally.
\<close>

theorem session_resolution_current:
  assumes "sessionReachable fsPath az (h, ph)" and "hcIdx h = Some idx"
  shows "hcRes h = Some (Resolve idx (Some (hcCfg h)))"
  using reachable_resolved [OF assms(1)] assms(2) by (simp add: resolvedNow_def)

section \<open>Open documents\<close>

definition goodStore :: "(string \<Rightarrow> string \<Rightarrow> Outcome) \<Rightarrow> string \<Rightarrow> Config \<Rightarrow> Store \<Rightarrow> bool" where
  "goodStore az root cfg s \<longleftrightarrow> stRoot s = root \<and> wellFormed (stDocs s) \<and>
     stAnalyze s = Some (\<lambda>relPath content. Some (fpFileAnalysis (analyzeOne cfg az relPath content))) \<and>
     (\<forall>u doc. storeGet s u = Some doc \<longrightarrow> docURI doc = u)"

definition storeOK :: "(string \<Rightarrow> string \<Rightarrow> Outcome) \<Rightarrow> HandlerContext \<Rightarrow> bool" where
  "storeOK az h \<longleftrightarrow> (case hcStore h of None \<Rightarrow> False | Some s \<Rightarrow> goodStore az (hcRoot h) (hcCfg h) s)"

lemma goodStore_ops:
  assumes "goodStore az root cfg s"
  shows "goodStore az root cfg (storeOpen fsPath u v c s)" "goodStore az root cfg (storeUpdate fsPath u v c s)"
    "goodStore az root cfg (storeClose u s)"
  using assms
  by (auto simp: goodStore_def storeOpen_def storeUpdate_def storeClose_def storeGet_def wellFormed_def
      distinct_update AList.distinct_delete update_conv delete_conv simp del: map_of_eq_Some_iff split: option.splits if_splits)

lemma applyDocumentChange_sel [simp]:
  "hcStore (applyDocumentChange az p c h) = hcStore h" "hcRoot (applyDocumentChange az p c h) = hcRoot h"
  "hcCfg (applyDocumentChange az p c h) = hcCfg h"
  by (simp_all add: applyDocumentChange_def Let_def split: option.splits)

lemma storeOK_apply [simp]: "storeOK az (applyDocumentChange az p c h) = storeOK az h"
  by (simp add: storeOK_def split: option.splits)

lemma applyDocumentChange_idx: "hcIdx h = Some idx \<Longrightarrow> \<exists>i. hcIdx (applyDocumentChange az p c h) = Some i"
  by (simp add: applyDocumentChange_def Let_def split: option.splits)

lemma storeGet_update:
  "storeGet (storeUpdate fsPath u v c s) u =
     map_option (\<lambda>doc. doc\<lparr>docVersion := v, docContent := c, docAnalysis := storeAnalysis fsPath s u c\<rparr>) (storeGet s u)"
  by (simp add: storeUpdate_def storeGet_def update_conv split: option.splits)

lemma storeOK_onStore:
  "storeOK az h \<Longrightarrow> (\<And>s. goodStore az (hcRoot h) (hcCfg h) s \<Longrightarrow> goodStore az (hcRoot h) (hcCfg h) (f s)) \<Longrightarrow>
     storeOK az (onStore f h)"
  by (auto simp: storeOK_def onStore_def split: option.splits)

lemma foldl_storeOK:
  "(\<And>h x. storeOK az h \<Longrightarrow> storeOK az (f h x)) \<Longrightarrow> storeOK az h \<Longrightarrow> storeOK az (foldl f h xs)"
  by (induction xs arbitrary: h) auto

lemma events_storeOK:
  assumes "storeOK az h"
  shows "storeOK az (didOpen fsPath u v c h)" "storeOK az (didChange fsPath az u v changes h)"
    "storeOK az (didClose u h)" "storeOK az (didChangeWatchedFiles fsPath az events h)"
  using assms unfolding didChange_def didChangeWatchedFiles_def didOpen_def didClose_def
  by (auto intro!: foldl_storeOK storeOK_onStore goodStore_ops
      simp: changeStep_def watchedStep_def Let_def split: ContentChange.splits option.splits)

lemma reachable_storeOK: "sessionReachable fsPath az s \<Longrightarrow> storeOK az (fst s)"
proof (induction rule: sessionReachable.induct)
  case (start root cfg)
  then show ?case by (simp add: startContext_def storeOK_def goodStore_def newStore_def wellFormed_def storeGet_def)
next
  case (served h ph sv m p)
  have "indexOK h" using resolvedNow_indexOK reachable_resolved [OF served.hyps] by fastforce
  from requestCase_same [OF this, of sv m p] served.IH show ?case
    by (auto simp: storeOK_def sameContext_def split: option.splits)
next
  case (published h outcome)
  from published(3) show ?case by (simp add: storeOK_def publishIndex_def split: option.splits)
next
  case (merged h es)
  then show ?case by (auto simp: storeOK_def replayMerge_def Let_def split: option.splits)
qed (simp_all add: events_storeOK)

text \<open>
  When an edit of an open document below the root has been handled and there is an index, the
  store and the index hold the same analysis of the new content.
\<close>

theorem didChange_agree:
  assumes "sessionReachable fsPath az (h, ph)" and "hcIdx h \<noteq> None" and "hcRoot h \<noteq> []"
    and "hcStore h = Some s" and "storeGet s u = Some doc" and "filepathRel (hcRoot h) (fsPath u) = Some r"
    and "h' = didChange fsPath az u v (changes @ [WholeDocument content]) h"
  shows "\<exists>s' doc' idx'. hcStore h' = Some s' \<and> storeGet s' u = Some doc' \<and> hcIdx h' = Some idx' \<and>
           docContent doc' = content \<and> docVersion doc' = v \<and>
           Get (NormalizeKey r) idx' = Some (docAnalysis doc') \<and>
           docAnalysis doc' = fpFileAnalysis (analyzeOne (hcCfg h) az (NormalizeKey r) content)"
proof -
  define P where "P k \<longleftrightarrow> storeOK az k \<and> hcRoot k = hcRoot h \<and> hcCfg k = hcCfg h \<and> hcIdx k \<noteq> None \<and>
      storeGet (the (hcStore k)) u \<noteq> None" for k
  have "P (changeStep fsPath az u v k c)" if "P k" for k c
    using that
    by (auto simp: P_def changeStep_def Let_def onStore_def storeOK_def storeGet_update goodStore_ops
        applyDocumentChange_idx split: ContentChange.splits option.splits)
  then have step: "P (foldl (changeStep fsPath az u v) k cs)" if "P k" for k cs
    using that by (induction cs arbitrary: k) auto
  have "P h" using assms reachable_storeOK [OF assms(1)] by (simp add: P_def)
  note P = step [OF this, of changes]
  define k where "k = foldl (changeStep fsPath az u v) h changes"
  have P: "P k" using P by (simp add: k_def)
  then obtain s1 doc1 idx1 where k: "hcStore k = Some s1" "storeGet s1 u = Some doc1" "hcIdx k = Some idx1"
      "goodStore az (hcRoot h) (hcCfg h) s1" "hcRoot k = hcRoot h" "hcCfg k = hcCfg h"
    by (auto simp: P_def storeOK_def split: option.splits)
  have h': "h' = changeStep fsPath az u v k (WholeDocument content)"
    by (simp add: assms(7) didChange_def k_def)
  show ?thesis
    using k assms(3,6)
    by (simp add: h' changeStep_def onStore_def storeUpdate_def storeGet_def applyDocumentChange_def Let_def
        update_conv contentBytes_def storeAnalysis_def goodStore_def deriveRelPath_def callAnalyzeWithRecovery_def
        del: map_of_eq_Some_iff)
qed


lemma Get_mergeEntries:
  "(\<And>e. e \<in> set es \<Longrightarrow> reRelPath e = p \<Longrightarrow> reAnalysis e = fa) \<Longrightarrow> p \<in> reRelPath ` set es \<Longrightarrow>
     Get p (foldl mergeEntry idx es) = Some fa"
proof (induction es arbitrary: idx)
  case (Cons e es)
  show ?case
  proof (cases "p \<in> reRelPath ` set es")
    case True
    then show ?thesis using Cons by simp
  next
    case False
    then show ?thesis
      using Cons.prems mergeEntries(2) [OF False, of "mergeEntry idx e"] by (auto simp: mergeEntry_def [of idx e])
  qed
qed simp

text \<open>
  C34. A replay that no edit interrupts puts every open document below the root into the index, with
  the analysis of its buffer (when no other open document has the same path).
\<close>

theorem replay_serves_buffers:
  assumes "sessionReachable fsPath az (h, Published)" and "hcIdx h \<noteq> None"
    and "hcStore h = Some s" and "storeGet s u = Some doc" and "filepathRel (hcRoot h) (fsPath u) = Some r"
    and "\<And>u' r'. storeGet s u' \<noteq> None \<Longrightarrow> filepathRel (hcRoot h) (fsPath u') = Some r' \<Longrightarrow>
           NormalizeKey r' = NormalizeKey r \<Longrightarrow> u' = u"
  shows "map_option (Get (NormalizeKey r)) (hcIdx (replayMerge (replaySnapshot fsPath h) h))
           = Some (Some (docAnalysis doc))"
proof -
  have good: "goodStore az (hcRoot h) (hcCfg h) s"
    using reachable_storeOK [OF assms(1)] assms(3) by (simp add: storeOK_def)
  let ?es = "replaySnapshot fsPath h"
  have docs: "set (OpenDocuments s) = {d. \<exists>u. storeGet s u = Some d}"
    using good by (force simp: OpenDocuments_def goodStore_def storeGet_def wellFormed_def)
  have es: "set ?es = {e. \<exists>d\<in>set (OpenDocuments s). replayEntry fsPath (hcRoot h) d = Some e}"
    by (force simp: replaySnapshot_def assms(3) List.map_filter_def)
  have uri: "storeGet s v = Some d \<Longrightarrow> docURI d = v" for v d
    using good by (simp add: goodStore_def)
  have "reAnalysis e = docAnalysis doc" if "e \<in> set ?es" "reRelPath e = NormalizeKey r" for e
    using that assms(4,6) uri by (fastforce simp: es docs replayEntry_def)
  moreover have "NormalizeKey r \<in> reRelPath ` set ?es"
    using assms(4,5) uri [OF assms(4)] by (force simp: es docs replayEntry_def)
  ultimately show ?thesis
    using assms(2) Get_mergeEntries [of ?es "NormalizeKey r" "docAnalysis doc"]
    by (auto simp: replayMerge_def Let_def)
qed

section \<open>Examples\<close>

definition samplePath :: "string \<Rightarrow> string" where
  "samplePath u = drop 7 u"

definition sampleStart :: HandlerContext where
  "sampleStart = startContext sampleAnalyzer ''/ws'' Defaults"

definition sampleUncached :: Built where
  "sampleUncached = sampleBuilt\<lparr>btCache := None\<rparr>"

lemma sample_uncached:
  "BuildWithCache (\<lambda>_. False) sampleCodec id Defaults (sampleDisk ''END'') sampleTree sampleAnalyzer
     [] None None Some = Inr sampleUncached"
  by code_simp

definition sampleOpened :: HandlerContext where
  "sampleOpened = publishIndex (buildIndex Defaults (Inr sampleUncached))
     (didOpen samplePath ''file:///ws/A.NSN'' 1 ''END'' sampleStart)"

lemma sampleOpened_reachable: "sessionReachable samplePath sampleAnalyzer (sampleOpened, Published)"
proof -
  have cfg: "hcCfg (didOpen samplePath ''file:///ws/A.NSN'' 1 ''END'' sampleStart) = Defaults"
    by (simp add: didOpen_def onStore_def sampleStart_def startContext_def)
  have "sessionReachable samplePath sampleAnalyzer (didOpen samplePath ''file:///ws/A.NSN'' 1 ''END'' sampleStart, Building)"
    unfolding sampleStart_def by (intro sessionReachable.opened sessionReachable.start)
  from sessionReachable.published [OF this, unfolded cfg, OF sample_uncached [symmetric]]
  show ?thesis by (simp add: sampleOpened_def)
qed

lemma sampleOpened_values:
  "hcIdx sampleOpened \<noteq> None" "hcRoot sampleOpened = ''/ws''" "hcCfg sampleOpened = Defaults"
  "filepathRel ''/ws'' (samplePath ''file:///ws/A.NSN'') = Some ''A.NSN''"
  by code_simp+

definition sampleStore :: Store where
  "sampleStore = the (hcStore sampleOpened)"

lemma sampleStore_values:
  "hcStore sampleOpened = Some sampleStore"
  "map fst (stDocs sampleStore) = [''file:///ws/A.NSN'']"
proof -
  have "case hcStore sampleOpened of None \<Rightarrow> False | Some _ \<Rightarrow> True" by code_simp
  then show "hcStore sampleOpened = Some sampleStore"
    by (simp add: sampleStore_def split: option.splits)
qed code_simp

lemma sampleStore_Get: "storeGet sampleStore u \<noteq> None \<longleftrightarrow> u = ''file:///ws/A.NSN''"
  using arg_cong [OF sampleStore_values(2), of set] by (simp add: storeGet_def map_of_eq_None_iff)

theorem didChange_agree_witness:
  "\<exists>s' doc' idx'. hcStore (didChange samplePath sampleAnalyzer ''file:///ws/A.NSN'' 2
         [PartialChange, WholeDocument ''CALL''] sampleOpened) = Some s' \<and>
       storeGet s' ''file:///ws/A.NSN'' = Some doc' \<and>
       hcIdx (didChange samplePath sampleAnalyzer ''file:///ws/A.NSN'' 2
         [PartialChange, WholeDocument ''CALL''] sampleOpened) = Some idx' \<and>
       docContent doc' = ''CALL'' \<and> Get ''A.NSN'' idx' = Some (docAnalysis doc') \<and>
       faObjectType (docAnalysis doc') = ObjectProgram"
proof -
  obtain doc where doc: "storeGet sampleStore ''file:///ws/A.NSN'' = Some doc"
    using sampleStore_Get by blast
  have key: "NormalizeKey ''A.NSN'' = ''A.NSN''" by code_simp
  have type: "faObjectType (fpFileAnalysis (analyzeOne Defaults sampleAnalyzer ''A.NSN'' ''CALL'')) = ObjectProgram"
    by code_simp
  show ?thesis
    using didChange_agree [where changes = "[PartialChange]" and content = "''CALL''" and v = 2, OF sampleOpened_reachable
        sampleOpened_values(1) _ sampleStore_values(1) doc _ refl, of "''A.NSN''"] type
    by (auto simp: sampleOpened_values key)
qed

theorem replay_serves_buffers_witness:
  "\<exists>doc. storeGet sampleStore ''file:///ws/A.NSN'' = Some doc \<and>
     map_option (Get ''A.NSN'') (hcIdx (replayMerge (replaySnapshot samplePath sampleOpened) sampleOpened))
       = Some (Some (docAnalysis doc))"
proof -
  obtain doc where doc: "storeGet sampleStore ''file:///ws/A.NSN'' = Some doc"
    using sampleStore_Get by blast
  have key: "NormalizeKey ''A.NSN'' = ''A.NSN''" by code_simp
  show ?thesis
    using replay_serves_buffers [OF sampleOpened_reachable sampleOpened_values(1) sampleStore_values(1) doc,
        of "''A.NSN''"] doc sampleStore_Get
    by (auto simp: sampleOpened_values key)
qed

theorem session_resolution_current_witness:
  "hcRes sampleOpened = Some (Resolve (the (hcIdx sampleOpened)) (Some Defaults))"
proof -
  obtain idx where "hcIdx sampleOpened = Some idx" using sampleOpened_values(1) by blast
  then show ?thesis
    using session_resolution_current [OF sampleOpened_reachable] by (simp add: sampleOpened_values)
qed

section \<open>The replay race\<close>

text \<open>An edit between the snapshot and the merge, whose analysis the merge overwrites.\<close>

definition sampleRaced :: HandlerContext where
  "sampleRaced = replayMerge (replaySnapshot samplePath sampleOpened)
     (didChange samplePath sampleAnalyzer ''file:///ws/A.NSN'' 2 [WholeDocument ''CALL''] sampleOpened)"

text \<open>
  The replay takes its snapshot of the open documents before it takes the lock. An edit handled in
  between is lost from the index: afterwards the index serves the analysis of the old buffer while
  the store holds the new one.
\<close>

theorem replay_loses_edit:
  "\<exists>s doc idx fa. sessionReachable samplePath sampleAnalyzer (sampleRaced, Finished) \<and>
     hcStore sampleRaced = Some s \<and> storeGet s ''file:///ws/A.NSN'' = Some doc \<and>
     hcIdx sampleRaced = Some idx \<and> Get ''A.NSN'' idx = Some fa \<and>
     faObjectType (docAnalysis doc) = ObjectProgram \<and> faObjectType fa = ObjectSubprogram"
proof -
  have "sessionReachable samplePath sampleAnalyzer (sampleRaced, Finished)"
    unfolding sampleRaced_def
    by (intro sessionReachable.merged [OF sessionReachable.edited [OF sessionReachable.snapshot [OF sampleOpened_reachable]]])
  moreover have "case hcStore sampleRaced of None \<Rightarrow> False | Some s \<Rightarrow>
      (case storeGet s ''file:///ws/A.NSN'' of None \<Rightarrow> False | Some doc \<Rightarrow> faObjectType (docAnalysis doc) = ObjectProgram)"
    by code_simp
  moreover have "case hcIdx sampleRaced of None \<Rightarrow> False | Some idx \<Rightarrow>
      (case Get ''A.NSN'' idx of None \<Rightarrow> False | Some fa \<Rightarrow> faObjectType fa = ObjectSubprogram)"
    by code_simp
  ultimately show ?thesis by (auto split: option.splits)
qed

end
