(* ===== verification/Dispatch_Facts.thy ===== *)
theory Dispatch_Facts
  imports Dispatch
begin

text \<open>
  Facts about requests: how a request is answered, the lifecycle only moves forward and
  gates the providers, the trace levels round-trip, and the bounded summary of traced parameters.
\<close>

section \<open>Answers\<close>

text \<open>
  What is sent for a request, when starting up does not panic: one response under its id, whatever the
  provider does; only when the encoder fails and leaves a part of the result, an error and then that part.
\<close>

lemma serveCall_answer:
  assumes "\<And>p. bootstrapPanic b p = None"
  obtains (one) r where "snd (serveCall b state c) = [r]" "responseID r = callID c"
    | (twice) m p part e where "provide b m p = MarshalFailed (Some part) e"
        "snd (serveCall b state c) = [ErrorResponse (callID c) InternalError e, ResultResponse (callID c) part]"
proof -
  have "(\<exists>r. snd (serveCall b state c) = [r] \<and> responseID r = callID c) \<or>
    (\<exists>m p part e. provide b m p = MarshalFailed (Some part) e \<and>
       snd (serveCall b state c) = [ErrorResponse (callID c) InternalError e, ResultResponse (callID c) part])"
  proof (cases "provide b (callMethod c) (callParams c)")
    case (MarshalFailed part e)
    then show ?thesis
      using assms
      by (cases part)
        (auto simp: serveCall_def dispatchCall_def initializeCall_def shutdownCall_def providerCall_def
          split: option.split sum.split)
  qed (use assms in \<open>auto simp: serveCall_def dispatchCall_def initializeCall_def shutdownCall_def providerCall_def
      split: option.split sum.split\<close>)
  then show ?thesis using one twice by blast
qed

section \<open>The lifecycle\<close>

fun rank :: "Lifecycle \<Rightarrow> nat" where
  "rank statePreInit = 0" | "rank stateInitialized = 1" | "rank stateShutdown = 2"

text \<open>
  C36. Outside the initialized state no provider runs: every request is answered with an error and leaves
  the state as it is, except an initialize that comes before the notification \<open>initialized\<close>, be it the first
  or not; and no request or notification moves the lifecycle back.
\<close>

theorem lifecycle_gate:
  "(state \<noteq> stateInitialized \<longrightarrow> \<not> (state = statePreInit \<and> callMethod c = ''initialize'') \<longrightarrow>
      fst (serveCall b state c) = state \<and>
      (\<exists>code msg. snd (serveCall b state c) = [ErrorResponse (callID c) code msg])) \<and>
   rank state \<le> rank (fst (serveCall b state c)) \<and> rank state \<le> rank (initializedNotification state)"
  by (cases state)
    (auto simp: serveCall_def dispatchCall_def initializeCall_def shutdownCall_def providerCall_def
      initializedNotification_def split: option.splits sum.splits ProviderResult.splits)

section \<open>Traces\<close>

lemma trace_levels: "isKnownTraceValue v \<Longrightarrow> levelToTraceValue (traceValueToLevel v) = v"
  by (auto simp: isKnownTraceValue_def levelToTraceValue_def traceValueToLevel_def)

lemma truncBack_le: "truncBack raw n \<le> n"
  by (induction raw n rule: truncBack.induct) auto

lemma truncBack_start: "truncBack raw n = 0 \<or> runeStart (raw ! truncBack raw n)"
  by (induction raw n rule: truncBack.induct) auto

lemma truncBack_skipped: "truncBack raw n < k \<Longrightarrow> k \<le> n \<Longrightarrow> \<not> runeStart (raw ! k)"
  by (induction raw n rule: truncBack.induct) (auto simp: le_Suc_eq split: if_splits)

text \<open>
  The traced summary of a long payload is a prefix of at most the limit, cut where a character
  starts and as late as possible, with the number of bytes left out.
\<close>

theorem traceSummary_bounded:
  assumes "maxTraceVerboseBytes < length raw"
  shows "\<exists>n \<le> maxTraceVerboseBytes.
     traceSummary raw = take n raw @ [CHR 0xE2, CHR 0x80, CHR 0xA6] @ '' ('' @ itoa (int (length raw - n)) @ '' bytes elided)''
     \<and> (n = 0 \<or> runeStart (raw ! n)) \<and> (\<forall>k. n < k \<and> k \<le> maxTraceVerboseBytes \<longrightarrow> \<not> runeStart (raw ! k))"
  using assms truncBack_le [of raw maxTraceVerboseBytes] truncBack_start [of raw maxTraceVerboseBytes]
    truncBack_skipped [of raw maxTraceVerboseBytes]
  by (intro exI [of _ "truncBack raw maxTraceVerboseBytes"]) (auto simp: traceSummary_def Let_def)

theorem traceSummary_bounded_witness:
  "\<exists>n \<le> maxTraceVerboseBytes. traceSummary (replicate 3000 (CHR ''x'')) =
     take n (replicate 3000 (CHR ''x'')) @ [CHR 0xE2, CHR 0x80, CHR 0xA6] @ '' ('' @ itoa (int (3000 - n)) @ '' bytes elided)''"
  using traceSummary_bounded [of "replicate 3000 (CHR ''x'')"] by (auto simp: maxTraceVerboseBytes_def)

section \<open>Root discovery\<close>

text \<open>Discovery starts at a path the client offered or at the fallback.\<close>

lemma resolveRootStart_offered:
  "resolveRootStart isFile fsPath params cwd = cwd \<or>
   resolveRootStart isFile fsPath params cwd \<in> set (clientRootPaths isFile fsPath params)"
  by (auto simp: resolveRootStart_def clientRootPaths_def firstFolder_def List.map_filter_def image_iff
      split: option.splits list.splits)

definition sampleBackend :: Backend where
  "sampleBackend = \<lparr>decodeError = (\<lambda>m p. if p = [] then Some ''invalid params'' else None),
     uriMissing = (\<lambda>_. False), provide = (\<lambda>m p. if m = ''textDocument/hover'' then ProviderPanic p else ProviderNil),
     negotiate = (\<lambda>_. Inr ''caps''), bootstrapPanic = (\<lambda>_. None)\<rparr>"

theorem lifecycle_gate_witness:
  "\<exists>code msg. snd (serveCall sampleBackend stateShutdown
     \<lparr>callID = ''9'', callMethod = ''textDocument/hover'', callParams = ''p''\<rparr>) = [ErrorResponse ''9'' code msg]"
  using lifecycle_gate [of stateShutdown "\<lparr>callID = ''9'', callMethod = ''textDocument/hover'', callParams = ''p''\<rparr>" sampleBackend]
  by simp

text \<open>A second initialize before the notification is accepted; a panic while starting up answers twice.\<close>

lemma initialize_twice: "fst (serveCall b statePreInit \<lparr>callID = i, callMethod = ''initialize'', callParams = p\<rparr>) = statePreInit"
  by (auto simp: serveCall_def dispatchCall_def initializeCall_def split: option.splits sum.splits)

lemma startup_panic_answers_twice:
  "snd (serveCall (sampleBackend\<lparr>bootstrapPanic := \<lambda>_. Some ''boom''\<rparr>) statePreInit
     \<lparr>callID = ''1'', callMethod = ''initialize'', callParams = ''p''\<rparr>)
   = [ErrorResponse ''1'' InternalError ''panic in request dispatch: boom'', ResultResponse ''1'' ''caps'']"
  by code_simp

text \<open>So does an encoder that fails and leaves a part.\<close>

lemma partial_result_answers_twice:
  "snd (serveCall (sampleBackend\<lparr>provide := \<lambda>_ _. MarshalFailed (Some ''[{'') ''failed''\<rparr>) stateInitialized
     \<lparr>callID = ''1'', callMethod = ''textDocument/hover'', callParams = ''p''\<rparr>)
   = [ErrorResponse ''1'' InternalError ''failed'', ResultResponse ''1'' ''[{'']"
  by code_simp

end
