(* ===== verification/Cursor_Facts.thy ===== *)
theory Cursor_Facts
  imports Cursor
begin

text \<open>
  Facts about the cursor: a search returns a smallest range that contains it, the walk of the symbol
  tree is such a search over the tree read in preorder, and the searches for declarations are filters
  of the definitions read in preorder.
\<close>

section \<open>Spans\<close>

lemma span_trans: "isSmallerSpan a b \<Longrightarrow> isSmallerSpan b c \<Longrightarrow> isSmallerSpan a c"
  by (auto simp: isSmallerSpan_def split: if_splits)

lemma span_irrefl [simp]: "\<not> isSmallerSpan a a"
  by (simp add: isSmallerSpan_def)

lemma span_linear: "\<not> isSmallerSpan a b \<Longrightarrow> isSmallerSpan c b \<Longrightarrow> isSmallerSpan c a"
  by (auto simp: isSmallerSpan_def split: if_splits)

section \<open>The smallest range\<close>

definition smallestIn :: "('a \<Rightarrow> Range) \<Rightarrow> Position \<Rightarrow> 'a list \<Rightarrow> 'a option \<Rightarrow> bool" where
  "smallestIn rng pos xs r \<longleftrightarrow>
     (case r of
        None \<Rightarrow> \<forall>x\<in>set xs. \<not> rangeContains (rng x) pos
      | Some b \<Rightarrow> b \<in> set xs \<and> rangeContains (rng b) pos \<and>
          (\<forall>x\<in>set xs. rangeContains (rng x) pos \<longrightarrow>
             \<not> isSmallerSpan (rangeSpanSize (rng x)) (rangeSpanSize (rng b))))"

lemma smallest_append: "smallest rng pos best (xs @ ys) = smallest rng pos (smallest rng pos best xs) ys"
  by (simp add: smallest_def)

lemma smallest_spec: "smallestIn rng pos xs (smallest rng pos None xs)"
proof (induction xs rule: rev_induct)
  case (snoc x xs)
  have step: "smallest rng pos None (xs @ [x]) = closer rng pos (smallest rng pos None xs) x"
    by (simp add: smallest_append) (simp add: smallest_def)
  show ?case
  proof (cases "smallest rng pos None xs")
    case None
    then show ?thesis using snoc by (auto simp: step closer_def smallestIn_def)
  next
    case (Some b)
    then show ?thesis
      using snoc by (auto simp: step closer_def smallestIn_def dest: span_trans)
  qed
qed (simp add: smallest_def smallestIn_def)

text \<open>
  C40. The target under the cursor is a smallest range that contains it, among the calls if one contains
  it, else among the data accesses, else among the uses of variables and host variables; nothing is
  found only when no range contains the cursor.
\<close>

theorem findCursorTarget_smallest:
  "case findCursorTarget fa pos varRefs of
     CursorEdge e \<Rightarrow> smallestIn eeSource pos (faEdges fa) (Some e)
   | CursorAccess a \<Rightarrow> smallestIn eeSource pos (faEdges fa) None \<and> smallestIn daNameRange pos (faDataAccess fa) (Some a)
   | CursorVariable v \<Rightarrow> smallestIn eeSource pos (faEdges fa) None \<and> smallestIn daNameRange pos (faDataAccess fa) None \<and>
       smallestIn vrRange pos (varRefs @ map hostVariable (faHostVarRefs fa)) (Some v)
   | CursorNothing \<Rightarrow> smallestIn eeSource pos (faEdges fa) None \<and> smallestIn daNameRange pos (faDataAccess fa) None \<and>
       smallestIn vrRange pos (varRefs @ map hostVariable (faHostVarRefs fa)) None"
  using smallest_spec [of eeSource pos "faEdges fa"] smallest_spec [of daNameRange pos "faDataAccess fa"]
    smallest_spec [of vrRange pos "varRefs @ map hostVariable (faHostVarRefs fa)"]
  by (auto simp: findCursorTarget_def smallest_append Let_def split: option.splits)

section \<open>The symbol under the cursor\<close>

function symbolsOf :: "Symbol option \<Rightarrow> Symbol \<Rightarrow> (Symbol \<times> Symbol option) list" where
  "symbolsOf view node =
     (let newView = (if symViewOfDDM node \<noteq> [] then Some node else view)
      in (node, newView) # concat (map (symbolsOf newView) (symChildren node)))"
  by pat_completeness auto
termination by (relation "measure (\<lambda>(_, s). size s)") (auto intro: size_symChild)

declare symbolsOf.simps [simp del]

abbreviation selectionOf :: "Symbol \<times> Symbol option \<Rightarrow> Range" where
  "selectionOf \<equiv> \<lambda>(s, _). symSelectionRange s"

lemma declWalk_smallest: "declWalk pos view best node = smallest selectionOf pos best (symbolsOf view node)"
proof (induction pos view best node rule: declWalk.induct)
  case (1 pos view best node)
  define nv where "nv = (if symViewOfDDM node \<noteq> [] then Some node else view)"
  have "foldl (declWalk pos nv) b cs = smallest selectionOf pos b (concat (map (symbolsOf nv) cs))"
    if "set cs \<subseteq> set (symChildren node)" for b cs
    using that
  proof (induction cs arbitrary: b)
    case (Cons c cs)
    have "declWalk pos nv b c = smallest selectionOf pos b (symbolsOf nv c)"
      using 1 [of nv c] Cons.prems by (auto simp: nv_def)
    then show ?case using Cons by (simp add: smallest_append)
  qed (simp add: smallest_def)
  then show ?case
    by (simp add: declWalk.simps [of pos view best node] symbolsOf.simps [of view node] nv_def [symmetric] Let_def)
      (simp add: smallest_def)
qed

text \<open>
  The declaration under the cursor is a symbol with a smallest name range that contains it, with
  the innermost view around it.
\<close>

theorem findDeclarationTarget_smallest:
  "case findDeclarationTarget fa pos of
     None \<Rightarrow> (case faStructure fa of None \<Rightarrow> True | Some root \<Rightarrow> smallestIn selectionOf pos (symbolsOf None root) None)
   | Some t \<Rightarrow> (case faStructure fa of None \<Rightarrow> False
       | Some root \<Rightarrow> smallestIn selectionOf pos (symbolsOf None root) (Some (dtSymbol t, dtOwningView t)) \<and>
           dtNameRange t = symSelectionRange (dtSymbol t))"
proof (cases "faStructure fa")
  case (Some root)
  then show ?thesis
    using smallest_spec [of selectionOf pos "symbolsOf None root"]
    by (cases "smallest selectionOf pos None (symbolsOf None root)")
      (auto simp: findDeclarationTarget_def declWalk_smallest)
qed (simp add: findDeclarationTarget_def)

section \<open>Declarations by name\<close>

function definitionsOf :: "DataDefinition list \<Rightarrow> DataDefinition list" where
  "definitionsOf [] = []"
| "definitionsOf (d # ds) = d # definitionsOf (ddChildren d) @ definitionsOf ds"
  by pat_completeness auto
termination by (relation "measure (size_list size)") (auto simp: size_ddChildren_less)

lemma findDeclaration_unqualified:
  "findDeclaration v [] ds = filter (\<lambda>d. equalFold (ddName d) v) (definitionsOf ds)"
  by (induction ds rule: definitionsOf.induct) auto

text \<open>
  A bare name finds all the definitions of that name at any depth, in order; a name qualified by a
  group finds those inside the groups of that name on level one, and only those.
\<close>

theorem findDeclaration_scope:
  "findDeclaration v g ds =
     (if g = [] then filter (\<lambda>d. equalFold (ddName d) v) (definitionsOf ds)
      else concat (map (\<lambda>d. filter (\<lambda>c. equalFold (ddName c) v) (definitionsOf (ddChildren d)))
             (filter (\<lambda>d. equalFold (ddName d) g \<and> ddLevel d = 1) ds)))"
proof (cases "g = []")
  case False
  then show ?thesis by (induction ds) (auto simp: findDeclaration_unqualified)
qed (simp add: findDeclaration_unqualified)

lemma declarationAt_find: "declarationAt pos ds = find (\<lambda>d. rangeContains (ddNameRange d) pos) (definitionsOf ds)"
proof (induction ds rule: definitionsOf.induct)
  case (2 d ds)
  have "find P (xs @ ys) = (case find P xs of Some r \<Rightarrow> Some r | None \<Rightarrow> find P ys)" for P and xs ys :: "DataDefinition list"
    by (induction xs) auto
  with 2 show ?case by (simp split: option.splits)
qed simp

section \<open>Qualifiers\<close>

lemma dropWhile_none: "(\<And>x. x \<in> set xs \<Longrightarrow> \<not> P x) \<Longrightarrow> dropWhile P (xs @ ys) = (if xs = [] then dropWhile P ys else xs @ ys)"
  by (cases xs) auto

text \<open>
  The qualifier of a reference that directly follows a dot is the identifier before the dot, in
  upper case.
\<close>

theorem qualifierBeforeRef_dotted:
  assumes "lines = splitByte LF content" and "n < length lines"
    and "lines ! n = before @ q @ CHR ''.'' # rest" and "rest \<noteq> []"
    and "list_all isIdentifierByte q" and "q \<noteq> []" and "before = [] \<or> \<not> isIdentifierByte (last before)"
    and "Start r = Position (int n + 1) (int (length (before @ q)) + 2)"
  shows "qualifierBeforeRef content r = toUpper q"
proof -
  let ?line = "lines ! n"
  have line: "take (length (before @ q) + 1) (trimSuffix ?line [CR]) = before @ q @ ''.''"
      and len: "length (before @ q) < length (trimSuffix ?line [CR])"
    using assms(3,4) by (cases rest; auto simp: trimSuffix_def)+
  have blank: "dropWhile (\<lambda>c. c = SPACE \<or> c = TAB) (rev q @ rev before) = rev q @ rev before"
    using assms(5,6) by (cases q rule: rev_cases) (auto simp: isIdentifierByte_def isUpperByte_def isLowerByte_def isDigitByte_def less_eq_char_def)
  have "takeWhile isIdentifierByte (rev q @ rev before) = rev q"
    using assms(5,7) by (cases before rule: rev_cases) (auto simp: list_all_iff takeWhile_append)
  then show ?thesis
    using assms(2,8) line len blank by (auto simp: qualifierBeforeRef_def Let_def assms(1) [symmetric] nat_int_add)
qed


theorem qualifierBeforeRef_dotted_witness:
  "qualifierBeforeRef (''END'' @ [CR, LF] @ ''ADD #g.#F'' @ [CR, LF]) (Range (Position 2 8) (Position 2 9)) = ''#G''"
proof -
  have "qualifierBeforeRef (''END'' @ [CR, LF] @ ''ADD #g.#F'' @ [CR, LF]) (Range (Position 2 8) (Position 2 9)) = toUpper ''#g''"
  proof (rule qualifierBeforeRef_dotted [OF refl])
    show "splitByte LF (''END'' @ [CR, LF] @ ''ADD #g.#F'' @ [CR, LF]) ! 1 = ''ADD '' @ ''#g'' @ CHR ''.'' # ''#F'' @ [CR]"
      by simp
  qed (simp_all add: isIdentifierByte_def isUpperByte_def isLowerByte_def isDigitByte_def less_eq_char_def)
  also have "toUpper ''#g'' = ''#G''" by code_simp
  finally show ?thesis .
qed

end
