(* ===== verification/References_Facts.thy ===== *)
theory References_Facts
  imports References Session_Facts
begin

text \<open>
  Facts about navigation: the sweep for references is the converse of going to a definition, and how
  references to subroutines of one file run together.
\<close>

section \<open>The sweep\<close>

definition siteOf :: "Host \<Rightarrow> Index \<Rightarrow> string \<Rightarrow> bool \<Rightarrow> string \<Rightarrow> EdgeEntry \<Rightarrow> Location" where
  "siteOf ho idx root utf16 path e = indexedLocation ho idx root utf16 path (eeSource e)"

definition boundTo :: "ResolutionSet \<Rightarrow> string \<Rightarrow> EdgeEntry \<Rightarrow> string \<Rightarrow> ObjectType \<Rightarrow> bool" where
  "boundTo res path e target t \<longleftrightarrow>
     (case resGet (Some res) path (eeSource e) of None \<Rightarrow> False | Some r \<Rightarrow> edgeMatchesTarget r target t)"

lemma matchingEdges_set:
  "set (matchingEdges res target t (path, fa)) = {(path, eeSource e) | e. e \<in> set (faEdges fa) \<and> boundTo res path e target t}"
  by (auto simp: matchingEdges_def boundTo_def)

lemma referenceSites_set:
  assumes "t \<noteq> ObjectDDM"
  shows "set (referenceSites ho idx res root target name t decl utf16) =
     {siteOf ho idx root utf16 path e | path fa e.
        (path, fa) \<in> set (ixEntries idx) \<and> e \<in> set (faEdges fa) \<and> boundTo res path e target t} \<union>
     (if decl then (\<lambda>(p, r). indexedLocation ho idx root utf16 p r) ` set (declarationSite idx target) else {})"
proof -
  have "matchingAccesses name t x = []" for x
    using assms by (simp add: matchingAccesses_def split: prod.splits)
  then show ?thesis
    by (auto simp: referenceSites_def matchingEdges_set siteOf_def image_iff) (force simp: matchingEdges_set)+
qed

lemma resolve_edge:
  assumes "wellFormed (ixEntries idx)" "map_of (ixEntries idx) f = Some fa" "e \<in> set (faEdges fa)"
    and "distinct (map eeSource (faEdges fa))"
  shows "resGet (Some (Resolve idx cfg)) f (eeSource e)
    = Some (fst (resolveEdge e f (faObjectType fa) (bucket (buildNameIndex idx cfg)) cfg))"
proof -
  let ?os = "map (\<lambda>(r, res, ds). (r, res)) (edgeOutcomes (bucket (buildNameIndex idx cfg)) cfg f fa)"
  have "distinct (map fst ?os)" using assms(4) by (simp add: edgeOutcomes_def comp_def case_prod_unfold)
  moreover have "(eeSource e, fst (resolveEdge e f (faObjectType fa) (bucket (buildNameIndex idx cfg)) cfg)) \<in> set ?os"
    using assms(3) by (force simp: edgeOutcomes_def case_prod_unfold)
  ultimately have "map_of (rev ?os) (eeSource e)
      = Some (fst (resolveEdge e f (faObjectType fa) (bucket (buildNameIndex idx cfg)) cfg))"
    by (simp add: map_of_eq_Some_iff rev_map [symmetric] del: rev_map)
  then show ?thesis
    using assms(2) by (simp add: resGet_def Resolve_resolvedSet [OF assms(1)] resolvedSet_def fileEntries_def)
qed

text \<open>What a statement of a file is bound to, by the name index of the workspace as it is.\<close>

definition bindingOf :: "Index \<Rightarrow> Config option \<Rightarrow> string \<Rightarrow> EdgeEntry \<Rightarrow> Resolution" where
  "bindingOf idx cfg path e =
     (case Get path idx of
        None \<Rightarrow> Unresolved ReasonNoTarget
      | Some fa \<Rightarrow> fst (resolveEdge e path (faObjectType fa) (bucket (buildNameIndex idx cfg)) cfg))"

text \<open>An index whose keys are in its own form and whose files have one statement at a place.\<close>

definition plainIndex :: "Index \<Rightarrow> bool" where
  "plainIndex idx \<longleftrightarrow> wellFormed (ixEntries idx) \<and>
     (\<forall>(path, fa) \<in> set (ixEntries idx). slashed path \<and> distinct (map eeSource (faEdges fa)))"

lemma plainIndex_Get:
  assumes "plainIndex idx" "Get path idx = Some fa"
  shows "slashed path" "distinct (map eeSource (faEdges fa))" "(path, fa) \<in> set (ixEntries idx)"
  using assms map_of_SomeD [of "ixEntries idx" path fa] by (auto simp: plainIndex_def Get_def)

lemma resGet_binding:
  assumes "plainIndex idx" "Get path idx = Some fa" "e \<in> set (faEdges fa)"
  shows "resGet (Some (Resolve idx cfg)) path (eeSource e) = Some (bindingOf idx cfg path e)"
  using assms resolve_edge [of idx path fa e cfg] plainIndex_Get(2) [OF assms(1,2)]
  by (simp add: plainIndex_def Get_def bindingOf_def)

text \<open>What the sweep takes for a reference is what is bound to the same object.\<close>

lemma boundTo_binding:
  assumes "plainIndex idx" "Get path idx = Some fa" "e \<in> set (faEdges fa)"
    and "Get target idx = Some fa'" "faObjectType fa' = t"
  shows "boundTo (Resolve idx cfg) path e target t \<longleftrightarrow> bindingOf idx cfg path e = Resolved target t"
proof -
  have w: "wellFormed (ixEntries idx)" using assms(1) by (simp add: plainIndex_def)
  note r = resGet_binding [OF assms(1-3), of cfg]
  have "p = target \<and> u = t" if "bindingOf idx cfg path e = Resolved p u" "NormalizeKey p = NormalizeKey target" for p u
  proof -
    have "rsEntries (Resolve idx cfg) (path, eeSource e) = Some (Resolved p u)" using r that(1) by (simp add: resGet_def)
    from Resolve_bound [OF w this] obtain fp where "Get p idx = Some fp" "faObjectType fp = u"
      by (auto simp: boundIn_def Get_def)
    moreover from this have "p = target"
      using plainIndex_Get(1) [OF assms(1)] assms(4) that(2) by (simp add: slashed_def)
    ultimately show ?thesis using assms(4,5) by simp
  qed
  then show ?thesis by (cases "bindingOf idx cfg path e") (auto simp: boundTo_def r edgeMatchesTarget_def)
qed

text \<open>
  C20. Find references is the converse of going to the definition. For a statement bound to an object, the
  references found are sorted and are exactly the places of the statements of the workspace, itself
  included, that are bound to the same object, and on request the name in its declaration. (The name a
  statement uses is not compared, only what it is bound to.)
\<close>

theorem references_same_binding:
  assumes "hcIdx h = Some idx" and "hcRes h = Some (Resolve idx (Some (hcCfg h)))" and "plainIndex idx"
    and "Get f idx = Some fa" and "e \<in> set (faEdges fa)"
    and "bindingOf idx (Some (hcCfg h)) f e = Resolved target t" and "t \<noteq> ObjectDDM"
  shows "set (fst (targetReferences ho h (CursorEdge e) f decl utf16)) =
     {\<lparr>locURI = hoUriFile ho (filepathJoin (hcRoot h) path), locRange = indexProtocolRange idx path (eeSource e') utf16\<rparr> |
        path fa' e'. Get path idx = Some fa' \<and> e' \<in> set (faEdges fa') \<and>
          bindingOf idx (Some (hcCfg h)) path e' = Resolved target t} \<union>
     {\<lparr>locURI = hoUriFile ho (filepathJoin (hcRoot h) target), locRange = indexProtocolRange idx target (symSelectionRange s) utf16\<rparr> |
        fa' s. decl \<and> Get target idx = Some fa' \<and> faStructure fa' = Some s}
   \<and> sorted (map locationKey (fst (targetReferences ho h (CursorEdge e) f decl utf16)))"
proof -
  let ?res = "Resolve idx (Some (hcCfg h))"
  have w: "wellFormed (ixEntries idx)" using assms(3) by (simp add: plainIndex_def)
  have r: "resGet (Some ?res) f (eeSource e) = Some (Resolved target t)"
    using resGet_binding [OF assms(3-5)] assms(6) by simp
  then have "rsEntries ?res (f, eeSource e) = Some (Resolved target t)" by (simp add: resGet_def)
  from Resolve_bound [OF w this] obtain ft where ft: "Get target idx = Some ft" "faObjectType ft = t"
    by (auto simp: boundIn_def Get_def)
  have entries: "(path, fa') \<in> set (ixEntries idx) \<longleftrightarrow> Get path idx = Some fa'" for path fa'
    using w by (auto simp: wellFormed_def Get_def)
  have bound: "boundTo ?res path e' target t \<longleftrightarrow> bindingOf idx (Some (hcCfg h)) path e' = Resolved target t"
    if "Get path idx = Some fa'" "e' \<in> set (faEdges fa')" for path fa' e'
    using boundTo_binding [OF assms(3) that ft] .
  have found: "fst (targetReferences ho h (CursorEdge e) f decl utf16) =
      referenceSites ho idx ?res (hcRoot h) target (eeTargetName e) t decl utf16"
    by (simp add: targetReferences_def assms(1,2) r)
  have sites: "{siteOf ho idx (hcRoot h) utf16 path e' | path fa' e'.
        (path, fa') \<in> set (ixEntries idx) \<and> e' \<in> set (faEdges fa') \<and> boundTo ?res path e' target t} =
      {\<lparr>locURI = hoUriFile ho (filepathJoin (hcRoot h) path), locRange = indexProtocolRange idx path (eeSource e') utf16\<rparr> |
        path fa' e'. Get path idx = Some fa' \<and> e' \<in> set (faEdges fa') \<and>
          bindingOf idx (Some (hcCfg h)) path e' = Resolved target t}"
    unfolding siteOf_def indexedLocation_def entries using bound by blast
  have declared: "(if decl then (\<lambda>(p, r). indexedLocation ho idx (hcRoot h) utf16 p r) ` set (declarationSite idx target) else {}) =
      {\<lparr>locURI = hoUriFile ho (filepathJoin (hcRoot h) target), locRange = indexProtocolRange idx target (symSelectionRange s) utf16\<rparr> |
        fa' s. decl \<and> Get target idx = Some fa' \<and> faStructure fa' = Some s}"
    by (auto simp: declarationSite_def ft indexedLocation_def split: option.split)
  have "sorted (map locationKey (referenceSites ho idx ?res (hcRoot h) target (eeTargetName e) t decl utf16))"
    by (simp add: referenceSites_def)
  then show ?thesis
    unfolding found referenceSites_set [OF assms(7)] sites declared by blast
qed

definition inlinePerform :: "EdgeEntry \<Rightarrow> bool" where
  "inlinePerform e \<longleftrightarrow> eeKind e = EdgePerforms \<and> \<not> isZeroRange (eeTarget e)"

text \<open>
  The references of an inline subroutine are those of its whole file: every PERFORM of any inline
  subroutine of the file is among the references of each of them, whatever name it performs.
\<close>

theorem inline_references_mixed:
  assumes "wellFormed (ixEntries idx)" and "map_of (ixEntries idx) f = Some fa"
    and "distinct (map eeSource (faEdges fa))" and "faObjectType fa \<noteq> ObjectDDM"
    and "e \<in> set (faEdges fa)" and "e' \<in> set (faEdges fa)" and "inlinePerform e" and "inlinePerform e'"
    and "hcIdx h = Some idx" and "hcRes h = Some (Resolve idx (Some (hcCfg h)))"
  shows "siteOf ho idx (hcRoot h) utf16 f e' \<in> set (fst (targetReferences ho h (CursorEdge e) f decl utf16))"
proof -
  have res: "resGet (Some (Resolve idx (Some (hcCfg h)))) f (eeSource x) = Some (Resolved f (faObjectType fa))"
    if "x \<in> set (faEdges fa)" "inlinePerform x" for x
    using resolve_edge [OF assms(1,2) that(1) assms(3)] that(2) by (simp add: resolveEdge_def inlinePerform_def)
  have "boundTo (Resolve idx (Some (hcCfg h))) f e' f (faObjectType fa)"
    using res [OF assms(6,8)] by (simp add: boundTo_def edgeMatchesTarget_def)
  then have "(f, eeSource e') \<in> set (matchingEdges (Resolve idx (Some (hcCfg h))) f (faObjectType fa) (f, fa))"
    using assms(6) by (auto simp: matchingEdges_set)
  then show ?thesis
    using res [OF assms(5,7)] assms(2,9,10) map_of_SomeD [OF assms(2)]
    by (force simp: targetReferences_def referenceSites_def siteOf_def)
qed


section \<open>Examples\<close>

definition performEdge :: "string \<Rightarrow> int \<Rightarrow> EdgeEntry" where
  "performEdge name line =
     \<lparr>eeSource = Range (Position line 1) (Position line 9), eeTarget = Range (Position 9 1) (Position 9 5),
      eeKind = EdgePerforms, eeTargetName = name, eeLibrary = []\<rparr>"

definition performFile :: FileAnalysis where
  "performFile = zeroFileAnalysis\<lparr>faObjectType := ObjectProgram, faEdges := [performEdge ''A'' 1, performEdge ''B'' 2]\<rparr>"

definition performContext :: HandlerContext where
  "performContext = \<lparr>hcRoot = ''/ws'', hcCfg = Defaults, hcStore = None, hcIdx = Some (Add ''P.NSP'' performFile emptyIndex),
     hcRes = Some (Resolve (Add ''P.NSP'' performFile emptyIndex) (Some Defaults))\<rparr>"

definition sampleHost :: Host where
  "sampleHost = \<lparr>hoFsPath = drop 7, hoUriFile = append ''file://'', hoReadFile = (\<lambda>_. None)\<rparr>"

theorem inline_references_mixed_witness:
  "siteOf sampleHost (Add ''P.NSP'' performFile emptyIndex) ''/ws'' True ''P.NSP'' (performEdge ''B'' 2)
     \<in> set (fst (targetReferences sampleHost performContext (CursorEdge (performEdge ''A'' 1)) ''P.NSP'' False True))"
proof -
  have m: "map_of (ixEntries (Add ''P.NSP'' performFile emptyIndex)) ''P.NSP'' = Some performFile"
    using Get_ops(2) [of "''P.NSP''" "''P.NSP''" performFile emptyIndex] by (simp add: Get_def)
  have h: "hcIdx performContext = Some (Add ''P.NSP'' performFile emptyIndex)" "hcRoot performContext = ''/ws''"
      "hcRes performContext = Some (Resolve (Add ''P.NSP'' performFile emptyIndex) (Some (hcCfg performContext)))"
    by (simp_all add: performContext_def)
  have e: "inlinePerform (performEdge n l)" for n l
    by (simp add: inlinePerform_def performEdge_def isZeroRange_def)
  have "siteOf sampleHost (Add ''P.NSP'' performFile emptyIndex) (hcRoot performContext) True ''P.NSP'' (performEdge ''B'' 2)
      \<in> set (fst (targetReferences sampleHost performContext (CursorEdge (performEdge ''A'' 1)) ''P.NSP'' False True))"
    by (rule inline_references_mixed [OF _ m _ _ _ _ e e h(1,3)])
      (simp_all add: performFile_def performEdge_def)
  then show ?thesis by (simp only: h(2))
qed

theorem references_same_binding_witness:
  "siteOf sampleHost (Add ''P.NSP'' performFile emptyIndex) ''/ws'' True ''P.NSP'' (performEdge ''A'' 1)
     \<in> set (fst (targetReferences sampleHost performContext (CursorEdge (performEdge ''A'' 1)) ''P.NSP'' False True))"
proof -
  let ?idx = "Add ''P.NSP'' performFile emptyIndex"
  have get: "Get ''P.NSP'' ?idx = Some performFile" by simp
  have plain: "plainIndex ?idx"
    by (simp add: plainIndex_def wellFormed_def Add_def emptyIndex_def performFile_def performEdge_def slashed_def NormalizeKey_def)
  have edge: "performEdge ''A'' 1 \<in> set (faEdges performFile)" by (simp add: performFile_def)
  have bound: "bindingOf ?idx (Some (hcCfg performContext)) ''P.NSP'' (performEdge ''A'' 1) = Resolved ''P.NSP'' ObjectProgram"
    by (simp add: bindingOf_def resolveEdge_def performEdge_def performFile_def isZeroRange_def)
  have h: "hcIdx performContext = Some ?idx" "hcRes performContext = Some (Resolve ?idx (Some (hcCfg performContext)))"
    "hcRoot performContext = ''/ws''"
    by (simp_all add: performContext_def)
  from references_same_binding [OF h(1,2) plain get edge bound, of sampleHost False True] get edge bound h(3)
  show ?thesis by (auto simp: siteOf_def indexedLocation_def)
qed

end
