(* ===== verification/SemanticTokens_Facts.thy ===== *)
theory SemanticTokens_Facts
  imports SemanticTokens Lexer_Facts
begin

text \<open>
  What the classification guarantees: the merge is characterised exactly, position by position; the
  table of line starts gives the offsets a scan of the whole text would; and the range of a token
  covers exactly the text of the token.
\<close>

unbundle bit_operations_syntax

section \<open>The merge\<close>

text \<open>
  The specification: the token of a position is the first of highest precedence that starts there,
  with the modifiers of all tokens of that precedence that start there.
\<close>

definition tokensAt :: "SemanticToken list \<Rightarrow> Position \<Rightarrow> SemanticToken list" where
  "tokensAt ts k = filter (\<lambda>t. Start (smRange t) = k) ts"

definition bestAt :: "SemanticToken list \<Rightarrow> Position \<Rightarrow> SemanticToken list" where
  "bestAt ts k =
     filter (\<lambda>t. \<forall>u\<in>set (tokensAt ts k). precedence (smType u) \<le> precedence (smType t)) (tokensAt ts k)"

definition chosen :: "SemanticToken list \<Rightarrow> Position \<Rightarrow> SemanticToken" where
  "chosen ts k = (hd (bestAt ts k))\<lparr>smModifiers := foldr (\<lambda>t m. smModifiers t OR m) (bestAt ts k) 0\<rparr>"

lemma tokensAt_snoc: "tokensAt (ts @ [t]) k = (if Start (smRange t) = k then tokensAt ts k @ [t] else tokensAt ts k)"
  by (simp add: tokensAt_def)

lemma foldr_OR: "foldr (\<lambda>t m. smModifiers t OR m) ts (a :: uint32) = foldr (\<lambda>t m. smModifiers t OR m) ts 0 OR a"
  by (induction ts) (simp_all add: or.assoc)

lemma bestAt_Nil_iff: "bestAt ts k = [] \<longleftrightarrow> tokensAt ts k = []"
proof -
  have "\<exists>t\<in>set ts'. \<forall>u\<in>set ts'. precedence (smType u) \<le> precedence (smType t)" if "ts' \<noteq> []" for ts'
  proof -
    let ?P = "(\<lambda>t. precedence (smType t)) ` set ts'"
    have "Max ?P \<in> ?P" using that by (intro Max_in) auto
    then obtain t where "t \<in> set ts'" "precedence (smType t) = Max ?P" by auto
    then show ?thesis by (auto intro!: bexI [of _ t])
  qed
  from this [of "tokensAt ts k"] show ?thesis
    by (auto simp: bestAt_def filter_empty_conv)
qed

lemma bestAt_snoc:
  "bestAt (ts @ [t]) k =
     (if Start (smRange t) \<noteq> k then bestAt ts k
      else if bestAt ts k = [] \<or> precedence (smType t) > precedence (smType (hd (bestAt ts k))) then [t]
      else if precedence (smType t) = precedence (smType (hd (bestAt ts k))) then bestAt ts k @ [t]
      else bestAt ts k)"
proof (cases "bestAt ts k")
  case Nil
  then have "tokensAt ts k = []" by (simp add: bestAt_Nil_iff)
  then show ?thesis by (simp add: bestAt_def tokensAt_snoc)
next
  case (Cons b bs)
  have "b \<in> set (bestAt ts k)" by (simp add: Cons)
  then have b: "b \<in> set (tokensAt ts k)" "\<And>u. u \<in> set (tokensAt ts k) \<Longrightarrow> precedence (smType u) \<le> precedence (smType b)"
    by (simp_all add: bestAt_def)
  let ?T = "tokensAt ts k" and ?p = "\<lambda>t. precedence (smType t)"
  have same: "(\<forall>u\<in>set ?T. ?p u \<le> n) \<longleftrightarrow> ?p b \<le> n" for n
    using b order_trans by blast
  have best: "bestAt ts k = filter (\<lambda>x. ?p b \<le> ?p x) ?T"
    by (simp add: bestAt_def same)
  have "bestAt (ts @ [t]) k = filter (\<lambda>x. ?p b \<le> ?p x \<and> ?p t \<le> ?p x) ?T @ (if ?p b \<le> ?p t then [t] else [])"
    if "Start (smRange t) = k"
    by (simp add: bestAt_def tokensAt_snoc that same conj_commute)
  moreover have "filter (\<lambda>x. ?p b \<le> ?p x \<and> ?p t \<le> ?p x) ?T = (if ?p b < ?p t then [] else filter (\<lambda>x. ?p b \<le> ?p x) ?T)"
    using b(2) by (auto simp: filter_empty_conv intro!: filter_cong) (meson leD le_trans)
  ultimately have "bestAt (ts @ [t]) k = (if ?p b < ?p t then [t] else if ?p t = ?p b then bestAt ts k @ [t] else bestAt ts k)"
    if "Start (smRange t) = k"
    using that by (simp add: best)
  moreover have "bestAt (ts @ [t]) k = bestAt ts k" if "Start (smRange t) \<noteq> k"
    by (simp add: bestAt_def tokensAt_snoc that)
  ultimately show ?thesis by (simp add: Cons)
qed

lemma mergeToken_at:
  "mergeToken m t k =
     (if Start (smRange t) \<noteq> k then m k
      else case m k of
             None \<Rightarrow> Some t
           | Some e \<Rightarrow> Some (if precedence (smType t) > precedence (smType e) then t
               else if precedence (smType t) = precedence (smType e)
               then e\<lparr>smModifiers := smModifiers e OR smModifiers t\<rparr> else e))"
  by (simp add: mergeToken_def Let_def split: option.split)

lemma chosen_snoc:
  "chosen (ts @ [t]) k =
     (if Start (smRange t) \<noteq> k then chosen ts k
      else if bestAt ts k = [] \<or> precedence (smType t) > precedence (smType (chosen ts k)) then t
      else if precedence (smType t) = precedence (smType (chosen ts k))
      then (chosen ts k)\<lparr>smModifiers := smModifiers (chosen ts k) OR smModifiers t\<rparr> else chosen ts k)"
  by (simp add: chosen_def bestAt_snoc foldr_OR [of "bestAt ts k" "smModifiers t"])

lemma tokenMap_chosen:
  "foldl mergeToken Map.empty ts k = (if tokensAt ts k = [] then None else Some (chosen ts k))"
proof (induction ts rule: rev_induct)
  case Nil
  then show ?case by (simp add: tokensAt_def)
next
  case (snoc t ts)
  then show ?case
    using bestAt_Nil_iff [of ts k]
    by (cases "Start (smRange t) = k") (simp_all add: mergeToken_at tokensAt_snoc chosen_snoc)
qed

lemma pick_fold:
  assumes "\<And>t. t \<in> set ts \<Longrightarrow> m (Start (smRange t)) = Some (f (Start (smRange t)))"
  shows "foldl (pickToken m ro) ([], []) ts =
     (rev (filter (\<lambda>k. \<not> suppressed ro (f k)) (firsts (map (\<lambda>t. Start (smRange t)) ts))),
      map f (filter (\<lambda>k. \<not> suppressed ro (f k)) (firsts (map (\<lambda>t. Start (smRange t)) ts))))"
  using assms
proof (induction ts rule: rev_induct)
  case Nil
  then show ?case by (simp add: firsts_def)
next
  case (snoc t ts)
  have "set (firsts (map (\<lambda>t. Start (smRange t)) ts)) = (\<lambda>t. Start (smRange t)) ` set ts"
    by (simp add: firsts_def)
  then show ?case using snoc
    by (auto simp: pickToken_def Let_def firsts_snoc)
qed

lemma tokensAt_sorted: "tokensAt (sortBySource smRange ts) k = tokensAt ts k"
  using sortBySource_stable [of smRange k ts] by (simp add: tokensAt_def)

text \<open>
  C14. The merge keeps, in source order, one token for each position where a token starts: the first
  one of highest precedence, with the modifiers of all that share its precedence. Only an operator that
  touches a system variable on its right is left out.
\<close>

theorem mergeTokens_exact:
  "mergeTokens ts =
     map (chosen ts)
       (filter (\<lambda>k. \<not> suppressed (readonlyVarStarts ts) (chosen ts k))
         (sorted_list_of_set ((\<lambda>t. Start (smRange t)) ` set ts)))"
proof -
  let ?s = "sortBySource smRange ts"
  have chosen: "chosen ?s = chosen ts"
    by (simp add: fun_eq_iff chosen_def bestAt_def tokensAt_sorted)
  have ro: "suppressed (readonlyVarStarts ?s) = suppressed (readonlyVarStarts ts)"
    by (simp add: fun_eq_iff suppressed_def readonlyVarStarts_def)
  have "foldl mergeToken Map.empty ?s (Start (smRange t)) = Some (chosen ts (Start (smRange t)))" if "t \<in> set ?s" for t
    using that by (auto simp: tokenMap_chosen chosen tokensAt_def filter_empty_conv)
  then have "foldl (pickToken (foldl mergeToken Map.empty ?s) r) ([], []) ?s =
      (rev (filter (\<lambda>k. \<not> suppressed r (chosen ts k)) (firsts (map (\<lambda>t. Start (smRange t)) ?s))),
       map (chosen ts) (filter (\<lambda>k. \<not> suppressed r (chosen ts k)) (firsts (map (\<lambda>t. Start (smRange t)) ?s))))" for r
    by (rule pick_fold)
  then show ?thesis
    by (simp add: mergeTokens_def Let_def ro firsts_sorted)
qed

section \<open>Where a token starts\<close>

lemma afterCR_bounds: "p < length bs \<Longrightarrow> p < afterCR bs p \<and> afterCR bs p \<le> length bs"
  by (auto simp: afterCR_def)

lemma lineStartsLoop_acc: "lineStartsLoop bs p acc = acc @ lineStartsLoop bs p []"
proof (induction "length bs - p" arbitrary: p acc rule: less_induct)
  case less
  have next_line: "lineStartsLoop bs q (acc @ [q]) = acc @ lineStartsLoop bs q [q]" if "p < q" "p < length bs" for q
    using less [of q "acc @ [q]"] less [of q "[q]"] that by (simp add: diff_less_mono2)
  show ?case
  proof (cases "p < length bs")
    case True
    then have "lineStartsLoop bs (p + 1) acc = acc @ lineStartsLoop bs (p + 1) []"
      by (intro less) simp
    then show ?thesis
      using next_line [of "afterCR bs p"] next_line [of "p + 1"] afterCR_bounds [OF True] True
      by (subst (1 2) lineStartsLoop.simps) (simp del: append_assoc)
  qed (subst (1 2) lineStartsLoop.simps; simp)
qed

lemma lineStartsLoop_end: "\<not> p < length bs \<Longrightarrow> lineStartsLoop bs p [] = []"
  by (subst lineStartsLoop.simps) simp

lemma lineStartsLoop_step:
  assumes "p < length bs"
  shows "lineStartsLoop bs p [] =
     (if bs ! p = CR then afterCR bs p # lineStartsLoop bs (afterCR bs p) []
      else if bs ! p = LF then (p + 1) # lineStartsLoop bs (p + 1) []
      else lineStartsLoop bs (p + 1) [])"
  using assms lineStartsLoop_acc [of bs "afterCR bs p" "[afterCR bs p]"] lineStartsLoop_acc [of bs "p + 1" "[p + 1]"]
  by (subst lineStartsLoop.simps) auto

text \<open>A walk on a line before the target reaches the start of the target's line, if there is one.\<close>

lemma seekToken_before:
  assumes "line < L" "p \<le> length bs"
  shows "seekToken bs L C p line col =
     (let S = lineStartsLoop bs p []
      in if L - line \<le> int (length S) then seekToken bs L C (S ! nat (L - line - 1)) L 1 else length bs)"
  using assms
proof (induction bs L C p line col rule: seekToken.induct)
  case (1 bs L C p line col)
  show ?case
  proof (cases "p < length bs")
    case False
    then show ?thesis using 1(5) "1.prems" by (subst seekToken.simps) (simp add: lineStartsLoop_end Let_def)
  next
    case True
    note step = lineStartsLoop_step [OF True]
    have next_line: "seekToken bs L C q (line + 1) 1 =
        (let S = q # lineStartsLoop bs q []
         in if L - line \<le> int (length S) then seekToken bs L C (S ! nat (L - line - 1)) L 1 else length bs)"
      if "line + 1 < L \<Longrightarrow> seekToken bs L C q (line + 1) 1 =
        (let S = lineStartsLoop bs q []
         in if L - (line + 1) \<le> int (length S) then seekToken bs L C (S ! nat (L - (line + 1) - 1)) L 1 else length bs)"
      for q
    proof (cases "line + 1 < L")
      case True
      then have "nat (L - line - 1) = Suc (nat (L - (line + 1) - 1))" by simp
      then show ?thesis using that [OF True] by (auto simp: Let_def)
    next
      case False
      then have "line + 1 = L" using "1.prems" by simp
      then show ?thesis by (auto simp: Let_def)
    qed
    have "line \<noteq> L" using "1.prems" by simp
    then show ?thesis
      using True 1 next_line [of "afterCR bs p"] next_line [of "p + 1"] afterCR_bounds [OF True] step
      by (subst seekToken.simps) simp
  qed
qed

lemma seekToken_past: "line > L \<Longrightarrow> p \<le> length bs \<Longrightarrow> seekToken bs L C p line col = length bs"
proof (induction bs L C p line col rule: seekToken.induct)
  case (1 bs L C p line col)
  then show ?case using afterCR_bounds [of p bs] by (subst seekToken.simps) auto
qed

text \<open>
  The table of line starts, built once, changes nothing: for every token, also one whose line or
  column is not in the text, the offset found from the table is that of a scan of the text from its
  beginning.
\<close>

theorem tokenStart_scan:
  "tokenStart bs (buildLineStarts bs) tok = seekToken bs (tkLine tok) (tkColumn tok) 0 1 1"
proof -
  have table: "buildLineStarts bs = 0 # lineStartsLoop bs 0 []"
    by (simp add: buildLineStarts_def lineStartsLoop_acc [of bs 0 "[0]"])
  have out: "seekToken bs L C (length bs) l c = length bs" for L C l c
    by (subst seekToken.simps) simp
  consider "tkLine tok < 1" | "tkLine tok = 1" | "1 < tkLine tok" by linarith
  then show ?thesis
  proof cases
    case 1
    then show ?thesis using seekToken_past [of "tkLine tok" 1 0 bs] by (simp add: tokenStart_def out)
  next
    case 2
    then show ?thesis by (simp add: tokenStart_def table)
  next
    case 3
    then have "nat (tkLine tok - 1) = Suc (nat (tkLine tok - 1 - 1))" by simp
    then show ?thesis
      using seekToken_before [OF 3, of 0 bs "tkColumn tok" 1] 3
      by (auto simp: tokenStart_def table out Let_def)
  qed
qed

section \<open>The text of a token\<close>

text \<open>Positions grow along the text, except between a carriage return and its line feed.\<close>

definition at :: "string \<Rightarrow> nat \<Rightarrow> Position" where
  "at s n = (case locate s n of (ln, col) \<Rightarrow> Position ln col)"

definition insideCRLF :: "string \<Rightarrow> nat \<Rightarrow> bool" where
  "insideCRLF s n \<longleftrightarrow> 0 < n \<and> n < length s \<and> s ! (n - 1) = CR \<and> s ! n = LF"

lemma locateState_flag:
  assumes "locateState s n = (ln, col, cr)" "n \<le> length s"
  shows "cr \<longleftrightarrow> 0 < n \<and> s ! (n - 1) = CR" "cr \<Longrightarrow> col = 1"
proof -
  show "cr \<longleftrightarrow> 0 < n \<and> s ! (n - 1) = CR"
  proof (cases n)
    case 0
    then show ?thesis using assms by (simp add: locateState_def)
  next
    case (Suc m)
    obtain a b c where "locateState s m = (a, b, c)" by (metis prod.exhaust)
    then show ?thesis using assms Suc by (auto simp: locateState_Suc split: if_splits)
  qed
  show "col = 1" if cr
  proof (cases n)
    case 0
    then show ?thesis using assms by (simp add: locateState_def)
  next
    case (Suc m)
    obtain a b c where "locateState s m = (a, b, c)" by (metis prod.exhaust)
    then show ?thesis using assms Suc that by (auto simp: locateState_Suc split: if_splits)
  qed
qed

lemma at_Suc:
  assumes "n < length s"
  shows "at s n \<le> at s (Suc n)" "\<not> insideCRLF s n \<Longrightarrow> at s n < at s (Suc n)"
proof -
  obtain ln col cr where st: "locateState s n = (ln, col, cr)" by (metis prod.exhaust)
  have cr: "cr \<longleftrightarrow> 0 < n \<and> s ! (n - 1) = CR" "cr \<Longrightarrow> col = 1"
    using locateState_flag [OF st] assms by auto
  show "at s n \<le> at s (Suc n)" "\<not> insideCRLF s n \<Longrightarrow> at s n < at s (Suc n)"
    using st cr assms
    by (auto simp: at_def locate_def locateState_Suc position_order insideCRLF_def split: if_splits)
qed

lemma at_mono: "m \<le> n \<Longrightarrow> n \<le> length s \<Longrightarrow> at s m \<le> at s n"
proof (induction n)
  case (Suc n)
  then show ?case using at_Suc(1) [of n s] by (cases "m = Suc n") (auto intro: order_trans)
qed simp

lemma at_less: "m < n \<Longrightarrow> n \<le> length s \<Longrightarrow> \<not> insideCRLF s m \<Longrightarrow> at s m < at s n"
  using at_Suc(2) [of m s] at_mono [of "Suc m" n s] by (auto intro: less_le_trans)

lemma afterCR_at:
  assumes "p < length s" "s ! p = CR" "\<not> insideCRLF s n" "p < n"
  shows "\<not> insideCRLF s (afterCR s p)" "afterCR s p \<le> n"
proof -
  have "n \<noteq> Suc p" if "Suc p < length s" "s ! Suc p = LF"
    using assms(2,3) that by (auto simp: insideCRLF_def)
  then show "afterCR s p \<le> n" using assms(4) by (auto simp: afterCR_def)
  show "\<not> insideCRLF s (afterCR s p)"
    by (simp add: afterCR_def insideCRLF_def)
qed

lemma seekToken_at:
  assumes "p \<le> n" "n < length s" "\<not> insideCRLF s p" "\<not> insideCRLF s n"
    and "at s p = Position ln col" "at s n = Position L C"
  shows "seekToken s L C p ln col = n"
  using assms
proof (induction s L C p ln col rule: seekToken.induct)
  case (1 s L C p ln col)
  show ?case
  proof (cases "p = n")
    case True
    then show ?thesis using "1.prems" by (subst seekToken.simps) simp
  next
    case False
    then have p: "p < n" "p < length s" using "1.prems" by simp_all
    then have ne: "(ln, col) \<noteq> (L, C)" using at_less [of p n s] "1.prems" by auto
    obtain cr where st: "locateState s p = (ln, col, cr)"
      using "1.prems"(5) by (auto simp: at_def locate_def split: prod.splits)
    have one: "at s (Suc p) = (if s ! p = CR then Position (ln + 1) 1 else if s ! p = LF then Position (ln + 1) 1
        else Position ln (col + 1))"
      using st locateState_flag [OF st] p "1.prems"(3)
      by (auto simp: at_def locate_def locateState_Suc insideCRLF_def)
    have two: "at s (Suc (Suc p)) = Position (ln + 1) 1" if "s ! p = CR" "Suc p < length s" "s ! Suc p = LF"
      using st p that by (auto simp: at_def locate_def locateState_Suc)
    have cr: "\<not> insideCRLF s (afterCR s p)" "afterCR s p \<le> n" "at s (afterCR s p) = Position (ln + 1) 1" if "s ! p = CR"
      using afterCR_at [OF p(2) that "1.prems"(4) p(1)] one two that by (auto simp: afterCR_def)
    have other: "\<not> insideCRLF s (p + 1)" if "s ! p \<noteq> CR" using that by (simp add: insideCRLF_def)
    have step: "seekToken s L C p ln col =
        (if s ! p = CR then seekToken s L C (afterCR s p) (ln + 1) 1
         else if s ! p = LF then seekToken s L C (p + 1) (ln + 1) 1 else seekToken s L C (p + 1) ln (col + 1))"
      using p ne by (subst seekToken.simps) auto
    have here: "\<not> (ln = L \<and> col = C)" using ne by simp
    consider "s ! p = CR" | "s ! p \<noteq> CR" "s ! p = LF" | "s ! p \<noteq> CR" "s ! p \<noteq> LF" by blast
    then show ?thesis
    proof cases
      case 1
      then show ?thesis using "1.IH"(1) [OF p(2) here] cr "1.prems" step by simp
    next
      case 2
      then show ?thesis using "1.IH"(2) [OF p(2) here] one other p "1.prems" step by simp
    next
      case 3
      then show ?thesis using "1.IH"(3) [OF p(2) here] one other p "1.prems" step by simp
    qed
  qed
qed

lemma lexAllLoop_lexes:
  assumes "lexes s ts l"
  shows "\<exists>l'. lexes s (lexAllLoop ts l) l'"
  using assms
proof (induction ts l rule: lexAllLoop.induct)
  case (1 ts l)
  obtain t l' where t: "NextToken l = (t, l')" by (metis prod.exhaust)
  show ?case
  proof (cases "tkType t = TokenEOF")
    case True
    then show ?thesis using "1.prems" t by (subst lexAllLoop.simps) auto
  next
    case False
    then show ?thesis
      using 1(1) [OF t [symmetric] False] lexes.lexes_token [OF "1.prems" t False] t
      by (subst lexAllLoop.simps) simp
  qed
qed

lemma lexes_member:
  assumes "lexes s ts l" "t \<in> set ts"
  obtains us l1 l2 where "lexes s us l1" "set us \<subseteq> set ts" "NextToken l1 = (t, l2)" "tkType t \<noteq> TokenEOF"
proof -
  have "\<exists>us l1 l2. lexes s us l1 \<and> set us \<subseteq> set ts \<and> NextToken l1 = (t, l2) \<and> tkType t \<noteq> TokenEOF"
    using assms
  proof (induction rule: lexes.induct)
    case (lexes_token ts l u l')
    show ?case
    proof (cases "t \<in> set ts")
      case True
      then obtain us l1 l2 where "lexes s us l1 \<and> set us \<subseteq> set ts \<and> NextToken l1 = (t, l2) \<and> tkType t \<noteq> TokenEOF"
        using lexes_token.IH by blast
      then show ?thesis by (intro exI [of _ us] exI [of _ l1] exI [of _ l2]) auto
    next
      case False
      then show ?thesis using lexes_token by auto
    qed
  qed simp
  then show thesis using that by blast
qed

lemma locate_at: "locate s n = (ln, col) \<longleftrightarrow> at s n = Position ln col"
  by (simp add: at_def split: prod.split)

lemma scanTo_line:
  "p \<le> stop \<Longrightarrow> stop \<le> length bs \<Longrightarrow> (\<And>i. p \<le> i \<Longrightarrow> i < stop \<Longrightarrow> notEOL (bs ! i)) \<Longrightarrow>
   scanTo bs stop p line col = Position line (col + int (stop - p))"
proof (induction bs stop p line col rule: scanTo.induct)
  case (1 bs stop p line col)
  show ?case
  proof (cases "p < stop")
    case True
    then have "notEOL (bs ! p)" "p < length bs" using "1.prems" by auto
    moreover from this have "scanTo bs stop (p + 1) line (col + 1) = Position line (col + 1 + int (stop - (p + 1)))"
      using 1(3) True "1.prems" by (simp add: notEOL_def)
    ultimately show ?thesis using True by (subst scanTo.simps) (auto simp: notEOL_def)
  qed (use "1.prems" in \<open>subst scanTo.simps; simp\<close>)
qed

lemma literalOf_length:
  "literalOf ty raw lit \<Longrightarrow> ty \<noteq> TokenLiteralString \<Longrightarrow> length lit = length raw"
  by (cases ty) (auto simp: uppercase_def)

lemma tokenEnd_width:
  assumes "tkType t \<noteq> TokenComment" "tkType t \<noteq> TokenLiteralString" "tkLiteral t \<noteq> []"
    and "start + length (tkLiteral t) \<le> length bs"
  shows "tokenEnd bs start t = start + length (tkLiteral t) - 1"
  using assms by (cases "tkLiteral t"; cases "tkType t") (auto simp: tokenEnd_def Let_def)

text \<open>
  C30. In a text without strings over several lines, the range of every name, keyword, number and
  operator covers exactly the bytes of the token: its start is the offset of the token, and its end the
  column of its last byte on the same line.
\<close>

theorem computeTokenRange_text:
  assumes "t \<in> set (lexAllForSemanticTokensDefault s)"
    and "\<forall>u\<in>set (lexAllForSemanticTokensDefault s). tkType u = TokenLiteralString \<longrightarrow> oneLine u"
    and "tkType t \<noteq> TokenComment" and "tkType t \<noteq> TokenLiteralString"
  shows "\<exists>n. locate s n = (tkLine t, tkColumn t) \<and>
      literalOf (tkType t) (Prelude.slice n (n + length (tkLiteral t)) s) (tkLiteral t) \<and>
      computeTokenRange s (buildLineStarts s) t =
        Range (Position (tkLine t) (tkColumn t))
          (Position (tkLine t) (tkColumn t + int (length (tkLiteral t)) - 1))"
proof -
  obtain l where "lexes s (lexAllForSemanticTokensDefault s) l"
    using lexAllLoop_lexes [OF lexes.lexes_start] by (auto simp: lexAllForSemanticTokensDefault_def)
  then obtain us l1 l2 where lx: "lexes s us l1" "set us \<subseteq> set (lexAllForSemanticTokensDefault s)"
      "NextToken l1 = (t, l2)" "tkType t \<noteq> TokenEOF"
    using lexes_member assms(1) by metis
  have l1: "located l1" "lxInput l1 = s" "lxPos l1 \<le> length (lxInput l1)"
    using lexes_located [OF lx(1)] lexes_bound [OF lx(1)] lx(2) assms(2) by auto
  obtain m where m: "skips l1 m" "scans m t l2"
    using NextToken_elim [OF l1(3) lx(3)] lx(4) by metis
  then have loc: "located m" "lxInput m = s" using l1 by (auto simp: skips_def)
  obtain k where k: "0 < k" "spans k notEOL m" "tkLine t = lxLine m" "tkColumn t = lxCol m"
      "literalOf (tkType t) (Prelude.slice (lxPos m) (lxPos m + k) s) (tkLiteral t)"
    using m(2) assms(4) loc(2) by (auto simp: scans_def)
  define n where "n = lxPos m"
  have n: "n + k \<le> length s" "\<And>i. n \<le> i \<Longrightarrow> i < n + k \<Longrightarrow> notEOL (s ! i)"
    using k(2) loc(2) by (auto simp: n_def spans_def) (metis le_add_diff_inverse nat_add_left_cancel_less)
  have len: "length (tkLiteral t) = k"
    using literalOf_length [OF k(5) assms(4)] n(1) by (simp add: n_def)
  have at_n: "at s n = Position (tkLine t) (tkColumn t)"
    using located_locate [OF loc(1)] loc(2) k(3,4) by (simp add: n_def locate_at)
  have "\<not> insideCRLF s n" "\<not> insideCRLF s 0"
    using n(2) [of n] k(1) by (auto simp: insideCRLF_def notEOL_def)
  moreover have "at s 0 = Position 1 1" by (simp add: at_def locate_def locateState_def)
  ultimately have start: "tokenStart s (buildLineStarts s) t = n"
    using seekToken_at [of 0 n s 1 1] at_n n(1) k(1) by (simp add: tokenStart_scan)
  have "tokenEnd s n t = n + k - 1"
    using tokenEnd_width [OF assms(3,4), of n s] len k(1) n(1) by auto
  then have "computeTokenRange s (buildLineStarts s) t =
      Range (Position (tkLine t) (tkColumn t)) (Position (tkLine t) (tkColumn t + int k - 1))"
    using scanTo_line [of n "n + k - 1" s] n k(1) by (simp add: computeTokenRange_def start Let_def of_nat_diff)
  then show ?thesis using at_n k(5) by (intro exI [of _ n]) (simp add: len locate_at n_def)
qed

theorem computeTokenRange_text_witness:
  "\<exists>n. locate ''END  #ab'' n = (1, 6) \<and> uppercase (Prelude.slice n (n + 3) ''END  #ab'') = ''#AB'' \<and>
     computeTokenRange ''END  #ab'' (buildLineStarts ''END  #ab'')
         \<lparr>tkType = TokenIdentifier, tkLiteral = ''#AB'', tkColumn = 6, tkLine = 1\<rparr>
       = Range (Position 1 6) (Position 1 8)"
proof -
  have toks: "lexAllForSemanticTokensDefault ''END  #ab'' =
      [\<lparr>tkType = TokenKeyword, tkLiteral = ''END'', tkColumn = 1, tkLine = 1\<rparr>,
       \<lparr>tkType = TokenIdentifier, tkLiteral = ''#AB'', tkColumn = 6, tkLine = 1\<rparr>]"
    by code_simp
  show ?thesis
    using computeTokenRange_text [of "\<lparr>tkType = TokenIdentifier, tkLiteral = ''#AB'', tkColumn = 6, tkLine = 1\<rparr>"
        "''END  #ab''"]
    by (auto simp: toks numeral_3_eq_3)
qed

section \<open>A dropped operator\<close>

text \<open>
  The test that drops an operator in front of a system variable means the asterisk of the variable,
  but the asterisk starts where the variable starts and has already lost to it: what the test drops is
  another operator that touches the variable, here the assignment.
\<close>

definition sampleAssignment :: string where
  "sampleAssignment = ''#X:=*DATX''"

lemma assignment_dropped:
  "map (\<lambda>t. (Column (Start (smRange t)), smType t)) (SemanticTokens sampleAssignment)
     = [(5, SemanticTokenTypeVariable)]"
  "map (\<lambda>t. (Column (Start (smRange t)), smType t)) (SemanticTokens (''#X:= *DATX''))
     = [(3, SemanticTokenTypeOperator), (6, SemanticTokenTypeVariable)]"
  by code_simp+

end
