(* ===== verification/TokenWire_Facts.thy ===== *)
theory TokenWire_Facts
  imports TokenWire
begin

text \<open>
  The encoding of semantic tokens can be read back: a client that adds up the numbers gets the entries
  in order. The exchange sort orders the entries, though not stably as its comment says. Every stream
  is well formed for the legend the server announces.
\<close>

section \<open>The exchange sort\<close>

lemma exchangePass_mset: "add_mset (fst (exchangePass x ys)) (mset (snd (exchangePass x ys))) = add_mset x (mset ys)"
  by (induction x ys rule: exchangePass.induct) (auto split: prod.splits)

lemma exchangePass_Cons:
  "exchangePass x (y # ys) =
     (if entryKey y < entryKey x
      then (fst (exchangePass y ys), x # snd (exchangePass y ys))
      else (fst (exchangePass x ys), y # snd (exchangePass x ys)))"
  by (simp add: entryKey_def less_prod_def split: prod.split)

lemma exchangePass_least:
  "entryKey (fst (exchangePass x ys)) \<le> entryKey x \<and>
   (\<forall>y\<in>set (snd (exchangePass x ys)). entryKey (fst (exchangePass x ys)) \<le> entryKey y)"
proof (induction ys arbitrary: x)
  case (Cons y ys)
  show ?case
    using Cons.IH [of y] Cons.IH [of x]
    by (cases "entryKey y < entryKey x") (auto simp: exchangePass_Cons simp del: exchangePass.simps intro: order_trans)
qed simp

lemma exchangeSort_Cons: "exchangeSort (x # xs) = fst (exchangePass x xs) # exchangeSort (snd (exchangePass x xs))"
  by (simp split: prod.split)

lemma exchangeSort_induct [case_names Nil Cons]:
  assumes "P []" and "\<And>x xs. P (snd (exchangePass x xs)) \<Longrightarrow> P (x # xs)"
  shows "P es"
proof (induction es rule: measure_induct_rule [of length])
  case (less es)
  then show ?case using assms by (cases es) (auto simp: exchangePass_length)
qed

lemma exchangeSort_mset [simp]: "mset (exchangeSort es) = mset es"
proof (induction es rule: exchangeSort_induct)
  case (Cons x xs)
  then show ?case using exchangePass_mset [of x xs] by (simp add: exchangeSort_Cons del: exchangeSort.simps)
qed simp

lemma exchangeSort_set [simp]: "set (exchangeSort es) = set es"
  by (metis exchangeSort_mset set_mset_mset)

lemma exchangeSort_sorted: "sorted (map entryKey (exchangeSort es))"
proof (induction es rule: exchangeSort_induct)
  case (Cons x xs)
  then show ?case using exchangePass_least [of x xs] by (simp add: exchangeSort_Cons del: exchangeSort.simps)
qed simp

text \<open>Entries that start at the same place can change their order.\<close>

lemma exchangeSort_not_stable:
  "map entryType (exchangeSort
     [\<lparr>line0 = 1, startChar = 0, entryLength = 1, entryType = 1, entryModifiers = 0\<rparr>,
      \<lparr>line0 = 1, startChar = 0, entryLength = 1, entryType = 2, entryModifiers = 0\<rparr>,
      \<lparr>line0 = 0, startChar = 0, entryLength = 1, entryType = 3, entryModifiers = 0\<rparr>]) = [3, 2, 1]"
  by (simp add: exchangeSort.simps)

section \<open>Reading the stream\<close>

fun decodeStream :: "uint32 \<Rightarrow> uint32 \<Rightarrow> uint32 list \<Rightarrow> (uint32 \<times> uint32 \<times> uint32 \<times> uint32 \<times> uint32) list" where
  "decodeStream line start (deltaLine # deltaStart # len # ty # mods # rest) =
     (let line' = line + deltaLine;
          start' = (if deltaLine = 0 then start + deltaStart else deltaStart)
      in (line', start', len, ty, mods) # decodeStream line' start' rest)"
| "decodeStream line start _ = []"

definition wireEntry :: "tokenEntry \<Rightarrow> uint32 \<times> uint32 \<times> uint32 \<times> uint32 \<times> uint32" where
  "wireEntry e = (of_int (line0 e), startChar e, entryLength e, entryType e, entryModifiers e)"

definition onWire :: "int \<Rightarrow> bool" where
  "onWire n \<longleftrightarrow> 0 \<le> n \<and> n < 2 ^ 32"

lemma onWire_inj: "onWire m \<Longrightarrow> onWire n \<Longrightarrow> (of_int (n - m) :: uint32) = 0 \<longleftrightarrow> n = m"
proof
  assume "onWire m" "onWire n" "(of_int (n - m) :: uint32) = 0"
  moreover from this have "(2 ^ 32 :: int) dvd n - m" by (simp add: word_of_int_eq_0_iff del: of_int_diff)
  moreover have "\<bar>n - m\<bar> < 2 ^ 32" using \<open>onWire m\<close> \<open>onWire n\<close> by (auto simp: onWire_def)
  ultimately have "n - m = 0" using dvd_imp_le_int [of "n - m" "2 ^ 32"] by force
  then show "n = m" by simp
qed simp

lemma decodeStream_encode:
  "onWire line \<Longrightarrow> list_all (\<lambda>e. onWire (line0 e)) es \<Longrightarrow>
   decodeStream (of_int line) start (encodeDeltas line start es) = map wireEntry es"
proof (induction line start es rule: encodeDeltas.induct)
  case (2 prevLine prevStartChar e es)
  have "(of_int (line0 e - prevLine) :: uint32) = 0 \<longleftrightarrow> line0 e = prevLine"
    using 2 by (intro onWire_inj) auto
  then show ?case using 2 by (auto simp: Let_def wireEntry_def)
qed simp

text \<open>
  C21. A client that adds up the numbers of the stream reads exactly the per-line entries of the
  tokens, sorted by line and start, when the lines fit the 32 bits of the protocol.
\<close>

theorem encodeSemanticTokens_roundtrip:
  assumes "list_all (\<lambda>tok. list_all (\<lambda>e. onWire (line0 e)) (encodeToken content utf16 tok)) tokens"
  shows "decodeStream 0 0 (encodeSemanticTokens tokens content utf16) = map wireEntry (tokenEntries tokens content utf16)
    \<and> mset (tokenEntries tokens content utf16) = mset (concat (map (encodeToken content utf16) tokens))
    \<and> sorted (map entryKey (tokenEntries tokens content utf16))"
proof -
  have "list_all (\<lambda>e. onWire (line0 e)) (tokenEntries tokens content utf16)"
    using assms by (auto simp: tokenEntries_def list_all_iff)
  then have "decodeStream (of_int 0) 0 (encodeDeltas 0 0 (tokenEntries tokens content utf16))
      = map wireEntry (tokenEntries tokens content utf16)"
    by (intro decodeStream_encode) (simp add: onWire_def)
  then show ?thesis
    by (auto simp: encodeSemanticTokens_def tokenEntries_def exchangeSort_sorted)
qed

theorem encodeSemanticTokens_roundtrip_witness:
  "decodeStream 0 0 (encodeSemanticTokens
      [semanticToken (Range (Position 2 3) (Position 2 4)) SemanticTokenTypeVariable 8,
       semanticToken (Range (Position 1 1) (Position 1 3)) SemanticTokenTypeKeyword 0] (''END'' @ [LF] @ ''  #X'') False)
     = [(0, 0, 3, 0, 0), (1, 2, 2, 5, 8)]"
proof -
  let ?ts = "[semanticToken (Range (Position 2 3) (Position 2 4)) SemanticTokenTypeVariable 8,
       semanticToken (Range (Position 1 1) (Position 1 3)) SemanticTokenTypeKeyword 0]"
  have "map wireEntry (tokenEntries ?ts (''END'' @ [LF] @ ''  #X'') False) = [(0, 0, 3, 0, 0), (1, 2, 2, 5, 8)]"
    by code_simp
  moreover have "list_all (\<lambda>tok. list_all (\<lambda>e. onWire (line0 e)) (encodeToken (''END'' @ [LF] @ ''  #X'') False tok)) ?ts"
    by code_simp
  ultimately show ?thesis
    using encodeSemanticTokens_roundtrip [of "''END'' @ [LF] @ ''  #X''" False ?ts] by simp
qed

section \<open>The providers\<close>

text \<open>A token is kept for a range unless it ends before the range or starts after it.\<close>

lemma intersectsRange_iff:
  "intersectsRange r tok \<longleftrightarrow> Start r \<le> End (smRange tok) \<and> Start (smRange tok) \<le> End r"
  by (auto simp: intersectsRange_def position_order)

text \<open>A document that is open and empty is highlighted with the tokens of the file on disk.\<close>

lemma empty_buffer_from_disk:
  assumes "hcStore h = Some s" "storeGet s u = Some doc" "docContent doc = []"
    and "uriToRelPath ho (hcRoot h) u = Some (absPath, relPath)" "hoReadFile ho absPath = Some disk"
  shows "provideSemanticTokensFull ho h u utf16 = encodeSemanticTokens (SemanticTokens disk) disk utf16"
  using assms by (simp add: provideSemanticTokensFull_def tokenSource_def)

section \<open>Types\<close>

text \<open>The modifiers of the protocol's legend are the five lowest bits; the types are ten.\<close>

definition legendToken :: "SemanticToken \<Rightarrow> bool" where
  "legendToken tok \<longleftrightarrow> take_bit 5 (smModifiers tok) = smModifiers tok"

fun legendStream :: "uint32 list \<Rightarrow> bool" where
  "legendStream [] \<longleftrightarrow> True"
| "legendStream (deltaLine # deltaStart # len # ty # mods # rest) \<longleftrightarrow>
     unat ty < length semanticTokenTypesLegend \<and> take_bit 5 mods = mods \<and> legendStream rest"
| "legendStream _ \<longleftrightarrow> False"

lemmas modifiers = SemanticTokenModifierDeclaration_def SemanticTokenModifierDefinition_def
  SemanticTokenModifierReadonly_def SemanticTokenModifierModification_def SemanticTokenModifierDefaultLibrary_def

lemma legend_modifier:
  "legendToken (semanticToken r t 0)" "legendToken (semanticToken r t SemanticTokenModifierDeclaration)"
  "legendToken (semanticToken r t SemanticTokenModifierDefinition)"
  "legendToken (semanticToken r t SemanticTokenModifierModification)"
  "legendToken (semanticToken r t (SemanticTokenModifierReadonly OR SemanticTokenModifierDefaultLibrary))"
  by (simp_all add: legendToken_def semanticToken_def modifiers)

lemma map_filter_Some: "x \<in> set (List.map_filter f xs) \<Longrightarrow> \<exists>y \<in> set xs. f y = Some x"
  by (auto simp: map_filter_def)

lemma classified_legend: "tok \<in> set (classifiedTokens content) \<Longrightarrow> legendToken tok"
  unfolding classifiedTokens_def Let_def
  by (auto simp: semanticTokensPhaseA_def semanticTokensPhaseBIdentifiers_def semanticTokensPhaseBCalls_def
      semanticTokensPhaseBDDMView_def semanticTokensPhaseBSystemVarsAndWrites_def viewTokens_def accessToken_def
      identifierToken_def systemVariable_def writeTarget_def Let_def legend_modifier
      dest!: map_filter_Some split: if_splits option.splits)

lemma legend_or:
  "\<lbrakk>legendToken x; legendToken y\<rbrakk> \<Longrightarrow> legendToken (x\<lparr>smModifiers := smModifiers x OR smModifiers y\<rparr>)"
  by (simp add: legendToken_def take_bit_or)

lemma mergeToken_cases: "mergeToken m tok = m \<or> (\<exists>x. mergeToken m tok = m(Start (smRange tok) \<mapsto> x) \<and>
    (x = tok \<or> (\<exists>y \<in> ran m. x = y\<lparr>smModifiers := smModifiers y OR smModifiers tok\<rparr>)))"
  by (cases "m (Start (smRange tok))") (auto simp: mergeToken_def Let_def intro: ranI)

lemma mergeToken_legend:
  assumes "\<forall>x \<in> ran m. legendToken x" "legendToken tok"
  shows "\<forall>x \<in> ran (mergeToken m tok). legendToken x"
proof -
  have upd: "\<forall>y \<in> ran (m(k \<mapsto> x)). legendToken y" if "legendToken x" for k x
    using that assms(1) by (auto simp: ran_def)
  consider "mergeToken m tok = m" | "mergeToken m tok = m(Start (smRange tok) \<mapsto> tok)"
    | y where "mergeToken m tok
        = m(Start (smRange tok) \<mapsto> y\<lparr>smModifiers := smModifiers y OR smModifiers tok\<rparr>)" "y \<in> ran m"
    using mergeToken_cases [of m tok] by blast
  then show ?thesis
  proof cases
    case 1
    show ?thesis unfolding 1 by (rule assms(1))
  next
    case 2
    show ?thesis unfolding 2 by (rule upd [OF assms(2)])
  next
    case 3
    show ?thesis unfolding 3(1) by (rule upd [OF legend_or [OF bspec [OF assms(1) 3(2)] assms(2)]])
  qed
qed

lemma foldl_mergeToken_legend:
  "list_all legendToken toks \<Longrightarrow> \<forall>x \<in> ran m. legendToken x \<Longrightarrow> \<forall>x \<in> ran (foldl mergeToken m toks). legendToken x"
proof (induction toks arbitrary: m)
  case (Cons tok toks)
  have tok: "legendToken tok" "list_all legendToken toks" using Cons.prems(1) by simp_all
  show ?case using Cons.IH [OF tok(2) mergeToken_legend [OF Cons.prems(2) tok(1)]] by (simp only: foldl_Cons)
qed simp

lemma pickToken_legend:
  assumes "\<forall>x \<in> ran m. legendToken x" "list_all legendToken (snd acc)"
  shows "list_all legendToken (snd (foldl (pickToken m starts) acc toks))"
  using assms(2)
proof (induction toks arbitrary: acc)
  case (Cons tok toks)
  have "list_all legendToken (snd (pickToken m starts acc tok))"
    using Cons.prems assms(1) by (cases acc) (auto simp: pickToken_def Let_def ranI split: option.splits)
  then show ?case using Cons.IH by simp
qed simp

lemma SemanticTokens_legend: "list_all legendToken (SemanticTokens content)"
proof -
  have "list_all legendToken (sortBySource smRange (classifiedTokens content))"
    using classified_legend by (auto simp: list_all_iff sortBySource_def)
  then show ?thesis
    unfolding SemanticTokens_def mergeTokens_def Let_def
    by (intro pickToken_legend foldl_mergeToken_legend) simp_all
qed

lemma typeIndex_legend: "unat (typeIndex t) < length semanticTokenTypesLegend"
  by (cases t) (simp_all add: typeIndex_def semanticTokenTypesLegend_def)

definition legendEntry :: "tokenEntry \<Rightarrow> bool" where
  "legendEntry e \<longleftrightarrow> unat (entryType e) < length semanticTokenTypesLegend \<and> take_bit 5 (entryModifiers e) = entryModifiers e"

lemma encodeToken_legend: "legendToken tok \<Longrightarrow> list_all legendEntry (encodeToken content utf16 tok)"
  by (auto simp: encodeToken_def Let_def singleLineEntry_def partEntry_def legendEntry_def legendToken_def
      typeIndex_legend list_all_iff)

lemma encodeDeltas_legend: "list_all legendEntry es \<Longrightarrow> legendStream (encodeDeltas line start es)"
  by (induction line start es rule: encodeDeltas.induct) (auto simp: legendEntry_def)

lemma encode_legend:
  assumes "list_all legendToken toks"
  shows "legendStream (encodeSemanticTokens toks content utf16)"
proof -
  have "list_all legendEntry (tokenEntries toks content utf16)"
    using assms encodeToken_legend by (fastforce simp: tokenEntries_def list_all_iff)
  then show ?thesis by (simp add: encodeSemanticTokens_def encodeDeltas_legend)
qed

text \<open>
  C23. Whatever the document, the stream of either request is made of groups of five numbers, and in
  each the type is an index into the legend the server announced and the modifiers are bits of it.
\<close>

theorem provideSemanticTokens_typed:
  "legendStream (provideSemanticTokensFull ho h u utf16) \<and> legendStream (provideSemanticTokensRange ho h u r utf16)"
proof -
  have "list_all legendToken (filter p (SemanticTokens content))" for p content
    using SemanticTokens_legend [of content] by (auto simp: list_all_iff)
  then show ?thesis
    using SemanticTokens_legend
    by (auto simp: provideSemanticTokensFull_def provideSemanticTokensRange_def Let_def encode_legend split: option.splits)
qed

end
