(* ===== verification/Diagnostics_Facts.thy ===== *)
theory Diagnostics_Facts
  imports Diagnostics Analyzer Index_Facts LineWidth_Facts
begin

text \<open>
  The merge of diagnostics loses none and repeats none; the push path publishes what the pull model
  answers; and the report on the workspace, which is made without reading files, agrees with both.
\<close>

section \<open>Aggregation\<close>

lemma diagnosticKey_inj: "diagnosticKey d = diagnosticKey e \<longleftrightarrow> d = e"
  by (auto simp: diagnosticKey_def)

lemma dedup_fold:
  "foldl dedupStep ([], []) ds = (map diagnosticKey (rev (firsts ds)), firsts ds)"
proof (induction ds rule: rev_induct)
  case Nil
  then show ?case by (simp add: firsts_def)
next
  case (snoc d ds)
  have "diagnosticKey d \<in> diagnosticKey ` set ds \<longleftrightarrow> d \<in> set ds"
    by (auto simp: diagnosticKey_inj)
  then show ?case using snoc by (simp add: dedupStep_def firsts_snoc)
qed

lemma aggregate_firsts:
  "aggregateDiagnostics fa resDiags = firsts (sortBySource dgRange (faDiagnostics fa @ resDiags))"
  by (auto simp: aggregateDiagnostics_def Let_def dedup_fold firsts_def sortBySource_def)

text \<open>
  C28. The merged diagnostics are those of the analyzer and of the resolution, each once and in source
  order; those that start at the same place keep the order of their first occurrence.
\<close>

theorem aggregateDiagnostics_exact:
  "set (aggregateDiagnostics fa rs) = set (faDiagnostics fa) \<union> set rs
   \<and> distinct (aggregateDiagnostics fa rs)
   \<and> sorted (map (\<lambda>d. Start (dgRange d)) (aggregateDiagnostics fa rs))
   \<and> (\<forall>p. filter (\<lambda>d. Start (dgRange d) = p) (aggregateDiagnostics fa rs)
          = firsts (filter (\<lambda>d. Start (dgRange d) = p) (faDiagnostics fa @ rs)))"
  by (auto simp: aggregate_firsts sorted_firsts firsts_filter sortBySource_stable)

section \<open>Push and pull\<close>

text \<open>The absolute path and the key of a document below the root.\<close>

definition insideRoot :: "Host \<Rightarrow> HandlerContext \<Rightarrow> string \<Rightarrow> (string \<times> string) option" where
  "insideRoot ho h u =
     (case uriToRelPath ho (hcRoot h) u of
        None \<Rightarrow> None
      | Some (absPath, relPath) \<Rightarrow>
          if isAbs relPath \<or> hasPrefix relPath ''..'' then None else Some (absPath, relPath))"

text \<open>
  Whenever the push path publishes, it publishes the items of the pull report. The only difference
  is a file that is not open while there is no index yet: the pull model answers an empty report, the
  push path panics.
\<close>

lemma push_pull_agree:
  "case publishFileDiagnostics ho h u utf16 of
     Published ds version \<Rightarrow> ds = provideDocumentDiagnostic ho h u utf16
   | NilIndexPanic \<Rightarrow> hcIdx h = None \<and> provideDocumentDiagnostic ho h u utf16 = []"
  by (auto simp: publishFileDiagnostics_def provideDocumentDiagnostic_def Let_def split: option.splits)

lemma push_panics:
  assumes "hcIdx h = None" "Option.bind (hcStore h) (\<lambda>s. storeGet s u) = None" "insideRoot ho h u \<noteq> None"
  shows "publishFileDiagnostics ho h u utf16 = NilIndexPanic"
  using assms by (auto simp: publishFileDiagnostics_def insideRoot_def split: option.splits if_splits)

text \<open>A file that is not open, below the root, with an index.\<close>

lemma closed_document:
  assumes "hcIdx h = Some idx" "Option.bind (hcStore h) (\<lambda>s. storeGet s u) = None"
    and "insideRoot ho h u = Some (absPath, path)" "Get path idx = Some fa" "hoReadFile ho absPath = Some content"
  shows "provideDocumentDiagnostic ho h u utf16 =
      convertDiagnostics (aggregateDiagnostics fa (DiagnosticsFor (hcRes h) path)) content utf16"
    and "publishFileDiagnostics ho h u utf16 =
      Published (convertDiagnostics (aggregateDiagnostics fa (DiagnosticsFor (hcRes h) path)) content utf16) None"
  using assms
  by (auto simp: provideDocumentDiagnostic_def publishFileDiagnostics_def insideRoot_def Let_def
      split: option.splits if_splits)

lemma index_range_text:
  assumes "lineWidthsFor path idx = Some (buildLineWidthTable content)" "length content < 2 ^ 32"
  shows "indexProtocolRange idx path r utf16 = toProtocolRange r content utf16"
  using codeUnit_line [OF assms(2)]
  by (simp add: indexProtocolRange_def assms(1) protocolRangeVia_def protocolRange_def codeUnitOrFallback_def
      toProtocolRange_def modelPositionToProtocol_def Let_def)

section \<open>The report on the workspace\<close>

text \<open>
  The file a path of the index stands for is not open, its URI leads back to it, and the index has
  the table of line widths of its content on disk.
\<close>

definition onDisk :: "Host \<Rightarrow> HandlerContext \<Rightarrow> Index \<Rightarrow> string \<Rightarrow> bool" where
  "onDisk ho h idx path \<longleftrightarrow>
     (let file = filepathJoin (hcRoot h) path; u = hoUriFile ho file
      in Option.bind (hcStore h) (\<lambda>s. storeGet s u) = None \<and> insideRoot ho h u = Some (file, path) \<and>
         (\<exists>content. hoReadFile ho file = Some content \<and> lineWidthsFor path idx = Some (buildLineWidthTable content) \<and>
            length content < 2 ^ 32))"

lemma fileReport_pull:
  assumes "hcIdx h = Some idx" "onDisk ho h idx path" "Get path idx = Some fa"
  shows "fileReport ho h idx utf16 (path, fa) =
     (let u = hoUriFile ho (filepathJoin (hcRoot h) path); ds = provideDocumentDiagnostic ho h u utf16
      in if ds = [] then None else Some (u, ds))"
    and "publishFileDiagnostics ho h (hoUriFile ho (filepathJoin (hcRoot h) path)) utf16 =
      Published (provideDocumentDiagnostic ho h (hoUriFile ho (filepathJoin (hcRoot h) path)) utf16) None"
proof -
  let ?file = "filepathJoin (hcRoot h) path"
  let ?agg = "aggregateDiagnostics fa (DiagnosticsFor (hcRes h) path)"
  obtain content where c: "hoReadFile ho ?file = Some content" "lineWidthsFor path idx = Some (buildLineWidthTable content)"
    "length content < 2 ^ 32" and d: "Option.bind (hcStore h) (\<lambda>s. storeGet s (hoUriFile ho ?file)) = None"
    "insideRoot ho h (hoUriFile ho ?file) = Some (?file, path)"
    using assms(2) by (auto simp: onDisk_def Let_def)
  note docs = closed_document [OF assms(1) d assms(3) c(1)]
  have "map (\<lambda>d. toProtocolDiagnosticFromConverter d (indexProtocolRange idx path) utf16) ?agg
      = convertDiagnostics ?agg content utf16"
    by (simp add: convertDiagnostics_def toProtocolDiagnostic_def toProtocolDiagnosticFromConverter_def
        index_range_text [OF c(2,3)])
  then show "fileReport ho h idx utf16 (path, fa) =
     (let u = hoUriFile ho (filepathJoin (hcRoot h) path); ds = provideDocumentDiagnostic ho h u utf16
      in if ds = [] then None else Some (u, ds))"
    by (auto simp: docs(1) fileReport_def convertDiagnostics_def Let_def)
  show "publishFileDiagnostics ho h (hoUriFile ho ?file) utf16 =
      Published (provideDocumentDiagnostic ho h (hoUriFile ho ?file) utf16) None"
    by (simp add: docs)
qed

text \<open>
  C22. When the indexed files are not open and are on disk as they were indexed, the report on the workspace,
  which reads no file, has exactly the indexed files with diagnostics, each once and in the order of
  their URIs, with the items that a pull of that file alone answers and a push of it publishes.
\<close>

theorem workspace_report_exact:
  assumes "hcIdx h = Some idx" and "distinct (map fst (ixEntries idx))"
    and "\<forall>path \<in> set (Keys idx). onDisk ho h idx path"
  shows "(\<forall>u ds. (u, ds) \<in> set (provideWorkspaceDiagnostic ho h utf16) \<longleftrightarrow>
            u \<in> (\<lambda>path. hoUriFile ho (filepathJoin (hcRoot h) path)) ` set (Keys idx) \<and> ds \<noteq> [] \<and>
            provideDocumentDiagnostic ho h u utf16 = ds \<and> publishFileDiagnostics ho h u utf16 = Published ds None) \<and>
     sorted (map fst (provideWorkspaceDiagnostic ho h utf16)) \<and>
     distinct (map fst (provideWorkspaceDiagnostic ho h utf16))"
proof -
  let ?uri = "\<lambda>path. hoUriFile ho (filepathJoin (hcRoot h) path)"
  let ?pull = "\<lambda>path. (?uri path, provideDocumentDiagnostic ho h (?uri path) utf16)"
  let ?some = "\<lambda>path. provideDocumentDiagnostic ho h (?uri path) utf16 \<noteq> []"
  have entry: "Get path idx = Some fa" "path \<in> set (Keys idx)" "onDisk ho h idx path"
    if "(path, fa) \<in> set (ixEntries idx)" for path fa
    using that assms(2,3) by (force simp: Get_def Keys_def)+
  have files: "List.map_filter (fileReport ho h idx utf16) es = map ?pull (filter ?some (map fst es))"
    if "set es \<subseteq> set (ixEntries idx)" for es
    using that
  proof (induction es)
    case (Cons e es)
    obtain path fa where e: "e = (path, fa)" by fastforce
    with Cons.prems entry [of path fa] fileReport_pull(1) [OF assms(1), of ho path fa utf16] Cons.IH show ?case
      by (auto simp: Let_def map_filter_simps)
  qed (simp add: map_filter_simps)
  have report: "provideWorkspaceDiagnostic ho h utf16 = sort_key fst (map ?pull (filter ?some (map fst (ixEntries idx))))"
    using assms(1) files [of "ixEntries idx"] by (simp add: provideWorkspaceDiagnostic_def)
  have keys: "set (Keys idx) = fst ` set (ixEntries idx)" by (simp add: Keys_def)
  have push: "publishFileDiagnostics ho h (?uri path) utf16 = Published (provideDocumentDiagnostic ho h (?uri path) utf16) None"
    if "path \<in> set (Keys idx)" for path
    using that entry fileReport_pull(2) [OF assms(1)] keys by force
  have inj: "inj_on ?uri (fst ` set (ixEntries idx))"
  proof (rule inj_onI)
    fix p q assume "p \<in> fst ` set (ixEntries idx)" "q \<in> fst ` set (ixEntries idx)" and same: "?uri p = ?uri q"
    then have "onDisk ho h idx p" "onDisk ho h idx q" using assms(3) keys by blast+
    with same show "p = q" by (simp add: onDisk_def Let_def)
  qed
  have "distinct (map ?uri (filter ?some (map fst (ixEntries idx))))"
    using assms(2) inj_on_subset [OF inj] by (auto simp: distinct_map)
  moreover have "mset (map fst (provideWorkspaceDiagnostic ho h utf16)) =
      mset (map ?uri (filter ?some (map fst (ixEntries idx))))"
    by (simp add: report multiset.map_comp comp_def)
  ultimately have "distinct (map fst (provideWorkspaceDiagnostic ho h utf16))"
    using mset_eq_imp_distinct_iff by blast
  then show ?thesis using push keys by (auto simp: report image_iff)
qed

definition sampleFlagged :: HandlerContext where
  "sampleFlagged =
     \<lparr>hcRoot = ''/ws'', hcCfg = Defaults, hcStore = None,
      hcIdx = Some (PutContent ''A.XYZ'' ''END'' (Add ''A.XYZ'' (Analyze Map.empty ''A.XYZ'' ''END'') emptyIndex)),
      hcRes = None\<rparr>"

definition sampleDocs :: Host where
  "sampleDocs = \<lparr>hoFsPath = drop 7, hoUriFile = (\<lambda>p. ''file://'' @ p),
     hoReadFile = (\<lambda>p. if p = ''/ws/A.XYZ'' then Some ''END'' else None)\<rparr>"

lemma sampleFlagged_onDisk:
  "onDisk sampleDocs sampleFlagged (PutContent ''A.XYZ'' ''END'' (Add ''A.XYZ'' (Analyze Map.empty ''A.XYZ'' ''END'') emptyIndex))
     ''A.XYZ''"
proof -
  let ?idx = "PutContent ''A.XYZ'' ''END'' (Add ''A.XYZ'' (Analyze Map.empty ''A.XYZ'' ''END'') emptyIndex)"
  have joined: "filepathJoin (hcRoot sampleFlagged) ''A.XYZ'' = ''/ws/A.XYZ''"
    "hoUriFile sampleDocs ''/ws/A.XYZ'' = ''file:///ws/A.XYZ''" by code_simp+
  have "insideRoot sampleDocs sampleFlagged ''file:///ws/A.XYZ'' = Some (''/ws/A.XYZ'', ''A.XYZ'')" by code_simp
  moreover have "lineWidthsFor ''A.XYZ'' ?idx = Some (buildLineWidthTable ''END'')"
    by (simp add: PutContent_def lineWidthsFor_def update_conv)
  moreover have "hoReadFile sampleDocs ''/ws/A.XYZ'' = Some ''END''" "hcStore sampleFlagged = None"
    by (simp_all add: sampleDocs_def sampleFlagged_def)
  ultimately show ?thesis by (simp add: onDisk_def Let_def joined)
qed

theorem workspace_report_exact_witness:
  "(''file:///ws/A.XYZ'', provideDocumentDiagnostic sampleDocs sampleFlagged ''file:///ws/A.XYZ'' True)
     \<in> set (provideWorkspaceDiagnostic sampleDocs sampleFlagged True)"
proof -
  let ?idx = "PutContent ''A.XYZ'' ''END'' (Add ''A.XYZ'' (Analyze Map.empty ''A.XYZ'' ''END'') emptyIndex)"
  have idx: "hcIdx sampleFlagged = Some ?idx" by (simp add: sampleFlagged_def)
  have keys: "map fst (ixEntries ?idx) = [''A.XYZ'']" by code_simp
  have joined: "hoUriFile sampleDocs (filepathJoin (hcRoot sampleFlagged) ''A.XYZ'') = ''file:///ws/A.XYZ''" by code_simp
  have "length (provideDocumentDiagnostic sampleDocs sampleFlagged ''file:///ws/A.XYZ'' True) = 1" by code_simp
  then have some: "provideDocumentDiagnostic sampleDocs sampleFlagged ''file:///ws/A.XYZ'' True \<noteq> []" by auto
  have d: "distinct (map fst (ixEntries ?idx))" by (simp add: keys)
  have disk: "\<forall>path \<in> set (Keys ?idx). onDisk sampleDocs sampleFlagged ?idx path"
    using sampleFlagged_onDisk keys by (simp add: Keys_def)
  have "publishFileDiagnostics sampleDocs sampleFlagged ''file:///ws/A.XYZ'' True =
      Published (provideDocumentDiagnostic sampleDocs sampleFlagged ''file:///ws/A.XYZ'' True) None"
    using push_pull_agree [of sampleDocs sampleFlagged "''file:///ws/A.XYZ''" True]
    by (auto simp: idx publishFileDiagnostics_def sampleFlagged_def Let_def split: Publication.splits option.splits if_splits)
  with workspace_report_exact [OF idx d disk, of True] some joined keys show ?thesis
    by (simp add: Keys_def)
qed

end
