(* ===== verification/Completion_Facts.thy ===== *)
theory Completion_Facts
  imports Completion
begin

text \<open>
  The words before the cursor are those one expects on a line of ASCII text, but a last word that ends
  in a character of several bytes is lost. The active parameter of a signature is one of its parameters.
\<close>

section \<open>Words\<close>

definition asciiText :: "string \<Rightarrow> bool" where
  "asciiText s \<longleftrightarrow> list_all (\<lambda>c. byteVal c < 0x80) s"

lemma runesFrom_ascii:
  "byteVal c < 0x80 \<Longrightarrow> runesFrom i (c # s) = (i, byteVal c) # runesFrom (i + 1) s"
  by (simp add: runesFrom_Cons decodeRune_ascii)

lemma encodeRune_ascii: "byteVal c < 0x80 \<Longrightarrow> encodeRune (byteVal c) = [c]"
  by (simp add: encodeRune_def byteVal_def)

lemma isSpaceRune_ascii:
  assumes "byteVal c < 0x80"
  shows "isSpaceRune (byteVal c) \<longleftrightarrow> isSpaceByte c"
proof -
  have eq: "c = d \<longleftrightarrow> byteVal c = byteVal d" for d by (simp add: byteVal_def)
  show ?thesis
    unfolding isSpaceByte_def eq using assms by (auto simp: isSpaceRune_def byteVal_def)
qed

lemma fieldsFunc_word:
  assumes "list_all (\<lambda>c. \<not> P c) w" "P c"
  shows "fieldsFunc P (w @ c # s) = (if w = [] then [] else [w]) @ fieldsFunc P s"
proof (cases w)
  case Nil
  then show ?thesis using assms by (subst (1 2) fieldsFunc.simps) simp
next
  case (Cons a b)
  then have "dropWhile P (w @ c # s) = w @ c # s" using assms by simp
  moreover have "takeWhile (\<lambda>c. \<not> P c) (w @ c # s) = w" "dropWhile (\<lambda>c. \<not> P c) (w @ c # s) = c # s"
    using assms by (simp_all add: takeWhile_append list_all_iff)
  moreover have "fieldsFunc P (c # s) = fieldsFunc P s"
    using assms by (subst (1 2) fieldsFunc.simps) simp
  ultimately show ?thesis using Cons by (subst fieldsFunc.simps) (simp add: Let_def)
qed

lemma fieldsFunc_last:
  assumes "list_all (\<lambda>c. \<not> P c) w"
  shows "fieldsFunc P w = (if w = [] then [] else [w])"
proof (cases w)
  case Nil
  then show ?thesis by (subst fieldsFunc.simps) simp
next
  case (Cons a b)
  then have "dropWhile P w = w" using assms by simp
  moreover have "takeWhile (\<lambda>c. \<not> P c) w = w" "dropWhile (\<lambda>c. \<not> P c) w = []"
    using assms by (simp_all add: list_all_iff)
  moreover have "fieldsFunc P [] = []" by (subst fieldsFunc.simps) simp
  ultimately show ?thesis using Cons by (subst fieldsFunc.simps) (simp add: Let_def)
qed

lemma tokenizeLoop_ascii:
  assumes "asciiText s" "s \<noteq> []" "list_all (\<lambda>c. \<not> isSpaceByte c) cur"
  shows "tokenizeLoop (i + length s) toks cur (runesFrom i s) = toks @ fieldsFunc isSpaceByte (cur @ s)"
  using assms
proof (induction s arbitrary: i toks cur)
  case (Cons c s)
  then have c: "byteVal c < 0x80" "asciiText s" by (auto simp: asciiText_def)
  show ?case
  proof (cases "isSpaceByte c")
    case True
    have "fieldsFunc isSpaceByte [] = []" by (subst fieldsFunc.simps) simp
    then show ?thesis
      using Cons True c fieldsFunc_word [of isSpaceByte cur c s] Cons.IH [of "[]" "i + 1"]
      by (cases "s = []") (simp_all add: runesFrom_ascii isSpaceRune_ascii)
  next
    case False
    then have "list_all (\<lambda>c. \<not> isSpaceByte c) (cur @ [c])" using Cons.prems by simp
    then show ?thesis
      using Cons False c fieldsFunc_last [of isSpaceByte "cur @ [c]"] Cons.IH [of "cur @ [c]" "i + 1" toks]
      by (cases "s = []") (simp_all add: runesFrom_ascii isSpaceRune_ascii encodeRune_ascii)
  qed
qed simp

text \<open>
  On ASCII text the character loop is \<open>strings.Fields\<close>: the words between white space.
\<close>

theorem tokenizeLine_fields:
  assumes "asciiText line"
  shows "tokenizeLine line = fieldsFunc isSpaceByte line"
proof (cases "line = []")
  case True
  moreover have "fieldsFunc isSpaceByte [] = []" by (subst fieldsFunc.simps) simp
  ultimately show ?thesis by (simp add: tokenizeLine_def runes_def)
next
  case False
  then show ?thesis
    using tokenizeLoop_ascii [OF assms False, of "[]" 0 "[]"] by (simp add: tokenizeLine_def runes_def)
qed

text \<open>The word under the cursor is lost when it ends in a letter outside ASCII.\<close>

lemmas line_words = tokenizeLine_def runes_def runesFrom_Cons decodeRune_def secondOK_def inRange_def
  isSpaceRune_def encodeRune_def byteVal_def char_of_eq_iff

theorem tokenizeLine_fields_witness:
  "asciiText ''CALL  SUB #A'' \<and> fieldsFunc isSpaceByte ''CALL  SUB #A'' = [''CALL'', ''SUB'', ''#A'']"
proof -
  have a: "asciiText ''CALL  SUB #A''" by (simp add: asciiText_def byteVal_def)
  moreover have "tokenizeLine ''CALL  SUB #A'' = [''CALL'', ''SUB'', ''#A'']"
    by (simp add: line_words)
  ultimately show ?thesis using tokenizeLine_fields [OF a] by (simp only:)
qed

lemma last_word_lost:
  "tokenizeLine (''GET CAF'' @ [CHR 0xC3, CHR 0x89]) = [''GET'']"
  "tokenizeLine (''GET CAF'' @ [CHR 0xC3, CHR 0x89] @ ''S'') = [''GET'', ''CAF'' @ [CHR 0xC3, CHR 0x89] @ ''S'']"
  by (simp_all add: line_words)

section \<open>Signatures\<close>

text \<open>
  A signature has an active parameter exactly when it has parameters, and then it is the index of
  one of them, wherever the cursor is on the line.
\<close>

lemma provideSignatureHelp_active:
  assumes "provideSignatureHelp ho h u pos utf16 = Some sig" and "length (sgParameters sig) < 2 ^ 32"
  shows "case sgActiveParameter sig of
           None \<Rightarrow> sgParameters sig = []
         | Some n \<Rightarrow> unat n < length (sgParameters sig)"
proof -
  obtain s n where sig: "sig = setActiveParameter s n" "sgActiveParameter s = None"
    using assms(1)
    by (auto simp: provideSignatureHelp_def Let_def buildSignatureInformation_def split: option.splits prod.splits)
  have unat_small: "unat (of_nat m :: uint32) = m" if "m < 2 ^ 32" for m
    using that by (simp add: unat_of_nat)
  show ?thesis
    using sig assms(2) by (cases "sgParameters s")
      (auto simp: setActiveParameter_def unat_small)
qed

end
