(* ===== verification/CallHierarchy_Facts.thy ===== *)
theory CallHierarchy_Facts
  imports CallHierarchy References_Facts Build_Facts
begin

text \<open>
  Facts about the call hierarchy: an item finds its symbol again, and the calls out of a file and the
  calls into a file are converse relations on the statements that call.
\<close>

section \<open>Items\<close>

lemma find_Some_set: "find P xs = Some x \<Longrightarrow> x \<in> set xs \<and> P x"
  by (auto simp: find_Some_iff)

lemma symbolOfData_indexed:
  assumes "symbolOfData idx d = Some (path, fa, s)"
  obtains node where "Get path idx = Some fa" "faStructure fa = Some node" "s \<in> set (node # symChildren node)"
proof (cases "Get (idPath d) idx")
  case (Some fa')
  then show ?thesis
    using assms that
    by (cases "faStructure fa'")
      (auto simp: symbolOfData_def findSymbolInChildren_def split: if_splits dest!: find_Some_set)
qed (use assms in \<open>simp add: symbolOfData_def\<close>)

lemma symbolOfRange_indexed:
  assumes "symbolOfRange ho idx root item utf16 = Some (path, fa, s)"
  obtains node where "Get path idx = Some fa" "faStructure fa = Some node" "s \<in> set (node # symChildren node)"
proof -
  obtain absPath fa' node where f: "uriToRelPath ho root (chURI item) = Some (absPath, path)" "Get path idx = Some fa'"
    "faStructure fa' = Some node" "fa' = fa"
    using assms by (auto simp: symbolOfRange_def split: option.splits prod.splits)
  then have "s \<in> set (node # symChildren node)"
    using assms by (cases "hoReadFile ho absPath") (auto simp: symbolOfRange_def split: if_splits dest!: find_Some_set)
  then show ?thesis using f that by blast
qed

lemma identity_indexed:
  assumes "resolveItemIdentity ho idx root item utf16 = Some (path, fa, s)"
  obtains node where "Get path idx = Some fa" "faStructure fa = Some node" "s \<in> set (node # symChildren node)"
proof (cases "Option.bind (chData item) (symbolOfData idx)")
  case None
  then show ?thesis
    using assms that symbolOfRange_indexed [of ho idx root item utf16 path fa s] by (auto simp: resolveItemIdentity_def)
next
  case (Some found)
  then obtain d where "symbolOfData idx d = Some (path, fa, s)"
    using assms by (auto simp: resolveItemIdentity_def bind_eq_Some_conv)
  then show ?thesis using that symbolOfData_indexed by blast
qed

lemma item_data [simp]:
  "chData (buildCallHierarchyItem ho root path content s utf16) = Some \<lparr>idPath = path, idName = symName s, idKind = symKind s\<rparr>"
  by (simp add: buildCallHierarchyItem_def)

lemma equalFold_refl [simp]: "equalFold s s"
  by (simp add: equalFold_def)

lemma identity_root:
  assumes "Get path idx = Some fa" "faStructure fa = Some node"
  shows "resolveItemIdentity ho idx root (buildCallHierarchyItem ho root' path content node utf16) utf16'
    = Some (path, fa, node)"
  using assms by (simp add: resolveItemIdentity_def symbolOfData_def)

text \<open>
  The item of a symbol of an indexed file finds its file again, whatever the encoding and the
  contents then, and in it a symbol of the same kind and name: the root itself for the item of the
  root, and otherwise the first subroutine of the name unless the root has that kind and name.
\<close>

theorem item_identity:
  assumes "Get path idx = Some fa" "faStructure fa = Some node" "s \<in> set (node # symChildren node)"
  shows "\<exists>s'. resolveItemIdentity ho idx root (buildCallHierarchyItem ho root' path content s utf16) utf16'
             = Some (path, fa, s') \<and> s' \<in> set (node # symChildren node)
           \<and> symKind s' = symKind s \<and> equalFold (symName s') (symName s) \<and> (s = node \<longrightarrow> s' = node)"
proof (cases "equalFold (symName node) (symName s) \<and> symKind node = symKind s")
  case True
  then show ?thesis using assms by (simp add: resolveItemIdentity_def symbolOfData_def)
next
  case False
  then have s: "s \<in> set (symChildren node)" using assms(3) by auto
  then obtain c where c: "findSymbolInChildren (symChildren node) (symName s) (symKind s) = Some c"
    using s by (cases "findSymbolInChildren (symChildren node) (symName s) (symKind s)")
      (auto simp: findSymbolInChildren_def find_None_iff)
  then have "c \<in> set (symChildren node)" "symKind c = symKind s" "equalFold (symName c) (symName s)"
    by (auto simp: findSymbolInChildren_def dest!: find_Some_set)
  moreover have "s \<noteq> node" using False by auto
  ultimately show ?thesis using assms False c by (simp add: resolveItemIdentity_def symbolOfData_def)
qed

lemma rootItem_Some:
  assumes "rootItem ho h idx utf16 path = Some item"
  obtains fa node content where "Get path idx = Some fa" "faStructure fa = Some node"
    "hoReadFile ho (filepathJoin (hcRoot h) path) = Some content"
    "item = buildCallHierarchyItem ho (hcRoot h) path content node utf16"
  using assms by (auto simp: rootItem_def split: option.splits)

section \<open>Sites\<close>


definition slashedIndex :: "Index \<Rightarrow> bool" where
  "slashedIndex idx \<longleftrightarrow> wellFormed (ixEntries idx) \<and> (\<forall>p \<in> fst ` set (ixEntries idx). slashed p)"

definition callEdge :: "EdgeEntry \<Rightarrow> bool" where
  "callEdge e \<longleftrightarrow> eeKind e \<in> {EdgeCalls, EdgeNavigatesTo, EdgePerforms}"

lemma resolved_slashed:
  assumes "slashedIndex idx" "resGet (Some (Resolve idx cfg)) f r = Some (Resolved p t)"
  shows "NormalizeKey p = p" "\<exists>fa. Get p idx = Some fa \<and> faObjectType fa = t"
proof -
  have "boundIn (ixEntries idx) (Resolved p t)"
    using assms by (intro Resolve_bound) (auto simp: slashedIndex_def resGet_def)
  then obtain fa where fa: "map_of (ixEntries idx) p = Some fa" "faObjectType fa = t"
    by (auto simp: boundIn_def)
  then show "\<exists>fa. Get p idx = Some fa \<and> faObjectType fa = t" by (simp add: Get_def)
  have "p \<in> fst ` set (ixEntries idx)" using map_of_SomeD [OF fa(1)] by force
  then show "NormalizeKey p = p" using assms(1) by (auto simp: slashedIndex_def slashed_def)
qed

text \<open>The target a call is grouped under, when it is not a subroutine of the same file.\<close>

lemma calleeKey_external:
  assumes idx: "slashedIndex idx" and b: "Get b idx = Some fb" "\<not> equalFold b a" "CHR ''|'' \<notin> set b"
  shows "calleeKey (Resolve idx cfg) a fa e = Some b
    \<longleftrightarrow> callEdge e \<and> boundTo (Resolve idx cfg) a e b (faObjectType fb)"
proof -
  have nb: "NormalizeKey b = b"
    using idx map_of_SomeD [of "ixEntries idx" b fb] b(1)
    by (force simp: slashedIndex_def slashed_def Get_def)
  have bar: "a @ ''|'' @ n \<noteq> b" for n using b(3) by auto
  show ?thesis
  proof (cases "\<exists>p t. resGet (Some (Resolve idx cfg)) a (eeSource e) = Some (Resolved p t)")
    case True
    then obtain p t where r: "resGet (Some (Resolve idx cfg)) a (eeSource e) = Some (Resolved p t)" by blast
    note p = resolved_slashed [OF idx r]
    have "boundTo (Resolve idx cfg) a e b (faObjectType fb) \<longleftrightarrow> p = b"
      using r p nb b(1) by (auto simp: boundTo_def edgeMatchesTarget_def)
    moreover have "calleeKey (Resolve idx cfg) a fa e = Some b \<longleftrightarrow> callEdge e \<and> p = b"
      using r p(1) bar b(2) by (simp add: calleeKey_def callEdge_def Let_def) blast
    ultimately show ?thesis by simp
  next
    case False
    then have "\<not> boundTo (Resolve idx cfg) a e b (faObjectType fb)"
      by (auto simp: boundTo_def edgeMatchesTarget_def split: option.splits Resolution.Resolution.splits)
    moreover have "calleeKey (Resolve idx cfg) a fa e = None"
      using False by (simp add: calleeKey_def split: option.splits Resolution.Resolution.splits)
    ultimately show ?thesis by simp
  qed
qed

lemma outgoing_sites:
  "(\<exists>rs. (key, rs) \<in> set (outgoingCallSites res a fa) \<and> r \<in> set rs)
    \<longleftrightarrow> (\<exists>e \<in> set (faEdges fa). eeSource e = r \<and> calleeKey res a fa e = Some key)"
proof -
  let ?keyed = "List.map_filter (\<lambda>e. map_option (\<lambda>k. (k, eeSource e)) (calleeKey res a fa e)) (faEdges fa)"
  have "(\<exists>rs. (key, rs) \<in> set (outgoingCallSites res a fa) \<and> r \<in> set rs) \<longleftrightarrow> (key, r) \<in> set ?keyed"
    unfolding outgoingCallSites_def Let_def by (force simp: set_firsts)
  also have "\<dots> \<longleftrightarrow> (\<exists>e \<in> set (faEdges fa). eeSource e = r \<and> calleeKey res a fa e = Some key)"
    by (force simp: map_filter_def image_iff)
  finally show ?thesis .
qed

lemma incoming_sites:
  assumes "wellFormed (ixEntries idx)" "Get a idx = Some fa"
  shows "(\<exists>rs. (a, rs) \<in> set (incomingCallSites idx res b t n) \<and> r \<in> set rs)
    \<longleftrightarrow> (\<exists>e \<in> set (faEdges fa). eeSource e = r \<and> boundTo res a e b t)"
proof -
  have at: "(a, fa') \<in> set (ixEntries idx) \<longleftrightarrow> fa' = fa" for fa'
    using assms by (auto simp: wellFormed_def Get_def dest: eq_key_imp_eq_value map_of_SomeD)
  define sites where "sites = map snd (matchingEdges res b t (a, fa))"
  have "(a, rs) \<in> set (incomingCallSites idx res b t n) \<longleftrightarrow> rs \<noteq> [] \<and> rs = sites" for rs
    unfolding incomingCallSites_def sites_def set_filter set_map image_def mem_Collect_eq Bex_def
    by (auto simp: at)
  then have "(\<exists>rs. (a, rs) \<in> set (incomingCallSites idx res b t n) \<and> r \<in> set rs) \<longleftrightarrow>
      (\<exists>rs. (rs \<noteq> [] \<and> rs = sites) \<and> r \<in> set rs)"
    by (simp only:)
  also have "\<dots> \<longleftrightarrow> r \<in> set sites" by auto
  also have "\<dots> \<longleftrightarrow> (a, r) \<in> set (matchingEdges res b t (a, fa))"
    by (force simp: sites_def matchingEdges_def)
  also have "\<dots> \<longleftrightarrow> (\<exists>e \<in> set (faEdges fa). eeSource e = r \<and> boundTo res a e b t)"
    unfolding matchingEdges_set by blast
  finally show ?thesis .
qed

lemma call_converse:
  assumes "slashedIndex idx" and "Get a idx = Some fa" and "Get b idx = Some fb"
    and "\<not> equalFold b a" and "CHR ''|'' \<notin> set b"
  shows "(\<exists>rs. (b, rs) \<in> set (outgoingCallSites (Resolve idx cfg) a fa) \<and> r \<in> set rs)
    \<longleftrightarrow> (\<exists>rs. (a, rs) \<in> set (incomingCallSites idx (Resolve idx cfg) b (faObjectType fb) name) \<and> r \<in> set rs)
        \<and> (\<exists>e \<in> set (faEdges fa). eeSource e = r \<and> callEdge e)"
proof -
  have "wellFormed (ixEntries idx)" using assms(1) by (simp add: slashedIndex_def)
  note ins = incoming_sites [OF this assms(2), of "Resolve idx cfg" b "faObjectType fb" name]
  have "boundTo res a e t k = boundTo res a e' t k" if "eeSource e = eeSource e'" for e e' res t k
    using that by (simp add: boundTo_def)
  then show ?thesis
    unfolding outgoing_sites calleeKey_external [OF assms(1,3,4,5)] ins by blast
qed

lemma outgoingCallSites_nonempty: "(key, rs) \<in> set (outgoingCallSites res a fa) \<Longrightarrow> rs \<noteq> []"
  by (auto simp: outgoingCallSites_def Let_def set_firsts filter_empty_conv)

lemma incomingCallSites_unique:
  "\<lbrakk>(a, rs1) \<in> set (incomingCallSites idx res b t n); (a, rs2) \<in> set (incomingCallSites idx res b t n);
    slashedIndex idx\<rbrakk> \<Longrightarrow> rs1 = rs2"
  by (auto simp: incomingCallSites_def slashedIndex_def wellFormed_def dest: eq_key_imp_eq_value)

text \<open>
  Calls out and calls in are converse: a statement of one file is among the calls out of it to
  another file exactly when it is among the calls into that other file and is a CALLNAT, FETCH, RUN
  or PERFORM of a literal name.
\<close>

theorem call_sites_converse:
  assumes "slashedIndex idx" and "Get a idx = Some fa" and "Get b idx = Some fb"
    and "\<not> equalFold b a" and "CHR ''|'' \<notin> set b"
  shows "(\<exists>rs. (b, rs) \<in> set (outgoingCallSites (Resolve idx cfg) a fa) \<and> r \<in> set rs)
    \<longleftrightarrow> (\<exists>rs. (a, rs) \<in> set (incomingCallSites idx (Resolve idx cfg) b (faObjectType fb) name) \<and> r \<in> set rs)
        \<and> (\<exists>e \<in> set (faEdges fa). eeSource e = r \<and> callEdge e)"
  using assms by (rule call_converse)

section \<open>The requests\<close>

lemma outgoingCall_external:
  assumes "outgoingCall ho h idx a fa content utf16 (key, rs) = Some call"
    and "chData (ccItem call) = Some d" "idPath d \<noteq> a"
  shows "rootItem ho h idx utf16 key = Some (ccItem call)" "idPath d = key" "CHR ''|'' \<notin> set key"
    "ccFromRanges call = fromRanges rs content utf16"
proof -
  show bar: "CHR ''|'' \<notin> set key"
  proof
    assume "CHR ''|'' \<in> set key"
    then show False using assms by (auto simp: outgoingCall_def)
  qed
  then show r: "rootItem ho h idx utf16 key = Some (ccItem call)" "ccFromRanges call = fromRanges rs content utf16"
    using assms(1) by (auto simp: outgoingCall_def)
  show "idPath d = key" 
  proof (rule rootItem_Some [OF r(1)])
    fix fa node content'
    assume "ccItem call = buildCallHierarchyItem ho (hcRoot h) key content' node utf16"
    then show "idPath d = key" using assms(2) by auto
  qed
qed

text \<open>
  C17. Expanding a call out of a file to another file and then the calls into that one leads back: for
  every outgoing call to another file, the incoming calls of its item, taken as the client sends it
  back, hold one from the root of the first file, with every statement of the outgoing call.
\<close>

theorem outgoing_leads_back:
  assumes idx: "hcIdx h = Some idx" "slashedIndex idx" "hcRes h = Some (Resolve idx cfg)"
    and src: "resolveItemIdentity ho idx (hcRoot h) item utf16 = Some (a, fa, s)"
    and call: "call \<in> set (provideOutgoingCalls ho h item utf16)"
    and other: "chData (ccItem call) = Some d" "\<not> equalFold (idPath d) a"
  shows "\<exists>inc \<in> set (provideIncomingCalls ho h (ccItem call) utf16).
           rootItem ho h idx utf16 a = Some (ccItem inc) \<and> set (ccFromRanges call) \<subseteq> set (ccFromRanges inc)"
proof -
  obtain node where fa: "Get a idx = Some fa" "faStructure fa = Some node" by (rule identity_indexed [OF src])
  obtain content key rs where content: "hoReadFile ho (filepathJoin (hcRoot h) a) = Some content"
    and site: "(key, rs) \<in> set (outgoingCallSites (Resolve idx cfg) a fa)"
    and out: "outgoingCall ho h idx a fa content utf16 (key, rs) = Some call"
    using call idx(1,3) src
    by (cases "hoReadFile ho (filepathJoin (hcRoot h) a)") (auto simp: provideOutgoingCalls_def map_filter_def)
  have "idPath d \<noteq> a" using other(2) by auto
  note ext = outgoingCall_external [OF out other(1) this]
  obtain fb nb cb where fb: "Get key idx = Some fb" "faStructure fb = Some nb"
    "ccItem call = buildCallHierarchyItem ho (hcRoot h) key cb nb utf16"
    by (rule rootItem_Some [OF ext(1)])
  define sites where "sites = incomingCallSites idx (Resolve idx cfg) key (faObjectType fb) (toUpper (symName nb))"
  have root: "rootItem ho h idx utf16 a = Some (buildCallHierarchyItem ho (hcRoot h) a content node utf16)"
    using fa content by (simp add: rootItem_def)
  have "\<exists>rs'. (a, rs') \<in> set sites \<and> r \<in> set rs'" if "r \<in> set rs" for r
    unfolding sites_def
    using call_converse [OF idx(2) fa(1) fb(1) other(2) [unfolded ext(2)] ext(3)] site that by blast
  moreover have "rs \<noteq> []" using site by (rule outgoingCallSites_nonempty)
  moreover have "rs1 = rs2" if "(a, rs1) \<in> set sites" "(a, rs2) \<in> set sites" for rs1 rs2
    using that idx(2) unfolding sites_def by (rule incomingCallSites_unique)
  ultimately obtain rs' where rs': "(a, rs') \<in> set sites" "set rs \<subseteq> set rs'"
    by (metis hd_in_set subsetI)
  let ?inc = "\<lparr>ccItem = buildCallHierarchyItem ho (hcRoot h) a content node utf16,
                 ccFromRanges = fromRanges rs' content utf16\<rparr>"
  have "?inc \<in> set (provideIncomingCalls ho h (ccItem call) utf16)"
    using idx rs'(1) fb root content identity_root [OF fb(1,2)]
    by (force simp: provideIncomingCalls_def sites_def incomingCall_def map_filter_def image_iff)
  then show ?thesis using root rs'(2) ext(4) by (force simp: fromRanges_def)
qed

section \<open>Examples\<close>

definition rootOf :: "string \<Rightarrow> Symbol" where
  "rootOf name = Symbol SymbolObject name zeroRange zeroRange [] [] 0 [] [] []"

definition callerFile :: FileAnalysis where
  "callerFile = zeroFileAnalysis\<lparr>faObjectType := ObjectProgram, faStructure := Some (rootOf ''A''), faEdges :=
     [\<lparr>eeSource = Range (Position 1 1) (Position 1 9), eeTarget = zeroRange, eeKind = EdgeCalls,
       eeTargetName = ''B'', eeLibrary = []\<rparr>]\<rparr>"

definition calleeFile :: FileAnalysis where
  "calleeFile = zeroFileAnalysis\<lparr>faObjectType := ObjectSubprogram, faStructure := Some (rootOf ''B'')\<rparr>"

definition callIndex :: Index where
  "callIndex = Add ''B.NSN'' calleeFile (Add ''A.NSP'' callerFile emptyIndex)"

definition callHost :: Host where
  "callHost = \<lparr>hoFsPath = drop 7, hoUriFile = append ''file://'', hoReadFile = (\<lambda>_. Some ''CALLNAT B'')\<rparr>"

definition callContext :: HandlerContext where
  "callContext = \<lparr>hcRoot = ''/w'', hcCfg = Defaults, hcStore = None, hcIdx = Some callIndex,
     hcRes = Some (Resolve callIndex (Some Defaults))\<rparr>"

definition callerItem :: CallHierarchyItem where
  "callerItem = buildCallHierarchyItem callHost ''/w'' ''A.NSP'' [] (rootOf ''A'') False"

lemma call_index:
  "slashedIndex callIndex" "Get ''A.NSP'' callIndex = Some callerFile" "Get ''B.NSN'' callIndex = Some calleeFile"
  by (code_simp, simp_all add: callIndex_def)

theorem item_identity_witness:
  "resolveItemIdentity callHost callIndex ''/w'' callerItem True = Some (''A.NSP'', callerFile, rootOf ''A'')"
  using item_identity [OF call_index(2), of "rootOf ''A''" "rootOf ''A''" callHost "''/w''" "''/w''" "[]" False True]
  by (auto simp: callerItem_def callerFile_def)

theorem call_sites_converse_witness:
  "\<exists>rs. (''B.NSN'', rs) \<in> set (outgoingCallSites (Resolve callIndex (Some Defaults)) ''A.NSP'' callerFile)
        \<and> Range (Position 1 1) (Position 1 9) \<in> set rs"
proof -
  have out: "(\<not> equalFold ''B.NSN'' ''A.NSP'') \<and> CHR ''|'' \<notin> set ''B.NSN''
      \<and> (\<exists>e \<in> set (faEdges callerFile). eeSource e = Range (Position 1 1) (Position 1 9) \<and> callEdge e)"
    by code_simp
  have "incomingCallSites callIndex (Resolve callIndex (Some Defaults)) ''B.NSN'' (faObjectType calleeFile) ''B''
      = [(''A.NSP'', [Range (Position 1 1) (Position 1 9)])]"
    by code_simp
  then show ?thesis
    using call_sites_converse [OF call_index, of "Some Defaults" "Range (Position 1 1) (Position 1 9)" "''B''"] out
    by simp
qed

theorem outgoing_leads_back_witness:
  "\<exists>call \<in> set (provideOutgoingCalls callHost callContext callerItem False).
     \<exists>inc \<in> set (provideIncomingCalls callHost callContext (ccItem call) False).
       rootItem callHost callContext callIndex False ''A.NSP'' = Some (ccItem inc)
       \<and> set (ccFromRanges call) \<subseteq> set (ccFromRanges inc)"
proof -
  have src: "resolveItemIdentity callHost callIndex (hcRoot callContext) callerItem False = Some (''A.NSP'', callerFile, rootOf ''A'')"
    unfolding callerItem_def by (rule identity_root [OF call_index(2)]) (simp add: callerFile_def)
  have "map (\<lambda>c. chData (ccItem c)) (provideOutgoingCalls callHost callContext callerItem False)
      = [Some \<lparr>idPath = ''B.NSN'', idName = ''B'', idKind = SymbolObject\<rparr>]"
    by code_simp
  then obtain call where call: "call \<in> set (provideOutgoingCalls callHost callContext callerItem False)"
      "chData (ccItem call) = Some \<lparr>idPath = ''B.NSN'', idName = ''B'', idKind = SymbolObject\<rparr>"
    by auto
  have "\<not> equalFold (idPath \<lparr>idPath = ''B.NSN'', idName = ''B'', idKind = SymbolObject\<rparr>) ''A.NSP''"
    by code_simp
  moreover have "hcIdx callContext = Some callIndex" "hcRes callContext = Some (Resolve callIndex (Some Defaults))"
    by (simp_all add: callContext_def)
  ultimately show ?thesis
    using outgoing_leads_back [OF _ call_index(1) _ src call] call(1) by blast
qed

end
