(* ===== verification/Lenses_Facts.thy ===== *)
theory Lenses_Facts
  imports Lenses References_Facts
begin

text \<open>
  Facts about lenses and links: which names a write summary has and where it leads, and which
  statements are links.
\<close>

section \<open>The write summary\<close>

definition writtenNames :: "DataAccessEntry list \<Rightarrow> string list" where
  "writtenNames as = firsts (map (\<lambda>a. toUpper (daName a)) (filter namedWrite as))"

lemma seenNames_snoc:
  "seenNames seen (as @ [a]) =
     (if namedWrite a \<and> map_of (seenNames seen as) (toUpper (daName a)) = None
      then seenNames seen as @ [(toUpper (daName a), daName a)] else seenNames seen as)"
  by (induction as arbitrary: seen) auto

lemma seenNames_keys: "map fst (seenNames [] as) = writtenNames as"
  by (induction as rule: rev_induct)
    (auto simp: seenNames_snoc writtenNames_def firsts_snoc map_of_eq_None_iff simp flip: set_map)

lemma seenNames_value: "(k, n) \<in> set (seenNames [] as) \<Longrightarrow> k = toUpper n \<and> (\<exists>a \<in> set as. namedWrite a \<and> daName a = n)"
  by (induction as rule: rev_induct) (auto simp: seenNames_snoc split: if_splits)

text \<open>The first site of each name that is wanted, in the order of the entries.\<close>

lemma writeSites_names:
  assumes "distinct (map fst seen)"
  shows "length (writeSites u content utf16 seen as)
    = card (set (map fst seen) \<inter> set (writtenNames as))"
  using assms
proof (induction as arbitrary: seen)
  case Nil
  then show ?case by (simp add: writtenNames_def)
next
  case (Cons a as)
  let ?k = "toUpper (daName a)"
  have w: "set (writtenNames (a # as)) = (if namedWrite a then insert ?k (set (writtenNames as)) else set (writtenNames as))"
    by (simp add: writtenNames_def)
  show ?case
  proof (cases "\<not> namedWrite a \<or> map_of seen ?k = None")
    case True
    then show ?thesis
      using Cons w by (auto simp: map_of_eq_None_iff)
  next
    case False
    let ?seen = "filter (\<lambda>(k, _). k \<noteq> ?k) seen"
    have keys: "set (map fst ?seen) = set (map fst seen) - {?k}" by force
    have "distinct (map fst ?seen)" using Cons.prems by (simp add: distinct_map_filter)
    moreover have "?k \<in> set (map fst seen)" using False by (simp add: map_of_eq_None_iff)
    then have "set (map fst seen) \<inter> insert ?k (set (writtenNames as))
        = insert ?k (set (map fst ?seen) \<inter> set (writtenNames as))"
      unfolding keys by auto
    moreover have "length (writeSites u content utf16 seen (a # as)) = Suc (length (writeSites u content utf16 ?seen as))"
      using False by (auto simp: Let_def)
    moreover have "?k \<notin> set (map fst ?seen) \<inter> set (writtenNames as)" by auto
    ultimately show ?thesis
      using Cons.IH [of ?seen] False by (simp add: w card_insert_disjoint del: set_map set_filter)
  qed
qed

text \<open>
  The write summary of an object stands exactly when some write names a file. Its names are
  sorted, are the files written, each once whatever the case it is spelt in, and it leads to one
  statement for each of them.
\<close>

theorem buildWriteSummaryLens_exact:
  "case buildWriteSummaryLens as root u content utf16 of
     None \<Rightarrow> filter namedWrite as = []
   | Some l \<Rightarrow>
       \<exists>names. clTitle l = ''Writes: '' @ joinStrings names '', '' \<and> sorted names
         \<and> mset (map toUpper names) = mset (writtenNames as)
         \<and> set names \<subseteq> daName ` set (filter namedWrite as)
         \<and> length (clLocations l) = length names"
proof (cases "filter namedWrite as = []")
  case True
  then have "seenNames [] as = []" using seenNames_keys [of as] by (simp add: writtenNames_def)
  then show ?thesis using True by (simp add: buildWriteSummaryLens_def)
next
  case False
  let ?seen = "seenNames [] as"
  have keys: "map (toUpper \<circ> snd) ?seen = writtenNames as"
    unfolding seenNames_keys [symmetric] using seenNames_value [of _ _ as] by force
  have "writtenNames as \<noteq> []" using False by (simp add: writtenNames_def)
  then have "?seen \<noteq> []" using seenNames_keys [of as] by force
  moreover have "mset (map toUpper (sort (map snd ?seen))) = mset (writtenNames as)"
    using keys by (metis map_map mset_map mset_sort)
  moreover have "set (map snd ?seen) \<subseteq> daName ` set (filter namedWrite as)"
    using seenNames_value [of _ _ as] by force
  moreover have "distinct (map fst ?seen)" by (simp add: seenNames_keys writtenNames_def)
  then have "length (writeSites u content utf16 ?seen as) = length ?seen"
    unfolding writeSites_names [OF \<open>distinct (map fst ?seen)\<close>] seenNames_keys
    by (metis Int_absorb distinct_card length_map seenNames_keys)
  ultimately show ?thesis
    by (simp add: buildWriteSummaryLens_def showReferences_def Let_def)
      (intro exI [of _ "sort (map snd ?seen)"], simp)
qed

section \<open>Links\<close>

text \<open>
  The links of a document are in the order of their statements and are exactly the statements
  bound to a file other than the document's own, each with that file as its target.
\<close>

theorem buildDocumentLinks_exact:
  "set (buildDocumentLinks ho fa res relPath root content utf16) =
     {\<lparr>dlRange = toProtocolRange (eeSource e) content utf16, dlTarget = hoUriFile ho (filepathJoin root path)\<rparr> |
        e path t. e \<in> set (faEdges fa) \<and> resGet (Some res) relPath (eeSource e) = Some (Resolved path t)
                  \<and> NormalizeKey path \<noteq> relPath}
   \<and> sorted (map (\<lambda>l. startKey (dlRange l)) (buildDocumentLinks ho fa res relPath root content utf16))"
proof -
  have link: "documentLink ho res relPath root content utf16 e = Some l \<longleftrightarrow>
      (\<exists>path t. resGet (Some res) relPath (eeSource e) = Some (Resolved path t) \<and> NormalizeKey path \<noteq> relPath
        \<and> l = \<lparr>dlRange = toProtocolRange (eeSource e) content utf16, dlTarget = hoUriFile ho (filepathJoin root path)\<rparr>)" for e l
    by (auto simp: documentLink_def split: option.splits Resolution.Resolution.splits)
  have "l \<in> set (buildDocumentLinks ho fa res relPath root content utf16) \<longleftrightarrow>
      (\<exists>e \<in> set (faEdges fa). documentLink ho res relPath root content utf16 e = Some l)" for l
    by (force simp: buildDocumentLinks_def map_filter_def image_iff)
  then have "set (buildDocumentLinks ho fa res relPath root content utf16) =
      {l. \<exists>e \<in> set (faEdges fa). documentLink ho res relPath root content utf16 e = Some l}"
    by blast
  then show ?thesis unfolding link by (simp add: buildDocumentLinks_def) blast
qed

end
