(* ===== verification/Handlers_Facts.thy ===== *)
theory Handlers_Facts
  imports Session_Facts Dispatch_Facts
begin

text \<open>
  The server as a whole: requests do not disturb each other or the shared state, and in a session that
  has been initialized every request that decodes is answered with a result.
\<close>

section \<open>Independence\<close>

definition handlersOf :: "Server \<Rightarrow> (string \<times> string) list \<Rightarrow> (HandlerContext \<Rightarrow> CaseResult \<times> HandlerContext) list" where
  "handlersOf sv requests = map (\<lambda>(method, params). requestCase sv method params) requests"

text \<open>
  C11. In a session, the answer to each request of a batch is the one it would get alone, and the batch
  leaves the documents, the configuration, the resolution and the files of the index as they were.
\<close>

theorem requests_independent:
  assumes "sessionReachable fsPath az (h, ph)"
    and "serially (handlersOf sv requests) h = (answers, h')"
  shows "answers = map (\<lambda>(method, params). fst (requestCase sv method params h)) requests \<and>
     hcRoot h' = hcRoot h \<and> hcCfg h' = hcCfg h \<and> hcStore h' = hcStore h \<and> hcRes h' = hcRes h \<and>
     map_option ixEntries (hcIdx h') = map_option ixEntries (hcIdx h) \<and>
     map_option ixLineWidths (hcIdx h') = map_option ixLineWidths (hcIdx h)"
proof -
  have "\<forall>f\<in>set (handlersOf sv requests). readsOnly sameContext f"
    by (auto simp: handlersOf_def requestCase_reads)
  from contexts.later [OF this sameContext_refl, of h] resolvedNow_indexOK reachable_resolved [OF assms(1)]
  have "sameContext h h'" "answers = map (\<lambda>f. fst (f h)) (handlersOf sv requests)"
    using assms(2) by auto
  then show ?thesis
    by (auto simp: sameContext_def handlersOf_def option.map_comp comp_def case_prod_beta)
qed

section \<open>Results\<close>

definition resultful :: "ProviderResult \<Rightarrow> bool" where
  "resultful r \<longleftrightarrow> (case r of ProviderNil \<Rightarrow> True | ProviderJSON _ \<Rightarrow> True | _ \<Rightarrow> False)"

text \<open>The encoder gives a text for every reply.\<close>

definition encodes :: "Server \<Rightarrow> bool" where
  "encodes sv \<longleftrightarrow> (\<forall>r. case wiMarshal (svWire sv) r of Inl _ \<Rightarrow> False | Inr _ \<Rightarrow> True)"

text \<open>A property of results that holds whenever it holds of what the encoder answers.\<close>

definition ofEncoded :: "(ProviderResult \<Rightarrow> bool) \<Rightarrow> Server \<Rightarrow> bool" where
  "ofEncoded Q sv \<longleftrightarrow>
     Q ProviderNil \<and> (\<forall>noun r. Q (encoded sv noun r)) \<and> (\<forall>part e. Q (MarshalFailed part e) \<longrightarrow> Q (MarshalFailed None e))"

lemma resultful_ofEncoded: "encodes sv \<Longrightarrow> ofEncoded resultful sv"
  by (auto simp: ofEncoded_def encodes_def encoded_def resultful_def split: sum.splits dest: spec)

lemma replies_ofEncoded:
  assumes "ofEncoded Q sv"
  shows "Q (encoded sv noun r)" "Q (listResult sv noun reply xs)" "Q (optionResult sv noun reply' x)"
    "Q (case optionResult sv noun reply' x of MarshalFailed part e \<Rightarrow> MarshalFailed None e | r \<Rightarrow> r)"
  using assms
  by (auto simp: ofEncoded_def listResult_def optionResult_def split: option.split ProviderResult.splits)
    (metis assms ofEncoded_def)+

lemma handled_Q:
  "fst (handled what decoded provider h) = Answered r \<Longrightarrow> (\<And>p. Q (fst (provider p))) \<Longrightarrow> Q r"
  by (cases decoded) (auto simp: handled_def case_prod_beta)

definition branchResults ::
  "(ProviderResult \<Rightarrow> bool) \<Rightarrow> Server \<Rightarrow> HandlerContext
     \<Rightarrow> (Server \<Rightarrow> string \<Rightarrow> HandlerContext \<Rightarrow> CaseResult \<times> HandlerContext) \<Rightarrow> bool" where
  "branchResults Q sv h branch \<longleftrightarrow> (\<forall>params r. fst (branch sv params h) = Answered r \<longrightarrow> Q r)"

text \<open>Only the outline needs the document store.\<close>

definition outlinePanic :: ProviderResult where
  "outlinePanic = ProviderPanic ''runtime error: invalid memory address or nil pointer dereference''"

lemma outline_cases:
  obtains ds h' where "provideDocumentSymbols ho h u utf16 = (Outline ds, h')"
  | h' where "hcStore h = None" "provideDocumentSymbols ho h u utf16 = (NilStorePanic, h')"
proof -
  have "(\<exists>ds h'. provideDocumentSymbols ho h u utf16 = (Outline ds, h')) \<or>
      hcStore h = None \<and> (\<exists>h'. provideDocumentSymbols ho h u utf16 = (NilStorePanic, h'))"
    by (auto simp: provideDocumentSymbols_def case_prod_beta split: option.split)
  then show ?thesis using that by blast
qed

lemma handled_branch:
  "branch sv params h = handled what decoded provider h \<Longrightarrow> (\<And>p. Q (fst (provider p))) \<Longrightarrow>
   fst (branch sv params h) = Answered r \<Longrightarrow> Q r"
  using handled_Q by metis

lemma branches_results:
  assumes "ofEncoded Q sv" and "hcStore h \<noteq> None \<or> Q outlinePanic"
  shows "list_all (branchResults Q sv h) (map snd branches)"
proof -
  note results = replies_ofEncoded [OF assms(1)]
  have "branchResults Q sv h definitionRequest" "branchResults Q sv h declarationRequest"
    "branchResults Q sv h typeDefinitionRequest" "branchResults Q sv h referencesRequest"
    "branchResults Q sv h highlightRequest" "branchResults Q sv h workspaceSymbolRequest"
    "branchResults Q sv h hoverRequest" "branchResults Q sv h codeLensRequest" "branchResults Q sv h documentLinkRequest"
    "branchResults Q sv h completionRequest" "branchResults Q sv h signatureHelpRequest"
    "branchResults Q sv h prepareRequest" "branchResults Q sv h incomingRequest" "branchResults Q sv h outgoingRequest"
    "branchResults Q sv h tokensFullRequest" "branchResults Q sv h tokensRangeRequest"
    "branchResults Q sv h workspaceDiagnosticRequest"
    unfolding branchResults_def
    by (intro allI impI, erule handled_branch [rotated 2],
        rule definitionRequest_def declarationRequest_def typeDefinitionRequest_def referencesRequest_def
          highlightRequest_def workspaceSymbolRequest_def hoverRequest_def codeLensRequest_def documentLinkRequest_def
          completionRequest_def signatureHelpRequest_def prepareRequest_def incomingRequest_def outgoingRequest_def
          tokensFullRequest_def tokensRangeRequest_def workspaceDiagnosticRequest_def,
        simp add: case_prod_beta results)+
  moreover have "branchResults Q sv h documentSymbolRequest"
  proof -
    have r: "Q (fst (case provideDocumentSymbols (svHost sv) h u (svUtf16 sv) of
        (Outline docSymbols, h') \<Rightarrow> (listResult sv ''document symbols'' OutlineReply docSymbols, h')
      | (NilStorePanic, h') \<Rightarrow> (ProviderPanic ''runtime error: invalid memory address or nil pointer dereference'', h')))" for u
      by (rule outline_cases [of "svHost sv" h u "svUtf16 sv"]) (use assms(2) in \<open>simp_all add: results outlinePanic_def\<close>)
    show ?thesis
      unfolding branchResults_def documentSymbolRequest_def
      by (intro allI impI, erule handled_Q, rule r)
  qed
  moreover have "branchResults Q sv h diagnosticRequest"
    unfolding branchResults_def
  proof (intro allI impI)
    fix params r assume a: "fst (diagnosticRequest sv params h) = Answered r"
    show "Q r"
    proof (cases "wiDocument (svWire sv) ''textDocument/diagnostic'' params")
      case (Inr u)
      with a show ?thesis
        by (cases u) (auto simp: diagnosticRequest_def handled_def results)
    qed (use a in \<open>simp add: diagnosticRequest_def handled_def\<close>)
  qed
  ultimately show ?thesis unfolding branches_def by simp
qed

lemma requestCase_results:
  assumes "ofEncoded Q sv" and "hcStore h \<noteq> None \<or> Q outlinePanic" and "fst (requestCase sv method params h) = Answered r"
  shows "Q r"
proof (cases "map_of branches method")
  case None
  with assms(1,3) show ?thesis by (auto simp: requestCase_def ofEncoded_def)
next
  case (Some branch)
  then have "branch \<in> set (map snd branches)" by (force dest: map_of_SomeD)
  with branches_results [OF assms(1,2)] have "branchResults Q sv h branch" by (simp only: list_all_iff)
  with assms(3) Some show ?thesis by (simp add: requestCase_def branchResults_def)
qed

text \<open>The methods of the branches are those the dispatch has an empty result for.\<close>

lemma branches_methods: "map_of branches method \<noteq> None \<longleftrightarrow> emptyResult method \<noteq> None"
  by (auto simp: branches_def emptyResult_def)

text \<open>
  C10. In a session that has been initialized, a request of a known method whose parameters decode is
  answered with one result and no error, as long as results can be encoded.
\<close>

theorem requests_answered:
  assumes "sessionReachable fsPath az (h, ph)" and "encodes sv"
    and "fst (requestCase sv (callMethod c) (callParams c) h) = Answered r"
    and "emptyResult (callMethod c) \<noteq> None"
  shows "\<exists>json. snd (serveRequest sv start (stateInitialized, h) c) = [ResultResponse (callID c) json]"
proof -
  have store: "hcStore h \<noteq> None" using reachable_storeOK [OF assms(1)] by (auto simp: storeOK_def split: option.splits)
  obtain e where e: "emptyResult (callMethod c) = Some e" using assms(4) by blast
  then have m: "callMethod c \<noteq> ''initialize''" "callMethod c \<noteq> ''shutdown''" "callMethod c \<noteq> ''test/panic''"
    by (auto simp: emptyResult_def)
  have uri: "\<not> (callMethod c = ''textDocument/diagnostic'' \<and> fst (diagnosticRequest sv (callParams c) h) = NoURI)"
    using assms(3) by (auto simp: requestCase_def branches_def)
  have "resultful r" using requestCase_results [OF resultful_ofEncoded [OF assms(2)] _ assms(3)] store by blast
  with m uri show ?thesis
    by (cases r) (auto simp: serveRequest_def serverBackend_def serveCall_def dispatchCall_def providerCall_def e
        assms(3) resultful_def)
qed

section \<open>An example\<close>

definition sampleWire :: Wire where
  "sampleWire = \<lparr>wiPosition = (\<lambda>_ p. Inr (p, \<lparr>ppLine = 0, ppCharacter = 0\<rparr>)), wiReference = (\<lambda>p. Inr (p, \<lparr>ppLine = 0, ppCharacter = 0\<rparr>, True)),
     wiQuery = Inr, wiDocument = (\<lambda>_. Inr), wiRange = (\<lambda>_. Inl ''no range''), wiItem = (\<lambda>_ _. Inl ''no item''),
     wiWorkspace = (\<lambda>_. Inr None), wiMarshal = (\<lambda>_. Inr ''json'')\<rparr>"

definition sampleServer :: Server where
  "sampleServer = \<lparr>svHost = \<lparr>hoFsPath = samplePath, hoUriFile = id, hoReadFile = (\<lambda>_. None)\<rparr>,
     svRefs = (\<lambda>_. []), svUtf16 = True, svWire = sampleWire\<rparr>"

theorem requests_independent_witness:
  "\<exists>answers h'. serially (handlersOf sampleServer [(''textDocument/completion'', ''file:///ws/A.NSN''), (''workspace/symbol'', ''A'')])
       sampleOpened = (answers, h') \<and>
     answers ! 1 = fst (requestCase sampleServer ''workspace/symbol'' ''A'' sampleOpened) \<and>
     hcStore h' = hcStore sampleOpened"
proof -
  obtain answers h' where run: "serially (handlersOf sampleServer
      [(''textDocument/completion'', ''file:///ws/A.NSN''), (''workspace/symbol'', ''A'')]) sampleOpened = (answers, h')"
    by fastforce
  from requests_independent [OF sampleOpened_reachable run] run show ?thesis by auto
qed

theorem requests_answered_witness:
  "\<exists>json. snd (serveRequest sampleServer sampleBackend (stateInitialized, sampleOpened)
      \<lparr>callID = ''1'', callMethod = ''workspace/symbol'', callParams = ''A''\<rparr>) = [ResultResponse ''1'' json]"
proof -
  let ?c = "\<lparr>callID = ''1'', callMethod = ''workspace/symbol'', callParams = ''A''\<rparr>"
  have enc: "encodes sampleServer" by (simp add: encodes_def sampleServer_def sampleWire_def)
  have "\<exists>r. fst (requestCase sampleServer (callMethod ?c) (callParams ?c) sampleOpened) = Answered r"
    by (simp add: requestCase_def branches_def workspaceSymbolRequest_def handled_def sampleServer_def sampleWire_def)
  then obtain r where r: "fst (requestCase sampleServer (callMethod ?c) (callParams ?c) sampleOpened) = Answered r" ..
  show ?thesis
    using requests_answered [OF sampleOpened_reachable enc r, of sampleBackend] by (simp add: emptyResult_def)
qed

end
