(* ===== verification/Notices.thy ===== *)
theory Notices
  imports Dispatch Diagnostics
begin

text \<open>
  What the server sends without being asked: the notifications and requests of \<open>server.go\<close>,
  \<open>progress.go\<close> and \<open>messagelog.go\<close>. A failure to encode or to write one is logged and nothing else, so
  the sequence of what is sent is the output here. The counts of files are far below the width of
  Go's integers.
\<close>

datatype MessageLevel = LevelError | LevelWarning | LevelInfo

datatype Notice =
    CreateProgress string
  | BeginProgress string string
  | ReportProgress string string "uint32 option"
  | EndProgress string "string option"
  | LogMessage MessageLevel string
  | ShowMessage MessageLevel string
  | LogTrace string "string option"
  | RegisterWatchers "string list"
  | PublishDiagnostics string "ProtocolDiagnostic list" "uint32 option"
  | RefreshDiagnostics

section \<open>Progress\<close>

record progressReporter =
  prToken :: string
  prEnabled :: bool

definition progressCreate :: "progressReporter \<Rightarrow> Notice list" where
  "progressCreate pr = (if \<not> prEnabled pr then [] else [CreateProgress (prToken pr)])"

definition progressBegin :: "progressReporter \<Rightarrow> string \<Rightarrow> Notice list" where
  "progressBegin pr title = (if \<not> prEnabled pr then [] else [BeginProgress (prToken pr) title])"

definition reportPercentage :: "int \<Rightarrow> int \<Rightarrow> uint32 option" where
  "reportPercentage current fileCount =
     (if fileCount > 0
      then let percentage = word_of_int ((current * 100 + fileCount div 2) div fileCount)
           in Some (if percentage > 100 then 100 else percentage)
      else None)"

definition progressReport :: "progressReporter \<Rightarrow> int \<Rightarrow> int \<Rightarrow> Notice list" where
  "progressReport pr current fileCount =
     (if \<not> prEnabled pr then []
      else [ReportProgress (prToken pr) (itoa current @ ''/'' @ itoa fileCount @ '' files'') (reportPercentage current fileCount)])"

definition progressEnd :: "progressReporter \<Rightarrow> string \<Rightarrow> Notice list" where
  "progressEnd pr message =
     (if \<not> prEnabled pr then []
      else [EndProgress (prToken pr) (if message \<noteq> [] then Some message else None)])"

text \<open>The callback of the scan: the file, its number and the number of files, until the build is cancelled.\<close>

fun progressCalls :: "(nat \<Rightarrow> bool) \<Rightarrow> nat \<Rightarrow> nat \<Rightarrow> string list \<Rightarrow> (string \<times> nat \<times> nat) list" where
  "progressCalls cancelled totalFiles i [] = []"
| "progressCalls cancelled totalFiles i (f # fs) =
     (if cancelled i then []
      else (NormalizeKey f, i + 1, totalFiles) # progressCalls cancelled totalFiles (i + 1) fs)"

definition scanReports :: "progressReporter \<Rightarrow> (nat \<Rightarrow> bool) \<Rightarrow> string list \<Rightarrow> Notice list" where
  "scanReports pr cancelled files =
     concat (map (\<lambda>(_, current, n). progressReport pr (int current) (int n))
       (progressCalls cancelled (length files) 0 files))"

text \<open>
  Around the report on the workspace, when the request carries a token and the client takes progress.
  The report itself is made between begin and end, and making it does not fail.
\<close>

definition workspaceDiagnosticProgress :: "Negotiation \<Rightarrow> string option \<Rightarrow> Notice list" where
  "workspaceDiagnosticProgress n token =
     (case token of
        None \<Rightarrow> []
      | Some t \<Rightarrow>
          if \<not> ngWorkDoneProgress n then []
          else let pr = \<lparr>prToken = t, prEnabled = True\<rparr>
               in progressCreate pr @ progressBegin pr ''Workspace diagnostic scan'' @ progressEnd pr [])"

section \<open>Messages of the build\<close>

definition skipReasonText :: "SkipReason \<Rightarrow> string" where
  "skipReasonText r =
     (case r of SkipExcluded \<Rightarrow> ''excluded'' | SkipTooLarge \<Rightarrow> ''too_large'' | SkipUnreadable \<Rightarrow> ''unreadable''
      | SkipAnalyzerPanic \<Rightarrow> ''analyzer_panic'')"

definition formatSkipSummary :: "SkipRecord list \<Rightarrow> string" where
  "formatSkipSummary skips =
     (let names = map (skipReasonText \<circ> srReason) skips;
          reasons = sort (remdups names)
      in itoa (int (length skips)) @ '' file(s) skipped: '' @
         joinStrings (map (\<lambda>r. r @ ''='' @ itoa (int (count_list names r))) reasons) '', '')"

definition countAmbiguousReferences :: "ResolutionSet option \<Rightarrow> nat" where
  "countAmbiguousReferences res =
     (case res of
        None \<Rightarrow> 0
      | Some rs \<Rightarrow> card {k. \<exists>r. rsEntries rs k = Some r \<and> IsAmbiguous r})"

definition buildLog :: "string \<Rightarrow> bool \<Rightarrow> Config \<Rightarrow> BuildError + Built \<Rightarrow> Notice list" where
  "buildLog root cacheWasPresent cfg outcome =
     (case outcome of
        Inl _ \<Rightarrow> []
      | Inr b \<Rightarrow>
          let skips = Skips (btIndex b); n = countAmbiguousReferences (Some (Resolve (btIndex b) (Some cfg)))
          in [LogMessage LevelInfo (''workspace index built: '' @ itoa (int (btTotalFiles b)) @ '' file(s) indexed, ''
                @ itoa (int (btStaleCount b)) @ '' re-analyzed ('' @
                (if cacheWasPresent then ''warm cache hit'' else ''rebuild'') @ '')'')]
             @ (if skips \<noteq> [] then [LogMessage LevelWarning (formatSkipSummary skips)] else [])
             @ (if n > 0 then [LogMessage LevelWarning (itoa (int n) @ '' ambiguous reference(s) '' @
                  [CHR 0xE2, CHR 0x80, CHR 0x94] @ '' a name matched more than one object'')] else []))"

definition buildIndexNotices ::
  "progressReporter \<Rightarrow> string \<Rightarrow> bool \<Rightarrow> Config \<Rightarrow> (nat \<Rightarrow> bool) \<Rightarrow> string list \<Rightarrow> BuildError + Built \<Rightarrow> Notice list" where
  "buildIndexNotices pr root cacheWasPresent cfg cancelled files outcome =
     LogMessage LevelInfo (''building workspace index for '' @ root) #
     scanReports pr cancelled files @ buildLog root cacheWasPresent cfg outcome"

definition reportNoUsableRoot :: "rootProbe \<Rightarrow> Index option \<Rightarrow> Notice list" where
  "reportNoUsableRoot probe idx =
     (let fileCount = (case idx of None \<Rightarrow> 0 | Some idx \<Rightarrow> length (Keys idx))
      in case noUsableRootMessage probe fileCount of
           None \<Rightarrow> [] | Some msg \<Rightarrow> [ShowMessage LevelWarning msg])"

definition sendDiagnosticRefresh :: "Negotiation \<Rightarrow> Notice list" where
  "sendDiagnosticRefresh n = (if sendsRefresh n then [RefreshDiagnostics] else [])"

text \<open>
  The background build from start to end, when nothing comes between its steps; the context may be
  cancelled while it runs, and then nothing is published.
\<close>

definition backgroundBuild ::
  "(string \<Rightarrow> string) \<Rightarrow> Negotiation \<Rightarrow> rootProbe \<Rightarrow> bool \<Rightarrow> (nat \<Rightarrow> bool) \<Rightarrow> bool \<Rightarrow> string list
    \<Rightarrow> BuildError + Built \<Rightarrow> HandlerContext \<Rightarrow> HandlerContext \<times> Notice list" where
  "backgroundBuild fsPath n probe cacheWasPresent cancelled stopped files outcome h =
     (let pr = \<lparr>prToken = ''natural-lsp-index'', prEnabled = ngWorkDoneProgress n\<rparr>;
          before = progressCreate pr @ progressBegin pr ''Indexing Natural workspace'' @
            buildIndexNotices pr (hcRoot h) cacheWasPresent (hcCfg h) cancelled files outcome
      in if stopped then (h, before)
         else let h1 = publishIndex (buildIndex (hcCfg h) outcome) h;
                  h2 = replayMerge (replaySnapshot fsPath h1) h1
              in (h2, before @ sendDiagnosticRefresh n @ progressEnd pr ''Indexing complete'' @
                      reportNoUsableRoot probe (hcIdx h2)))"

section \<open>Registration\<close>

definition buildWatchedFilesRegisterOptions :: "string list \<Rightarrow> string list" where
  "buildWatchedFilesRegisterOptions extensions = map (\<lambda>ext. ''**/*'' @ ext) extensions"

text \<open>What the notification \<open>initialized\<close> sends itself; the build runs beside it.\<close>

definition initializedNotices :: "Negotiation \<Rightarrow> Config \<Rightarrow> Lifecycle \<Rightarrow> Notice list" where
  "initializedNotices n cfg state =
     (if state = statePreInit \<and> ngWatchedFilesReg n
      then [RegisterWatchers (buildWatchedFilesRegisterOptions (Extensions (cfgWorkspace cfg)))] else [])"

section \<open>Documents and files\<close>

text \<open>\<open>None\<close> is the panic of the push path; it ends the handling of the notification.\<close>

definition publishDiag :: "Negotiation \<Rightarrow> Host \<Rightarrow> HandlerContext \<Rightarrow> string \<Rightarrow> bool \<Rightarrow> Notice list option" where
  "publishDiag n ho h u utf16 =
     (if ngPullDiagnostics n then Some []
      else case publishFileDiagnostics ho h u utf16 of
             Diagnostics.Published ds v \<Rightarrow> Some [PublishDiagnostics u ds v]
           | NilIndexPanic \<Rightarrow> None)"

definition clearDiagnostics :: "Negotiation \<Rightarrow> string \<Rightarrow> Notice list" where
  "clearDiagnostics n u = (if \<not> ngPullDiagnostics n then [PublishDiagnostics u [] None] else [])"

definition onOpen ::
  "Negotiation \<Rightarrow> Host \<Rightarrow> bool \<Rightarrow> string \<Rightarrow> int \<Rightarrow> string \<Rightarrow> HandlerContext \<Rightarrow> HandlerContext \<times> Notice list" where
  "onOpen n ho utf16 u version content h =
     (let h' = didOpen (hoFsPath ho) u version content h
      in (h', case publishDiag n ho h' u utf16 of None \<Rightarrow> [] | Some sent \<Rightarrow> sent))"

fun onChange ::
  "Negotiation \<Rightarrow> Host \<Rightarrow> bool \<Rightarrow> (string \<Rightarrow> string \<Rightarrow> Outcome) \<Rightarrow> string \<Rightarrow> int \<Rightarrow> ContentChange list \<Rightarrow> HandlerContext
    \<Rightarrow> HandlerContext \<times> Notice list" where
  "onChange n ho utf16 az u version [] h = (h, [])"
| "onChange n ho utf16 az u version (change # changes) h =
     (let h' = changeStep (hoFsPath ho) az u version h change
      in if change = PartialChange \<or> filepathRel (hcRoot h) (hoFsPath ho u) = None
         then onChange n ho utf16 az u version changes h'
         else case publishDiag n ho h' u utf16 of
                None \<Rightarrow> (h', [])
              | Some sent \<Rightarrow>
                  (case onChange n ho utf16 az u version changes h' of
                     (h'', later) \<Rightarrow> (h'', sent @ sendDiagnosticRefresh n @ later)))"

definition onClose :: "Negotiation \<Rightarrow> string \<Rightarrow> HandlerContext \<Rightarrow> HandlerContext \<times> Notice list" where
  "onClose n u h = (didClose u h, clearDiagnostics n u)"

text \<open>The events of one notification; the second part says whether all of them were handled.\<close>

fun watchedEvents ::
  "Negotiation \<Rightarrow> Host \<Rightarrow> bool \<Rightarrow> (string \<Rightarrow> string \<Rightarrow> Outcome) \<Rightarrow> FileEvent list \<Rightarrow> HandlerContext
    \<Rightarrow> HandlerContext \<times> bool \<times> Notice list" where
  "watchedEvents n ho utf16 az [] h = (h, True, [])"
| "watchedEvents n ho utf16 az (event # events) h =
     (let h' = watchedStep (hoFsPath ho) az h event;
          sent = (if filepathRel (hcRoot h) (hoFsPath ho (feURI event)) = None then Some []
                  else if feDeleted event then Some (clearDiagnostics n (feURI event))
                  else if feContent event = None then Some []
                  else publishDiag n ho h' (feURI event) utf16)
      in case sent of
           None \<Rightarrow> (h', False, [])
         | Some notices \<Rightarrow>
             (case watchedEvents n ho utf16 az events h' of
                (h'', complete, later) \<Rightarrow> (h'', complete, notices @ later)))"

definition onWatchedFiles ::
  "Negotiation \<Rightarrow> Host \<Rightarrow> bool \<Rightarrow> (string \<Rightarrow> string \<Rightarrow> Outcome) \<Rightarrow> FileEvent list \<Rightarrow> HandlerContext
    \<Rightarrow> HandlerContext \<times> Notice list" where
  "onWatchedFiles n ho utf16 az events h =
     (case watchedEvents n ho utf16 az events h of
        (h', complete, sent) \<Rightarrow> (h', sent @ (if complete then sendDiagnosticRefresh n else [])))"

section \<open>Traces\<close>

text \<open>The trace of a request, by the level in force after it was handled.\<close>

definition requestTrace :: "string \<Rightarrow> string \<Rightarrow> string \<Rightarrow> Call \<Rightarrow> Notice list" where
  "requestTrace level idText elapsed c =
     (if callMethod c \<noteq> ''$/logTrace'' \<and> level \<noteq> ''off''
      then [LogTrace (''[Trace] Received request '' @ [CHR 0x27] @ callMethod c @ '' - ('' @ idText @ '')'' @ [CHR 0x27] @
               '' in '' @ elapsed)
             (if level = ''verbose'' then Some (traceSummary (callParams c)) else None)]
      else [])"

end
