(* ===== verification/Notices_Facts.thy ===== *)
theory Notices_Facts
  imports Notices Session_Facts
begin

text \<open>
  Facts about what the server sends unasked: the progress of a build rises to one hundred percent, the
  notifications handled here change the state as \<open>Session\<close> says even when publishing panics, push and
  pull never mix, and the last diagnostics pushed after an edit are those of the state it leads to.
\<close>

section \<open>Progress\<close>

definition rounded :: "nat \<Rightarrow> nat \<Rightarrow> nat" where
  "rounded n i = (i * 100 + n div 2) div n"

lemma rounded_mono: "i \<le> j \<Longrightarrow> rounded n i \<le> rounded n j"
  unfolding rounded_def by (intro div_le_mono) simp

lemma rounded_all: "0 < n \<Longrightarrow> rounded n n = 100"
  unfolding rounded_def by (simp add: mult.commute [of n])

lemma rounded_le: "i \<le> n \<Longrightarrow> 0 < n \<Longrightarrow> rounded n i \<le> 100"
  using rounded_mono [of i n n] rounded_all [of n] by simp

lemma reportPercentage_rounded:
  assumes "i \<le> n" "Suc 0 \<le> i"
  shows "reportPercentage (int i) (int n) = Some (of_nat (rounded n i))"
proof -
  have pos: "0 < n" using assms by simp
  have eq: "(int i * 100 + int n div 2) div int n = int (rounded n i)"
    by (simp add: rounded_def zdiv_int)
  have "unat (of_nat (rounded n i) :: uint32) = rounded n i"
    using rounded_le [OF assms(1) pos] by (simp add: unat_of_nat)
  then have "\<not> (100 :: uint32) < of_nat (rounded n i)"
    using rounded_le [OF assms(1) pos] by (simp add: word_less_nat_alt)
  with pos show ?thesis by (simp add: reportPercentage_def eq Let_def)
qed

definition reportOf :: "string \<Rightarrow> nat \<Rightarrow> nat \<Rightarrow> Notice" where
  "reportOf token n i =
     ReportProgress token (itoa (int i) @ ''/'' @ itoa (int n) @ '' files'') (Some (of_nat (rounded n i)))"

lemma progressCalls_counts:
  "\<exists>k \<le> i + length files. i \<le> k \<and> map snd (progressCalls cancelled n i files) = map (\<lambda>j. (j, n)) [i + 1..<k + 1] \<and>
     ((\<forall>j. \<not> cancelled j) \<longrightarrow> k = i + length files)"
proof (induction files arbitrary: i)
  case Nil
  show ?case by (intro exI [of _ i]) simp
next
  case (Cons f fs)
  show ?case
  proof (cases "cancelled i")
    case False
    obtain k where "k \<le> i + 1 + length fs" "i + 1 \<le> k"
      "map snd (progressCalls cancelled n (i + 1) fs) = map (\<lambda>j. (j, n)) [i + 1 + 1..<k + 1]"
      "(\<forall>j. \<not> cancelled j) \<longrightarrow> k = i + 1 + length fs"
      using Cons.IH [of "i + 1"] by blast
    with False show ?thesis by (intro exI [of _ k]) (simp add: upt_conv_Cons)
  qed (intro exI [of _ i], auto)
qed

text \<open>
  C26. A client that takes progress gets, file after file, the number of files reached and its share
  of all files, rounded; the shares never fall and never exceed a hundred, and unless the build is
  cancelled the last one is a hundred.
\<close>

theorem scanReports_rise:
  assumes "prEnabled pr"
  shows "\<exists>k \<le> length files.
     scanReports pr cancelled files = map (reportOf (prToken pr) (length files)) [1..<k + 1] \<and>
     sorted (map (rounded (length files)) [1..<k + 1]) \<and>
     (\<forall>i \<in> {1..k}. rounded (length files) i \<le> 100) \<and>
     ((\<forall>j. \<not> cancelled j) \<longrightarrow> k = length files \<and> (files \<noteq> [] \<longrightarrow> rounded (length files) k = 100))"
proof -
  let ?n = "length files"
  obtain k where k: "k \<le> ?n" "map snd (progressCalls cancelled ?n 0 files) = map (\<lambda>j. (j, ?n)) [1..<k + 1]"
    "(\<forall>j. \<not> cancelled j) \<longrightarrow> k = ?n"
    using progressCalls_counts [of 0 files cancelled ?n] by auto
  have "scanReports pr cancelled files =
      concat (map (\<lambda>(current, n). progressReport pr (int current) (int n)) (map snd (progressCalls cancelled ?n 0 files)))"
    by (simp add: scanReports_def comp_def case_prod_unfold)
  also have "\<dots> = concat (map (\<lambda>i. [reportOf (prToken pr) ?n i]) [1..<k + 1])"
    unfolding k(2) map_map
    using k(1) assms
    by (intro arg_cong [where f = concat] map_cong)
       (auto simp: progressReport_def reportOf_def intro!: reportPercentage_rounded)
  finally have "scanReports pr cancelled files = map (reportOf (prToken pr) ?n) [1..<k + 1]" by simp
  moreover have "sorted (map (rounded ?n) [1..<k + 1])"
    by (simp add: sorted_iff_nth_mono rounded_mono del: upt_Suc)
  moreover have "\<forall>i \<in> {1..k}. rounded ?n i \<le> 100" using k(1) by (auto intro!: rounded_le)
  ultimately show ?thesis using k rounded_all [of ?n] by (intro exI [of _ k]) auto
qed

theorem scanReports_rise_witness:
  "scanReports \<lparr>prToken = ''t'', prEnabled = True\<rparr> (\<lambda>_. False) [''A'', ''B'', ''C''] = map (reportOf ''t'' 3) [1..<4] \<and>
     rounded 3 3 = 100"
  using scanReports_rise [of "\<lparr>prToken = ''t'', prEnabled = True\<rparr>" "[''A'', ''B'', ''C'']" "\<lambda>_. False"]
  by (auto simp: eval_nat_numeral)

section \<open>The summary of skipped files\<close>

text \<open>The counts of the summary add up to the number it opens with.\<close>

lemma skipSummary_counts: "(\<Sum>r\<leftarrow>sort (remdups xs). count_list xs r) = length xs"
proof -
  have "(\<Sum>r\<leftarrow>sort (remdups xs). count_list xs r) = (\<Sum>r \<in> set xs. count_list xs r)"
    by (simp add: sum_list_distinct_conv_sum_set)
  then show ?thesis by (simp add: sum_count_set)
qed

section \<open>The state behind the notices\<close>

text \<open>Publishing panics only while there is no index, and then a change of a document that is not open does nothing.\<close>

lemma publishDiag_panic:
  assumes "publishDiag n ho h u utf16 = None"
  shows "hcIdx h = None" "Option.bind (hcStore h) (\<lambda>s. storeGet s u) = None"
  using assms by (auto simp: publishDiag_def publishFileDiagnostics_def Let_def split: if_splits option.splits)

lemma applyDocumentChange_none: "hcIdx h = None \<Longrightarrow> applyDocumentChange az p c h = h"
  by (simp add: applyDocumentChange_def Let_def)

lemma changeStep_closed:
  assumes "hcIdx h = None" "Option.bind (hcStore h) (\<lambda>s. storeGet s u) = None"
  shows "changeStep fsPath az u v h c = h"
proof -
  have "onStore (storeUpdate fsPath u v content) h = h" for content
    using assms(2) by (cases "hcStore h") (auto simp: onStore_def storeUpdate_def)
  then show ?thesis
    using assms(1)
    by (auto simp: changeStep_def Let_def applyDocumentChange_none split: ContentChange.split option.split)
qed

lemma didChange_closed:
  "hcIdx h = None \<Longrightarrow> Option.bind (hcStore h) (\<lambda>s. storeGet s u) = None \<Longrightarrow> didChange fsPath az u v cs h = h"
  unfolding didChange_def by (induction cs) (simp_all add: changeStep_closed)

lemma watched_none: "hcIdx h = None \<Longrightarrow> didChangeWatchedFiles fsPath az events h = h"
  unfolding didChangeWatchedFiles_def
  by (induction events) (auto simp: watchedStep_def Let_def applyDocumentChange_none split: option.split)

lemma watchedEvents_state: "fst (watchedEvents n ho utf16 az events h) = didChangeWatchedFiles (hoFsPath ho) az events h"
proof (induction events arbitrary: h)
  case (Cons event events)
  let ?h = "watchedStep (hoFsPath ho) az h event"
  have step: "didChangeWatchedFiles (hoFsPath ho) az (event # events) h = didChangeWatchedFiles (hoFsPath ho) az events ?h"
    by (simp add: didChangeWatchedFiles_def)
  have "didChangeWatchedFiles (hoFsPath ho) az events ?h = ?h" if "publishDiag n ho ?h (feURI event) utf16 = None"
    using publishDiag_panic(1) [OF that] by (rule watched_none)
  then show ?case
    unfolding step by (auto simp: Let_def Cons.IH case_prod_beta split: option.split)
qed (simp add: didChangeWatchedFiles_def)

lemma onChange_state: "fst (onChange n ho utf16 az u v changes h) = didChange (hoFsPath ho) az u v changes h"
proof (induction changes arbitrary: h)
  case (Cons c cs)
  let ?h = "changeStep (hoFsPath ho) az u v h c"
  have step: "didChange (hoFsPath ho) az u v (c # cs) h = didChange (hoFsPath ho) az u v cs ?h"
    by (simp add: didChange_def)
  have "didChange (hoFsPath ho) az u v cs ?h = ?h" if "publishDiag n ho ?h u utf16 = None"
    using publishDiag_panic [OF that] by (rule didChange_closed)
  then show ?case
    unfolding step by (auto simp: Let_def Cons.IH case_prod_beta split: option.split)
qed (simp add: didChange_def)

text \<open>
  Handling a notification and sending what it calls for leaves the state that handling it alone
  would: where a panic while publishing cuts the handling short, what is skipped would change nothing.
\<close>

theorem notices_state:
  "fst (onOpen n ho utf16 u v content h) = didOpen (hoFsPath ho) u v content h \<and>
   fst (onChange n ho utf16 az u v changes h) = didChange (hoFsPath ho) az u v changes h \<and>
   fst (onClose n u h) = didClose u h \<and>
   fst (onWatchedFiles n ho utf16 az events h) = didChangeWatchedFiles (hoFsPath ho) az events h"
  using onChange_state [of n ho utf16 az u v changes h] watchedEvents_state [of n ho utf16 az events h]
  by (simp add: onWatchedFiles_def case_prod_beta onOpen_def onClose_def Let_def)

section \<open>Capabilities\<close>

text \<open>What may be sent to a client, by the capabilities it announced.\<close>

definition suits :: "Negotiation \<Rightarrow> Notice \<Rightarrow> bool" where
  "suits n m \<longleftrightarrow>
     (case m of PublishDiagnostics _ _ _ \<Rightarrow> \<not> ngPullDiagnostics n
      | RefreshDiagnostics \<Rightarrow> ngPullDiagnostics n \<and> ngDiagnosticRefresh n
      | CreateProgress _ \<Rightarrow> ngWorkDoneProgress n
      | BeginProgress _ _ \<Rightarrow> ngWorkDoneProgress n
      | ReportProgress _ _ _ \<Rightarrow> ngWorkDoneProgress n
      | EndProgress _ _ \<Rightarrow> ngWorkDoneProgress n
      | RegisterWatchers _ \<Rightarrow> ngWatchedFilesReg n
      | _ \<Rightarrow> True)"

lemma suits_parts:
  "list_all (suits n) (sendDiagnosticRefresh n)" "list_all (suits n) (clearDiagnostics n u)"
  "publishDiag n ho h u utf16 = Some sent \<Longrightarrow> list_all (suits n) sent"
  "list_all (suits n) (reportNoUsableRoot probe idx)" "list_all (suits n) (buildLog root w cfg outcome)"
  "list_all (suits n) (initializedNotices n cfg state)"
  by (auto simp: sendDiagnosticRefresh_def sendsRefresh_def clearDiagnostics_def publishDiag_def reportNoUsableRoot_def
      buildLog_def Let_def suits_def initializedNotices_def split: if_splits Publication.splits option.split sum.split)

lemma suits_progress:
  assumes "prEnabled pr = ngWorkDoneProgress n"
  shows "list_all (suits n) (progressCreate pr)" "list_all (suits n) (progressBegin pr title)"
    "list_all (suits n) (progressEnd pr msg)" "list_all (suits n) (scanReports pr cancelled files)"
  using assms
  by (auto simp: progressCreate_def progressBegin_def progressEnd_def progressReport_def scanReports_def suits_def
      list_all_iff)

lemma suits_change: "list_all (suits n) (snd (onChange n ho utf16 az u v changes h))"
  by (induction changes arbitrary: h)
     (auto simp: Let_def case_prod_beta suits_parts split: option.split)

lemma suits_events: "list_all (suits n) (snd (snd (watchedEvents n ho utf16 az events h)))"
  by (induction events arbitrary: h)
     (auto simp: Let_def case_prod_beta suits_parts split: option.split)

lemma suits_scan: "list_all (suits n) (workspaceDiagnosticProgress n token)"
  by (auto simp: workspaceDiagnosticProgress_def Let_def suits_progress split: option.split)

lemma suits_open: "list_all (suits n) (snd (onOpen n ho utf16 u v content h))"
  by (auto simp: onOpen_def Let_def suits_parts split: option.split)

lemma suits_watched: "list_all (suits n) (snd (onWatchedFiles n ho utf16 az events h))"
  using suits_events [of n ho utf16 az events h] by (auto simp: onWatchedFiles_def case_prod_beta suits_parts)

lemma suits_log: "suits n (LogMessage l m)"
  by (simp add: suits_def)

lemma suits_trace: "list_all (suits n) (requestTrace level i elapsed c)"
  by (simp add: requestTrace_def suits_def)

section \<open>What a client sees after an edit\<close>

lemma publish_open:
  assumes "hcStore h = Some s" "storeGet s u = Some doc" "\<not> ngPullDiagnostics n"
  shows "publishDiag n ho h u utf16 =
     Some [PublishDiagnostics u (provideDocumentDiagnostic ho h u utf16) (Some (of_int (docVersion doc)))]"
  using assms by (simp add: publishDiag_def publishFileDiagnostics_def provideDocumentDiagnostic_def Let_def)

definition documentOpen :: "HandlerContext \<Rightarrow> string \<Rightarrow> bool" where
  "documentOpen h u \<longleftrightarrow> (\<exists>s doc. hcStore h = Some s \<and> storeGet s u = Some doc)"

lemma changeStep_open:
  assumes "documentOpen h u"
  shows "documentOpen (changeStep fsPath az u v h c) u" "hcRoot (changeStep fsPath az u v h c) = hcRoot h"
  using assms
  by (auto simp: documentOpen_def changeStep_def Let_def onStore_def storeGet_update
      split: ContentChange.split option.splits)

lemma changeStep_whole:
  assumes "documentOpen h u"
  shows "\<exists>s doc. hcStore (changeStep fsPath az u v h (WholeDocument content)) = Some s \<and>
     storeGet s u = Some doc \<and> docVersion doc = v"
  using assms
  by (auto simp: documentOpen_def changeStep_def Let_def onStore_def storeGet_update split: option.split)

lemma onChange_append:
  assumes "documentOpen h u" "\<not> ngPullDiagnostics n"
  shows "snd (onChange n ho utf16 az u v (cs @ ds) h) =
     snd (onChange n ho utf16 az u v cs h) @ snd (onChange n ho utf16 az u v ds (didChange (hoFsPath ho) az u v cs h))"
  using assms(1)
proof (induction cs arbitrary: h)
  case (Cons c cs)
  let ?h = "changeStep (hoFsPath ho) az u v h c"
  have o: "documentOpen ?h u" using changeStep_open(1) [OF Cons.prems] .
  then obtain s doc where "hcStore ?h = Some s" "storeGet s u = Some doc"
    by (auto simp: documentOpen_def)
  from publish_open [OF this assms(2), of ho utf16] Cons.IH [OF o] show ?case
    by (simp add: Let_def case_prod_beta didChange_def)
qed (simp add: didChange_def)

text \<open>
  C15. After an edit of an open document below the root, the last thing sent to a client that does not
  pull are the diagnostics a pull would answer in the new state, with the version of the edit.
\<close>

theorem pushed_current:
  assumes "documentOpen h u" and "filepathRel (hcRoot h) (hoFsPath ho u) \<noteq> None" and "\<not> ngPullDiagnostics n"
    and "onChange n ho utf16 az u v (changes @ [WholeDocument content]) h = (h', sent)"
  shows "sent \<noteq> [] \<and> last sent = PublishDiagnostics u (provideDocumentDiagnostic ho h' u utf16) (Some (of_int v))"
proof -
  let ?h1 = "didChange (hoFsPath ho) az u v changes h"
  have h1: "documentOpen ?h1 u \<and> hcRoot ?h1 = hcRoot h"
    unfolding didChange_def using assms(1)
    by (induction changes rule: rev_induct) (auto simp: changeStep_open)
  have h': "h' = changeStep (hoFsPath ho) az u v ?h1 (WholeDocument content)"
    using onChange_state [of n ho utf16 az u v "changes @ [WholeDocument content]" h] assms(4)
    by (simp add: didChange_def)
  obtain s doc where s: "hcStore h' = Some s" "storeGet s u = Some doc" "docVersion doc = v"
    unfolding h' using changeStep_whole h1 by blast
  have "snd (onChange n ho utf16 az u v [WholeDocument content] ?h1) =
      [PublishDiagnostics u (provideDocumentDiagnostic ho h' u utf16) (Some (of_int v))]"
    using publish_open [OF s(1,2) assms(3), of ho utf16] assms(2,3) h1 s(3)
    by (simp add: Let_def h' [symmetric] sendDiagnosticRefresh_def sendsRefresh_def)
  then show ?thesis
    using onChange_append [OF assms(1,3), of ho utf16 az v changes "[WholeDocument content]"] assms(4) by simp
qed

definition pushClient :: Negotiation where
  "pushClient = handleInitialize \<lparr>ccPositionEncodings = None, ccWatchedFilesDynamic = None, ccWorkDoneProgress = None,
     ccDiagnostic = False, ccRefreshSupport = None\<rparr> []"

theorem pushed_current_witness:
  "\<exists>h' sent. onChange pushClient \<lparr>hoFsPath = samplePath, hoUriFile = id, hoReadFile = (\<lambda>_. None)\<rparr> True sampleAnalyzer
       ''file:///ws/A.NSN'' 2 [PartialChange, WholeDocument ''CALL''] sampleOpened = (h', sent) \<and>
     last sent = PublishDiagnostics ''file:///ws/A.NSN''
       (provideDocumentDiagnostic \<lparr>hoFsPath = samplePath, hoUriFile = id, hoReadFile = (\<lambda>_. None)\<rparr> h' ''file:///ws/A.NSN'' True)
       (Some 2)"
proof -
  let ?ho = "\<lparr>hoFsPath = samplePath, hoUriFile = id, hoReadFile = (\<lambda>_. None)\<rparr>"
  obtain doc where doc: "storeGet sampleStore ''file:///ws/A.NSN'' = Some doc" using sampleStore_Get by blast
  have o: "documentOpen sampleOpened ''file:///ws/A.NSN''"
    using doc sampleStore_values(1) by (simp add: documentOpen_def)
  have r: "filepathRel (hcRoot sampleOpened) (hoFsPath ?ho ''file:///ws/A.NSN'') \<noteq> None"
    by (simp add: sampleOpened_values)
  have p: "\<not> ngPullDiagnostics pushClient" by (simp add: pushClient_def handleInitialize_def)
  obtain h' sent where run: "onChange pushClient ?ho True sampleAnalyzer ''file:///ws/A.NSN'' 2
      ([PartialChange] @ [WholeDocument ''CALL'']) sampleOpened = (h', sent)" by fastforce
  from pushed_current [OF o r p run] run show ?thesis by auto
qed

end
