(* ===== verification/Watcher.thy ===== *)
theory Watcher
  imports Store
begin

text \<open>
  The file watcher, \<open>sync.go\<close>: events of the file system are filtered, their paths gathered, and after
  a quiet time handed to the analysis function one by one. The goroutine of the watcher and those of
  the debounce timer share the pending paths under a lock; each critical section is one step. A timer
  that has fired can no longer be stopped, so its step comes later. The disk may be another at every
  step. The event source (\<open>fsnotify\<close>) is an argument: the steps take the events and errors it delivers, and
  it may close its channels. A panic of the analysis function is recovered, and its result is not used.
\<close>

section \<open>The disk and the events\<close>

record FileInfo =
  fiIsDir :: bool
  fiSize :: int

text \<open>What \<open>os.Stat\<close> and \<open>os.ReadFile\<close> give for a path, and whether watching a directory succeeds.\<close>

record Disk =
  dkStat :: "string \<Rightarrow> FileInfo option"
  dkRead :: "string \<Rightarrow> string option"
  dkWatch :: "string \<Rightarrow> bool"

text \<open>An event names a path and carries a set of operations; writing is the one that is not asked for.\<close>

record FsEvent =
  evName :: string
  evCreate :: bool
  evWrite :: bool
  evRemove :: bool
  evRename :: bool
  evChmod :: bool

record Watcher =
  waDirs :: "string list"
  waPending :: "string list"
  waTimer :: bool
  waFired :: nat
  waCalls :: "(string \<times> string option) list"
  waDone :: bool

section \<open>Starting\<close>

text \<open>The directories of the tree that are not excluded; an unreadable one stops the walk.\<close>

definition absolutePath :: "string \<Rightarrow> string \<Rightarrow> string" where
  "absolutePath root relPath = (if relPath = ''.'' then root else filepathJoin root relPath)"

fun watchDirs :: "Config \<Rightarrow> string \<Rightarrow> (string \<Rightarrow> bool) \<Rightarrow> string \<Rightarrow> DirTree \<Rightarrow> string list option" where
  "watchDirs cfg root watchable relPath (FileNode name) = Some []"
| "watchDirs cfg root watchable relPath (DirNode name children) =
     (if IsExcluded cfg (NormalizeKey relPath) then Some []
      else case children of
             None \<Rightarrow> None
           | Some nodes \<Rightarrow>
               map_option (append (if watchable (absolutePath root relPath) then [absolutePath root relPath] else []))
                 (foldr (\<lambda>r acc. case r of None \<Rightarrow> None | Some ds \<Rightarrow> map_option (append ds) acc)
                    (map (\<lambda>node. watchDirs cfg root watchable (relJoin relPath (nodeName node)) node) nodes) (Some [])))"

definition NewWatcher :: "Config \<Rightarrow> string \<Rightarrow> (string \<Rightarrow> bool) \<Rightarrow> DirTree \<Rightarrow> Watcher option" where
  "NewWatcher cfg root watchable tree =
     map_option (\<lambda>dirs. \<lparr>waDirs = dirs, waPending = [], waTimer = False, waFired = 0, waCalls = [], waDone = False\<rparr>)
       (watchDirs cfg root watchable ''.'' tree)"

definition watchedExtensions :: "Config \<Rightarrow> string list" where
  "watchedExtensions cfg =
     map (\<lambda>ext. let normalized = toUpper ext in if hasPrefix normalized ''.'' then normalized else CHR ''.'' # normalized)
       (Extensions (cfgWorkspace cfg))"

section \<open>Events\<close>

definition addPending :: "string \<Rightarrow> Watcher \<Rightarrow> Watcher" where
  "addPending relPath w = w\<lparr>waPending := List.insert relPath (waPending w), waTimer := True\<rparr>"

definition handleEvent :: "Config \<Rightarrow> string \<Rightarrow> Disk \<Rightarrow> FsEvent \<Rightarrow> Watcher \<Rightarrow> Watcher" where
  "handleEvent cfg root disk event w =
     (if evChmod event then w
      else if evCreate event \<and> (case dkStat disk (evName event) of Some fi \<Rightarrow> fiIsDir fi | None \<Rightarrow> False)
      then (case filepathRel root (evName event) of
              None \<Rightarrow> w
            | Some relPath \<Rightarrow>
                if \<not> IsExcluded cfg (NormalizeKey relPath) \<and> dkWatch disk (evName event)
                then w\<lparr>waDirs := waDirs w @ [evName event]\<rparr> else w)
      else if toUpper (pathExt (evName event)) \<notin> set (watchedExtensions cfg) then w
      else case filepathRel root (evName event) of
             None \<Rightarrow> w
           | Some r \<Rightarrow>
               let relPath = NormalizeKey r
               in if evRemove event \<or> evRename event then addPending relPath w
                  else if IsExcluded cfg relPath then w
                  else addPending relPath w)"

section \<open>Draining\<close>

text \<open>The calls of the analysis function for one path.\<close>

definition drainPath :: "Config \<Rightarrow> string \<Rightarrow> Disk \<Rightarrow> string \<Rightarrow> (string \<times> string option) list" where
  "drainPath cfg root disk relPath =
     (case dkStat disk (filepathJoin root relPath) of
        None \<Rightarrow> [(relPath, None)]
      | Some fi \<Rightarrow>
          if MaxFileSize (cfgWorkspace cfg) > 0 \<and> fiSize fi > MaxFileSize (cfgWorkspace cfg) then []
          else case dkRead disk (filepathJoin root relPath) of
                 None \<Rightarrow> []
               | Some content \<Rightarrow> [(relPath, Some content)])"

definition drainPending :: "Config \<Rightarrow> string \<Rightarrow> Disk \<Rightarrow> Watcher \<Rightarrow> Watcher" where
  "drainPending cfg root disk w =
     w\<lparr>waCalls := waCalls w @ concat (map (drainPath cfg root disk) (waPending w)), waPending := []\<rparr>"

section \<open>Steps\<close>

text \<open>
  The goroutine ends in two ways: when its context is done it stops the timer and drains; when a
  channel of the event source is closed it returns at once, and a timer that runs is left running.
\<close>

datatype WatchLabel = Deliver Disk FsEvent | Report string | Fire | Drain Disk | Finish Disk | Closed

inductive watchStep :: "Config \<Rightarrow> string \<Rightarrow> Watcher \<Rightarrow> WatchLabel \<Rightarrow> Watcher \<Rightarrow> bool" for cfg root where
  deliver: "\<not> waDone w \<Longrightarrow> watchStep cfg root w (Deliver disk event) (handleEvent cfg root disk event w)"
| report: "\<not> waDone w \<Longrightarrow> watchStep cfg root w (Report e) w"
| fire: "waTimer w \<Longrightarrow> watchStep cfg root w Fire (w\<lparr>waTimer := False, waFired := waFired w + 1\<rparr>)"
| drain: "waFired w > 0 \<Longrightarrow>
    watchStep cfg root w (Drain disk) ((drainPending cfg root disk w)\<lparr>waFired := waFired w - 1\<rparr>)"
| finish: "\<not> waDone w \<Longrightarrow>
    watchStep cfg root w (Finish disk) ((drainPending cfg root disk w)\<lparr>waTimer := False, waDone := True\<rparr>)"
| closed: "\<not> waDone w \<Longrightarrow> watchStep cfg root w Closed (w\<lparr>waDone := True\<rparr>)"

inductive watchRun :: "Config \<Rightarrow> string \<Rightarrow> Watcher \<Rightarrow> WatchLabel list \<Rightarrow> Watcher \<Rightarrow> bool" for cfg root w where
  start: "watchRun cfg root w [] w"
| snoc: "watchRun cfg root w labels w' \<Longrightarrow> watchStep cfg root w' label w'' \<Longrightarrow> watchRun cfg root w (labels @ [label]) w''"

end
