(* ===== verification/Watcher_Facts.thy ===== *)
theory Watcher_Facts
  imports Watcher
begin

text \<open>
  Facts about the file watcher: whatever the interleaving of events, timers and the end, no accepted
  event is forgotten, the next drain is always on its way, and a burst of events of one path is one call.
\<close>

section \<open>Accepted events\<close>

text \<open>The path an event leaves to be analysed.\<close>

definition accepts :: "Config \<Rightarrow> string \<Rightarrow> Disk \<Rightarrow> FsEvent \<Rightarrow> string option" where
  "accepts cfg root disk event =
     (if evChmod event
         \<or> evCreate event \<and> (\<exists>fi. dkStat disk (evName event) = Some fi \<and> fiIsDir fi)
         \<or> toUpper (pathExt (evName event)) \<notin> set (watchedExtensions cfg) then None
      else case filepathRel root (evName event) of
             None \<Rightarrow> None
           | Some r \<Rightarrow> if evRemove event \<or> evRename event \<or> \<not> IsExcluded cfg (NormalizeKey r)
                        then Some (NormalizeKey r) else None)"

lemma handleEvent_accepts:
  "waPending (handleEvent cfg root disk event w) =
     (case accepts cfg root disk event of None \<Rightarrow> waPending w | Some p \<Rightarrow> List.insert p (waPending w))"
  "waTimer (handleEvent cfg root disk event w) = (accepts cfg root disk event \<noteq> None \<or> waTimer w)"
  "waCalls (handleEvent cfg root disk event w) = waCalls w" "waFired (handleEvent cfg root disk event w) = waFired w"
  "waDone (handleEvent cfg root disk event w) = waDone w"
  by (auto simp: handleEvent_def accepts_def addPending_def Let_def split: option.splits)

inductive_cases watchStepE: "watchStep cfg root w label w'"

lemma drainPending_sel [simp]:
  "waPending (drainPending cfg root disk w) = []" "waTimer (drainPending cfg root disk w) = waTimer w"
  "waFired (drainPending cfg root disk w) = waFired w" "waDone (drainPending cfg root disk w) = waDone w"
  "waCalls (drainPending cfg root disk w) = waCalls w @ concat (map (drainPath cfg root disk) (waPending w))"
  by (simp_all add: drainPending_def)

section \<open>Nothing is lost\<close>

text \<open>The disk a label drains with.\<close>

fun drains :: "WatchLabel \<Rightarrow> Disk option" where
  "drains (Drain disk) = Some disk"
| "drains (Finish disk) = Some disk"
| "drains _ = None"

text \<open>A path is served by a run when one of its drains made the calls of the path.\<close>

definition served :: "Config \<Rightarrow> string \<Rightarrow> WatchLabel list \<Rightarrow> (string \<times> string option) list \<Rightarrow> string \<Rightarrow> bool" where
  "served cfg root labels calls p \<longleftrightarrow>
     (\<exists>label \<in> set labels. \<exists>disk. drains label = Some disk \<and> set (drainPath cfg root disk p) \<subseteq> set calls)"

lemma served_mono:
  "served cfg root labels calls p \<Longrightarrow> set labels \<subseteq> set labels' \<Longrightarrow> set calls \<subseteq> set calls' \<Longrightarrow> served cfg root labels' calls' p"
  unfolding served_def by blast

lemma step_calls: "watchStep cfg root w label w' \<Longrightarrow> set (waCalls w) \<subseteq> set (waCalls w')"
  by (auto elim!: watchStepE simp: handleEvent_accepts)

text \<open>A pending path stays pending until a step drains it.\<close>

lemma step_pending:
  "watchStep cfg root w label w' \<Longrightarrow> p \<in> set (waPending w) \<Longrightarrow>
     p \<in> set (waPending w') \<or> served cfg root [label] (waCalls w') p"
  by (auto elim!: watchStepE simp: handleEvent_accepts served_def split: option.splits)

lemma run_pending:
  "watchRun cfg root w labels w' \<Longrightarrow> p \<in> set (waPending w) \<Longrightarrow>
     p \<in> set (waPending w') \<or> served cfg root labels (waCalls w') p"
proof (induction rule: watchRun.induct)
  case (snoc labels w' label w'')
  from snoc.IH [OF snoc.prems] show ?case
  proof
    assume "p \<in> set (waPending w')"
    from step_pending [OF snoc.hyps(2) this] show ?case
      using served_mono [of cfg root "[label]" _ p "labels @ [label]"] by auto
  next
    assume "served cfg root labels (waCalls w') p"
    then have "served cfg root (labels @ [label]) (waCalls w'') p"
      by (rule served_mono) (use step_calls [OF snoc.hyps(2)] in auto)
    then show ?case by blast
  qed
qed simp

lemma run_append: "watchRun cfg root w (xs @ ys) w' \<Longrightarrow> \<exists>w1. watchRun cfg root w xs w1 \<and> watchRun cfg root w1 ys w'"
proof (induction ys arbitrary: w' rule: rev_induct)
  case Nil
  then show ?case using watchRun.start by auto
next
  case (snoc y ys)
  from snoc.prems show ?case
  proof (cases rule: watchRun.cases)
    case (snoc labels w1 label)
    with snoc.IH [of w1] show ?thesis by (auto intro: watchRun.snoc)
  qed simp
qed

lemma run_Cons:
  assumes "watchRun cfg root w (label # labels) w'"
  obtains w1 where "watchStep cfg root w label w1" "watchRun cfg root w1 labels w'"
proof -
  obtain w1 where w1: "watchRun cfg root w [label] w1" "watchRun cfg root w1 labels w'"
    using run_append [of cfg root w "[label]" labels w'] assms by auto
  from w1(1) have "watchStep cfg root w label w1"
    by (cases rule: watchRun.cases) (auto elim: watchRun.cases)
  with w1(2) that show ?thesis by blast
qed

text \<open>A new watcher and what holds of it ever after.\<close>

definition watcherInv :: "Watcher \<Rightarrow> bool" where
  "watcherInv w \<longleftrightarrow> distinct (waPending w) \<and> (waPending w \<noteq> [] \<longrightarrow> waTimer w \<or> waFired w > 0)"

lemma NewWatcher_inv:
  "NewWatcher cfg root watchable tree = Some w \<Longrightarrow> watcherInv w \<and> waCalls w = [] \<and> waPending w = []"
  by (auto simp: NewWatcher_def watcherInv_def)

lemma step_inv: "watchStep cfg root w label w' \<Longrightarrow> watcherInv w \<Longrightarrow> watcherInv w'"
  by (auto elim!: watchStepE simp: watcherInv_def handleEvent_accepts split: option.splits)

lemma run_inv: "watchRun cfg root w labels w' \<Longrightarrow> watcherInv w \<Longrightarrow> watcherInv w'"
  by (induction rule: watchRun.induct) (auto intro: step_inv)

text \<open>After the drain at the end nothing is pending any more.\<close>

lemma run_finished:
  "watchRun cfg root w labels w' \<Longrightarrow> Finish disk \<in> set labels \<Longrightarrow> waDone w' \<and> waPending w' = []"
proof (induction rule: watchRun.induct)
  case (snoc labels w' label w'')
  then show ?case by (cases "Finish disk \<in> set labels") (auto elim!: watchStepE)
qed simp

text \<open>
  C16. Whatever the interleaving of events, timers and the end: an event the watcher accepted was
  followed by a drain that made the calls its path asks for, or its path is pending and a timer that
  will drain it runs or has fired. Once the watcher has ended because its context was done, it is the
  former; when it has ended because its event source closed a channel, the timer is all there is.
\<close>

theorem watcher_loses_nothing:
  assumes "NewWatcher cfg root watchable tree = Some w"
    and "watchRun cfg root w (before @ Deliver disk event # after) w'"
    and "accepts cfg root disk event = Some p"
  shows "served cfg root after (waCalls w') p \<or>
     p \<in> set (waPending w') \<and> (waTimer w' \<or> waFired w' > 0) \<and> (\<forall>d. Finish d \<notin> set after)"
proof -
  obtain w1 where "watchRun cfg root w1 (Deliver disk event # after) w'"
    using run_append [OF assms(2)] by blast
  then obtain w2 where w2: "watchStep cfg root w1 (Deliver disk event) w2" "watchRun cfg root w2 after w'"
    by (rule run_Cons)
  have "p \<in> set (waPending w2)" using w2(1) assms(3) by (auto elim!: watchStepE simp: handleEvent_accepts)
  from run_pending [OF w2(2) this] show ?thesis
    using run_inv [OF assms(2)] NewWatcher_inv [OF assms(1)] run_finished [OF w2(2)]
    by (auto simp: watcherInv_def)
qed

text \<open>When the event source closes a channel, the watcher ends and leaves what is pending to the timer.\<close>

lemma closed_leaves_pending:
  assumes "\<not> waDone w"
  shows "\<exists>w'. watchStep cfg root w Closed w' \<and> waDone w' \<and> waPending w' = waPending w \<and> waCalls w' = waCalls w"
  using watchStep.closed [OF assms, of cfg root] by (intro exI [of _ "w\<lparr>waDone := True\<rparr>"]) simp

section \<open>Drains come, and bursts are one call\<close>

definition acceptedBy :: "Config \<Rightarrow> string \<Rightarrow> WatchLabel \<Rightarrow> bool" where
  "acceptedBy cfg root label = (case label of Deliver disk event \<Rightarrow> accepts cfg root disk event \<noteq> None | _ \<Rightarrow> False)"

lemma drainPath_length: "length (drainPath cfg root disk p) \<le> 1"
  by (auto simp: drainPath_def split: option.split)

lemma drain_length: "length (concat (map (drainPath cfg root disk) ps)) \<le> length ps"
proof (induction ps)
  case (Cons p ps)
  then show ?case using drainPath_length [of cfg root disk p] by simp
qed simp

lemma run_calls:
  "watchRun cfg root w labels w' \<Longrightarrow>
     length (waCalls w') + length (waPending w') \<le>
       length (waCalls w) + length (waPending w) + length (filter (acceptedBy cfg root) labels)"
proof (induction rule: watchRun.induct)
  case (snoc labels w' label w'')
  have "length (waCalls w'') + length (waPending w'') \<le>
      length (waCalls w') + length (waPending w') + length (filter (acceptedBy cfg root) [label])"
    using snoc.hyps(2) drain_length [of cfg root _ "waPending w'"]
    by (auto elim!: watchStepE simp: handleEvent_accepts acceptedBy_def List.insert_def split: option.splits)
  with snoc.IH show ?case by simp
qed simp

text \<open>
  C27. While paths are pending a drain is on its way: a timer can fire or has fired. A path is pending
  once however many events name it, and there are never more calls than accepted events.
\<close>

theorem watcher_drains:
  assumes "NewWatcher cfg root watchable tree = Some w" and "watchRun cfg root w labels w'"
  shows "(waPending w' \<noteq> [] \<longrightarrow>
       (\<exists>w''. watchStep cfg root w' Fire w'') \<or> (\<forall>disk. \<exists>w''. watchStep cfg root w' (Drain disk) w'' \<and> waPending w'' = [])) \<and>
     distinct (waPending w') \<and>
     length (waCalls w') + length (waPending w') \<le> length (filter (acceptedBy cfg root) labels)"
proof -
  have "watcherInv w'" using run_inv [OF assms(2)] NewWatcher_inv [OF assms(1)] by simp
  moreover have "waFired w' > 0 \<Longrightarrow> \<exists>w''. watchStep cfg root w' (Drain disk) w'' \<and> waPending w'' = []" for disk
    using watchStep.drain [of w' cfg root disk] by (intro exI conjI) (assumption, simp)
  ultimately show ?thesis
    using run_calls [OF assms(2)] NewWatcher_inv [OF assms(1)]
    by (auto simp: watcherInv_def intro: watchStep.fire)
qed

section \<open>Examples\<close>

definition watchedDisk :: Disk where
  "watchedDisk = \<lparr>dkStat = (\<lambda>p. if p = ''/ws/A.NSP'' \<or> p = ''/ws/archive/A.NSP'' then Some \<lparr>fiIsDir = False, fiSize = 3\<rparr> else None),
     dkRead = (\<lambda>_. Some ''END''), dkWatch = (\<lambda>_. True)\<rparr>"

definition writeEvent :: "string \<Rightarrow> FsEvent" where
  "writeEvent path = \<lparr>evName = path, evCreate = False, evWrite = True, evRemove = False, evRename = False, evChmod = False\<rparr>"

definition idleWatcher :: Watcher where
  "idleWatcher = \<lparr>waDirs = [''/ws''], waPending = [], waTimer = False, waFired = 0, waCalls = [], waDone = False\<rparr>"

definition excluding :: "string list \<Rightarrow> Config" where
  "excluding entries = Defaults\<lparr>cfgWorkspace := cfgWorkspace Defaults\<lparr>Exclude := entries\<rparr>\<rparr>"

lemma idleWatcher_new: "NewWatcher (excluding []) ''/ws'' (\<lambda>_. True) (DirNode ''ws'' (Some [])) = Some idleWatcher"
  by (simp add: NewWatcher_def idleWatcher_def absolutePath_def IsExcluded_def excluding_def list_ex_iff)

lemma writeEvent_accepted: "accepts (excluding []) ''/ws'' watchedDisk (writeEvent ''/ws/A.NSP'') = Some ''A.NSP''"
proof -
  have "toUpper (pathExt ''/ws/A.NSP'') \<in> set (watchedExtensions (excluding []))"
    "filepathRel ''/ws'' ''/ws/A.NSP'' = Some ''A.NSP''" "NormalizeKey ''A.NSP'' = ''A.NSP''"
    by code_simp+
  then show ?thesis by (simp add: accepts_def writeEvent_def IsExcluded_def excluding_def list_ex_iff)
qed

lemma idleWatcher_run:
  "watchRun (excluding []) ''/ws'' idleWatcher ([] @ Deliver watchedDisk (writeEvent ''/ws/A.NSP'') # [Finish watchedDisk])
     ((drainPending (excluding []) ''/ws'' watchedDisk
         (handleEvent (excluding []) ''/ws'' watchedDisk (writeEvent ''/ws/A.NSP'') idleWatcher))\<lparr>waTimer := False, waDone := True\<rparr>)"
proof -
  let ?e = "Deliver watchedDisk (writeEvent ''/ws/A.NSP'')"
  let ?w = "handleEvent (excluding []) ''/ws'' watchedDisk (writeEvent ''/ws/A.NSP'') idleWatcher"
  have "\<not> waDone idleWatcher" by (simp add: idleWatcher_def)
  from watchRun.snoc [OF watchRun.start watchStep.deliver [OF this]]
  have "watchRun (excluding []) ''/ws'' idleWatcher ([] @ [?e]) ?w" .
  moreover have "\<not> waDone ?w" by (simp add: handleEvent_accepts idleWatcher_def)
  ultimately show ?thesis using watchRun.snoc [OF _ watchStep.finish] by fastforce
qed

theorem watcher_loses_nothing_witness:
  "served (excluding []) ''/ws'' [Finish watchedDisk] [(''A.NSP'', Some ''END'')] ''A.NSP''"
proof -
  let ?w = "handleEvent (excluding []) ''/ws'' watchedDisk (writeEvent ''/ws/A.NSP'') idleWatcher"
  have "drainPath (excluding []) ''/ws'' watchedDisk ''A.NSP'' = [(''A.NSP'', Some ''END'')]" by code_simp
  then have calls: "waCalls (drainPending (excluding []) ''/ws'' watchedDisk ?w) = [(''A.NSP'', Some ''END'')]"
    by (simp add: handleEvent_accepts writeEvent_accepted idleWatcher_def)
  have "Finish watchedDisk \<in> set [Finish watchedDisk]" by simp
  with watcher_loses_nothing [OF idleWatcher_new idleWatcher_run writeEvent_accepted] calls show ?thesis
    by fastforce
qed

theorem watcher_drains_witness:
  "\<exists>w'. watchRun (excluding []) ''/ws'' idleWatcher [Deliver watchedDisk (writeEvent ''/ws/A.NSP'')] w' \<and>
     waPending w' = [''A.NSP''] \<and> (\<exists>w''. watchStep (excluding []) ''/ws'' w' Fire w'')"
proof -
  let ?w = "handleEvent (excluding []) ''/ws'' watchedDisk (writeEvent ''/ws/A.NSP'') idleWatcher"
  have "\<not> waDone idleWatcher" by (simp add: idleWatcher_def)
  from watchRun.snoc [OF watchRun.start watchStep.deliver [OF this]]
  have run: "watchRun (excluding []) ''/ws'' idleWatcher [Deliver watchedDisk (writeEvent ''/ws/A.NSP'')] ?w" by simp
  have p: "waPending ?w = [''A.NSP'']" "waFired ?w = 0"
    by (simp_all add: handleEvent_accepts writeEvent_accepted idleWatcher_def)
  have none: "\<not> watchStep (excluding []) ''/ws'' ?w (Drain watchedDisk) w''" for w''
    using p(2) by (auto elim: watchStepE)
  have "waPending ?w \<noteq> []" using p(1) by simp
  from mp [OF conjunct1 [OF watcher_drains [OF idleWatcher_new run]] this]
  have "\<exists>w''. watchStep (excluding []) ''/ws'' ?w Fire w''" using none by blast
  with run p(1) show ?thesis by blast
qed

text \<open>
  Removing asks for no exclusion: when an excluded file is replaced, its path is pending and the new
  file is analysed.
\<close>

lemma excluded_analyzed:
  "IsExcluded (excluding [''archive'']) ''archive/A.NSP''"
  "waCalls (drainPending (excluding [''archive'']) ''/ws'' watchedDisk
     (handleEvent (excluding [''archive'']) ''/ws'' watchedDisk
        ((writeEvent ''/ws/archive/A.NSP'')\<lparr>evWrite := False, evRename := True\<rparr>) idleWatcher)) = [(''archive/A.NSP'', Some ''END'')]"
  subgoal
    by (subst IsExcluded_def, subst fieldsFunc.simps, simp add: excluding_def isSeparator_def)
  subgoal by code_simp
  done

end
