(* ===== verification/Corpus.thy ===== *)
theory Corpus
  imports Format Complex_Main "HOL-Library.Signed_Division"
begin

text \<open>
  The generator of synthetic workspaces for benchmarks, \<open>corpusgen/corpusgen.go\<close>. The source of random
  numbers is an argument, a record of the two draws the code makes and the seeding; so is the disk, which
  says of a path what goes wrong there. What is written is the list of files, in order.
\<close>

datatype objectKind = kindSubprogram | kindSubroutine | kindCopycode | kindDDM | kindProgram

record object =
  obKind :: objectKind
  obName :: string
  obLibrary :: nat
  obRelPath :: string

record Params =
  pmObjects :: int
  pmLibraries :: int
  pmSeed :: int
  pmDensity :: rat

record 's Rand =
  rnSource :: "int \<Rightarrow> 's"
  rnIntn :: "nat \<Rightarrow> 's \<Rightarrow> nat \<times> 's"
  rnFloat64 :: "'s \<Rightarrow> rat \<times> 's"

text \<open>The disk: what creating the target, creating the directory of a path and writing a path answer.\<close>

record CorpusDisk =
  cdTarget :: "string \<Rightarrow> string option"
  cdMkdir :: "string \<Rightarrow> string option"
  cdWrite :: "string \<Rightarrow> string option"

section \<open>Names and paths\<close>

definition padDigits :: "nat \<Rightarrow> nat \<Rightarrow> string" where
  "padDigits width n = replicate (width - length (natDigits n)) (CHR ''0'') @ natDigits n"

definition corpusName :: "objectKind \<Rightarrow> nat \<Rightarrow> string" where
  "corpusName kind n =
     (case kind of
        kindSubprogram \<Rightarrow> ''SUBPRG'' | kindSubroutine \<Rightarrow> ''SUBRTN'' | kindCopycode \<Rightarrow> ''COPYC''
      | kindDDM \<Rightarrow> ''VIEW'' | kindProgram \<Rightarrow> ''PROG'') @ padDigits 4 n"

definition extFor :: "objectKind \<Rightarrow> string" where
  "extFor kind =
     (case kind of
        kindSubprogram \<Rightarrow> ''.NSN'' | kindSubroutine \<Rightarrow> ''.NSS'' | kindCopycode \<Rightarrow> ''.NSC''
      | kindDDM \<Rightarrow> ''.NSD'' | kindProgram \<Rightarrow> ''.NSP'')"

definition libDir :: "nat \<Rightarrow> string" where
  "libDir lib = ''LIB'' @ padDigits 2 lib"

definition relPathFor :: "objectKind \<Rightarrow> nat \<Rightarrow> string \<Rightarrow> string" where
  "relPathFor kind lib name = libDir lib @ ''/'' @ name @ extFor kind"

section \<open>The plan\<close>

text \<open>The division is Go's, which cuts towards zero.\<close>

definition defaultLibraries :: "int \<Rightarrow> int" where
  "defaultLibraries objects =
     (let libs = objects sdiv 12 + 2;
          atLeast = (if libs < 2 then 2 else libs)
      in if atLeast > objects \<and> objects > 0 then objects else atLeast)"

definition normalizeParams :: "Params \<Rightarrow> Params" where
  "normalizeParams p =
     (let q = (if pmLibraries p \<le> 0 then p\<lparr>pmLibraries := defaultLibraries (pmObjects p)\<rparr> else p)
      in if pmDensity q = 0 then q\<lparr>pmDensity := 1 / 2\<rparr> else q)"

definition baselineKinds :: "objectKind list" where
  "baselineKinds = [kindSubprogram, kindSubroutine, kindCopycode, kindDDM]"

text \<open>The closure \<open>add\<close>: the objects so far, and how many there are of each kind.\<close>

definition addObject ::
  "(objectKind \<Rightarrow> nat) \<times> object list \<Rightarrow> objectKind \<times> nat \<Rightarrow> (objectKind \<Rightarrow> nat) \<times> object list" where
  "addObject st slot =
     (case st of (counters, objects) \<Rightarrow>
      case slot of (kind, lib) \<Rightarrow>
        let name = corpusName kind (counters kind)
        in (counters(kind := Suc (counters kind)),
            objects @ [\<lparr>obKind = kind, obName = name, obLibrary = lib, obRelPath = relPathFor kind lib name\<rparr>]))"

definition baselineSlots :: "nat \<Rightarrow> nat \<Rightarrow> (objectKind \<times> nat) list" where
  "baselineSlots objects libraries =
     map (\<lambda>i. (baselineKinds ! (i mod length baselineKinds), i div length baselineKinds mod libraries))
       [0..<min (libraries * length baselineKinds) objects]"

definition programSlots :: "nat \<Rightarrow> nat \<Rightarrow> (objectKind \<times> nat) list" where
  "programSlots objects libraries =
     map (\<lambda>i. (kindProgram, i mod libraries)) [0..<objects - length (baselineSlots objects libraries)]"

definition planObjects :: "nat \<Rightarrow> nat \<Rightarrow> object list" where
  "planObjects objects libraries =
     snd (foldl addObject (\<lambda>_. 0, []) (baselineSlots objects libraries @ programSlots objects libraries))"

type_synonym ByLibrary = "nat \<Rightarrow> objectKind \<Rightarrow> object list"

definition groupByLibrary :: "object list \<Rightarrow> ByLibrary" where
  "groupByLibrary objects =
     foldl (\<lambda>byLib obj. byLib(obLibrary obj := (byLib (obLibrary obj))(obKind obj :=
              byLib (obLibrary obj) (obKind obj) @ [obj]))) (\<lambda>_ _. []) objects"

definition steplibChain :: "nat \<Rightarrow> nat \<Rightarrow> nat list" where
  "steplibChain lib libraries = (if libraries \<le> 1 then [] else [(lib + 1) mod libraries])"

definition reachableTargets :: "ByLibrary \<Rightarrow> nat \<Rightarrow> nat \<Rightarrow> objectKind \<Rightarrow> object list" where
  "reachableTargets byLib lib libraries kind =
     foldl (\<lambda>out step. out @ byLib step kind) (byLib lib kind) (steplibChain lib libraries)"

definition filterOutName :: "object list \<Rightarrow> string \<Rightarrow> object list" where
  "filterOutName candidates name = filter (\<lambda>c. obName c \<noteq> name) candidates"

section \<open>The configuration file\<close>

definition quoteList :: "string list \<Rightarrow> string" where
  "quoteList items = joinStrings (map quoteGo items) '', ''"

definition textLine :: "string \<Rightarrow> string" where
  "textLine s = s @ [LF]"

definition renderLibrary :: "nat \<Rightarrow> nat \<Rightarrow> string" where
  "renderLibrary libraries lib =
     textLine ''[[resolution.library]]'' @
     textLine (''name = '' @ quoteGo (libDir lib)) @
     textLine (''path = '' @ quoteGo (libDir lib)) @
     textLine (''steplibs = ['' @ quoteList (map libDir (steplibChain lib libraries)) @ '']'') @ textLine []"

definition renderConfig :: "nat \<Rightarrow> string" where
  "renderConfig libraries =
     textLine (''# Synthetic benchmark corpus '' @ [CHR 0xE2, CHR 0x80, CHR 0x94] @
           '' generated by internal/workspace/corpusgen.'') @
     textLine ''# Deterministic (seeded); regenerate rather than edit. Do not commit.'' @ textLine [] @
     textLine ''[workspace]'' @ textLine ''max_file_size_kb = 512'' @ textLine [] @
     textLine ''[resolution]'' @ textLine [] @
     concat (map (renderLibrary libraries) [0..<libraries])"

section \<open>Programs and subprograms\<close>

definition pick :: "'s Rand \<Rightarrow> object list \<Rightarrow> 's \<Rightarrow> object \<times> 's" where
  "pick rand candidates s = (case rnIntn rand (length candidates) s of (i, s') \<Rightarrow> (candidates ! i, s'))"

text \<open>A text made from a drawn target, when there is one to draw.\<close>

definition drawn :: "'s Rand \<Rightarrow> object list \<Rightarrow> (string \<Rightarrow> string) \<Rightarrow> 's \<Rightarrow> string \<times> 's" where
  "drawn rand candidates text s =
     (if candidates = [] then ([], s)
      else case pick rand candidates s of (obj, s') \<Rightarrow> (text (obName obj), s'))"

text \<open>An optional one: the draw that decides comes first, whether there is a target or not.\<close>

definition maybeDrawn :: "'s Rand \<Rightarrow> rat \<Rightarrow> object list \<Rightarrow> (string \<Rightarrow> string) \<Rightarrow> 's \<Rightarrow> string \<times> 's" where
  "maybeDrawn rand density candidates text s =
     (case rnFloat64 rand s of
        (x, s') \<Rightarrow> if x < density then drawn rand candidates text s' else ([], s'))"

definition callnatText :: "string \<Rightarrow> string" where
  "callnatText name = textLine (''CALLNAT '' @ [CHR 0x27] @ name @ [CHR 0x27])"

definition readText :: "string \<Rightarrow> string" where
  "readText name = textLine (''READ '' @ name @ '' BY CUSTOMER-ID'') @ textLine ''END-READ''"

definition findText :: "string \<Rightarrow> string" where
  "findText name = textLine (''FIND '' @ name @ '' WITH CUSTOMER-ID = #COUNTER'') @ textLine ''END-FIND''"

definition headerLine :: "string \<Rightarrow> object \<Rightarrow> string" where
  "headerLine what obj = textLine (''* Synthetic '' @ what @ '' '' @ obName obj @ '' (library '' @ libDir (obLibrary obj) @ '')'')"

text \<open>One text after the other, the draws in the order of the texts.\<close>

fun inOrder :: "('s \<Rightarrow> string \<times> 's) list \<Rightarrow> 's \<Rightarrow> string \<times> 's" where
  "inOrder [] s = ([], s)"
| "inOrder (f # fs) s = (case f s of (t, s') \<Rightarrow> (case inOrder fs s' of (ts, s'') \<Rightarrow> (t @ ts, s'')))"

definition renderProgram :: "'s Rand \<Rightarrow> object \<Rightarrow> ByLibrary \<Rightarrow> nat \<Rightarrow> rat \<Rightarrow> 's \<Rightarrow> string \<times> 's" where
  "renderProgram rand obj byLib libraries density s =
     (let reach = reachableTargets byLib (obLibrary obj) libraries;
          inlineName = ''LOCAL-'' @ obName obj;
          extra = [maybeDrawn rand density (reach kindSubprogram) callnatText,
                   maybeDrawn rand density (reach kindDDM) findText]
      in case inOrder
           ([drawn rand (reach kindSubprogram) callnatText,
             drawn rand (reach kindCopycode) (\<lambda>n. textLine (''INCLUDE '' @ n)),
             drawn rand (reach kindSubroutine) (\<lambda>n. textLine (''PERFORM '' @ n)),
             drawn rand (reach kindDDM) readText] @ extra @ extra) s of
           (body, s') \<Rightarrow>
             (headerLine ''program'' obj @ textLine ''DEFINE DATA'' @ textLine ''LOCAL'' @ textLine ''1 #COUNTER (I4)'' @
              textLine ''1 #NAME (A50)'' @ textLine ''END-DEFINE'' @ textLine ''*'' @ body @
              textLine (''PERFORM '' @ inlineName) @ textLine (''DEFINE SUBROUTINE '' @ inlineName) @
              textLine ''  ADD 1 TO #COUNTER'' @ textLine ''END-SUBROUTINE'' @ textLine ''END'', s'))"

definition renderSubprogram :: "'s Rand \<Rightarrow> object \<Rightarrow> ByLibrary \<Rightarrow> nat \<Rightarrow> rat \<Rightarrow> 's \<Rightarrow> string \<times> 's" where
  "renderSubprogram rand obj byLib libraries density s =
     (let filtered = filterOutName (reachableTargets byLib (obLibrary obj) libraries kindSubprogram) (obName obj)
      in case (if filtered \<noteq> [] then maybeDrawn rand density filtered callnatText s else ([], s)) of
           (onward, s') \<Rightarrow>
             (headerLine ''subprogram'' obj @ textLine ''DEFINE DATA'' @ textLine ''PARAMETER'' @ textLine ''1 #IN (A20)'' @
              textLine ''1 #OUT (N8)'' @ textLine ''END-DEFINE'' @ textLine ''*'' @ onward @ textLine ''END'', s'))"

section \<open>The other kinds\<close>

definition renderSubroutine :: "object \<Rightarrow> string" where
  "renderSubroutine obj =
     headerLine ''external subroutine'' obj @ textLine (''DEFINE SUBROUTINE '' @ obName obj) @ textLine ''  IGNORE'' @
     textLine ''END-SUBROUTINE''"

definition renderCopycode :: "object \<Rightarrow> string" where
  "renderCopycode obj = headerLine ''copycode'' obj @ textLine ''RESET #COUNTER''"

fun putAt :: "string \<Rightarrow> nat \<Rightarrow> string \<Rightarrow> string" where
  "putAt buf off [] = buf"
| "putAt buf off (c # s) = (if off < length buf then putAt (buf[off := c]) (off + 1) s else buf)"

definition trimRightSpaces :: "string \<Rightarrow> string" where
  "trimRightSpaces s = rev (dropWhile (\<lambda>c. c = SPACE) (rev s))"

definition ddmFieldRow :: "string \<Rightarrow> string \<Rightarrow> string \<Rightarrow> string \<Rightarrow> string \<Rightarrow> string \<Rightarrow> string" where
  "ddmFieldRow typeFlag level db name format len =
     textLine (trimRightSpaces
       (putAt (putAt (putAt (putAt (putAt (putAt (replicate 53 SPACE) 0 typeFlag) 2 level) 4 db) 7 name)
          41 format) 43 len))"

definition renderDDM :: "object \<Rightarrow> string" where
  "renderDDM obj =
     textLine (''DB: 000 FILE: 100  - '' @ obName obj) @ textLine ''TYPE: ADABAS'' @ textLine [] @
     textLine ''T L DB Name                              F Leng  S D Remark'' @
     textLine ''- - -- --------------------------------  - ----  - - ------------------------'' @
     ddmFieldRow [] ''1'' ''AA'' ''CUSTOMER-ID'' ''N'' ''8'' @
     ddmFieldRow [] ''1'' ''AB'' ''CUSTOMER-NAME'' ''A'' ''50'' @
     ddmFieldRow [] ''1'' ''AC'' ''BALANCE'' ''P'' ''9,2'' @
     textLine ''******DDM OUTPUT TERMINATED******''"

section \<open>Writing the files\<close>

definition withNewline :: "string \<Rightarrow> string" where
  "withNewline content = (if hasSuffix content [LF] then content else content @ [LF])"

type_synonym Written = "(string \<times> string) list \<times> string option"

definition writeCorpusFile :: "CorpusDisk \<Rightarrow> string \<Rightarrow> string \<Rightarrow> Written" where
  "writeCorpusFile disk relPath content =
     (case cdMkdir disk relPath of
        Some e \<Rightarrow> ([], Some (''corpusgen: mkdir for '' @ relPath @ '': '' @ e))
      | None \<Rightarrow>
          (case cdWrite disk relPath of
             Some e \<Rightarrow> ([], Some (''corpusgen: write '' @ relPath @ '': '' @ e))
           | None \<Rightarrow> ([(relPath, withNewline content)], None)))"

definition renderObject :: "'s Rand \<Rightarrow> ByLibrary \<Rightarrow> nat \<Rightarrow> rat \<Rightarrow> object \<Rightarrow> 's \<Rightarrow> string \<times> 's" where
  "renderObject rand byLib libraries density obj s =
     (case obKind obj of
        kindProgram \<Rightarrow> renderProgram rand obj byLib libraries density s
      | kindSubprogram \<Rightarrow> renderSubprogram rand obj byLib libraries density s
      | kindSubroutine \<Rightarrow> (renderSubroutine obj, s)
      | kindCopycode \<Rightarrow> (renderCopycode obj, s)
      | kindDDM \<Rightarrow> (renderDDM obj, s))"

text \<open>The objects in order; the first error ends it, what was written before stays.\<close>

fun writeObjects :: "('s \<Rightarrow> object \<Rightarrow> string \<times> 's) \<Rightarrow> CorpusDisk \<Rightarrow> object list \<Rightarrow> 's \<Rightarrow> Written" where
  "writeObjects render disk [] s = ([], None)"
| "writeObjects render disk (obj # objects) s =
     (case render s obj of
        (content, s') \<Rightarrow>
          (case writeCorpusFile disk (obRelPath obj) content of
             (files, Some e) \<Rightarrow> (files, Some e)
           | (files, None) \<Rightarrow>
               (case writeObjects render disk objects s' of (later, err) \<Rightarrow> (files @ later, err))))"

definition GenerateParams :: "'s Rand \<Rightarrow> CorpusDisk \<Rightarrow> string \<Rightarrow> Params \<Rightarrow> Written" where
  "GenerateParams rand disk targetDir params =
     (let p = normalizeParams params;
          libraries = nat (pmLibraries p);
          objects = planObjects (nat (pmObjects p)) libraries;
          perLib = groupByLibrary objects
      in if pmObjects p \<le> 0
         then ([], Some (''corpusgen: Objects must be positive, got '' @ itoa (pmObjects p)))
         else if targetDir = [] then ([], Some ''corpusgen: targetDir must not be empty'')
         else case cdTarget disk targetDir of
           Some e \<Rightarrow> ([], Some (''corpusgen: create target dir: '' @ e))
         | None \<Rightarrow>
             (case writeCorpusFile disk ''.natural-lsp.toml'' (renderConfig libraries) of
                (files, Some e) \<Rightarrow> (files, Some e)
              | (files, None) \<Rightarrow>
                  (case writeObjects (\<lambda>s obj. renderObject rand perLib libraries (pmDensity p) obj s) disk objects
                          (rnSource rand (pmSeed p)) of
                     (later, err) \<Rightarrow> (files @ later, err))))"

definition Generate :: "'s Rand \<Rightarrow> CorpusDisk \<Rightarrow> string \<Rightarrow> int \<Rightarrow> int \<Rightarrow> Written" where
  "Generate rand disk targetDir objectCount seed =
     GenerateParams rand disk targetDir \<lparr>pmObjects = objectCount, pmLibraries = 0, pmSeed = seed, pmDensity = 0\<rparr>"

end
