(* ===== verification/Corpus_Facts.thy ===== *)
theory Corpus_Facts
  imports Corpus FieldResolution_Facts Analyzer
begin

text \<open>
  Facts about generated workspaces: how many objects there are and where, that every reference the
  generator writes is resolved by the server to the object it was drawn from, and that the server reads
  the fields of a generated DDM back.
\<close>

section \<open>Names\<close>

lemma digitsValue_zeros: "digitsValue (replicate k (CHR ''0'') @ s) = digitsValue s"
  by (induction k) (simp_all add: digitsValue_def digitValue_def)

lemma padDigits_inj: "padDigits w m = padDigits w n \<Longrightarrow> m = n"
  using natDigits_value [of m] natDigits_value [of n] by (simp add: padDigits_def) (metis digitsValue_zeros of_nat_eq_iff)

lemma padDigits_digits: "list_all isDigitByte (padDigits w n)"
  using natDigits_digits [of n] by (auto simp: padDigits_def list_all_iff isDigitByte_def less_eq_char_def)

definition nameByte :: "char \<Rightarrow> bool" where
  "nameByte c \<longleftrightarrow> isDigitByte c \<or> isUpperByte c"

lemma nameByte_simps [simp]:
  "nameByte c \<Longrightarrow> c \<noteq> CHR ''/''" "nameByte c \<Longrightarrow> c \<noteq> CHR ''.''" "nameByte c \<Longrightarrow> c \<noteq> LF" "nameByte c \<Longrightarrow> c \<noteq> CR"
  "nameByte c \<Longrightarrow> byteToUpper c = c"
  by (auto simp: nameByte_def byte_defs less_eq_char_def)

lemma nameByte_slash [simp]: "\<not> nameByte (CHR ''/'')" "\<not> nameByte (CHR ''.'')" "\<not> nameByte LF" "\<not> nameByte CR"
  by (simp_all add: nameByte_def byte_defs less_eq_char_def)

lemma corpusName_bytes: "list_all nameByte (corpusName kind n)"
  using padDigits_digits [of 4 n]
  by (cases kind) (simp_all add: corpusName_def nameByte_def list_all_iff isUpperByte_def less_eq_char_def)

lemma libDir_bytes: "list_all nameByte (libDir lib)"
  using padDigits_digits [of 2 lib]
  by (simp add: libDir_def nameByte_def list_all_iff isUpperByte_def less_eq_char_def)

lemma corpusName_inj: "corpusName k m = corpusName l n \<longleftrightarrow> k = l \<and> m = n"
  by (cases k; cases l) (auto simp: corpusName_def dest: padDigits_inj)

lemma libDir_inj: "libDir m = libDir n \<longleftrightarrow> m = n"
  by (auto simp: libDir_def dest: padDigits_inj)

lemma names_nonempty [simp]: "corpusName k n \<noteq> []" "libDir l \<noteq> []"
  by (cases k) (simp_all add: corpusName_def libDir_def)

section \<open>Paths\<close>

lemma takeWhile_all: "list_all P s \<Longrightarrow> \<not> P c \<Longrightarrow> takeWhile P (s @ c # r) = s"
  by (induction s) auto

definition plainName :: "string \<Rightarrow> bool" where
  "plainName s \<longleftrightarrow> s \<noteq> [] \<and> list_all nameByte s"

lemma baseOf:
  assumes "list_all (\<lambda>c. c \<noteq> CHR ''/'') b"
  shows "rev (takeWhile (\<lambda>c. c \<noteq> CHR ''/'') (rev (d @ ''/'' @ b))) = b"
  using takeWhile_all [of "\<lambda>c. c \<noteq> CHR ''/''" "rev b" "CHR ''/''" "rev d"] assms by simp

lemma extFor_bytes: "list_all (\<lambda>c. c \<noteq> CHR ''/'') (extFor kind)" "toUpper (extFor kind) = extFor kind"
  by (cases kind; simp add: extFor_def toUpper_def byte_defs less_eq_char_def)+

lemma lastIndexByte_ext:
  assumes "list_all (\<lambda>c. c \<noteq> b) s"
  shows "lastIndexByte (n @ b # s) b = Some (length n)"
proof -
  have "indexByte (r @ b # t) b = Some (length r)" if "list_all (\<lambda>c. c \<noteq> b) r" for r t
    using that by (induction r) auto
  from this [of "rev s" "rev n"] show ?thesis using assms by (simp add: lastIndexByte_def)
qed

lemma noSlash: "plainName s \<Longrightarrow> list_all (\<lambda>c. c \<noteq> CHR ''/'') s"
  unfolding plainName_def by (erule conjE, erule list.pred_mono_strong, rule nameByte_simps)

lemma relPathFor_nonempty: "relPathFor kind lib name = [] \<longleftrightarrow> False"
  by (simp add: relPathFor_def)

lemma plainName_corpus: "plainName (corpusName kind n)"
  by (simp add: plainName_def corpusName_bytes)

lemma corpus_path:
  assumes "plainName name"
  shows "pathBase (relPathFor kind lib name) = name @ extFor kind"
    and "pathExt (relPathFor kind lib name) = extFor kind"
    and "objectName (relPathFor kind lib name) = name"
proof -
  have slashes: "list_all (\<lambda>c. c \<noteq> CHR ''/'') (name @ extFor kind)"
    using noSlash [OF assms] extFor_bytes(1) by simp
  have base: "rev (takeWhile (\<lambda>c. c \<noteq> CHR ''/'') (rev (relPathFor kind lib name))) = name @ extFor kind"
    using baseOf [OF slashes, of "libDir lib"] by (simp add: relPathFor_def)
  have "dropWhile (\<lambda>c. c = CHR ''/'') (rev (relPathFor kind lib name)) = rev (relPathFor kind lib name)"
    by (cases kind) (simp_all add: relPathFor_def extFor_def)
  then show pb: "pathBase (relPathFor kind lib name) = name @ extFor kind"
    using base assms relPathFor_nonempty by (simp only: pathBase_def Let_def rev_rev_ident if_False) (simp add: plainName_def)
  have ext: "pathExt p = extFor kind" if "rev (takeWhile (\<lambda>c. c \<noteq> CHR ''/'') (rev p)) = name @ extFor kind" for p
    using lastIndexByte_ext [of "CHR ''.''" "tl (extFor kind)" name] unfolding pathExt_def that Let_def
    by (cases kind) (simp_all add: extFor_def)
  show "pathExt (relPathFor kind lib name) = extFor kind" by (rule ext [OF base])
  have "takeWhile (\<lambda>c. c \<noteq> CHR ''/'') (rev (name @ extFor kind)) = rev (name @ extFor kind)"
    using slashes by (simp add: takeWhile_eq_all_conv list_all_iff del: rev_append)
  then have "rev (takeWhile (\<lambda>c. c \<noteq> CHR ''/'') (rev (name @ extFor kind))) = name @ extFor kind"
    by (simp only: rev_rev_ident)
  then have "pathExt (name @ extFor kind) = extFor kind" by (rule ext)
  moreover have "toUpper name = name" using assms by (simp add: plainName_def toUpper_def list_all_iff map_idI)
  ultimately show "objectName (relPathFor kind lib name) = name"
    by (simp add: objectName_def pb trimSuffix_def hasSuffix_def)
qed

definition kindType :: "objectKind \<Rightarrow> ObjectType" where
  "kindType kind =
     (case kind of
        kindSubprogram \<Rightarrow> ObjectSubprogram | kindSubroutine \<Rightarrow> ObjectExternalSubroutine
      | kindCopycode \<Rightarrow> ObjectCopycode | kindDDM \<Rightarrow> ObjectDDM | kindProgram \<Rightarrow> ObjectProgram)"

lemma classify_corpus: "plainName name \<Longrightarrow> classify (relPathFor kind lib name) Map.empty = kindType kind"
  by (cases kind)
    (simp_all add: classify_def normalizeExt_def corpus_path extFor_bytes kindType_def,
     simp_all add: extFor_def builtInExtensions_def)

section \<open>The library map\<close>

text \<open>What the generated configuration declares.\<close>

definition corpusLibrary :: "nat \<Rightarrow> nat \<Rightarrow> Library" where
  "corpusLibrary n lib = \<lparr>libName = libDir lib, libPath = libDir lib, Steplibs = map libDir (steplibChain lib n)\<rparr>"

definition corpusLibraries :: "nat \<Rightarrow> Library list" where
  "corpusLibraries n = map (corpusLibrary n) [0..<n]"

lemma takeWhile_slash: "list_all nameByte d \<Longrightarrow> takeWhile (\<lambda>c. c \<noteq> CHR ''/'') (d @ CHR ''/'' # s) = d"
  by (rule takeWhile_all) (erule list.pred_mono_strong, auto)

lemma prefixOfKey_corpus: "prefixOfKey (relPathFor kind lib name) (libDir l) \<longleftrightarrow> l = lib"
proof
  assume p: "prefixOfKey (relPathFor kind lib name) (libDir l)"
  then obtain r where r: "relPathFor kind lib name = libDir l @ r" by (auto simp: prefixOfKey_def hasPrefix_iff)
  have "CHR ''/'' \<in> set (relPathFor kind lib name)" by (simp add: relPathFor_def)
  moreover have "CHR ''/'' \<notin> set (libDir l)" using libDir_bytes [of l] nameByte_slash(1) by (metis list_all_iff)
  ultimately have "r \<noteq> []" using r by auto
  then obtain s where "r = CHR ''/'' # s" using p r by (cases r) (auto simp: prefixOfKey_def nth_append)
  then have "libDir lib = libDir l"
    using arg_cong [OF r, of "takeWhile (\<lambda>c. c \<noteq> CHR ''/'')"] by (simp add: relPathFor_def takeWhile_slash libDir_bytes)
  then show "l = lib" by (simp add: libDir_inj)
qed (simp add: prefixOfKey_def relPathFor_def nth_append)

lemma objectLibrary_corpus:
  assumes "Libraries (cfgResolution c) = corpusLibraries n" "lib < n"
  shows "objectLibrary (relPathFor kind lib name) (Some c) = libDir lib"
proof -
  have "foldl (longestStep (relPathFor kind lib name)) ([], 0) (map (corpusLibrary n) [0..<k])
      = (if lib < k then (libDir lib, length (libDir lib)) else ([], 0))" for k
    by (induction k) (simp_all add: corpusLibrary_def longestStep_def prefixOfKey_corpus less_Suc_eq)
  then show ?thesis using assms by (simp add: objectLibrary_def corpusLibraries_def)
qed

lemma find_unique:
  assumes "x \<in> set xs" "P x" "\<And>y. y \<in> set xs \<Longrightarrow> P y \<Longrightarrow> y = x"
  shows "find P xs = Some x"
proof -
  from find_None_iff [of P xs] assms(1,2) obtain y where y: "find P xs = Some y" by (cases "find P xs") blast+
  from find_SomeD [OF this] have "y = x" using assms(3) by blast
  with y show ?thesis by simp
qed

lemma chainOf_corpus:
  assumes "Libraries (cfgResolution c) = corpusLibraries n" "lib < n"
  shows "chainOf (relPathFor kind lib name) (Some c) = libDir lib # map libDir (steplibChain lib n) @ [''SYSTEM'']"
proof -
  have "find (\<lambda>l. libName l = libDir lib) (corpusLibraries n) = Some (corpusLibrary n lib)"
    using assms(2) by (intro find_unique) (auto simp: corpusLibraries_def corpusLibrary_def libDir_inj)
  then show ?thesis
    using assms objectLibrary_corpus [OF assms]
    by (simp add: chainOf_def objectIdentity_def buildSearchChain_def declaredSteplibs_def corpusLibrary_def)
qed

section \<open>The plan\<close>

text \<open>The objects of a list of slots, numbered by kind.\<close>

fun numbered :: "(objectKind \<Rightarrow> nat) \<Rightarrow> (objectKind \<times> nat) list \<Rightarrow> object list" where
  "numbered counters [] = []"
| "numbered counters ((kind, lib) # slots) =
     \<lparr>obKind = kind, obName = corpusName kind (counters kind), obLibrary = lib,
      obRelPath = relPathFor kind lib (corpusName kind (counters kind))\<rparr>
     # numbered (counters(kind := Suc (counters kind))) slots"

lemma foldl_addObject: "snd (foldl addObject (counters, objects) slots) = objects @ numbered counters slots"
  by (induction counters slots arbitrary: objects rule: numbered.induct)
    (simp_all add: addObject_def Let_def)

lemma numbered_slots: "map (\<lambda>ob. (obKind ob, obLibrary ob)) (numbered counters slots) = slots"
  by (induction slots arbitrary: counters) auto

lemma numbered_member:
  "ob \<in> set (numbered counters slots) \<Longrightarrow>
     \<exists>n\<ge>counters (obKind ob). obName ob = corpusName (obKind ob) n \<and> obRelPath ob = relPathFor (obKind ob) (obLibrary ob) (obName ob)"
proof (induction slots arbitrary: counters)
  case (Cons slot slots)
  obtain kind lib where slot: "slot = (kind, lib)" by fastforce
  show ?case
  proof (cases "ob \<in> set (numbered (counters(kind := Suc (counters kind))) slots)")
    case True
    from Cons.IH [OF this] show ?thesis by (auto split: if_splits dest: Suc_leD)
  qed (use Cons.prems slot in auto)
qed simp

lemma numbered_distinct: "distinct (map obName (numbered counters slots))"
proof (induction slots arbitrary: counters)
  case (Cons slot slots)
  obtain kind lib where slot: "slot = (kind, lib)" by fastforce
  have "obName ob \<noteq> corpusName kind (counters kind)"
    if "ob \<in> set (numbered (counters(kind := Suc (counters kind))) slots)" for ob
    using numbered_member [OF that] by (auto simp: corpusName_inj split: if_splits)
  then have "corpusName kind (counters kind) \<notin> obName ` set (numbered (counters(kind := Suc (counters kind))) slots)"
    by force
  with Cons.IH show ?case by (simp add: slot)
qed simp

definition planSlots :: "nat \<Rightarrow> nat \<Rightarrow> (objectKind \<times> nat) list" where
  "planSlots objects libraries = baselineSlots objects libraries @ programSlots objects libraries"

lemma planObjects_numbered: "planObjects objects libraries = numbered (\<lambda>_. 0) (planSlots objects libraries)"
  by (simp add: planObjects_def planSlots_def foldl_addObject del: foldl_append)

lemma plan_kind_library:
  "(\<exists>ob\<in>set (planObjects objects libraries). obKind ob = kind \<and> obLibrary ob = lib) \<longleftrightarrow>
     (kind, lib) \<in> set (planSlots objects libraries)"
proof -
  have "set (planSlots objects libraries) = (\<lambda>ob. (obKind ob, obLibrary ob)) ` set (planObjects objects libraries)"
    using arg_cong [OF numbered_slots, of set, of "\<lambda>_. 0" "planSlots objects libraries"]
    unfolding planObjects_numbered by simp
  then show ?thesis by auto
qed

lemma plan_member:
  assumes "ob \<in> set (planObjects objects libraries)"
  shows "plainName (obName ob)" "obRelPath ob = relPathFor (obKind ob) (obLibrary ob) (obName ob)"
    "libraries > 0 \<Longrightarrow> obLibrary ob < libraries"
proof -
  show "plainName (obName ob)" "obRelPath ob = relPathFor (obKind ob) (obLibrary ob) (obName ob)"
    using numbered_member [OF assms [unfolded planObjects_numbered]] by (auto simp: plainName_corpus)
  have "(obKind ob, obLibrary ob) \<in> set (planSlots objects libraries)"
    using plan_kind_library assms by blast
  then show "libraries > 0 \<Longrightarrow> obLibrary ob < libraries"
    by (auto simp: planSlots_def baselineSlots_def programSlots_def)
qed

lemma plan_names_inj:
  "ob \<in> set (planObjects objects libraries) \<Longrightarrow> ob2 \<in> set (planObjects objects libraries) \<Longrightarrow> obName ob = obName ob2 \<Longrightarrow> ob = ob2"
  using numbered_distinct [of "\<lambda>_. 0" "planSlots objects libraries"]
  unfolding planObjects_numbered [symmetric] by (auto simp: distinct_map dest: inj_onD)

text \<open>A program is planned only when every library has its objects of the other kinds.\<close>

lemma baseline_complete:
  assumes "ob \<in> set (planObjects objects libraries)" "obKind ob = kindProgram" "lib < libraries" "kind \<noteq> kindProgram"
  shows "(kind, lib) \<in> set (planSlots objects libraries)"
proof -
  have "(kindProgram, obLibrary ob) \<in> set (planSlots objects libraries)"
    using plan_kind_library [of objects libraries kindProgram "obLibrary ob"] assms(1,2) by blast
  moreover have "kindProgram \<notin> fst ` set (baselineSlots objects libraries)"
  proof -
    have "baselineKinds ! (i mod 4) \<noteq> kindProgram" for i
    proof -
      have "i mod 4 \<in> {0, 1, 2, 3}" by auto
      then show ?thesis by (auto simp: baselineKinds_def)
    qed
    moreover have "length baselineKinds = 4" by (simp add: baselineKinds_def)
    ultimately show ?thesis by (auto simp: baselineSlots_def eq_commute [of kindProgram])
  qed
  ultimately have "programSlots objects libraries \<noteq> []" by (force simp: planSlots_def)
  then have more: "4 * libraries < objects"
    by (auto simp: programSlots_def baselineSlots_def baselineKinds_def split: if_splits)
  have "kind \<in> set baselineKinds" "length baselineKinds = 4"
    using assms(4) by (cases kind) (simp_all add: baselineKinds_def)
  then obtain j where j: "j < 4" "baselineKinds ! j = kind" by (auto simp: in_set_conv_nth)
  have "4 * lib + j < 4 * libraries" using assms(3) j(1) by linarith
  moreover have "(4 * lib + j) mod 4 = j" "(4 * lib + j) div 4 = lib" using j(1) by simp_all
  ultimately have "(kind, lib) \<in> set (baselineSlots objects libraries)"
    using more assms(3) j(2) unfolding baselineSlots_def set_map
    by (intro image_eqI [where x = "4 * lib + j"]) (auto simp: baselineKinds_def)
  then show ?thesis by (simp add: planSlots_def)
qed

section \<open>Reachable targets\<close>

lemma groupByLibrary_filter:
  "groupByLibrary objects lib kind = filter (\<lambda>ob. obLibrary ob = lib \<and> obKind ob = kind) objects"
  by (induction objects arbitrary: lib kind rule: rev_induct) (auto simp: groupByLibrary_def)

definition reaches :: "nat \<Rightarrow> nat \<Rightarrow> nat \<Rightarrow> bool" where
  "reaches libraries lib l \<longleftrightarrow> l = lib \<or> l \<in> set (steplibChain lib libraries)"

lemma reachableTargets_set:
  "set (reachableTargets (groupByLibrary objects) lib libraries kind) =
     {ob \<in> set objects. obKind ob = kind \<and> reaches libraries lib (obLibrary ob)}"
  by (auto simp: reachableTargets_def steplibChain_def groupByLibrary_filter reaches_def)

text \<open>What an index of the generated workspace holds: its files, each with the type of its extension.\<close>

definition indexesCorpus :: "object list \<Rightarrow> Index \<Rightarrow> bool" where
  "indexesCorpus objects idx \<longleftrightarrow>
     cacheInv idx \<and> fst ` set (ixEntries idx) = obRelPath ` set objects \<and>
     (\<forall>(p, fa) \<in> set (ixEntries idx). faObjectType fa = classify p Map.empty)"

lemma corpus_bindable:
  assumes idx: "indexesCorpus (planObjects m n) idx" and t: "t \<in> set (planObjects m n)"
  shows "bindable (ixEntries idx) (obName t) (kindType (obKind t)) p \<longleftrightarrow> p = obRelPath t"
proof
  have paths: "objectName (obRelPath ob) = obName ob" "classify (obRelPath ob) Map.empty = kindType (obKind ob)"
    if "ob \<in> set (planObjects m n)" for ob
    using plan_member(1,2) [OF that] by (simp_all add: corpus_path classify_corpus)
  have up: "toUpper (obName t) = obName t"
    using plan_member(1) [OF t] by (simp add: plainName_def toUpper_def list_all_iff map_idI)
  {
    assume "bindable (ixEntries idx) (obName t) (kindType (obKind t)) p"
    then obtain fa where "(p, fa) \<in> set (ixEntries idx)" "objectName p = obName t"
      using up by (auto simp: bindable_def dest: map_of_SomeD)
    then obtain ob where "ob \<in> set (planObjects m n)" "p = obRelPath ob" "obName ob = obName t"
      using idx paths(1) unfolding indexesCorpus_def by (metis fst_conv image_iff)
    then show "p = obRelPath t" using plan_names_inj t by blast
  }
  assume p: "p = obRelPath t"
  then obtain fa where fa: "(p, fa) \<in> set (ixEntries idx)"
    using idx t unfolding indexesCorpus_def by (metis (no_types, lifting) image_iff prod.collapse)
  then have "map_of (ixEntries idx) p = Some fa" "faObjectType fa = classify p Map.empty"
    using idx by (auto simp: indexesCorpus_def cacheInv_def wellFormed_def)
  then show "bindable (ixEntries idx) (obName t) (kindType (obKind t)) p"
    using p paths [OF t] up by (simp add: bindable_def)
qed

lemma corpus_binding:
  assumes n: "n > 0" and cfg: "Libraries (cfgResolution c) = corpusLibraries n"
    and idx: "indexesCorpus (planObjects m n) idx"
    and caller: "caller \<in> set (planObjects m n)" and t: "t \<in> set (planObjects m n)"
    and reach: "reaches n (obLibrary caller) (obLibrary t)" and edge: "eeLibrary edge = []"
  shows "resolveByName (obName t) (kindType (obKind t)) (obRelPath caller) edge
           (bucket (buildNameIndex idx (Some c))) (Some c) = (Resolved (obRelPath t) (kindType (obKind t)), [])"
proof -
  let ?chain = "chainOf (obRelPath caller) (Some c)"
  have lib: "obLibrary ob < n" "objectLibrary (obRelPath ob) (Some c) = libDir (obLibrary ob)"
    if "ob \<in> set (planObjects m n)" for ob
    using plan_member [OF that] n objectLibrary_corpus [OF cfg] by simp_all
  have chain: "?chain = libDir (obLibrary caller) # map libDir (steplibChain (obLibrary caller) n) @ [''SYSTEM'']"
    using chainOf_corpus [OF cfg lib(1) [OF caller]] plan_member(2) [OF caller] by simp
  have map: "hasLibraryMap (Some c)" using cfg n by (simp add: hasLibraryMap_def corpusLibraries_def)
  have inChain: "objectLibrary (obRelPath t) (Some c) \<in> set ?chain"
    using reach lib(2) [OF t] by (auto simp: chain reaches_def)
  have w: "wellFormed (ixEntries idx)" using idx by (simp add: indexesCorpus_def cacheInv_def)
  have nonempty: "obName t \<noteq> []" using plan_member(1) [OF t] by (simp add: plainName_def)
  have b: "bindable (ixEntries idx) (obName t) (kindType (obKind t)) p \<longleftrightarrow> p = obRelPath t" for p
    by (rule corpus_bindable [OF idx t])
  from nameIndex.chain_binding [OF w, where cfg = "Some c" and n = "obName t" and t = "kindType (obKind t)" and chain = ?chain]
  show ?thesis
    using b inChain map nonempty edge
    by (auto simp: resolveByName_def buildNameIndex_def Let_def chain split: option.splits)
qed

text \<open>The view a data access names is found the same way.\<close>

lemma corpus_view:
  assumes n: "n > 0" and cfg: "Libraries (cfgResolution c) = corpusLibraries n"
    and idx: "indexesCorpus (planObjects m n) idx"
    and caller: "caller \<in> set (planObjects m n)" and t: "t \<in> set (planObjects m n)" and view: "obKind t = kindDDM"
    and reach: "reaches n (obLibrary caller) (obLibrary t)"
  shows "fst (ResolveDDMPath (obName t) idx (obRelPath caller) (Some (g, c))) = obRelPath t"
proof -
  let ?edge = "\<lparr>eeSource = zeroRange, eeTarget = zeroRange, eeKind = EdgeReads, eeTargetName = [], eeLibrary = []\<rparr>"
  let ?cs = "filterByType (bucket (buildNameMapFrom (ixEntries idx) (Some c)) (toUpper (obName t))) ObjectDDM"
  let ?chain = "chainOf (obRelPath caller) (Some c)"
  have bound: "resolveByName (obName t) ObjectDDM (obRelPath caller) ?edge (bucket (buildNameIndex idx (Some c))) (Some c)
      = (Resolved (obRelPath t) ObjectDDM, [])"
    using corpus_binding [OF n cfg idx caller t reach, of ?edge] view by (simp add: kindType_def)
  have lib: "obLibrary caller < n" using plan_member(3) n caller by blast
  have chain: "?chain \<noteq> []" "hasLibraryMap (Some c)"
    using chainOf_corpus [OF cfg lib] plan_member(2) [OF caller] cfg n
    by (simp_all add: hasLibraryMap_def corpusLibraries_def)
  have nonempty: "toUpper (obName t) \<noteq> []" using plan_member(1) [OF t] by (simp add: plainName_def toUpper_def)
  obtain x where x: "resolveViaChain ?cs ?chain = Some x" "cdPath x = obRelPath t"
    using bound chain nonempty by (auto simp: resolveByName_def buildNameIndex_def Let_def split: option.splits)
  have "resolveViaChain [] ch = None" for ch by (induction ch) simp_all
  with x(1) have "?cs \<noteq> []" by force
  moreover obtain cs idx' where l: "LookupByName (obName t) ObjectDDM (Some (g, c)) idx = (cs, idx')" by fastforce
  moreover have "cs = ?cs"
    using cached_step(3) [OF _ l] idx by (simp add: indexesCorpus_def lookupIn_filter configOf_def)
  ultimately show ?thesis
    using x chain(1) by (simp add: ResolveDDMPath_def resolveCandidateViaChain_def chainOf_def Let_def configOf_def)
qed

section \<open>The references of a program\<close>

datatype reference =
    CallRef (refTarget: object) | IncludeRef (refTarget: object) | PerformRef (refTarget: object)
  | ReadRef (refTarget: object) | FindRef (refTarget: object)

fun refText :: "reference \<Rightarrow> string" where
  "refText (CallRef t) = callnatText (obName t)"
| "refText (IncludeRef t) = textLine (''INCLUDE '' @ obName t)"
| "refText (PerformRef t) = textLine (''PERFORM '' @ obName t)"
| "refText (ReadRef t) = readText (obName t)"
| "refText (FindRef t) = findText (obName t)"

text \<open>
  The kind of object a reference needs, and what the analysis makes of it: an edge, or the data access of
  a READ or FIND.
\<close>

fun refKind :: "reference \<Rightarrow> objectKind" where
  "refKind (CallRef _) = kindSubprogram"
| "refKind (IncludeRef _) = kindCopycode"
| "refKind (PerformRef _) = kindSubroutine"
| "refKind (ReadRef _) = kindDDM"
| "refKind (FindRef _) = kindDDM"

definition refEdge :: "reference \<Rightarrow> EdgeEntry \<Rightarrow> bool" where
  "refEdge r e \<longleftrightarrow>
     eeLibrary e = [] \<and> eeTargetName e = obName (refTarget r) \<and>
     (case refKind r of
        kindSubprogram \<Rightarrow> eeKind e = EdgeCalls
      | kindCopycode \<Rightarrow> eeKind e = EdgeIncludes
      | kindSubroutine \<Rightarrow> eeKind e = EdgePerforms \<and> isZeroRange (eeTarget e)
      | kindDDM \<Rightarrow> False
      | kindProgram \<Rightarrow> False)"

definition refAccess :: "reference \<Rightarrow> DataAccessEntry \<Rightarrow> bool" where
  "refAccess r a \<longleftrightarrow> refKind r = kindDDM \<and> daName a = obName (refTarget r)"

text \<open>The file the server finds for a reference of the caller, by its edge or its data access.\<close>

definition leadsTo :: "Index \<Rightarrow> Config \<Rightarrow> object \<Rightarrow> reference \<Rightarrow> bool" where
  "leadsTo idx c caller r \<longleftrightarrow>
     (\<forall>edge typ. refEdge r edge \<longrightarrow>
        resolveEdge edge (obRelPath caller) typ (bucket (buildNameIndex idx (Some c))) (Some c)
          = (Resolved (obRelPath (refTarget r)) (kindType (refKind r)), [])) \<and>
     (\<forall>access g. refAccess r access \<longrightarrow>
        fst (ResolveDDMPath (daName access) idx (obRelPath caller) (Some (g, c))) = obRelPath (refTarget r))"

text \<open>
  The edges and accesses have the shape the analysis gives them, on the statements of the five kinds.
\<close>

definition recorded :: "reference \<Rightarrow> bool" where
  "recorded r \<longleftrightarrow>
     (let fa = Analyze Map.empty ''LIB00/PROG0000.NSP'' (refText r)
      in (case refKind r of
            kindDDM \<Rightarrow> faEdges fa = [] \<and> length (faDataAccess fa) = 1 \<and> list_all (refAccess r) (faDataAccess fa)
          | _ \<Rightarrow> faDataAccess fa = [] \<and> length (faEdges fa) = 1 \<and> list_all (refEdge r) (faEdges fa)))"

definition sampleObject :: "objectKind \<Rightarrow> object" where
  "sampleObject kind = \<lparr>obKind = kind, obName = corpusName kind 0, obLibrary = 0, obRelPath = relPathFor kind 0 (corpusName kind 0)\<rparr>"

lemma statements_recorded:
  "recorded (CallRef (sampleObject kindSubprogram))" "recorded (IncludeRef (sampleObject kindCopycode))"
  "recorded (PerformRef (sampleObject kindSubroutine))" "recorded (ReadRef (sampleObject kindDDM))"
  "recorded (FindRef (sampleObject kindDDM))"
  by code_simp+

definition programText :: "object \<Rightarrow> reference list \<Rightarrow> string" where
  "programText obj refs =
     headerLine ''program'' obj @ textLine ''DEFINE DATA'' @ textLine ''LOCAL'' @ textLine ''1 #COUNTER (I4)'' @
     textLine ''1 #NAME (A50)'' @ textLine ''END-DEFINE'' @ textLine ''*'' @ concat (map refText refs) @
     textLine (''PERFORM LOCAL-'' @ obName obj) @ textLine (''DEFINE SUBROUTINE LOCAL-'' @ obName obj) @
     textLine ''  ADD 1 TO #COUNTER'' @ textLine ''END-SUBROUTINE'' @ textLine ''END''"

definition fairRand :: "'s Rand \<Rightarrow> bool" where
  "fairRand rand \<longleftrightarrow> (\<forall>k s. 0 < k \<longrightarrow> fst (rnIntn rand k s) < k)"

lemma drawn_target:
  assumes "fairRand rand" "candidates \<noteq> []"
  shows "\<exists>t\<in>set candidates. fst (drawn rand candidates tx s) = tx (obName t)"
proof -
  let ?i = "fst (rnIntn rand (length candidates) s)"
  have "?i < length candidates" using assms by (simp add: fairRand_def)
  then show ?thesis using assms(2)
    by (intro bexI [of _ "candidates ! ?i"]) (simp_all add: drawn_def pick_def split: prod.split)
qed

lemma maybeDrawn_target:
  assumes "fairRand rand"
  shows "fst (maybeDrawn rand density candidates tx s) = [] \<or>
    (\<exists>t\<in>set candidates. fst (maybeDrawn rand density candidates tx s) = tx (obName t))"
  using drawn_target [OF assms] by (cases "candidates = []") (auto simp: maybeDrawn_def drawn_def split: prod.split)

lemma inOrder_Cons: "fst (inOrder (f # fs) s) = fst (f s) @ fst (inOrder fs (snd (f s)))"
  by (simp split: prod.split)

text \<open>What one of the drawing functions may write: one reference, or at most one.\<close>

definition oneOf :: "(object \<Rightarrow> reference) \<Rightarrow> object list \<Rightarrow> reference list \<Rightarrow> bool" where
  "oneOf mk candidates refs \<longleftrightarrow> (\<exists>t\<in>set candidates. refs = [mk t])"

definition writesRefs :: "(reference list \<Rightarrow> bool) \<Rightarrow> ('s \<Rightarrow> string \<times> 's) \<Rightarrow> bool" where
  "writesRefs Q f \<longleftrightarrow> (\<forall>s. \<exists>refs. fst (f s) = concat (map refText refs) \<and> Q refs)"

lemma writes_drawn:
  assumes "fairRand rand" "candidates \<noteq> []" "\<And>t. refText (mk t) = tx (obName t)"
  shows "writesRefs (oneOf mk candidates) (drawn rand candidates tx)"
  unfolding writesRefs_def
proof
  fix s
  obtain t where "t \<in> set candidates" "fst (drawn rand candidates tx s) = tx (obName t)"
    using drawn_target [OF assms(1,2)] by blast
  then show "\<exists>refs. fst (drawn rand candidates tx s) = concat (map refText refs) \<and> oneOf mk candidates refs"
    by (intro exI [of _ "[mk t]"]) (auto simp: oneOf_def assms(3))
qed

lemma writes_maybeDrawn:
  assumes "fairRand rand" "\<And>t. refText (mk t) = tx (obName t)"
  shows "writesRefs (\<lambda>refs. refs = [] \<or> oneOf mk candidates refs) (maybeDrawn rand density candidates tx)"
  unfolding writesRefs_def
proof
  fix s
  from maybeDrawn_target [OF assms(1), of density candidates tx s]
  show "\<exists>refs. fst (maybeDrawn rand density candidates tx s) = concat (map refText refs) \<and>
      (refs = [] \<or> oneOf mk candidates refs)"
  proof
    assume "\<exists>t\<in>set candidates. fst (maybeDrawn rand density candidates tx s) = tx (obName t)"
    then obtain t where "t \<in> set candidates" "fst (maybeDrawn rand density candidates tx s) = tx (obName t)" ..
    then show ?thesis by (intro exI [of _ "[mk t]"]) (auto simp: oneOf_def assms(2))
  next
    assume "fst (maybeDrawn rand density candidates tx s) = []"
    then show ?thesis by (intro exI [of _ "[]"]) simp
  qed
qed

lemma writes_inOrder:
  "list_all2 writesRefs Qs fs \<Longrightarrow>
     \<exists>rss. fst (inOrder fs s) = concat (map refText (concat rss)) \<and> list_all2 (\<lambda>Q refs. Q refs) Qs rss"
proof (induction Qs fs arbitrary: s rule: list_all2_induct)
  case (Cons Q Qs f fs)
  obtain refs where refs: "fst (f s) = concat (map refText refs)" "Q refs" using Cons.hyps(1) by (auto simp: writesRefs_def)
  obtain rss where "fst (inOrder fs (snd (f s))) = concat (map refText (concat rss))" "list_all2 (\<lambda>Q refs. Q refs) Qs rss"
    using Cons.IH by blast
  with refs show ?case
    by (intro exI [of _ "refs # rss"]) (simp add: inOrder_Cons del: inOrder.simps)
qed simp

lemma renderProgram_refs:
  assumes fair: "fairRand rand" and ne: "\<forall>kind. kind \<noteq> kindProgram \<longrightarrow> reach kind \<noteq> []"
    and reach: "reach = reachableTargets byLib (obLibrary caller) libraries"
  shows "\<exists>refs. fst (renderProgram rand caller byLib libraries density s) = programText caller refs \<and>
     map refKind (take 4 refs) = [kindSubprogram, kindCopycode, kindSubroutine, kindDDM] \<and>
     (\<forall>r\<in>set refs. refTarget r \<in> set (reach (refKind r)))"
proof -
  let ?extra = "[maybeDrawn rand density (reach kindSubprogram) callnatText,
                 maybeDrawn rand density (reach kindDDM) findText]"
  let ?fs = "[drawn rand (reach kindSubprogram) callnatText, drawn rand (reach kindCopycode) (\<lambda>n. textLine (''INCLUDE '' @ n)),
     drawn rand (reach kindSubroutine) (\<lambda>n. textLine (''PERFORM '' @ n)), drawn rand (reach kindDDM) readText] @ ?extra @ ?extra"
  let ?opt = "\<lambda>mk kind refs. refs = [] \<or> oneOf mk (reach kind) refs"
  have "list_all2 writesRefs
      [oneOf CallRef (reach kindSubprogram), oneOf IncludeRef (reach kindCopycode),
       oneOf PerformRef (reach kindSubroutine), oneOf ReadRef (reach kindDDM),
       ?opt CallRef kindSubprogram, ?opt FindRef kindDDM, ?opt CallRef kindSubprogram, ?opt FindRef kindDDM] ?fs"
    using fair ne by (simp add: writes_drawn writes_maybeDrawn)
  from writes_inOrder [OF this, of s] obtain rss where
    body: "fst (inOrder ?fs s) = concat (map refText (concat rss))" and
    rss: "list_all2 (\<lambda>Q refs. Q refs)
      [oneOf CallRef (reach kindSubprogram), oneOf IncludeRef (reach kindCopycode),
       oneOf PerformRef (reach kindSubroutine), oneOf ReadRef (reach kindDDM),
       ?opt CallRef kindSubprogram, ?opt FindRef kindDDM, ?opt CallRef kindSubprogram, ?opt FindRef kindDDM] rss"
    by blast
  have "fst (renderProgram rand caller byLib libraries density s) = programText caller (concat rss)"
    using body unfolding reach renderProgram_def Let_def programText_def case_prod_unfold
    by (simp del: inOrder.simps)
  moreover have "map refKind (take 4 (concat rss)) = [kindSubprogram, kindCopycode, kindSubroutine, kindDDM] \<and>
     (\<forall>r\<in>set (concat rss). refTarget r \<in> set (reach (refKind r)))"
    using rss by (auto simp: list_all2_Cons1 oneOf_def)
  ultimately show ?thesis by (intro exI [of _ "concat rss"]) simp
qed

text \<open>
  C18. Generated programs resolve. Whatever is drawn, the text of a generated program is its frame around a
  list of references, the first four of them a call, an include, a perform and a read; each of them
  names an object of the plan; and in an index of the workspace, under the library map of the
  generated configuration, an edge (of a call, include or perform) or data access (of a read or find) with
  the name and kind of the reference leads the server to the file of that object. That the analysis makes
  such edges and accesses of the statements is evaluated on one of each kind
  (\<open>statements_recorded\<close>), not proved of every text.
\<close>

theorem generated_references_resolve:
  assumes "n > 0" and "Libraries (cfgResolution c) = corpusLibraries n"
    and "indexesCorpus (planObjects m n) idx"
    and "caller \<in> set (planObjects m n)" and "obKind caller = kindProgram" and "fairRand rand"
  shows "\<exists>refs. fst (renderProgram rand caller (groupByLibrary (planObjects m n)) n density s) = programText caller refs \<and>
     map refKind (take 4 refs) = [kindSubprogram, kindCopycode, kindSubroutine, kindDDM] \<and>
     (\<forall>r\<in>set refs. refTarget r \<in> set (planObjects m n) \<and> obKind (refTarget r) = refKind r \<and> leadsTo idx c caller r)"
proof -
  let ?objects = "planObjects m n"
  let ?reach = "reachableTargets (groupByLibrary ?objects) (obLibrary caller) n"
  have lib: "obLibrary caller < n" using plan_member(3) assms(1,4) by blast
  have "?reach kind \<noteq> []" if "kind \<noteq> kindProgram" for kind
  proof -
    from baseline_complete [OF assms(4,5) lib that] obtain ob
      where "ob \<in> set ?objects" "obKind ob = kind" "obLibrary ob = obLibrary caller"
      using plan_kind_library by blast
    then have "ob \<in> set (?reach kind)" by (simp add: reachableTargets_set reaches_def)
    then show ?thesis by force
  qed
  then have some: "\<forall>kind. kind \<noteq> kindProgram \<longrightarrow> ?reach kind \<noteq> []" by blast
  from renderProgram_refs [OF assms(6) some refl, where density = density and s = s] obtain refs where
    refs: "fst (renderProgram rand caller (groupByLibrary ?objects) n density s) = programText caller refs"
      "map refKind (take 4 refs) = [kindSubprogram, kindCopycode, kindSubroutine, kindDDM]"
    and reach: "\<forall>r\<in>set refs. refTarget r \<in> set (?reach (refKind r))" by (elim exE conjE)
  have "refTarget r \<in> set ?objects \<and> obKind (refTarget r) = refKind r \<and> leadsTo idx c caller r" if "r \<in> set refs" for r
  proof -
    have t: "refTarget r \<in> set ?objects" "obKind (refTarget r) = refKind r"
      "reaches n (obLibrary caller) (obLibrary (refTarget r))"
      using reach that by (auto simp: reachableTargets_set)
    from corpus_binding [OF assms(1-4) t(1,3)] corpus_view [OF assms(1-4) t(1) _ t(3)] t(1,2) show ?thesis
      by (cases r) (auto simp: leadsTo_def refAccess_def refEdge_def resolveEdge_def kindType_def)
  qed
  with refs show ?thesis by (intro exI [of _ refs]) simp
qed

text \<open>An index made of the plan itself.\<close>

definition planIndex :: "object list \<Rightarrow> Index" where
  "planIndex objects = emptyIndex\<lparr>ixEntries :=
     map (\<lambda>ob. (obRelPath ob, zeroFileAnalysis\<lparr>faObjectType := classify (obRelPath ob) Map.empty\<rparr>)) objects\<rparr>"

lemma planIndex_indexes: "indexesCorpus (planObjects m n) (planIndex (planObjects m n))"
proof -
  have "inj_on obRelPath (set (planObjects m n))"
  proof (rule inj_onI)
    fix a b assume ab: "a \<in> set (planObjects m n)" "b \<in> set (planObjects m n)" "obRelPath a = obRelPath b"
    then have "objectName (obRelPath a) = obName a" "objectName (obRelPath b) = obName b"
      using plan_member(1,2) by (metis corpus_path(3))+
    with ab show "a = b" using plan_names_inj by metis
  qed
  moreover have "distinct (planObjects m n)"
    using numbered_distinct [of "\<lambda>_. 0" "planSlots m n"] by (simp add: planObjects_numbered distinct_map)
  ultimately show ?thesis
    by (auto simp: indexesCorpus_def planIndex_def cacheInv_def emptyIndex_def wellFormed_def distinct_map comp_def image_image)
qed

definition sampleRand :: "nat Rand" where
  "sampleRand = \<lparr>rnSource = nat, rnIntn = (\<lambda>k s. (s mod k, s + 1)), rnFloat64 = (\<lambda>s. (1 / 4, s + 1))\<rparr>"

definition sampleProgram :: object where
  "sampleProgram = \<lparr>obKind = kindProgram, obName = ''PROG0000'', obLibrary = 0, obRelPath = ''LIB00/PROG0000.NSP''\<rparr>"

lemma sampleProgram_planned: "sampleProgram \<in> set (planObjects 9 2)"
  by code_simp

theorem generated_references_resolve_witness:
  "\<exists>refs. fst (renderProgram sampleRand sampleProgram (groupByLibrary (planObjects 9 2)) 2 (1 / 2) 7)
       = programText sampleProgram refs \<and>
     map refKind (take 4 refs) = [kindSubprogram, kindCopycode, kindSubroutine, kindDDM] \<and>
     (\<forall>r\<in>set refs. leadsTo (planIndex (planObjects 9 2)) (Defaults\<lparr>cfgResolution := \<lparr>Libraries = corpusLibraries 2\<rparr>\<rparr>)
        sampleProgram r)"
  using generated_references_resolve [of 2 "Defaults\<lparr>cfgResolution := \<lparr>Libraries = corpusLibraries 2\<rparr>\<rparr>" 9
      "planIndex (planObjects 9 2)" sampleProgram sampleRand "1 / 2" 7] planIndex_indexes sampleProgram_planned
  by (auto simp: fairRand_def sampleRand_def sampleProgram_def)

section \<open>The DDMs\<close>

lemma replaceCRLF_line: "CR \<notin> set u \<Longrightarrow> replaceCRLF (u @ LF # s) = u @ LF # replaceCRLF s"
proof (induction u)
  case Nil
  then show ?case by (cases s) auto
next
  case (Cons a u)
  then show ?case by (cases u) auto
qed

lemma splitByte_line: "c \<notin> set u \<Longrightarrow> splitByte c (u @ c # s) = u # splitByte c s"
  by (induction u) auto

lemma splitLines_textLine:
  "CR \<notin> set u \<Longrightarrow> LF \<notin> set u \<Longrightarrow> splitLines (textLine u @ s) = u # splitLines s"
  by (simp add: splitLines_def textLine_def replaceCRLF_line splitByte_line)

definition ddmBody :: string where
  "ddmBody = textLine ''TYPE: ADABAS'' @ textLine [] @
     textLine ''T L DB Name                              F Leng  S D Remark'' @
     textLine ''- - -- --------------------------------  - ----  - - ------------------------'' @
     ddmFieldRow [] ''1'' ''AA'' ''CUSTOMER-ID'' ''N'' ''8'' @
     ddmFieldRow [] ''1'' ''AB'' ''CUSTOMER-NAME'' ''A'' ''50'' @
     ddmFieldRow [] ''1'' ''AC'' ''BALANCE'' ''P'' ''9,2'' @
     textLine ''******DDM OUTPUT TERMINATED******''"

definition ddmRead :: "DataDefinition list" where
  "ddmRead = snd (foldl ddmStep ([], []) (enumerate 1 (splitLines ddmBody)))"

lemma ddmBody_read:
  "map (\<lambda>d. (ddName d, ddLevel d, ddType d, ddChildren d)) ddmRead =
     [(''CUSTOMER-ID'', 1, ''N8'', []), (''CUSTOMER-NAME'', 1, ''A50'', []), (''BALANCE'', 1, ''P9,2'', [])]"
  "\<not> sqlHeader (splitLines ddmBody)"
  by code_simp+

text \<open>
  A generated DDM is read back. Whatever the object is called, the scanner of DDM reports finds in the
  text exactly the three fields the generator put there, in order, with their formats.
\<close>

theorem renderDDM_fields:
  "map (\<lambda>d. (ddName d, ddLevel d, ddType d, ddChildren d))
     (extractDDMDefinitions (renderDDM \<lparr>obKind = kindDDM, obName = corpusName kindDDM n, obLibrary = lib, obRelPath = path\<rparr>)) =
     [(''CUSTOMER-ID'', 1, ''N8'', []), (''CUSTOMER-NAME'', 1, ''A50'', []), (''BALANCE'', 1, ''P9,2'', [])]"
proof -
  let ?first = "''DB: 000 FILE: 100  - '' @ corpusName kindDDM n"
  let ?text = "renderDDM \<lparr>obKind = kindDDM, obName = corpusName kindDDM n, obLibrary = lib, obRelPath = path\<rparr>"
  have "CR \<notin> set (corpusName kindDDM n)" "LF \<notin> set (corpusName kindDDM n)"
    using corpusName_bytes [of kindDDM n] nameByte_slash(3,4) by (metis list_all_iff)+
  moreover have "?text = textLine ?first @ ddmBody" by (simp add: renderDDM_def ddmBody_def)
  ultimately have lines: "splitLines ?text = ?first # splitLines ddmBody"
    by (simp only:) (intro splitLines_textLine, simp_all)
  have "ddmStep ([], []) (0, ?first) = ([], [])"
    by (simp add: ddmStep_def ddmRow_def shouldSkipLine_def)
  moreover have "\<not> sqlHeader (splitLines ?text)"
    unfolding lines using ddmBody_read(2) by (simp add: isSQLTypeLine_def)
  ultimately have "extractDDMDefinitions ?text = ddmRead"
    unfolding extractDDMDefinitions_def Let_def ddmRead_def lines
    by (simp only: if_False enumerate_simps foldl_Cons One_nat_def)
  then show ?thesis by (simp only: ddmBody_read(1))
qed

section \<open>What is written\<close>

definition goodDisk :: CorpusDisk where
  "goodDisk = \<lparr>cdTarget = (\<lambda>_. None), cdMkdir = (\<lambda>_. None), cdWrite = (\<lambda>_. None)\<rparr>"

lemma goodDisk_target: "cdTarget goodDisk dir = None"
  by (simp add: goodDisk_def)

lemma writeCorpusFile_cases:
  "writeCorpusFile goodDisk p content = ([(p, withNewline content)], None)"
  "writeCorpusFile disk p content = ([(p, withNewline content)], None) \<or>
     (\<exists>e. writeCorpusFile disk p content = ([], Some e))"
  by (simp_all add: writeCorpusFile_def goodDisk_def split: option.split)

lemma writeObjects_good:
  "snd (writeObjects render goodDisk objects s) = None \<and>
   map fst (fst (writeObjects render goodDisk objects s)) = map obRelPath objects"
proof (induction objects arbitrary: s)
  case (Cons ob objects)
  obtain content s' where "render s ob = (content, s')" by fastforce
  with Cons.IH [of s'] show ?case by (simp add: writeCorpusFile_cases(1) case_prod_unfold)
qed simp

lemma writeObjects_prefix:
  "\<exists>k\<le>length objects. fst (writeObjects render disk objects s) = take k (fst (writeObjects render goodDisk objects s)) \<and>
     (snd (writeObjects render disk objects s) = None \<longleftrightarrow> k = length objects)"
proof (induction objects arbitrary: s)
  case (Cons ob objects)
  obtain content s' where r: "render s ob = (content, s')" by fastforce
  from writeCorpusFile_cases(2) [of disk "obRelPath ob" content] show ?case
  proof
    assume w: "writeCorpusFile disk (obRelPath ob) content = ([(obRelPath ob, withNewline content)], None)"
    obtain k where "k \<le> length objects"
      "fst (writeObjects render disk objects s') = take k (fst (writeObjects render goodDisk objects s'))"
      "snd (writeObjects render disk objects s') = None \<longleftrightarrow> k = length objects"
      using Cons.IH by blast
    with r w show ?thesis
      by (intro exI [of _ "Suc k"]) (simp add: writeCorpusFile_cases(1) case_prod_unfold)
  next
    assume "\<exists>e. writeCorpusFile disk (obRelPath ob) content = ([], Some e)"
    with r show ?thesis by (intro exI [of _ 0]) (auto simp: case_prod_unfold)
  qed
qed simp

text \<open>
  A corpus is complete or reported. On a disk without errors the generator writes the configuration and
  then one file for each object of the plan, in its order; on any other disk it writes a beginning of
  those files with the same content, and reports an error exactly when one is missing.
\<close>

theorem GenerateParams_prefix:
  fixes rand :: "'s Rand" and disk :: CorpusDisk
  assumes "pmObjects p > 0" "dir \<noteq> []"
  defines "full \<equiv> GenerateParams rand goodDisk dir p" and "got \<equiv> GenerateParams rand disk dir p"
  shows "snd full = None \<and>
     map fst (fst full) = ''.natural-lsp.toml'' #
       map obRelPath (planObjects (nat (pmObjects p)) (nat (pmLibraries (normalizeParams p)))) \<and>
     (\<exists>k\<le>length (fst full). fst got = take k (fst full) \<and> (snd got = None \<longleftrightarrow> k = length (fst full)))"
proof -
  let ?q = "normalizeParams p"
  let ?libs = "nat (pmLibraries ?q)"
  let ?objects = "planObjects (nat (pmObjects p)) ?libs"
  let ?render = "\<lambda>s obj. renderObject rand (groupByLibrary ?objects) ?libs (pmDensity ?q) obj s"
  let ?first = "(''.natural-lsp.toml'', withNewline (renderConfig ?libs))"
  let ?wrote = "\<lambda>d. writeObjects ?render d ?objects (rnSource rand (pmSeed ?q))"
  have obj: "pmObjects ?q = pmObjects p" by (simp add: normalizeParams_def Let_def)
  have full: "full = (?first # fst (?wrote goodDisk), snd (?wrote goodDisk))"
    using assms(1,2) unfolding full_def
    by (simp add: GenerateParams_def Let_def obj writeCorpusFile_cases(1) goodDisk_target case_prod_unfold)
  have len: "length (fst (?wrote goodDisk)) = length ?objects"
    using writeObjects_good [of ?render ?objects "rnSource rand (pmSeed ?q)"] by (metis length_map)
  have "\<exists>k\<le>length (fst full). fst got = take k (fst full) \<and> (snd got = None \<longleftrightarrow> k = length (fst full))"
  proof (cases "\<exists>files e. got = (files, Some e) \<and> files = []")
    case True
    then show ?thesis using full by (intro exI [of _ 0]) auto
  next
    case False
    have first: "writeCorpusFile disk ''.natural-lsp.toml'' (renderConfig ?libs) = ([?first], None) \<or>
        (\<exists>e. writeCorpusFile disk ''.natural-lsp.toml'' (renderConfig ?libs) = ([], Some e))"
      by (rule writeCorpusFile_cases(2))
    have got: "got = (?first # fst (?wrote disk), snd (?wrote disk))"
    proof (cases "cdTarget disk dir")
      case (Some e)
      then have "\<exists>e. got = ([], Some e)"
        using assms(1,2) unfolding got_def by (simp add: GenerateParams_def Let_def obj)
      with False show ?thesis by blast
    next
      case None
      from first show ?thesis
      proof
        assume "writeCorpusFile disk ''.natural-lsp.toml'' (renderConfig ?libs) = ([?first], None)"
        with None show ?thesis
          using assms(1,2) unfolding got_def by (simp add: GenerateParams_def Let_def obj case_prod_unfold)
      next
        assume "\<exists>e. writeCorpusFile disk ''.natural-lsp.toml'' (renderConfig ?libs) = ([], Some e)"
        then obtain e where "writeCorpusFile disk ''.natural-lsp.toml'' (renderConfig ?libs) = ([], Some e)" ..
        with None have "got = ([], Some e)"
          using assms(1,2) unfolding got_def by (simp add: GenerateParams_def Let_def obj)
        with False show ?thesis by blast
      qed
    qed
    from writeObjects_prefix [of ?objects ?render disk "rnSource rand (pmSeed ?q)"] obtain k where
      k: "k \<le> length ?objects" "fst (?wrote disk) = take k (fst (?wrote goodDisk))"
      "snd (?wrote disk) = None \<longleftrightarrow> k = length ?objects"
      by (elim exE conjE)
    show ?thesis unfolding got full using k len by (intro exI [of _ "Suc k"]) simp
  qed
  then show ?thesis
    using writeObjects_good [of ?render ?objects "rnSource rand (pmSeed ?q)"] by (simp add: full)
qed

text \<open>
  The library count of small workspaces is cut to the number of objects, and the baseline then takes
  all of them; a default workspace of twelve objects has no program either.
\<close>

lemma small_corpora:
  "map obKind (planObjects 2 (nat (defaultLibraries 2))) = [kindSubprogram, kindSubroutine]"
  "kindProgram \<notin> obKind ` set (planObjects 12 (nat (defaultLibraries 12)))"
  by code_simp+

text \<open>
  Targets can be missing although some library has them: the search looks at two libraries only.
\<close>

lemma unreachable_kind:
  "reachableTargets (groupByLibrary (planObjects 1 5)) 2 5 kindSubprogram = []"
  "map obLibrary (planObjects 1 5) = [0]" "map obKind (planObjects 1 5) = [kindSubprogram]"
  by code_simp+

text \<open>A disk that is full when the first program comes.\<close>

definition fullDisk :: CorpusDisk where
  "fullDisk = goodDisk\<lparr>cdWrite := (\<lambda>p. if p = ''LIB00/PROG0000.NSP'' then Some ''no space'' else None)\<rparr>"

definition sampleParams :: Params where
  "sampleParams = \<lparr>pmObjects = 9, pmLibraries = 0, pmSeed = 7, pmDensity = 0\<rparr>"

theorem GenerateParams_prefix_witness:
  "map fst (fst (GenerateParams sampleRand goodDisk ''out'' sampleParams)) = ''.natural-lsp.toml'' #
     map obRelPath (planObjects 9 (nat (pmLibraries (normalizeParams sampleParams)))) \<and>
   (\<exists>k. fst (GenerateParams sampleRand fullDisk ''out'' sampleParams) =
          take k (fst (GenerateParams sampleRand goodDisk ''out'' sampleParams)))"
  using GenerateParams_prefix [of sampleParams "''out''" sampleRand fullDisk]
  by (auto simp: sampleParams_def)

end
