(* ===== verification/Startup.thy ===== *)
theory Startup
  imports Config
begin

text \<open>
  Starting up: reading the configuration file (\<open>Load\<close>, here \<open>Load_config\<close>, \<open>Bootstrap\<close> and \<open>Sample\<close> of \<open>config.go\<close>) and the
  command line (\<open>main.go\<close>). The file system and the TOML decoder are arguments: decoding lays the
  keys of a text over a configuration. What the functions write to the logger is a list of lines.
\<close>

section \<open>Reading the configuration\<close>

datatype ReadError = NotExist string | ReadFailed string

type_synonym Toml = "string \<Rightarrow> Config \<Rightarrow> string + Config"

definition wrapError :: "string \<Rightarrow> string \<Rightarrow> string" where
  "wrapError path e = ''config file '' @ path @ '': '' @ e"

text \<open>The error keeps whether the file is missing, which \<open>errors.Is\<close> looks for.\<close>

definition Load_config :: "(string \<Rightarrow> ReadError + string) \<Rightarrow> Toml \<Rightarrow> string \<Rightarrow> Config \<times> Problem list \<times> ReadError option" where
  "Load_config readFile toml path =
     (case readFile path of
        Inl (NotExist e) \<Rightarrow> (Defaults, [], Some (NotExist (wrapError path e)))
      | Inl (ReadFailed e) \<Rightarrow> (Defaults, [], Some (ReadFailed (wrapError path e)))
      | Inr data \<Rightarrow>
          (case toml data Defaults of
             Inl e \<Rightarrow> (Defaults, [], Some (ReadFailed (wrapError path e)))
           | Inr cfg \<Rightarrow> (case Validate cfg of (cfg', problems) \<Rightarrow> (cfg', problems, None))))"

datatype LogLine =
    RootResolved string bool
  | ConfigFileError string string
  | ConfigProblem Problem

definition Bootstrap ::
  "(string \<Rightarrow> bool) \<Rightarrow> (string \<Rightarrow> ReadError + string) \<Rightarrow> Toml \<Rightarrow> string \<Rightarrow> string \<Rightarrow> string \<times> Config \<times> LogLine list" where
  "Bootstrap stat readFile toml start workspaceHint =
     (let root = bootstrapRoot stat start workspaceHint;
          sentinelPath = filepathJoin root sentinelName
      in case Load_config readFile toml sentinelPath of
           (cfg, problems, err) \<Rightarrow>
             (root, (if err = None then cfg else Defaults),
              RootResolved root (snd (FindRoot stat start)) #
              (case err of Some (ReadFailed e) \<Rightarrow> [ConfigFileError sentinelPath e] | _ \<Rightarrow> []) @
              map ConfigProblem problems))"

section \<open>The sample configuration\<close>

definition tomlStringArray :: "string list \<Rightarrow> string" where
  "tomlStringArray values = ''['' @ joinStrings (map quoteGo values) '', '' @ '']''"

definition sampleLine :: "string \<Rightarrow> string" where
  "sampleLine s = s @ [LF]"

definition boolText :: "bool \<Rightarrow> string" where
  "boolText b = (if b then ''true'' else ''false'')"

abbreviation emDash :: string where "emDash \<equiv> [CHR 0xE2, CHR 0x80, CHR 0x94]"

definition Sample :: string where
  "Sample =
     (let d = Defaults in
      sampleLine (''# Sample .natural-lsp.toml '' @ emDash @ '' every key shown with its documented default.'') @
      sampleLine ''# This file is generated by `natural-lsp --init`. Re-parsing it yields the'' @
      sampleLine ''# built-in defaults, so you only need to keep the keys you actually change.'' @
      sampleLine [] @
      sampleLine ''[workspace]'' @
      sampleLine ''# Ordered set of Natural object-file extensions to index.'' @
      sampleLine (''extensions = '' @ tomlStringArray (Extensions (cfgWorkspace d))) @
      sampleLine ''# Workspace-relative directory names skipped during indexing.'' @
      sampleLine (''exclude = '' @ tomlStringArray (Exclude (cfgWorkspace d))) @
      sampleLine ''# Upper bound, in bytes, on a file the indexer will read; larger files are skipped.'' @
      sampleLine (''max_file_size = '' @ itoa (MaxFileSize (cfgWorkspace d))) @
      sampleLine [] @
      sampleLine ''# Map additional file extensions to their object type classifications.'' @
      sampleLine ''# Valid types: program, subprogram, externalsubroutine, copycode, map,'' @
      sampleLine ''# localdataarea, globaldataarea, parameterdataarea, helproutine, ddm, class,'' @
      sampleLine ''# function, dialog, adapter, text.'' @
      sampleLine ''# [workspace.extension_types]'' @
      sampleLine (''# '' @ quoteGo ''.NAT'' @ '' = '' @ quoteGo ''program'') @
      sampleLine [] @
      sampleLine ''[cache]'' @
      sampleLine ''# Workspace-relative directory where the serialized index cache is written.'' @
      sampleLine (''path = '' @ quoteGo (CachePath (cfgCache d))) @
      sampleLine [] @
      sampleLine ''[analysis]'' @
      sampleLine ''# When true, an unresolvable dynamic call (e.g. CALLNAT #VAR) becomes a'' @
      sampleLine ''# CALLS_DYNAMIC dependency with caller context preserved instead of being dropped.'' @
      sampleLine (''flag_dynamic_calls = '' @ boolText (FlagDynamicCalls (cfgAnalysis d))) @
      sampleLine ''# Minimum identifier length for a token to be a credible dynamic-call candidate.'' @
      sampleLine (''dynamic_call_min_length = '' @ itoa (DynamicCallMinLength (cfgAnalysis d))) @
      sampleLine ''# When true, the server advertises and serves code lens providers.'' @
      sampleLine (''enable_code_lens = '' @ boolText (EnableCodeLens (cfgAnalysis d))) @
      sampleLine [] @
      sampleLine ''# Library map: map workspace directories to named Natural libraries and declare'' @
      sampleLine (''# each library's ordered steplib search chain. Empty by default '' @ emDash @ '' with no'') @
      sampleLine ''# libraries the workspace is treated as a single flat namespace.'' @
      sampleLine ''#'' @
      sampleLine ''# [[resolution.library]]'' @
      sampleLine (''# name = '' @ quoteGo ''MYAPP'') @
      sampleLine (''# path = '' @ quoteGo ''src/myapp'') @
      sampleLine (''# steplibs = ['' @ quoteGo ''COMMON'' @ '', '' @ quoteGo ''SYSTEM'' @ '']''))"

section \<open>The command line\<close>

datatype LogLevel = LogError | LogWarn | LogInfo | LogDebug

text \<open>The level, and whether the value is warned about.\<close>

definition parseLogLevel :: "string \<Rightarrow> LogLevel \<times> bool" where
  "parseLogLevel levelStr =
     (let l = toLower levelStr in
      if l = ''error'' then (LogError, False)
      else if l = ''warn'' then (LogWarn, False)
      else if l = ''info'' then (LogInfo, False)
      else if l = ''debug'' then (LogDebug, False)
      else (LogInfo, True))"

definition logLevelPrefix :: string where "logLevelPrefix = ''--log-level=''"

text \<open>The first pass: the last level given, the other arguments, and whether a level was missing.\<close>

fun scanArgs :: "string \<Rightarrow> string list \<Rightarrow> string \<times> string list \<times> bool" where
  "scanArgs level [] = (level, [], False)"
| "scanArgs level (arg # args) =
     (if hasPrefix arg logLevelPrefix then scanArgs (drop (length logLevelPrefix) arg) args
      else if arg = ''--log-level''
      then (case args of [] \<Rightarrow> (level, [], True) | v # rest \<Rightarrow> scanArgs v rest)
      else (case scanArgs level args of (level', filtered, missing) \<Rightarrow> (level', arg # filtered, missing)))"

datatype Action = PrintVersion string | PrintSample string | ServeStdio string | NoAction

text \<open>The second pass: the first argument that is a command.\<close>

fun firstAction :: "string \<Rightarrow> string option \<Rightarrow> string list \<Rightarrow> Action" where
  "firstAction version getwd [] = NoAction"
| "firstAction version getwd (arg # args) =
     (if arg \<in> {''--version'', ''-version''} then PrintVersion (''natural-lsp '' @ version @ [LF])
      else if arg \<in> {''--init'', ''-init''} then PrintSample Sample
      else if arg = ''--stdio'' then ServeStdio (case getwd of None \<Rightarrow> ''.'' | Some dir \<Rightarrow> dir)
      else firstAction version getwd args)"

text \<open>\<open>serve\<close> runs the server from the fallback directory and answers its error.\<close>

definition runWithIO ::
  "string \<Rightarrow> string option \<Rightarrow> (string \<Rightarrow> string option) \<Rightarrow> string list \<Rightarrow> Action \<times> LogLevel option \<times> int" where
  "runWithIO version getwd serve args =
     (case scanArgs [] args of
        (levelStr, filtered, _) \<Rightarrow>
          let action = firstAction version getwd filtered
          in (action, (if levelStr \<noteq> [] then Some (fst (parseLogLevel levelStr)) else None),
              (case action of ServeStdio dir \<Rightarrow> (if serve dir = None then 0 else 1) | _ \<Rightarrow> 0)))"

end
