(* ===== verification/Startup_Facts.thy ===== *)
theory Startup_Facts
  imports Startup Config_Facts
begin

text \<open>
  Facts about starting up: the configuration a session begins with is always usable, whatever the
  file on disk holds; the options of the command line do not depend on how they are written.
\<close>

lemma Load_config_valid: "validConfig (fst (Load_config readFile toml path))"
  using Validate_validConfig Defaults_valid
  by (auto simp: Load_config_def case_prod_beta split: sum.split ReadError.split)

text \<open>
  Starting up never fails. Whatever the disk and the decoder of the file answer, \<open>Bootstrap\<close> returns the
  directory with the sentinel, or the hint, and a valid configuration; when the file cannot be read the
  configuration is the default one, and a missing file is not logged as an error.
\<close>

theorem Bootstrap_usable:
  "case Bootstrap stat readFile toml start hint of
     (root, cfg, log) \<Rightarrow>
       validConfig cfg \<and> root = bootstrapRoot stat start hint \<and>
       (\<forall>e. readFile (filepathJoin root sentinelName) = Inl e \<longrightarrow> cfg = Defaults \<and>
          ((\<exists>path msg. ConfigFileError path msg \<in> set log) \<longleftrightarrow> (\<exists>t. e = ReadFailed t)))"
  using Load_config_valid [of readFile toml "filepathJoin (bootstrapRoot stat start hint) sentinelName"] Defaults_valid
  by (auto simp: Bootstrap_def Let_def case_prod_beta Load_config_def split: ReadError.splits option.splits)

text \<open>Both forms of the level mean the same.\<close>

lemma scanArgs_forms:
  "scanArgs level ((logLevelPrefix @ v) # rest) = scanArgs level (''--log-level'' # v # rest)"
  by (simp add: hasPrefix_def logLevelPrefix_def)

text \<open>The exit status is 1 exactly when a server ran and ended with an error.\<close>

lemma runWithIO_status:
  "runWithIO version getwd serve args = (action, level, status) \<Longrightarrow>
     status \<in> {0, 1} \<and> (status = 1 \<longleftrightarrow> (\<exists>dir. action = ServeStdio dir \<and> serve dir \<noteq> None))"
  by (auto simp: runWithIO_def Let_def split: prod.splits Action.splits if_splits)

text \<open>The level's value is the next argument, even a command: then nothing is run.\<close>

lemma level_takes_command:
  "runWithIO version getwd serve [''--log-level'', ''--stdio''] = (NoAction, Some LogInfo, 0)"
proof -
  have "parseLogLevel ''--stdio'' = (LogInfo, True)" "\<not> hasPrefix ''--log-level'' logLevelPrefix"
    by code_simp+
  then show ?thesis by (simp add: runWithIO_def)
qed

end
