(* ===== verification/Loop.thy ===== *)
theory Loop
  imports Handlers Notices Startup
begin

text \<open>
  The server's main loop, \<open>Run\<close> of \<open>server.go\<close>: it reads one message at a time and hands it to the branches
  of \<open>Handlers\<close> and \<open>Notices\<close>; the background build runs beside it. An event is a message that arrives, with
  what the disk holds and how writing the answer goes then, or a step of the build. What is sent is a
  list, in order; the build's notices are sent at once with the step that causes them. JSON is an
  argument, as in \<open>Handlers\<close>. Starting the watcher sends nothing and changes no state of the handlers.
\<close>

section \<open>Messages and events\<close>

datatype Message =
    NotificationMsg string string
  | CallMsg Call
  | ResponseMsg string "string option"
  | OtherMsg

datatype ReadFailure = ReadEOF | ReadCancelled | ReadUnexpectedEOF string | ReadMalformed string

record Incoming =
  inMessage :: "ReadFailure + Message"
  inContextDone :: bool
  inDisk :: "string \<Rightarrow> string option"
  inWriteError :: "string option"
  inElapsed :: string

text \<open>
  What a build finds: the tree and the disk, the cache, and when its context was cancelled;
  \<open>brContextDone\<close> says whether that has been done from outside when it ends.
\<close>

record BuildRun =
  brCancelledAt :: "nat \<Rightarrow> bool"
  brContextDone :: bool
  brCodec :: Codec
  brSha :: "string \<Rightarrow> string"
  brDisk :: "string \<Rightarrow> string option"
  brTree :: DirTree
  brCache :: "string option"
  brWriteFile :: "string \<Rightarrow> string option"

datatype Event = Arrives Incoming | BuildDone BuildRun | PublishBuild | TakeSnapshot | MergeSnapshot | ReportBuild

datatype Output = Respond Response | Notify Notice

section \<open>The state\<close>

text \<open>
  How far the build is. Between looking at the context and publishing it holds no lock, so what it
  has built waits there: other events may come in between, as they may before each later step.
\<close>

datatype BuildStage =
    NotStarted
  | Running
  | Checked "(Index \<times> ResolutionSet) option"
  | IndexPublished
  | BuffersTaken "ReplayEntry list"
  | Merged
  | BuildEnded

record RunState =
  rsLifecycle :: Lifecycle
  rsNegotiation :: Negotiation
  rsTrace :: int
  rsContext :: HandlerContext
  rsProbe :: rootProbe
  rsBuild :: BuildStage
  rsCancelled :: bool

definition emptyConfig :: Config where
  "emptyConfig =
     \<lparr>cfgWorkspace = \<lparr>Extensions = [], Exclude = [], MaxFileSize = 0, ExtensionTypes = []\<rparr>,
      cfgCache = \<lparr>CachePath = []\<rparr>,
      cfgAnalysis = \<lparr>FlagDynamicCalls = False, DynamicCallMinLength = 0, EnableCodeLens = False\<rparr>,
      cfgResolution = \<lparr>Libraries = []\<rparr>\<rparr>"

definition startState :: RunState where
  "startState =
     \<lparr>rsLifecycle = statePreInit,
      rsNegotiation = \<lparr>ngUTF8 = False, ngWatchedFilesReg = False, ngWorkDoneProgress = False,
        ngPullDiagnostics = False, ngDiagnosticRefresh = False, ngInitialTrace = ''off''\<rparr>,
      rsTrace = traceValueToLevel ''off'',
      rsContext = \<lparr>hcRoot = [], hcCfg = emptyConfig, hcStore = None, hcIdx = None, hcRes = None\<rparr>,
      rsProbe = \<lparr>rpClientPaths = [], rpCwdFallback = [], rpSentinelFound = False, rpResolvedRoot = []\<rparr>,
      rsBuild = NotStarted, rsCancelled = False\<rparr>"

text \<open>
  What stays the same for the whole run: the decoders of the parameters, where a URI leads, what
  starting up reads, the analyzer, and the other fields of the server.
\<close>

record Env =
  enWire :: Wire
  enFsPath :: "string \<Rightarrow> string"
  enUriFile :: "string \<Rightarrow> string"
  enIsFile :: "string \<Rightarrow> bool"
  enRefs :: "string \<Rightarrow> VariableRef list"
  enAnalyze :: "string \<Rightarrow> string \<Rightarrow> Outcome"
  enCwd :: string
  enStat :: "string \<Rightarrow> bool"
  enReadConfig :: "string \<Rightarrow> ReadError + string"
  enToml :: Toml
  enInitialize :: "string \<Rightarrow> string + ClientCapabilities \<times> string \<times> InitializeParams"
  enInitResult :: "Negotiation \<Rightarrow> string + string"
  enOpened :: "string \<Rightarrow> (string \<times> int \<times> string) option"
  enChanged :: "string \<Rightarrow> (string \<times> int \<times> ContentChange list) option"
  enClosed :: "string \<Rightarrow> string option"
  enWatched :: "string \<Rightarrow> (string \<times> bool) list option"
  enSetTrace :: "string \<Rightarrow> string option"

definition hostAt :: "Env \<Rightarrow> (string \<Rightarrow> string option) \<Rightarrow> Host" where
  "hostAt env disk = \<lparr>hoFsPath = enFsPath env, hoUriFile = enUriFile env, hoReadFile = disk\<rparr>"

definition serverAt :: "Env \<Rightarrow> RunState \<Rightarrow> (string \<Rightarrow> string option) \<Rightarrow> Server" where
  "serverAt env rs disk =
     \<lparr>svHost = hostAt env disk, svRefs = enRefs env, svUtf16 = \<not> ngUTF8 (rsNegotiation rs), svWire = enWire env\<rparr>"

section \<open>Initialize\<close>

text \<open>The backend's part in \<open>initialize\<close>: decoding the parameters and encoding the result.\<close>

definition startBackend :: "Env \<Rightarrow> Backend" where
  "startBackend env =
     \<lparr>decodeError = (\<lambda>_ params. case enInitialize env params of Inl e \<Rightarrow> Some (''invalid initialize params: '' @ e) | Inr _ \<Rightarrow> None),
      uriMissing = (\<lambda>_. False), provide = (\<lambda>_ _. ProviderNil),
      negotiate = (\<lambda>params. case enInitialize env params of
                     Inl e \<Rightarrow> Inl e
                   | Inr (cc, trace, _) \<Rightarrow> enInitResult env (handleInitialize cc trace)),
      bootstrapPanic = (\<lambda>_. None)\<rparr>"

definition newContext :: "Env \<Rightarrow> string \<Rightarrow> Config \<Rightarrow> HandlerContext \<Rightarrow> HandlerContext" where
  "newContext env root cfg h =
     h\<lparr>hcRoot := root, hcCfg := cfg,
       hcStore := Some (newStore root
         (Some (\<lambda>relPath content. Some (fpFileAnalysis (analyzeOne cfg (enAnalyze env) relPath content)))))\<rparr>"

definition applyInitialize :: "Env \<Rightarrow> ClientCapabilities \<times> string \<times> InitializeParams \<Rightarrow> RunState \<Rightarrow> RunState" where
  "applyInitialize env decoded rs =
     (case decoded of (cc, trace, params) \<Rightarrow>
        let n = handleInitialize cc trace;
            start = resolveRootStart (enIsFile env) (enFsPath env) params (enCwd env);
            (root, cfg, _) = Bootstrap (enStat env) (enReadConfig env) (enToml env) start []
        in rs\<lparr>rsNegotiation := n, rsTrace := traceValueToLevel (ngInitialTrace n),
              rsContext := newContext env root cfg (rsContext rs),
              rsProbe := \<lparr>rpClientPaths = clientRootPaths (enIsFile env) (enFsPath env) params, rpCwdFallback = enCwd env,
                rpSentinelFound = snd (FindRoot (enStat env) start), rpResolvedRoot = root\<rparr>\<rparr>)"

text \<open>The state is only changed once the result is encoded.\<close>

definition afterInitialize :: "Env \<Rightarrow> string \<Rightarrow> RunState \<Rightarrow> RunState" where
  "afterInitialize env params rs =
     (case enInitialize env params of
        Inl _ \<Rightarrow> rs
      | Inr decoded \<Rightarrow>
          (case enInitResult env (handleInitialize (fst decoded) (fst (snd decoded))) of
             Inl _ \<Rightarrow> rs
           | Inr _ \<Rightarrow> applyInitialize env decoded rs))"

section \<open>Calls\<close>

text \<open>What is logged to the client before the error, when the branch panics.\<close>

definition requestPanic :: "Backend \<Rightarrow> Lifecycle \<Rightarrow> Call \<Rightarrow> string option" where
  "requestPanic b state c =
     (if callMethod c = ''test/panic'' then Some ''test panic for FR-43''
      else if callMethod c \<in> {''initialize'', ''shutdown''} \<or> emptyResult (callMethod c) = None
        \<or> state \<noteq> stateInitialized \<or> decodeError b (callMethod c) (callParams c) \<noteq> None
        \<or> callMethod c = ''textDocument/diagnostic'' \<and> uriMissing b (callParams c) then None
      else case provide b (callMethod c) (callParams c) of ProviderPanic r \<Rightarrow> Some r | _ \<Rightarrow> None)"

text \<open>What a branch itself sends: the progress around the report on the workspace.\<close>

definition branchNotices :: "Env \<Rightarrow> RunState \<Rightarrow> Call \<Rightarrow> Notice list" where
  "branchNotices env rs c =
     (if callMethod c \<noteq> ''workspace/diagnostic'' \<or> rsLifecycle rs \<noteq> stateInitialized then []
      else case wiWorkspace (enWire env) (callParams c) of
             Inl _ \<Rightarrow> []
           | Inr token \<Rightarrow> workspaceDiagnosticProgress (rsNegotiation rs) token)"

fun isResult :: "Response \<Rightarrow> bool" where
  "isResult (ResultResponse _ _) \<longleftrightarrow> True"
| "isResult (ErrorResponse _ _ _) \<longleftrightarrow> False"

text \<open>Writing the result; a failure ends the server.\<close>

definition writeResult :: "string option \<Rightarrow> Response list \<Rightarrow> Output list \<times> string option" where
  "writeResult writeError results =
     (case writeError of
        Some e \<Rightarrow> if results = [] then ([], None) else ([], Some (''write response: '' @ e))
      | None \<Rightarrow> (map Respond results, None))"

definition onCall :: "Env \<Rightarrow> Incoming \<Rightarrow> Call \<Rightarrow> RunState \<Rightarrow> RunState \<times> Output list \<times> string option" where
  "onCall env inc c rs =
     (let sv = serverAt env rs (inDisk inc);
          start = startBackend env
      in case serveRequest sv start (rsLifecycle rs, rsContext rs) c of
           ((state', h'), responses) \<Rightarrow>
             if rsLifecycle rs = statePreInit \<and> callMethod c \<noteq> ''initialize''
             then (rs, map Respond responses, None)
             else
               let rs1 = (if callMethod c = ''initialize'' \<and> rsLifecycle rs = statePreInit
                          then afterInitialize env (callParams c) rs
                          else rs\<lparr>rsLifecycle := state', rsContext := h',
                                  rsCancelled := rsCancelled rs \<or> callMethod c = ''shutdown'' \<and> rsLifecycle rs = stateInitialized\<rparr>);
                   panic = (case requestPanic (serverBackend sv start (rsContext rs)) (rsLifecycle rs) c of
                              None \<Rightarrow> [] | Some r \<Rightarrow> [LogMessage LevelError (panicMessage r)]);
                   traced = requestTrace (levelToTraceValue (rsTrace rs1)) (callID c) (inElapsed inc) c
               in case writeResult (inWriteError inc) (filter isResult responses) of
                    (written, err) \<Rightarrow>
                      (rs1, map Notify (branchNotices env rs c) @ map Notify panic @ map Respond (filter (\<lambda>r. \<not> isResult r) responses) @
                            map Notify traced @ written, err))"

section \<open>Notifications\<close>

definition watchedEvent :: "Env \<Rightarrow> (string \<Rightarrow> string option) \<Rightarrow> string \<times> bool \<Rightarrow> FileEvent" where
  "watchedEvent env disk change =
     (case change of (u, deleted) \<Rightarrow>
        \<lparr>feURI = u, feDeleted = deleted, feContent = disk (enFsPath env u)\<rparr>)"

text \<open>
  The notifications about documents. Without a store, which is when \<open>initialize\<close> never came, touching
  it panics: nothing changes and nothing is sent.
\<close>

definition documentNotification ::
  "Env \<Rightarrow> Incoming \<Rightarrow> string \<Rightarrow> string \<Rightarrow> RunState \<Rightarrow> HandlerContext \<times> Notice list" where
  "documentNotification env inc method params rs =
     (let h = rsContext rs; n = rsNegotiation rs; ho = hostAt env (inDisk inc); utf16 = \<not> ngUTF8 n in
      if method = ''textDocument/didOpen''
      then (case enOpened env params of
              None \<Rightarrow> (h, [])
            | Some (u, version, content) \<Rightarrow> if hcStore h = None then (h, []) else onOpen n ho utf16 u version content h)
      else if method = ''textDocument/didChange''
      then (case enChanged env params of
              None \<Rightarrow> (h, [])
            | Some (u, version, changes) \<Rightarrow>
                if hcStore h = None then (h, []) else onChange n ho utf16 (enAnalyze env) u version changes h)
      else if method = ''textDocument/didClose''
      then (case enClosed env params of
              None \<Rightarrow> (h, [])
            | Some u \<Rightarrow> if hcStore h = None then (h, []) else onClose n u h)
      else if method = ''workspace/didChangeWatchedFiles''
      then (case enWatched env params of
              None \<Rightarrow> (h, [])
            | Some changes \<Rightarrow>
                onWatchedFiles n ho utf16 (enAnalyze env) (map (watchedEvent env (inDisk inc)) changes) h)
      else (h, []))"

definition onNotification :: "Env \<Rightarrow> Incoming \<Rightarrow> string \<Rightarrow> string \<Rightarrow> RunState \<Rightarrow> RunState \<times> Output list" where
  "onNotification env inc method params rs =
     (if method = ''initialized''
      then (if rsLifecycle rs = statePreInit
            then (rs\<lparr>rsLifecycle := initializedNotification (rsLifecycle rs), rsBuild := Running\<rparr>,
                  map Notify (initializedNotices (rsNegotiation rs) (hcCfg (rsContext rs)) (rsLifecycle rs)))
            else (rs, []))
      else if rsLifecycle rs \<noteq> stateInitialized then (rs, [])
      else if method = ''$/setTrace''
      then (case enSetTrace env params of None \<Rightarrow> (rs, []) | Some v \<Rightarrow> (rs\<lparr>rsTrace := traceValueToLevel v\<rparr>, []))
      else case documentNotification env inc method params rs of
             (h', notices) \<Rightarrow> (rs\<lparr>rsContext := h'\<rparr>, map Notify notices))"

section \<open>The loop\<close>

text \<open>How the server ends: with an error, or without.\<close>

datatype Ending = Clean | Failed string

definition readFailure :: "ReadFailure \<Rightarrow> bool \<Rightarrow> Ending option" where
  "readFailure failure contextDone =
     (case failure of
        ReadEOF \<Rightarrow> Some Clean
      | ReadCancelled \<Rightarrow> Some Clean
      | ReadUnexpectedEOF e \<Rightarrow> if contextDone then Some Clean else Some (Failed (''stream closed unexpectedly: '' @ e))
      | ReadMalformed e \<Rightarrow> if contextDone then Some Clean else None)"

definition onMessage :: "Env \<Rightarrow> Incoming \<Rightarrow> RunState \<Rightarrow> RunState \<times> Output list \<times> Ending option" where
  "onMessage env inc rs =
     (case inMessage inc of
        Inl failure \<Rightarrow> (rs, [], readFailure failure (inContextDone inc))
      | Inr (NotificationMsg method params) \<Rightarrow>
          if method = ''exit''
          then (rs, [], Some (if exitNotification (rsLifecycle rs) then Clean else Failed ''exit without shutdown''))
          else (case onNotification env inc method params rs of (rs', out) \<Rightarrow> (rs', out, None))
      | Inr (ResponseMsg _ _) \<Rightarrow> (rs, [], None)
      | Inr OtherMsg \<Rightarrow> (rs, [], None)
      | Inr (CallMsg c) \<Rightarrow>
          (case onCall env inc c rs of (rs', out, err) \<Rightarrow> (rs', out, map_option Failed err)))"

text \<open>\<open>buildIndex\<close>: the build with the cache of the workspace, hashes from the disk.\<close>

definition cachePathOf :: "HandlerContext \<Rightarrow> string" where
  "cachePathOf h =
     (let path = CachePath (cfgCache (hcCfg h)) in if hcRoot h = [] then path else filepathJoin (hcRoot h) path)"

definition buildOutcome :: "Env \<Rightarrow> BuildRun \<Rightarrow> HandlerContext \<Rightarrow> BuildError + Built" where
  "buildOutcome env b h =
     BuildWithCache (brCancelledAt b) (brCodec b) (brSha b) (hcCfg h) (brDisk b) (brTree b) (enAnalyze env)
       (cachePathOf h) None (brCache b) (brWriteFile b)"

text \<open>When the context is cancelled by then, a build that is done goes no further.\<close>

definition onBuildDone :: "Env \<Rightarrow> BuildRun \<Rightarrow> RunState \<Rightarrow> RunState \<times> Output list" where
  "onBuildDone env b rs =
     (let n = rsNegotiation rs; h = rsContext rs; outcome = buildOutcome env b h;
          files = (case collectFiles (hcCfg h) (brTree b) of None \<Rightarrow> [] | Some files \<Rightarrow> files);
          pr = \<lparr>prToken = ''natural-lsp-index'', prEnabled = ngWorkDoneProgress n\<rparr>
      in (rs\<lparr>rsBuild := if rsCancelled rs \<or> brContextDone b then BuildEnded
                        else Checked (buildIndex (hcCfg h) outcome)\<rparr>,
          map Notify (progressCreate pr @ progressBegin pr ''Indexing Natural workspace'' @
            buildIndexNotices pr (hcRoot h) (brCache b \<noteq> None) (hcCfg h) (brCancelledAt b) files outcome)))"

text \<open>The rest of the goroutine: what its next step does, when it is the one that is due.\<close>

definition onReport :: "RunState \<Rightarrow> RunState \<times> Output list" where
  "onReport rs =
     (let n = rsNegotiation rs;
          pr = \<lparr>prToken = ''natural-lsp-index'', prEnabled = ngWorkDoneProgress n\<rparr>
      in (rs\<lparr>rsBuild := BuildEnded\<rparr>,
          map Notify (sendDiagnosticRefresh n @ progressEnd pr ''Indexing complete'' @
            reportNoUsableRoot (rsProbe rs) (hcIdx (rsContext rs)))))"

definition buildStep :: "Env \<Rightarrow> RunState \<Rightarrow> Event \<Rightarrow> RunState \<times> Output list" where
  "buildStep env rs event =
     (case (event, rsBuild rs) of
        (BuildDone b, Running) \<Rightarrow> onBuildDone env b rs
      | (PublishBuild, Checked built) \<Rightarrow>
          (rs\<lparr>rsContext := publishIndex built (rsContext rs), rsBuild := IndexPublished\<rparr>, [])
      | (TakeSnapshot, IndexPublished) \<Rightarrow>
          (rs\<lparr>rsBuild := BuffersTaken (replaySnapshot (enFsPath env) (rsContext rs))\<rparr>, [])
      | (MergeSnapshot, BuffersTaken entries) \<Rightarrow>
          (rs\<lparr>rsContext := replayMerge entries (rsContext rs), rsBuild := Merged\<rparr>, [])
      | (ReportBuild, Merged) \<Rightarrow> onReport rs
      | _ \<Rightarrow> (rs, []))"

definition serverStep :: "Env \<Rightarrow> RunState \<Rightarrow> Event \<Rightarrow> RunState \<times> Output list \<times> Ending option" where
  "serverStep env rs event =
     (case event of
        Arrives inc \<Rightarrow> onMessage env inc rs
      | _ \<Rightarrow> (case buildStep env rs event of (rs', out) \<Rightarrow> (rs', out, None)))"

text \<open>The run: the state at its end, what was sent, how it ended, and the events it did not get to.\<close>

fun serverRun :: "Env \<Rightarrow> RunState \<Rightarrow> Event list \<Rightarrow> RunState \<times> Output list \<times> Ending option \<times> Event list" where
  "serverRun env rs [] = (rs, [], None, [])"
| "serverRun env rs (event # events) =
     (case serverStep env rs event of
        (rs', out, Some ending) \<Rightarrow> (rs', out, Some ending, events)
      | (rs', out, None) \<Rightarrow>
          (case serverRun env rs' events of (rs'', later, ending, rest) \<Rightarrow> (rs'', out @ later, ending, rest)))"

end
