(* ===== verification/EventLoop.thy ===== *)
theory EventLoop
  imports Main
begin

text \<open>
  What a loop over events promises, whatever its events are: it takes them one by one, appends what
  each step puts out, and stops at the first step that ends it.
\<close>

locale event_loop =
  fixes step :: "'s \<Rightarrow> 'e \<Rightarrow> 's \<times> 'o list \<times> 'r option"
    and run :: "'s \<Rightarrow> 'e list \<Rightarrow> 's \<times> 'o list \<times> 'r option \<times> 'e list"
  assumes empty: "run s [] = (s, [], None, [])"
    and stops: "step s e = (s', out, Some r) \<Longrightarrow> run s (e # es) = (s', out, Some r, es)"
    and goes_on: "step s e = (s', out, None) \<Longrightarrow> run s' es = (s'', later, ending, rest) \<Longrightarrow>
      run s (e # es) = (s'', out @ later, ending, rest)"
begin

text \<open>
  What every step keeps holds in the end, and what every step's output has to do with its event the
  whole output has to do with the events handled.
\<close>

lemma run_keeps:
  assumes step: "\<And>s e. P s \<Longrightarrow> e \<in> set events \<Longrightarrow> P (fst (step s e)) \<and> R (fst (snd (step s e))) [e]"
    and R: "R [] []" "\<And>out out' es es'. R out es \<Longrightarrow> R out' es' \<Longrightarrow> R (out @ out') (es @ es')"
    and start: "P s" and ran: "run s events = (s', out, ending, rest)"
  shows "P s' \<and> (\<exists>handled. events = handled @ rest \<and> R out handled)"
  using step start ran
proof (induction events arbitrary: s out)
  case Nil
  then show ?case using R(1) empty [of s] by auto
next
  case (Cons e events)
  obtain s1 out1 end1 where s: "step s e = (s1, out1, end1)" by (metis prod_cases3)
  then have first: "P s1" "R out1 [e]" using Cons.prems(1) [of s e] Cons.prems(2) by simp_all
  show ?case
  proof (cases end1)
    case (Some r)
    then show ?thesis using Cons.prems(3) s stops first by (intro conjI exI [of _ "[e]"]) auto
  next
    case None
    obtain s2 out2 end2 rest2 where later: "run s1 events = (s2, out2, end2, rest2)" by (metis prod_cases4)
    then have all: "s' = s2" "out = out1 @ out2" "ending = end2" "rest = rest2"
      using goes_on [of s e s1 out1] s None Cons.prems(3) by auto
    obtain handled where "P s2" "events = handled @ rest2" "R out2 handled"
      using Cons.IH [OF _ first(1)] later Cons.prems(1) all by auto
    then show ?thesis using R(2) [OF first(2), of out2 handled] all by (intro conjI exI [of _ "e # handled"]) auto
  qed
qed

text \<open>The loop stops at the last event handled, or handles them all.\<close>

lemma run_splits:
  assumes step: "\<And>s e s' out. e \<in> set events \<Longrightarrow> step s e = (s', out, None) \<Longrightarrow> R out [e]"
    and R: "R [] []" "\<And>out out' es es'. R out es \<Longrightarrow> R out' es' \<Longrightarrow> R (out @ out') (es @ es')"
    and ran: "run s events = (s', out, ending, rest)"
  shows "ending = None \<and> rest = [] \<and> R out events \<or>
    (\<exists>before e s1 out1 out2 r. events = before @ e # rest \<and> ending = Some r \<and> step s1 e = (s', out2, Some r) \<and>
       out = out1 @ out2 \<and> R out1 before)"
  using step ran
proof (induction events arbitrary: s out)
  case Nil
  then show ?case using R(1) empty [of s] by auto
next
  case (Cons e events)
  obtain s1 out1 end1 where s: "step s e = (s1, out1, end1)" by (metis prod_cases3)
  show ?case
  proof (cases end1)
    case (Some r)
    then have "ending = Some r" "rest = events" "s' = s1" "out = out1"
      using Cons.prems(2) s stops by auto
    then show ?thesis using s Some R(1)
      by (intro disjI2 exI [of _ "[]"] exI [of _ e] exI [of _ s] exI [of _ "[]"] exI [of _ out1] exI [of _ r]) simp
  next
    case None
    obtain s2 out2 end2 rest2 where later: "run s1 events = (s2, out2, end2, rest2)" by (metis prod_cases4)
    then have all: "s' = s2" "out = out1 @ out2" "ending = end2" "rest = rest2"
      using goes_on [of s e s1 out1] s None Cons.prems(2) by auto
    have first: "R out1 [e]" using Cons.prems(1) [of e s s1 out1] s None by simp
    have fewer: "R o' [f]" if "f \<in> set events" "step t f = (t', o', None)" for f t t' o'
      using Cons.prems(1) [of f t t' o'] that by simp
    have "end2 = None \<and> rest2 = [] \<and> R out2 events \<or>
        (\<exists>before e s1 out1 out3 r. events = before @ e # rest2 \<and> end2 = Some r \<and> step s1 e = (s2, out3, Some r) \<and>
           out2 = out1 @ out3 \<and> R out1 before)"
      using Cons.IH [of s1 out2] fewer later all by blast
    then consider (on) "end2 = None" "rest2 = []" "R out2 events"
      | (ended) before e' s3 out3 out4 r where "events = before @ e' # rest2" "end2 = Some r"
          "step s3 e' = (s2, out4, Some r)" "out2 = out3 @ out4" "R out3 before"
      by blast
    then show ?thesis
    proof cases
      case on
      then show ?thesis using R(2) [OF first, of out2 events] all by simp
    next
      case ended
      then show ?thesis using R(2) [OF first ended(5)] all
        by (intro disjI2 exI [of _ "e # before"] exI [of _ e'] exI [of _ s3] exI [of _ "out1 @ out3"] exI [of _ out4]
            exI [of _ r]) simp
    qed
  qed
qed

lemma run_invariant:
  assumes "\<And>s e. P s \<Longrightarrow> P (fst (step s e))" "P s"
  shows "P (fst (run s events))"
  using run_keeps [of P events "\<lambda>_ _. True" s] assms by (cases "run s events") auto

end

end
