(* ===== verification/Loop_Facts.thy ===== *)
theory Loop_Facts
  imports Loop EventLoop Handlers_Facts Notices_Facts
begin

text \<open>
  Facts about a whole run of the server, whatever messages arrive and however the background build
  runs beside them: the calls are answered in order, what is sent unasked was announced, the state of the handlers is one the
  session allows, and after a shutdown nothing more is served or published.
\<close>

section \<open>The loop\<close>

interpretation server: event_loop "serverStep env" "serverRun env" for env
  by unfold_locales (simp_all add: case_prod_beta)

section \<open>Answers\<close>

definition responsesIn :: "Output list \<Rightarrow> Response list" where
  "responsesIn out = List.map_filter (\<lambda>o'. case o' of Respond r \<Rightarrow> Some r | Notify _ \<Rightarrow> None) out"

fun callOf :: "Event \<Rightarrow> Call option" where
  "callOf (Arrives inc) = (case inMessage inc of Inr (CallMsg c) \<Rightarrow> Some c | _ \<Rightarrow> None)"
| "callOf _ = None"

definition callsIn :: "Event list \<Rightarrow> Call list" where
  "callsIn events = List.map_filter callOf events"

lemma responsesIn_simps [simp]:
  "responsesIn [] = []" "responsesIn (xs @ ys) = responsesIn xs @ responsesIn ys"
  "responsesIn (map Notify ns) = []" "responsesIn (map Respond rs) = rs"
  "responsesIn (Respond r # xs) = r # responsesIn xs" "responsesIn (Notify n # xs) = responsesIn xs"
  by (simp_all add: responsesIn_def map_filter_def comp_def)

lemma callsIn_simps [simp]:
  "callsIn [] = []" "callsIn (xs @ ys) = callsIn xs @ callsIn ys"
  "callsIn (e # es) = (case callOf e of None \<Rightarrow> callsIn es | Some c \<Rightarrow> c # callsIn es)"
  by (simp_all add: callsIn_def map_filter_def split: option.split)

text \<open>
  The answer to a call: one response under its id; or, when the encoder fails on a reply and leaves a part
  of it, an error and then that part.
\<close>

definition answered :: "Env \<Rightarrow> Call \<Rightarrow> Response list \<Rightarrow> bool" where
  "answered env c responses \<longleftrightarrow>
     (\<exists>r. responses = [r] \<and> responseID r = callID c) \<or>
     (\<exists>reply part e msg. wiMarshal (enWire env) reply = Inl (Some part, e) \<and>
        responses = [ErrorResponse (callID c) InternalError msg, ResultResponse (callID c) part])"

definition answersTo :: "Env \<Rightarrow> Call list \<Rightarrow> Response list \<Rightarrow> bool" where
  "answersTo env cs responses \<longleftrightarrow> (\<exists>parts. responses = concat parts \<and> list_all2 (answered env) cs parts)"

lemma answersTo_simps [simp]: "answersTo env [] responses \<longleftrightarrow> responses = []" "answersTo env [c] responses \<longleftrightarrow> answered env c responses"
  by (auto simp: answersTo_def list_all2_Cons1 intro: exI [of _ "[responses]"])

lemma answersTo_append:
  "answersTo env cs responses \<Longrightarrow> answersTo env cs' responses' \<Longrightarrow> answersTo env (cs @ cs') (responses @ responses')"
  unfolding answersTo_def by (metis concat_append list_all2_appendI)

text \<open>An encoder that leaves nothing when it fails makes that one response for each call.\<close>

lemma answersTo_once:
  assumes "answersTo env cs responses" "\<And>reply part e. wiMarshal (enWire env) reply \<noteq> Inl (Some part, e)"
  shows "map responseID responses = map callID cs"
proof -
  obtain parts where p: "responses = concat parts" "list_all2 (answered env) cs parts"
    using assms(1) by (auto simp: answersTo_def)
  from p(2) have "map responseID (concat parts) = map callID cs"
    by (induction rule: list_all2_induct) (auto simp: answered_def assms(2))
  then show ?thesis using p(1) by simp
qed

text \<open>A part of a result comes from the encoder.\<close>

definition fromEncoder :: "Wire \<Rightarrow> ProviderResult \<Rightarrow> bool" where
  "fromEncoder w r \<longleftrightarrow> (\<forall>part e. r = MarshalFailed (Some part) e \<longrightarrow> (\<exists>reply e'. wiMarshal w reply = Inl (Some part, e')))"

lemma parts_ofEncoded: "ofEncoded (fromEncoder (svWire sv)) sv"
  by (auto simp: ofEncoded_def fromEncoder_def encoded_def split: sum.splits)

lemma serverBackend_parts:
  assumes "provide (serverBackend (serverAt env rs disk) (startBackend env) h) m p = MarshalFailed (Some part) e"
  shows "\<exists>reply e'. wiMarshal (enWire env) reply = Inl (Some part, e')"
proof -
  have "fst (requestCase (serverAt env rs disk) m p h) = Answered (MarshalFailed (Some part) e)"
    using assms by (auto simp: serverBackend_def split: CaseResult.splits)
  from requestCase_results [OF parts_ofEncoded _ this]
  have "fromEncoder (svWire (serverAt env rs disk)) (MarshalFailed (Some part) e)"
    by (simp add: fromEncoder_def outlinePanic_def)
  then show ?thesis by (simp add: fromEncoder_def serverAt_def)
qed

lemma onCall_answer:
  "\<exists>unsent. answered env c (responsesIn (fst (snd (onCall env inc c rs))) @ unsent) \<and>
     (case snd (snd (onCall env inc c rs)) of
        None \<Rightarrow> unsent = []
      | Some msg \<Rightarrow> \<exists>e json. inWriteError inc = Some e \<and> msg = ''write response: '' @ e \<and> unsent = [ResultResponse (callID c) json])"
proof -
  let ?sv = "serverAt env rs (inDisk inc)"
  let ?b = "serverBackend ?sv (startBackend env) (rsContext rs)"
  have start: "bootstrapPanic ?b p = None" for p by (simp add: serverBackend_def startBackend_def)
  obtain s' where s: "serveRequest ?sv (startBackend env) (rsLifecycle rs, rsContext rs) c =
      (s', snd (serveCall ?b (rsLifecycle rs) c))"
    by (cases "serveCall ?b (rsLifecycle rs) c") (auto simp: serveRequest_def)
  show ?thesis
  proof (cases "rsLifecycle rs = statePreInit \<and> callMethod c \<noteq> ''initialize''")
    case True
    then show ?thesis
      using s by (cases s') (auto simp: onCall_def Let_def serveCall_def answered_def)
  next
    case False
    show ?thesis
    proof (rule serveCall_answer [OF start, where c = c and state = "rsLifecycle rs"])
      fix r assume r: "snd (serveCall ?b (rsLifecycle rs) c) = [r]" "responseID r = callID c"
      show ?thesis
      proof (cases "isResult r \<and> inWriteError inc \<noteq> None")
        case True
        then show ?thesis
          using False s r
          by (cases r; cases s') (auto simp: onCall_def Let_def writeResult_def answered_def intro!: exI [of _ "[r]"])
      next
        case False
        then show ?thesis
          using \<open>\<not> (rsLifecycle rs = statePreInit \<and> callMethod c \<noteq> ''initialize'')\<close> s r
          by (cases r; cases s'; cases "inWriteError inc") (auto simp: onCall_def Let_def writeResult_def answered_def)
      qed
    next
      fix m p part e
      assume "provide ?b m p = MarshalFailed (Some part) e"
        and r: "snd (serveCall ?b (rsLifecycle rs) c) = [ErrorResponse (callID c) InternalError e, ResultResponse (callID c) part]"
      from serverBackend_parts [OF this(1)] show ?thesis
        using False s r
        by (cases s'; cases "inWriteError inc") (auto simp: onCall_def Let_def writeResult_def answered_def)
    qed
  qed
qed

text \<open>A step that ends the server leaves at most the result unsent that could not be written.\<close>

lemma serverStep_answers:
  assumes "serverStep env rs event = (rs', out, ending)"
  shows "\<exists>unsent. answersTo env (callsIn [event]) (responsesIn out @ unsent) \<and>
    (unsent = [] \<or> (\<exists>inc c e json. event = Arrives inc \<and> inMessage inc = Inr (CallMsg c) \<and> inWriteError inc = Some e \<and>
       ending = Some (Failed (''write response: '' @ e)) \<and> unsent = [ResultResponse (callID c) json]))"
proof (cases event)
  case (Arrives inc)
  show ?thesis
  proof (cases "inMessage inc")
    case (Inr m)
    show ?thesis
    proof (cases m)
      case (CallMsg c)
      then have step: "rs' = fst (onCall env inc c rs)" "out = fst (snd (onCall env inc c rs))"
        "ending = map_option Failed (snd (snd (onCall env inc c rs)))"
        using assms Inr by (auto simp: Arrives serverStep_def onMessage_def case_prod_beta)
      obtain unsent where a: "answered env c (responsesIn out @ unsent)"
        and u: "case snd (snd (onCall env inc c rs)) of None \<Rightarrow> unsent = []
          | Some msg \<Rightarrow> \<exists>e json. inWriteError inc = Some e \<and> msg = ''write response: '' @ e \<and> unsent = [ResultResponse (callID c) json]"
        using onCall_answer [of env c inc rs] unfolding step by blast
      have "answersTo env (callsIn [event]) (responsesIn out @ unsent)"
        using a by (simp add: Arrives Inr CallMsg)
      moreover have "unsent = [] \<or> (\<exists>inc c e json. event = Arrives inc \<and> inMessage inc = Inr (CallMsg c) \<and>
          inWriteError inc = Some e \<and> ending = Some (Failed (''write response: '' @ e)) \<and> unsent = [ResultResponse (callID c) json])"
        using u Arrives Inr CallMsg step(3) by (auto split: option.splits)
      ultimately show ?thesis by blast
    qed (use assms Arrives Inr in \<open>auto simp: serverStep_def onMessage_def case_prod_beta onNotification_def
        documentNotification_def Let_def split: option.splits if_splits\<close>)
  qed (use assms Arrives in \<open>simp add: serverStep_def onMessage_def\<close>)
qed (use assms in \<open>auto simp: serverStep_def buildStep_def onBuildDone_def onReport_def Let_def split: BuildStage.splits\<close>)


section \<open>What is sent unasked\<close>

lemma documentNotification_suits:
  "list_all (suits (rsNegotiation rs)) (snd (documentNotification env inc method params rs))"
  by (auto simp: documentNotification_def Let_def suits_open suits_change suits_watched onClose_def suits_parts split: option.split)

lemma branchNotices_suits: "list_all (suits (rsNegotiation rs)) (branchNotices env rs c)"
  by (auto simp: branchNotices_def suits_scan split: sum.split)

definition noticesIn :: "Output list \<Rightarrow> Notice list" where
  "noticesIn out = List.map_filter (\<lambda>o'. case o' of Notify x \<Rightarrow> Some x | Respond _ \<Rightarrow> None) out"

lemma noticesIn_simps [simp]:
  "noticesIn [] = []" "noticesIn (xs @ ys) = noticesIn xs @ noticesIn ys"
  "noticesIn (map Notify ns) = ns" "noticesIn (map Respond rs) = []"
  "noticesIn (Notify n # xs) = n # noticesIn xs" "noticesIn (Respond r # xs) = noticesIn xs"
  by (simp_all add: noticesIn_def map_filter_def comp_def)

lemma onCall_suits: "list_all (suits (rsNegotiation rs)) (noticesIn (fst (snd (onCall env inc c rs))))"
  by (auto simp: onCall_def Let_def case_prod_beta branchNotices_suits suits_trace writeResult_def suits_def
      split: option.split)

text \<open>
  C25. The server sends a client only what that client announced. Whatever step the main loop or the
  background build takes, in whatever state: no diagnostics are published to a client that pulls
  them, a refresh goes only to one that pulls and takes refreshes, progress, also that around the
  report on the workspace, and the registration of watchers only to one that takes them. And what counts as announced changes only when
  \<open>initialize\<close> is handled before the notification \<open>initialized\<close>: it is what the capabilities in its
  parameters say.
\<close>

theorem announced_only:
  assumes "serverStep env rs event = (rs', out, ending)"
  shows "list_all (suits (rsNegotiation rs)) (noticesIn out) \<and>
    (rsNegotiation rs' = rsNegotiation rs \<or>
     (\<exists>inc c cc trace ps. event = Arrives inc \<and> inMessage inc = Inr (CallMsg c) \<and> callMethod c = ''initialize'' \<and>
        rsLifecycle rs = statePreInit \<and> enInitialize env (callParams c) = Inr (cc, trace, ps) \<and>
        rsNegotiation rs' = handleInitialize cc trace))"
proof (cases event)
  case (Arrives inc)
  show ?thesis
  proof (cases "inMessage inc")
    case (Inr m)
    show ?thesis
    proof (cases m)
      case (CallMsg c)
      have step: "rs' = fst (onCall env inc c rs)" "out = fst (snd (onCall env inc c rs))"
        using assms Inr CallMsg by (auto simp: Arrives serverStep_def onMessage_def case_prod_beta)
      have "rsNegotiation (fst (onCall env inc c rs)) = rsNegotiation rs \<or> callMethod c = ''initialize'' \<and>
          rsLifecycle rs = statePreInit \<and> (\<exists>cc trace ps. enInitialize env (callParams c) = Inr (cc, trace, ps) \<and>
            rsNegotiation (fst (onCall env inc c rs)) = handleInitialize cc trace)"
        by (auto simp: onCall_def Let_def case_prod_beta afterInitialize_def applyInitialize_def split: sum.split)
      then show ?thesis
        using Arrives Inr CallMsg onCall_suits [of rs env inc c] unfolding step by blast
    qed (use assms Arrives Inr documentNotification_suits [of rs env inc] in
        \<open>auto simp: serverStep_def onMessage_def case_prod_beta onNotification_def suits_parts split: option.splits if_splits\<close>)
  qed (use assms Arrives in \<open>auto simp: serverStep_def onMessage_def\<close>)
qed (use assms in \<open>auto simp: serverStep_def buildStep_def onBuildDone_def onReport_def Let_def buildIndexNotices_def
    suits_progress suits_parts suits_log split: BuildStage.splits\<close>)

section \<open>The session\<close>

text \<open>
  The phase of the session a stage of the build stands for; a build that was cut short is still
  building there.
\<close>

fun fits :: "BuildStage \<Rightarrow> BuildPhase \<Rightarrow> bool" where
  "fits NotStarted ph \<longleftrightarrow> ph = Building"
| "fits Running ph \<longleftrightarrow> ph = Building"
| "fits (Checked built) ph \<longleftrightarrow> ph = Building"
| "fits IndexPublished ph \<longleftrightarrow> ph = Session_Facts.Published"
| "fits (BuffersTaken entries) ph \<longleftrightarrow> ph = Snapshot entries"
| "fits Merged ph \<longleftrightarrow> ph = Finished"
| "fits BuildEnded ph \<longleftrightarrow> ph = Finished \<or> ph = Building"

definition inSession :: "Env \<Rightarrow> RunState \<Rightarrow> bool" where
  "inSession env rs \<longleftrightarrow>
     (\<exists>ph. fits (rsBuild rs) ph \<and> sessionReachable (enFsPath env) (enAnalyze env) (rsContext rs, ph))"

text \<open>What waits to be published was built with the configuration the handlers have.\<close>

definition builtWith :: "Env \<Rightarrow> Config \<Rightarrow> BuildStage \<Rightarrow> bool" where
  "builtWith env cfg stage \<longleftrightarrow>
     (\<forall>built. stage = Checked built \<longrightarrow> (\<exists>cancelled codec sha disk tree cachePath hashes cache writeFile.
        built = buildIndex cfg
          (BuildWithCache cancelled codec sha cfg disk tree (enAnalyze env) cachePath hashes cache writeFile)))"

definition runInv :: "Env \<Rightarrow> RunState \<Rightarrow> bool" where
  "runInv env rs \<longleftrightarrow>
     (rsLifecycle rs = statePreInit \<longrightarrow> rsBuild rs = NotStarted \<and> hcIdx (rsContext rs) = None \<and> hcRes (rsContext rs) = None) \<and>
     (rsLifecycle rs = stateShutdown \<longrightarrow> rsCancelled rs) \<and> resolvedNow (rsContext rs) \<and>
     builtWith env (hcCfg (rsContext rs)) (rsBuild rs) \<and> (hcStore (rsContext rs) \<noteq> None \<longrightarrow> inSession env rs)"

lemma builtWith_other [simp]:
  "builtWith env cfg NotStarted" "builtWith env cfg Running" "builtWith env cfg IndexPublished"
  "builtWith env cfg (BuffersTaken entries)" "builtWith env cfg Merged" "builtWith env cfg BuildEnded"
  by (simp_all add: builtWith_def)

lemma inSession_step:
  assumes "inSession env rs" "rsBuild rs' = rsBuild rs"
    and "\<And>ph. sessionReachable (enFsPath env) (enAnalyze env) (rsContext rs, ph) \<Longrightarrow>
        sessionReachable (enFsPath env) (enAnalyze env) (rsContext rs', ph)"
  shows "inSession env rs'"
  using assms unfolding inSession_def by metis

lemma hostAt_path [simp]: "hoFsPath (hostAt env disk) = enFsPath env"
  by (simp add: hostAt_def)

text \<open>A notification changes the context as one step of the session, or not at all.\<close>

lemma documentNotification_reachable:
  assumes "sessionReachable (enFsPath env) (enAnalyze env) (rsContext rs, ph)"
  shows "sessionReachable (enFsPath env) (enAnalyze env) (fst (documentNotification env inc method params rs), ph)"
proof -
  note steps = sessionReachable.opened [OF assms] sessionReachable.edited [OF assms]
    sessionReachable.closed [OF assms] sessionReachable.watched [OF assms]
  have "fst (onOpen n (hostAt env disk) utf16 u v content h) = didOpen (enFsPath env) u v content h"
    "fst (onChange n (hostAt env disk) utf16 az u v changes h) = didChange (enFsPath env) az u v changes h"
    "fst (onClose n u h) = didClose u h"
    "fst (onWatchedFiles n (hostAt env disk) utf16 az events h) = didChangeWatchedFiles (enFsPath env) az events h"
    for n disk utf16 u v content az changes events h
    by (simp_all add: onChange_state watchedEvents_state onWatchedFiles_def case_prod_beta onOpen_def onClose_def Let_def)
  then show ?thesis using assms steps
    by (auto simp: documentNotification_def Let_def split: option.split)
qed

lemma documentNotification_resolved:
  assumes "resolvedNow (rsContext rs)"
  shows "resolvedNow (fst (documentNotification env inc method params rs))"
proof -
  have "resolvedNow (fst (onOpen n ho utf16 u v content (rsContext rs)))"
    "resolvedNow (fst (onChange n ho utf16 az u v changes (rsContext rs)))"
    "resolvedNow (fst (onClose n u (rsContext rs)))"
    "resolvedNow (fst (onWatchedFiles n ho utf16 az events (rsContext rs)))"
    for n ho utf16 u v content az changes events
    using events_resolved [OF assms]
    by (simp_all add: onChange_state watchedEvents_state onWatchedFiles_def case_prod_beta onOpen_def onClose_def Let_def)
  then show ?thesis using assms by (auto simp: documentNotification_def Let_def split: option.split)
qed

lemma documentNotification_store:
  "hcStore (fst (documentNotification env inc method params rs)) \<noteq> None \<Longrightarrow> hcStore (rsContext rs) \<noteq> None"
proof -
  have w: "hcStore (didChangeWatchedFiles fs az events h) = hcStore h" for fs az events h
    unfolding didChangeWatchedFiles_def
    by (induction events arbitrary: h) (auto simp: watchedStep_def applyDocumentChange_def Let_def split: option.split)
  have "fst (onWatchedFiles n (hostAt env disk) utf16 az events h) = didChangeWatchedFiles (enFsPath env) az events h"
    for n disk utf16 az events h
    by (simp add: watchedEvents_state onWatchedFiles_def case_prod_beta)
  then show "hcStore (fst (documentNotification env inc method params rs)) \<noteq> None \<Longrightarrow> hcStore (rsContext rs) \<noteq> None"
    by (auto simp: documentNotification_def Let_def w split: option.splits if_splits)
qed

lemma change_cfg [simp]: "hcCfg (applyDocumentChange az r c h) = hcCfg h" "hcCfg (onStore f h) = hcCfg h"
  by (simp_all add: applyDocumentChange_def onStore_def Let_def split: option.split)

lemma steps_cfg [simp]:
  "hcCfg (changeStep fs az u v h change) = hcCfg h" "hcCfg (watchedStep fs az h event) = hcCfg h"
  by (simp_all add: changeStep_def watchedStep_def Let_def split: ContentChange.split option.split)

lemma events_cfg [simp]:
  "hcCfg (didOpen fs u v content h) = hcCfg h" "hcCfg (didClose u h) = hcCfg h"
  "hcCfg (didChange fs az u v changes h) = hcCfg h" "hcCfg (didChangeWatchedFiles fs az events h) = hcCfg h"
proof -
  show "hcCfg (didChange fs az u v changes h) = hcCfg h"
    unfolding didChange_def by (induction changes arbitrary: h) simp_all
  show "hcCfg (didChangeWatchedFiles fs az events h) = hcCfg h"
    unfolding didChangeWatchedFiles_def by (induction events arbitrary: h) simp_all
qed (simp_all add: didOpen_def didClose_def)

lemma documentNotification_cfg:
  "hcCfg (fst (documentNotification env inc method params rs)) = hcCfg (rsContext rs)"
  by (simp add: documentNotification_def Let_def onChange_state watchedEvents_state onWatchedFiles_def case_prod_beta
      onOpen_def onClose_def split: option.split)

lemma onNotification_inv:
  assumes "runInv env rs"
  shows "runInv env (fst (onNotification env inc method params rs))"
proof (cases "method = ''initialized'' \<or> rsLifecycle rs \<noteq> stateInitialized \<or> method = ''$/setTrace''")
  case True
  then show ?thesis
    using assms
    by (auto simp: onNotification_def runInv_def initializedNotification_def inSession_def split: option.split)
next
  case False
  let ?rs = "rs\<lparr>rsContext := fst (documentNotification env inc method params rs)\<rparr>"
  have "fst (onNotification env inc method params rs) = ?rs"
    using False by (simp add: onNotification_def case_prod_beta)
  moreover have "inSession env ?rs" if "hcStore (rsContext ?rs) \<noteq> None"
  proof (rule inSession_step)
    have "hcStore (rsContext rs) \<noteq> None" using that documentNotification_store by simp
    then show "inSession env rs" using assms by (simp add: runInv_def)
  qed (use documentNotification_reachable in simp_all)
  ultimately show ?thesis using False assms documentNotification_resolved documentNotification_cfg by (simp add: runInv_def)
qed

lemma serveCall_state:
  "state \<noteq> statePreInit \<Longrightarrow>
     fst (serveCall b state c) = (if state = stateInitialized \<and> callMethod c = ''shutdown'' then stateShutdown else state)"
  by (auto simp: serveCall_def dispatchCall_def initializeCall_def shutdownCall_def providerCall_def
      split: option.splits sum.splits ProviderResult.splits)

lemma onCall_cases:
  obtains
    (gated) "fst (onCall env inc c rs) = rs"
  | (start) "rsLifecycle rs = statePreInit" "fst (onCall env inc c rs) = afterInitialize env (callParams c) rs"
  | (other) h' where "rsLifecycle rs \<noteq> statePreInit"
      "h' = (if rsLifecycle rs = stateInitialized
             then snd (requestCase (serverAt env rs (inDisk inc)) (callMethod c) (callParams c) (rsContext rs)) else rsContext rs)"
      "fst (onCall env inc c rs) =
         rs\<lparr>rsLifecycle := (if rsLifecycle rs = stateInitialized \<and> callMethod c = ''shutdown'' then stateShutdown else rsLifecycle rs),
            rsContext := h', rsCancelled := rsCancelled rs \<or> callMethod c = ''shutdown'' \<and> rsLifecycle rs = stateInitialized\<rparr>"
proof (cases "rsLifecycle rs = statePreInit")
  case True
  then show ?thesis
    using gated start by (cases "callMethod c = ''initialize''") (simp_all add: onCall_def Let_def case_prod_beta)
next
  case False
  show ?thesis
    by (rule other [OF False refl])
      (use False in \<open>simp add: onCall_def Let_def case_prod_beta serveRequest_def serveCall_state\<close>)
qed

lemma newContext_start:
  "hcIdx h = None \<Longrightarrow> hcRes h = None \<Longrightarrow> newContext env root cfg h = startContext (enAnalyze env) root cfg"
  by (cases h) (simp add: newContext_def startContext_def)

lemma afterInitialize_inv:
  assumes "runInv env rs" "rsLifecycle rs = statePreInit"
  shows "runInv env (afterInitialize env params rs)"
proof -
  have "runInv env (applyInitialize env decoded rs)" for decoded
  proof -
    obtain cc trace ps where d: "decoded = (cc, trace, ps)" by (metis prod_cases3)
    obtain root cfg log where b: "Bootstrap (enStat env) (enReadConfig env) (enToml env)
        (resolveRootStart (enIsFile env) (enFsPath env) ps (enCwd env)) [] = (root, cfg, log)" by (metis prod_cases3)
    have "rsContext (applyInitialize env decoded rs) = startContext (enAnalyze env) root cfg"
      "rsLifecycle (applyInitialize env decoded rs) = statePreInit" "rsBuild (applyInitialize env decoded rs) = NotStarted"
      using assms by (simp_all add: applyInitialize_def d b Let_def runInv_def newContext_start)
    moreover from this have "inSession env (applyInitialize env decoded rs)"
      using sessionReachable.start by (auto simp: inSession_def)
    moreover have "resolvedNow (startContext (enAnalyze env) root cfg)" by (simp add: startContext_def resolvedNow_def)
    ultimately show ?thesis by (simp add: runInv_def startContext_def)
  qed
  then show ?thesis using assms(1) by (simp add: afterInitialize_def split: sum.split)
qed

lemma onCall_inv:
  assumes "runInv env rs"
  shows "runInv env (fst (onCall env inc c rs))"
proof (cases rule: onCall_cases [of env inc c rs])
  case start
  then show ?thesis using afterInitialize_inv assms by simp
next
  case (other h')
  have ok: "indexOK (rsContext rs)" using assms resolvedNow_indexOK by (simp add: runInv_def)
  from requestCase_same [OF ok] have same: "sameContext (rsContext rs) h'"
    using other(2) sameContext_refl [OF ok] by simp
  have res: "resolvedNow h'" using sameContext_resolved [OF same] assms by (simp add: runInv_def)
  have cfg: "hcCfg h' = hcCfg (rsContext rs)" using same by (auto simp: sameContext_def)
  have "inSession env (fst (onCall env inc c rs))" if "hcStore h' \<noteq> None"
  proof (rule inSession_step)
    have "hcStore (rsContext rs) \<noteq> None" using same that by (auto simp: sameContext_def)
    then show "inSession env rs" using assms by (simp add: runInv_def)
  qed (use other sessionReachable.served in auto)
  then show ?thesis using other res cfg assms by (auto simp: runInv_def)
qed (use assms in simp)

lemma published_resolved:
  assumes "builtWith env (hcCfg h) (Checked built)"
  shows "resolvedNow (publishIndex built h)"
proof -
  obtain cancelled codec sha disk tree cachePath hashes cache writeFile where
    built: "built = buildIndex (hcCfg h)
      (BuildWithCache cancelled codec sha (hcCfg h) disk tree (enAnalyze env) cachePath hashes cache writeFile)"
    using assms by (auto simp: builtWith_def)
  show ?thesis
  proof (cases "BuildWithCache cancelled codec sha (hcCfg h) disk tree (enAnalyze env) cachePath hashes cache writeFile")
    case (Inr b)
    then have "cacheInv (btIndex b)" by (rule BuildWithCache_cacheInv)
    with Inr built show ?thesis by (simp add: resolvedNow_def publishIndex_def buildIndex_def)
  qed (simp add: resolvedNow_def publishIndex_def buildIndex_def built)
qed

lemma buildDone_inv:
  assumes "runInv env rs" "rsBuild rs = Running"
  shows "runInv env (fst (onBuildDone env b rs))"
proof -
  have "builtWith env (hcCfg (rsContext rs)) (Checked (buildIndex (hcCfg (rsContext rs)) (buildOutcome env b (rsContext rs))))"
    unfolding builtWith_def buildOutcome_def by blast
  then show ?thesis using assms by (auto simp: onBuildDone_def Let_def runInv_def inSession_def)
qed

lemma publish_inv:
  assumes "runInv env rs" "rsBuild rs = Checked built"
  shows "runInv env (rs\<lparr>rsContext := publishIndex built (rsContext rs), rsBuild := IndexPublished\<rparr>)"
proof -
  let ?h = "publishIndex built (rsContext rs)"
  have with_cfg: "builtWith env (hcCfg (rsContext rs)) (Checked built)" using assms by (simp add: runInv_def)
  have "sessionReachable (enFsPath env) (enAnalyze env) (?h, Session_Facts.Published)" if "hcStore (rsContext rs) \<noteq> None"
  proof -
    have "sessionReachable (enFsPath env) (enAnalyze env) (rsContext rs, Building)"
      using assms that by (auto simp: runInv_def inSession_def)
    from sessionReachable.published [OF this refl] with_cfg show ?thesis by (auto simp: builtWith_def)
  qed
  moreover have "hcStore ?h = hcStore (rsContext rs)" by (simp add: publishIndex_def)
  ultimately show ?thesis
    using assms published_resolved [OF with_cfg] by (auto simp: runInv_def inSession_def)
qed

lemma merge_inv:
  assumes "runInv env rs" "rsBuild rs = BuffersTaken entries"
  shows "runInv env (rs\<lparr>rsContext := replayMerge entries (rsContext rs), rsBuild := Merged\<rparr>)"
proof -
  have "hcStore (replayMerge entries (rsContext rs)) = hcStore (rsContext rs)"
    by (simp add: replayMerge_def Let_def split: option.split)
  then show ?thesis
    using assms replayMerge_resolved by (auto simp: runInv_def inSession_def intro: sessionReachable.merged)
qed

lemma snapshot_inv:
  assumes "runInv env rs" "rsBuild rs = IndexPublished"
  shows "runInv env (rs\<lparr>rsBuild := BuffersTaken (replaySnapshot (enFsPath env) (rsContext rs))\<rparr>)"
  using assms by (auto simp: runInv_def inSession_def intro: sessionReachable.snapshot)

lemma buildStep_inv:
  assumes "runInv env rs"
  shows "runInv env (fst (buildStep env rs event))"
proof -
  have "runInv env (fst (onReport rs))" if "rsBuild rs = Merged"
    using assms that by (auto simp: onReport_def Let_def runInv_def inSession_def)
  then show ?thesis
    using assms buildDone_inv [OF assms] publish_inv [OF assms] snapshot_inv [OF assms] merge_inv [OF assms]
    by (cases event; cases "rsBuild rs") (simp_all add: buildStep_def)
qed

lemma serverStep_inv:
  assumes "runInv env rs"
  shows "runInv env (fst (serverStep env rs event))"
proof (cases event)
  case (Arrives inc)
  show ?thesis
  proof (cases "inMessage inc")
    case (Inr m)
    then show ?thesis
      using assms onCall_inv [OF assms] onNotification_inv [OF assms]
      by (cases m) (auto simp: Arrives serverStep_def onMessage_def case_prod_beta)
  qed (use assms in \<open>simp add: Arrives serverStep_def onMessage_def\<close>)
qed (use buildStep_inv [OF assms, of event] in \<open>simp_all add: serverStep_def case_prod_beta\<close>)

lemma startState_inv: "runInv env startState"
  by (simp add: runInv_def startState_def resolvedNow_def)

text \<open>
  C3. The run refines the session. Whatever messages arrive and however the build runs beside them, the
  state of the handlers is one the session relation allows, once the client has initialized the server;
  and in every run the published resolution is that of the published index.
\<close>

theorem run_refines_session:
  assumes "serverRun env startState events = (rs, out, ending, rest)"
  shows "(hcStore (rsContext rs) \<noteq> None \<longrightarrow> inSession env rs) \<and>
    (\<forall>idx. hcIdx (rsContext rs) = Some idx \<longrightarrow> hcRes (rsContext rs) = Some (Resolve idx (Some (hcCfg (rsContext rs)))))"
proof -
  have "runInv env rs"
    using server.run_invariant [of "runInv env" env startState events] serverStep_inv startState_inv assms by simp
  then show ?thesis by (auto simp: runInv_def resolvedNow_def)
qed

section \<open>After a shutdown\<close>

definition quiet :: "HandlerContext \<Rightarrow> RunState \<Rightarrow> bool" where
  "quiet h rs \<longleftrightarrow>
     rsLifecycle rs = stateShutdown \<and> rsCancelled rs \<and> rsBuild rs \<in> {Running, BuildEnded} \<and> rsContext rs = h"

lemma onCall_shutdown:
  assumes "rsLifecycle rs = stateShutdown"
  shows "fst (onCall env inc c rs) = rs \<and> list_all (\<lambda>r. \<not> isResult r) (responsesIn (fst (snd (onCall env inc c rs)))) \<and>
    snd (snd (onCall env inc c rs)) = None"
proof -
  let ?b = "serverBackend (serverAt env rs (inDisk inc)) (startBackend env) (rsContext rs)"
  have "\<exists>code msg. serveCall ?b stateShutdown c = (stateShutdown, [ErrorResponse (callID c) code msg])"
    by (auto simp: serveCall_def dispatchCall_def initializeCall_def shutdownCall_def providerCall_def split: option.split)
  then obtain code msg where e: "serveCall ?b stateShutdown c = (stateShutdown, [ErrorResponse (callID c) code msg])" by blast
  then show ?thesis
    using assms by (simp add: onCall_def Let_def serveRequest_def e writeResult_def split: option.split)
qed

lemma serverStep_quiet:
  assumes "quiet h rs"
  shows "quiet h (fst (serverStep env rs event)) \<and>
    list_all (\<lambda>r. \<not> isResult r) (responsesIn (fst (snd (serverStep env rs event))))"
proof (cases event)
  case (Arrives inc)
  have state: "rsLifecycle rs = stateShutdown" using assms by (simp add: quiet_def)
  show ?thesis
  proof (cases "inMessage inc")
    case (Inr m)
    then show ?thesis
      using assms state onCall_shutdown [OF state, of env inc]
      by (cases m) (auto simp: Arrives serverStep_def onMessage_def case_prod_beta onNotification_def)
  qed (use assms in \<open>simp add: Arrives serverStep_def onMessage_def\<close>)
qed (use assms in \<open>auto simp: serverStep_def buildStep_def onBuildDone_def Let_def quiet_def split: BuildStage.split\<close>)

lemma serverRun_quiet:
  assumes "quiet h rs" "serverRun env rs events = (rs', out, ending, rest)"
  shows "quiet h rs' \<and> list_all (\<lambda>r. \<not> isResult r) (responsesIn out)"
  using server.run_keeps [where P = "quiet h" and env = env and s = rs and events = events
      and R = "\<lambda>out _. list_all (\<lambda>r. \<not> isResult r) (responsesIn out)"] serverStep_quiet assms
  by auto

text \<open>
  C13. A shutdown is final. After a run that took a shutdown while the index was still being built, so before
  the build has looked at its context, whatever comes next changes nothing the handlers share and publishes nothing; every further call is answered with an
  error, and the next \<open>exit\<close> ends the server without one.
\<close>

theorem shutdown_final:
  assumes "serverRun env startState before = (rs, out, None, [])"
    and "rsLifecycle rs = stateShutdown" and "rsBuild rs = Running"
    and "serverRun env rs events = (rs', out', ending, rest)"
  shows "rsContext rs' = rsContext rs \<and> rsLifecycle rs' = stateShutdown \<and>
     list_all (\<lambda>r. \<not> isResult r) (responsesIn out') \<and>
     (\<forall>inc params. inMessage inc = Inr (NotificationMsg ''exit'' params) \<longrightarrow>
        snd (snd (serverStep env rs' (Arrives inc))) = Some Clean)"
proof -
  have "runInv env rs"
    using server.run_invariant [of "runInv env" env startState before] serverStep_inv startState_inv assms(1) by simp
  then have "quiet (rsContext rs) rs" using assms(2,3) by (simp add: quiet_def runInv_def)
  from serverRun_quiet [OF this assms(4)] show ?thesis
    by (auto simp: quiet_def serverStep_def onMessage_def exitNotification_def)
qed

section \<open>The build on its own\<close>

text \<open>When nothing comes in between, the steps of the build are the background build of \<open>Notices\<close>.\<close>

lemma uninterrupted_build:
  assumes "rsBuild rs = Running" "collectFiles (hcCfg (rsContext rs)) (brTree b) = Some files"
  shows "\<exists>rs'. serverRun env rs [BuildDone b, PublishBuild, TakeSnapshot, MergeSnapshot, ReportBuild] =
      (rs', map Notify (snd (backgroundBuild (enFsPath env) (rsNegotiation rs) (rsProbe rs) (brCache b \<noteq> None)
        (brCancelledAt b) (rsCancelled rs \<or> brContextDone b) files (buildOutcome env b (rsContext rs)) (rsContext rs))), None, []) \<and>
    rsContext rs' = fst (backgroundBuild (enFsPath env) (rsNegotiation rs) (rsProbe rs) (brCache b \<noteq> None)
        (brCancelledAt b) (rsCancelled rs \<or> brContextDone b) files (buildOutcome env b (rsContext rs)) (rsContext rs)) \<and>
    rsBuild rs' = BuildEnded"
  using assms by (simp add: serverStep_def buildStep_def onBuildDone_def onReport_def backgroundBuild_def Let_def)

text \<open>
  A shutdown that comes after the build has looked at its context does not keep it from publishing,
  although the comment in the code rules that out.
\<close>

lemma published_after_shutdown:
  assumes "rsBuild rs = Running" "rsLifecycle rs = stateInitialized" "\<not> rsCancelled rs" "\<not> brContextDone b"
    and "inMessage inc = Inr (CallMsg c)" "callMethod c = ''shutdown''"
  shows "\<exists>rs'. rs' = fst (serverRun env rs [BuildDone b, Arrives inc]) \<and>
    rsLifecycle rs' = stateShutdown \<and> rsCancelled rs' \<and>
    rsContext (fst (serverStep env rs' PublishBuild)) =
      publishIndex (buildIndex (hcCfg (rsContext rs)) (buildOutcome env b (rsContext rs))) (rsContext rs')"
proof -
  let ?rs1 = "fst (onBuildDone env b rs)"
  have rs1: "rsBuild ?rs1 = Checked (buildIndex (hcCfg (rsContext rs)) (buildOutcome env b (rsContext rs)))"
    "rsLifecycle ?rs1 = stateInitialized" "\<not> rsCancelled ?rs1"
    using assms by (simp_all add: onBuildDone_def Let_def)
  have first: "serverStep env rs (BuildDone b) = (?rs1, snd (onBuildDone env b rs), None)"
    using assms(1) by (simp add: serverStep_def buildStep_def case_prod_beta)
  have second: "fst (serverStep env ?rs1 (Arrives inc)) = fst (onCall env inc c ?rs1)"
    using assms(5) by (simp add: serverStep_def onMessage_def case_prod_beta)
  then have call: "fst (serverRun env rs [BuildDone b, Arrives inc]) = fst (onCall env inc c ?rs1)"
    by (simp add: first case_prod_beta split: option.split)
  have "rsBuild (fst (onCall env inc c ?rs1)) = rsBuild ?rs1 \<and> rsLifecycle (fst (onCall env inc c ?rs1)) = stateShutdown \<and>
    rsCancelled (fst (onCall env inc c ?rs1))"
    using rs1 assms(6) by (simp add: onCall_def Let_def case_prod_beta serveRequest_def serveCall_state)
  then show ?thesis unfolding call using rs1(1) by (simp add: serverStep_def buildStep_def)
qed

section \<open>An example\<close>

definition sampleEnv :: Env where
  "sampleEnv =
     \<lparr>enWire = sampleWire, enFsPath = samplePath, enUriFile = id, enIsFile = (\<lambda>_. True), enRefs = (\<lambda>_. []),
      enAnalyze = (\<lambda>_ _. AnalyzerError), enCwd = ''/'', enStat = (\<lambda>_. False),
      enReadConfig = (\<lambda>_. Inl (NotExist ''missing'')), enToml = (\<lambda>_ cfg. Inr cfg),
      enInitialize = (\<lambda>_. Inr (\<lparr>ccPositionEncodings = None, ccWatchedFilesDynamic = Some True, ccWorkDoneProgress = None,
        ccDiagnostic = False, ccRefreshSupport = None\<rparr>, ''off'', \<lparr>ipWorkspaceFolders = None, ipRootURI = None\<rparr>)),
      enInitResult = (\<lambda>_. Inr ''caps''), enOpened = (\<lambda>_. None), enChanged = (\<lambda>_. None), enClosed = Some,
      enWatched = (\<lambda>_. None), enSetTrace = Some\<rparr>"

definition arrives :: "Message \<Rightarrow> Event" where
  "arrives m = Arrives \<lparr>inMessage = Inr m, inContextDone = False, inDisk = (\<lambda>_. None), inWriteError = None, inElapsed = ''1ms''\<rparr>"

definition sampleCall :: "string \<Rightarrow> string \<Rightarrow> Event" where
  "sampleCall i method = arrives (CallMsg \<lparr>callID = i, callMethod = method, callParams = ''p''\<rparr>)"

definition sampleSession :: "Event list" where
  "sampleSession =
     [sampleCall ''1'' ''initialize'', arrives (NotificationMsg ''initialized'' []), sampleCall ''2'' ''test/panic'',
      sampleCall ''3'' ''shutdown'']"

text \<open>A run in which only messages come needs nothing of the build to be evaluated.\<close>

fun messageRun :: "Env \<Rightarrow> RunState \<Rightarrow> Event list \<Rightarrow> (RunState \<times> Output list) option" where
  "messageRun env rs [] = Some (rs, [])"
| "messageRun env rs (Arrives inc # events) =
     (case onMessage env inc rs of
        (rs', out, None) \<Rightarrow> map_option (\<lambda>(rs'', later). (rs'', out @ later)) (messageRun env rs' events)
      | _ \<Rightarrow> None)"
| "messageRun env rs (event # events) = None"

lemma messageRun_sound:
  "messageRun env rs events = Some (rs', out) \<Longrightarrow> serverRun env rs events = (rs', out, None, [])"
  by (induction env rs events arbitrary: out rule: messageRun.induct)
     (auto simp: serverStep_def split: prod.splits option.splits)

lemma sampleSession_evaluated:
  "\<exists>rs out. messageRun sampleEnv startState sampleSession = Some (rs, out) \<and>
     responsesIn out =
       [ResultResponse ''1'' ''caps'', ErrorResponse ''2'' InternalError ''panic in request dispatch: test panic for FR-43'',
        ResultResponse ''3'' ''null''] \<and>
     rsLifecycle rs = stateShutdown \<and> rsBuild rs = Running \<and> hcStore (rsContext rs) \<noteq> None"
proof -
  have "(case messageRun sampleEnv startState sampleSession of None \<Rightarrow> False | Some (rs, out) \<Rightarrow>
     responsesIn out =
       [ResultResponse ''1'' ''caps'', ErrorResponse ''2'' InternalError ''panic in request dispatch: test panic for FR-43'',
        ResultResponse ''3'' ''null''] \<and>
     rsLifecycle rs = stateShutdown \<and> (case rsBuild rs of Running \<Rightarrow> True | _ \<Rightarrow> False) \<and> \<not> Option.is_none (hcStore (rsContext rs)))"
    by code_simp
  then show ?thesis by (auto simp: Option.is_none_def split: option.splits BuildStage.splits)
qed

lemma sampleSession_run:
  "responsesIn (fst (snd (serverRun sampleEnv startState sampleSession))) =
     [ResultResponse ''1'' ''caps'', ErrorResponse ''2'' InternalError ''panic in request dispatch: test panic for FR-43'',
      ResultResponse ''3'' ''null'']"
  "snd (snd (serverRun sampleEnv startState sampleSession)) = (None, [])"
  "rsLifecycle (fst (serverRun sampleEnv startState sampleSession)) = stateShutdown"
  "rsBuild (fst (serverRun sampleEnv startState sampleSession)) = Running"
  "hcStore (rsContext (fst (serverRun sampleEnv startState sampleSession))) \<noteq> None"
  using sampleSession_evaluated messageRun_sound [of sampleEnv startState sampleSession] by auto


theorem announced_only_witness:
  "\<exists>rs out ending. serverStep sampleEnv startState (sampleCall ''1'' ''initialize'') = (rs, out, ending) \<and>
     list_all (suits (rsNegotiation startState)) (noticesIn out)"
proof -
  obtain rs out ending where r: "serverStep sampleEnv startState (sampleCall ''1'' ''initialize'') = (rs, out, ending)"
    by (metis prod_cases3)
  from announced_only [OF r] r show ?thesis by blast
qed

theorem run_refines_session_witness:
  "inSession sampleEnv (fst (serverRun sampleEnv startState sampleSession))"
proof -
  obtain rs out ending rest where r: "serverRun sampleEnv startState sampleSession = (rs, out, ending, rest)"
    by (metis prod_cases4)
  with run_refines_session [OF r] sampleSession_run(5) show ?thesis by simp
qed

theorem shutdown_final_witness:
  "\<exists>rs. rs = fst (serverRun sampleEnv startState sampleSession) \<and>
     rsContext (fst (serverRun sampleEnv rs [sampleCall ''4'' ''workspace/symbol''])) = rsContext rs \<and>
     list_all (\<lambda>r. \<not> isResult r) (responsesIn (fst (snd (serverRun sampleEnv rs [sampleCall ''4'' ''workspace/symbol'']))))"
proof -
  obtain rs out where r: "serverRun sampleEnv startState sampleSession = (rs, out, None, [])"
    using sampleSession_run(2) by (metis prod.collapse)
  obtain rs' out' ending rest where
    later: "serverRun sampleEnv rs [sampleCall ''4'' ''workspace/symbol''] = (rs', out', ending, rest)"
    by (metis prod_cases4)
  have "rsLifecycle rs = stateShutdown" "rsBuild rs = Running"
    using sampleSession_run(3,4) r by simp_all
  from shutdown_final [OF r this later] show ?thesis using r later by simp
qed

text \<open>
  A read error that does not go away, like a closed pipe, is not an end: the loop takes it for a malformed
  message each time.
\<close>

lemma malformed_forever:
  "serverRun env rs (replicate n (Arrives \<lparr>inMessage = Inl (ReadMalformed e), inContextDone = False, inDisk = disk,
     inWriteError = w, inElapsed = t\<rparr>)) = (rs, [], None, [])"
  by (induction n) (simp_all add: serverStep_def onMessage_def readFailure_def)

text \<open>The server can be initialized before \<open>initialize\<close>, and the build then runs in no workspace.\<close>

lemma initialized_first:
  "rsLifecycle (fst (serverRun env startState [arrives (NotificationMsg ''initialized'' p)])) = stateInitialized"
  "hcRoot (rsContext (fst (serverRun env startState [arrives (NotificationMsg ''initialized'' p)]))) = []"
  by (simp_all add: serverStep_def onMessage_def arrives_def onNotification_def startState_def initializedNotification_def)

end
