(* ===== verification/Spec2Isabelle.thy ===== *)
theory Spec2Isabelle
  imports Field_Forest Parser_Facts Analysis_Facts Config_Facts LineWidth_Facts FieldResolution_Facts
    Build_Facts Session_Facts Dispatch_Facts Cursor_Facts References_Facts SemanticTokens_Facts
    TokenWire_Facts Diagnostics_Facts Completion_Facts CallHierarchy_Facts Lenses_Facts
    Handlers_Facts Notices_Facts Watcher_Facts Corpus_Facts Startup_Facts Loop_Facts
begin

text \<open>
  A model of the language server for Natural, from the bytes of a source file to the sequence of
  answers and notices a client sees. Theories without \<open>_Facts\<close> in their name hold definitions translated
  from the code, those with it hold the theorems. File names below are relative to \<open>internal/\<close>.

  \<^bold>\<open>The analysis of one file\<close> (\<open>analysis/natural/\<close>). \<open>Lexer\<close> (\<open>lexer.go\<close>) keeps the input and a cursor and
  scans one token per call. \<open>Parser\<close>, \<open>Parser_Stmts\<close>, \<open>Parser_Fields\<close>, \<open>Parser_SQL\<close> and \<open>Parser_Dispatch\<close>
  (\<open>parser.go\<close>) hold the parser's state, a lexer with one token of lookahead and the diagnostics, and one
  function per method, which takes and returns that state; \<open>Ast\<close> (\<open>ast.go\<close>) has the nodes they build.
  \<open>Extract\<close> (\<open>calls.go\<close>, \<open>data.go\<close>, \<open>sql.go\<close>) and \<open>Structure\<close> (\<open>structure.go\<close>) read the edges, definitions and
  symbols off the tree, \<open>DDM\<close> (\<open>ddm.go\<close>) scans the reports with fixed columns, \<open>SemanticTokens\<close>
  (\<open>semantictokens.go\<close>) classifies the tokens, and \<open>Analyzer\<close> (\<open>analyzer.go\<close>, \<open>objecttype.go\<close>,
  \<open>variablerefs.go\<close>) composes them. Their common output is \<open>Model\<close> (\<open>model/\<close>).

  \<^bold>\<open>The workspace.\<close> \<open>Startup\<close> (\<open>config/config.go\<close>, \<open>cmd/natural-lsp/main.go\<close> above \<open>internal/\<close>) reads the
  configuration, renders the sample one and scans the command line; \<open>Config\<close> (\<open>config/config.go\<close>,
  \<open>paths/paths.go\<close>) validates what was read and decides which paths are excluded. \<open>Index\<close> (\<open>workspace/index.go\<close>) maps paths to analyses, with a name index behind a
  cache; \<open>LineWidth\<close> (\<open>linewidth.go\<close>, \<open>server/position.go\<close>) converts columns; \<open>Resolution\<close> (\<open>resolution.go\<close>) and
  \<open>FieldResolution\<close> (\<open>field_resolution.go\<close>) bind names to files and fields. \<open>Cache\<close> (\<open>cache.go\<close>) and \<open>Build\<close>
  (\<open>BuildWithCache\<close>) fill the index from a disk. \<open>Store\<close> (\<open>document/store.go\<close>, \<open>server/degradation.go\<close>) keeps
  the open documents, and \<open>Watcher\<close> (\<open>document/sync.go\<close>) follows the disk. \<open>Corpus\<close>
  (\<open>workspace/corpusgen/corpusgen.go\<close>) generates whole workspaces for benchmarks.

  \<^bold>\<open>The server\<close> (\<open>server/\<close>). \<open>Session\<close> is the state the handlers share (\<open>handlerContext\<close> of \<open>server.go\<close>): root,
  configuration, open documents, index and resolution. Providers read it: \<open>Cursor\<close>, \<open>Definition\<close>,
  \<open>References\<close>, \<open>Outline\<close>, \<open>Hover\<close>, \<open>Completion\<close>, \<open>CallHierarchy\<close>, \<open>Lenses\<close>, \<open>Diagnostics\<close> and \<open>TokenWire\<close>, each
  named after the file it models. \<open>Handlers\<close> has the branch of \<open>Run\<close> for each request, which decodes
  parameters, calls a provider and encodes its answer; \<open>Dispatch\<close> puts the gates of the lifecycle before
  it, adds the answer for a missing value and recovers a panic. \<open>Notices\<close> (\<open>server.go\<close>, \<open>progress.go\<close>,
  \<open>messagelog.go\<close>) has the branches for notifications, with the sequence of what is sent. \<open>Loop\<close> is the loop
  of \<open>Run\<close> itself: a state with all of its local variables, and a function from a list of events to what is
  sent, how the server ends and the state then. An event is a message that arrives or a step of the
  background build, which runs beside the loop: it ends and looks at its context, publishes, takes a
  snapshot of the buffers, merges it, and reports. \<open>Session_Facts\<close> has the abstract session, a relation
  \<open>sessionReachable\<close> over the shared state alone, which the loop refines.

  \<^bold>\<open>Conventions.\<close> A Go string is a sequence of bytes, and a \<open>range\<close> loop decodes it with \<open>Runes\<close>; upper case is
  that of ASCII. \<open>Prelude\<close> and \<open>Format\<close> have the functions of Go's library. Integers that are stored in 32
  bits are words; an \<open>int\<close> that counts bytes or lines of a file in memory is an integer. A map that the
  code ranges over is an association list in the order of one traversal, and theorems say that the
  order does not matter; other maps are functions. A pointer to a configuration that is compared is an
  address with what is found there. \<open>sort.SliceStable\<close> is \<open>sort_key\<close>; where the code sorts with
  \<open>sort.Slice\<close> the elements that are equal for it may come in another order. Every early return and
  panic is a value. A provider that looks up names returns the state with the cache filled.
  Loops with a decreasing measure are \<open>function\<close>s with a termination proof. Only the loop bodies of the
  parser have a bound, because dispatch and loop bodies call each other: the number of bytes left.
  The lemma \<open>parseLoopBody_equations\<close> shows that the recursion of the code holds without it, so it is
  never reached; C32, that every body ends where the code means it to, rests on it.

  \<^bold>\<open>Arguments of the model\<close> are the code outside the repository: the JSON, gzip and TOML libraries (records
  \<open>Wire\<close>, \<open>Codec\<close>, the functions of \<open>Env\<close> and the type \<open>Toml\<close>), SHA-256, URIs and the file system (\<open>Host\<close>, \<open>Disk\<close>,
  \<open>CorpusDisk\<close>, the tree and the contents of \<open>Build\<close>), random numbers (\<open>Rand\<close>), the events of \<open>fsnotify\<close>. The
  analyzer, an interface in the code, is an argument of everything in the workspace and the server; it
  may fail or panic.

  \<^bold>\<open>What is shown.\<close>
  Lexer and parser: tokens have the position and text of their bytes (C7, C29, C30), data fields form
  the one forest their levels allow (C1), statements consume input (C31), loop bodies end at a terminator
  or with an error (C32). Extraction: edges are in order and of the right kind (C24).
  Index and resolution: the locale \<open>name_index\<close> states what a lookup by name answers, the theorems about
  resolution are proved in it (C8, C37, C38), and it is interpreted on the name index of the code;
  the cache before it is never out of date (C6); re-resolving what changed is resolving all (C4).
  Builds: what a cold and a warm build hold (C5, C19, C35), and invalidation (C39). What is read back from a
  cache is what was saved for strings of valid UTF-8 and up to the order of the entries, which is what
  \<open>encoding/json\<close> promises (\<open>lawfulCodec\<close>); diagnostics are not saved.
  Positions: both conversions agree and can be undone (C9, C33).
  Session: the resolution is always current (C2), a replay serves the buffers (C34), and the main loop
  refines the session whatever arrives when (C3). The locale \<open>event_loop\<close> of \<open>EventLoop\<close> states what a
  loop over events promises and carries the inductions over runs; the main loop interprets it. The locale \<open>reading\<close>
  states that an operation answers the same in states that differ in a cache only, and is interpreted
  on the index and on the state of the handlers: requests are independent of each other (C11).
  Providers: references are the converse of definitions (C20), diagnostics are merged without loss and
  the same whether pushed, pulled or in the report on the workspace (C22, C28), calls lead back (C17), tokens
  (C14, C21, C23), the target under the cursor (C40). Dispatch and loop: the calls are answered in order,
  whatever the encoder and the stream do (C12), with a result in an initialized session (C10), and with an
  error outside it (C36), and a shutdown is final (C13). Notices: their order, bounds and conditions
  (C15, C25, C26). Watcher: no event is lost and the next drain is on its way
  (C16, C27). Generator: the references of its programs resolve to the files meant (C18), its reports
  are read back, and what it has written when the disk fails (lemmas of \<open>Corpus_Facts\<close>).

  \<^bold>\<open>Not modelled\<close>: the framing of messages on the stream, the writes of the logger and the texts of its
  timing lines, which are input and output only; the hooks for tests; \<open>provideDefinitionVariableFromStore\<close>
  of \<open>definition.go\<close>, which nothing calls; the names \<open>signature_help.go\<close> has for its kinds of
  contexts in logs.
\<close>

end
